(* ===== verification/Prelude.thy ===== *)
theory Prelude
  imports "HOL-Library.Word"
begin

unbundle bit_operations_syntax

text \<open>
  What every component shares: the machine types, the way the server process ends
  (an \<^emph>\<open>exit value\<close> instead of a result), the sequencing combinator of operations that
  may end the process, the big-endian 32-bit load and store macros, raw memory access with
  its bounds, and the generic facts about lists and 32-bit words the component proofs use.
\<close>

section \<open>Machine types\<close>

type_synonym byte = "8 word"
type_synonym u32 = "32 word"
type_synonym bytes = "byte list"

named_theorems res_elims \<open>inversion of successful computations\<close>
named_theorems u32_simps \<open>transfer of 32-bit arithmetic to natural numbers\<close>

text \<open>A C string literal: its bytes, without the terminating zero.\<close>

definition cstr :: "string \<Rightarrow> bytes" where
  "cstr s = map (\<lambda>c. of_char c) s"

lemma length_cstr [simp]: "length (cstr s) = length s"
  by (simp add: cstr_def)

lemma cstr_Nil [simp]: "cstr [] = []"
  by (simp add: cstr_def)

lemma cstr_Cons [simp]: "cstr (c # cs) = of_char c # cstr cs"
  by (simp add: cstr_def)

section \<open>Ending the process\<close>

text \<open>
  \<^verbatim>\<open>dropbear_exit\<close>, \<^verbatim>\<open>dropbear_close\<close> and \<^verbatim>\<open>exit\<close> never return; a failed \<^verbatim>\<open>dropbear_assert\<close>
  ends the process as well. An access outside an allocated object, or through a null
  pointer, is undefined behaviour, and a loop that would never end has no result: each is a
  value of its own, so that "it cannot happen" is a statement that can be proved.
\<close>

datatype dexit =
    Dropbear_exit string
  | Dropbear_close string
  | Exit int
  | Assert_fail string
  | Fault
  | Diverge

type_synonym 'a res = "dexit + 'a"

definition rbind :: "'a res \<Rightarrow> ('a \<Rightarrow> 'b res) \<Rightarrow> 'b res" where
  "rbind m f = (case m of Inl e \<Rightarrow> Inl e | Inr x \<Rightarrow> f x)"

definition dassert :: "bool \<Rightarrow> string \<Rightarrow> unit res" where
  "dassert c msg = (if c then Inr () else Inl (Assert_fail msg))"

lemma rbind_simps [simp]:
  "rbind (Inl e) f = Inl e"
  "rbind (Inr x) f = f x"
  by (simp_all add: rbind_def)

lemma rbind_eq_Inr [res_elims]:
  "rbind m f = Inr y \<longleftrightarrow> (\<exists>x. m = Inr x \<and> f x = Inr y)"
  by (cases m) auto

lemma rbind_eq_Inl:
  "rbind m f = Inl e \<longleftrightarrow> m = Inl e \<or> (\<exists>x. m = Inr x \<and> f x = Inl e)"
  by (cases m) auto

lemma rbind_assoc: "rbind (rbind m f) g = rbind m (\<lambda>x. rbind (f x) g)"
  by (cases m) auto

lemma rbind_cong [fundef_cong]:
  "m = m' \<Longrightarrow> (\<And>x. m' = Inr x \<Longrightarrow> f x = f' x) \<Longrightarrow> rbind m f = rbind m' f'"
  by (cases m') auto

lemma dassert_True [simp]: "dassert True msg = Inr ()"
  by (simp add: dassert_def)

lemma dassert_False [simp]: "dassert False msg = Inl (Assert_fail msg)"
  by (simp add: dassert_def)

lemma dassert_eq_Inr [res_elims]: "dassert c msg = Inr u \<longleftrightarrow> c"
  by (simp add: dassert_def)

lemma if_Inl_eq_Inr [res_elims]: "(if c then Inl e else m) = Inr y \<longleftrightarrow> \<not> c \<and> m = Inr y"
  by simp

text \<open>
  A computation that ends for one of the program's own reasons: no fault, no endless loop.
\<close>

definition safe :: "'a res \<Rightarrow> bool" where
  "safe m \<longleftrightarrow> m \<noteq> Inl Fault \<and> m \<noteq> Inl Diverge"

lemma safe_simps [simp]:
  "safe (Inr x)"
  "safe (Inl (Dropbear_exit s))"
  "safe (Inl (Dropbear_close s))"
  "safe (Inl (Exit n))"
  "safe (Inl (Assert_fail s))"
  by (simp_all add: safe_def)

lemma safe_rbind: "safe m \<Longrightarrow> (\<And>x. m = Inr x \<Longrightarrow> safe (f x)) \<Longrightarrow> safe (rbind m f)"
  by (cases m) (auto simp: safe_def)

lemma safe_dassert [simp]: "safe (dassert c msg)"
  by (simp add: dassert_def)

definition returns :: "'a res \<Rightarrow> bool" where
  "returns m = (case m of Inl e \<Rightarrow> False | Inr x \<Rightarrow> True)"

lemma returns_ex: "returns m \<longleftrightarrow> (\<exists>x. m = Inr x)"
  by (simp add: returns_def split: sum.split)

text \<open>
  Total-correctness style reasoning about computations that may end the process:
  \<open>res_ok P m\<close> says that \<open>m\<close> never faults and that a result it returns satisfies \<open>P\<close>.
\<close>

definition res_ok :: "('a \<Rightarrow> bool) \<Rightarrow> 'a res \<Rightarrow> bool" where
  "res_ok P m \<longleftrightarrow> safe m \<and> (\<forall>x. m = Inr x \<longrightarrow> P x)"

lemma res_ok_Inr [simp]: "res_ok P (Inr x) \<longleftrightarrow> P x"
  by (simp add: res_ok_def)

lemma res_ok_Inl [simp]:
  "res_ok P (Inl (Dropbear_exit s))"
  "res_ok P (Inl (Dropbear_close s))"
  "res_ok P (Inl (Exit n))"
  "res_ok P (Inl (Assert_fail s))"
  "\<not> res_ok P (Inl Fault)"
  "\<not> res_ok P (Inl Diverge)"
  by (simp_all add: res_ok_def safe_def)

lemma res_ok_rbind: "res_ok P m \<Longrightarrow> (\<And>x. P x \<Longrightarrow> res_ok Q (f x)) \<Longrightarrow> res_ok Q (rbind m f)"
  by (cases m) (auto simp: res_ok_def safe_def)

lemma res_ok_rbind_eq: "(\<And>x. m = Inr x \<Longrightarrow> res_ok Q (f x)) \<Longrightarrow> safe m \<Longrightarrow> res_ok Q (rbind m f)"
  by (cases m) (auto simp: res_ok_def safe_def)

lemma res_ok_mono: "res_ok P m \<Longrightarrow> (\<And>x. P x \<Longrightarrow> Q x) \<Longrightarrow> res_ok Q m"
  by (auto simp: res_ok_def)

lemma res_ok_dassert: "res_ok (\<lambda>_. c) (dassert c msg)"
  by (cases c) auto

lemma res_okD: "res_ok P m \<Longrightarrow> m = Inr x \<Longrightarrow> P x"
  by (simp add: res_ok_def)

lemma res_ok_safe: "res_ok P m \<Longrightarrow> safe m"
  by (simp add: res_ok_def)

text \<open>
  Partial-correctness style reasoning for frames: \<open>res_post P m\<close> says that a result \<open>m\<close> returns
  satisfies \<open>P\<close>. Its introduction rules follow the structure of the model.
\<close>

definition res_post :: "('a \<Rightarrow> bool) \<Rightarrow> 'a res \<Rightarrow> bool" where
  "res_post P m \<longleftrightarrow> (\<forall>x. m = Inr x \<longrightarrow> P x)"

lemma res_post_simps [simp]: "res_post P (Inr x) = P x" "res_post P (Inl e)"
  by (simp_all add: res_post_def)

lemma res_postD: "res_post P m \<Longrightarrow> m = Inr x \<Longrightarrow> P x"
  by (simp add: res_post_def)

lemma res_postI: "(\<And>x. m = Inr x \<Longrightarrow> P x) \<Longrightarrow> res_post P m"
  by (simp add: res_post_def)

lemma res_post_rbind: "(\<And>x. m = Inr x \<Longrightarrow> res_post P (f x)) \<Longrightarrow> res_post P (rbind m f)"
  by (cases m) auto

lemma res_post_call: "res_post Q m \<Longrightarrow> (\<And>x. Q x \<Longrightarrow> res_post P (f x)) \<Longrightarrow> res_post P (rbind m f)"
  by (cases m) auto

lemma res_post_mono: "res_post Q m \<Longrightarrow> (\<And>x. Q x \<Longrightarrow> P x) \<Longrightarrow> res_post P m"
  by (simp add: res_post_def)

lemma res_post_prod: "(\<And>a b. p = (a, b) \<Longrightarrow> res_post P (f a b)) \<Longrightarrow> res_post P (case p of (a, b) \<Rightarrow> f a b)"
  by (cases p) auto

lemma res_post_prod_app:
  "(\<And>a b. p = (a, b) \<Longrightarrow> res_post P (f a b c)) \<Longrightarrow> res_post P ((case p of (a, b) \<Rightarrow> f a b) c)"
  by (cases p) auto

lemma res_post_if: "(c \<Longrightarrow> res_post P a) \<Longrightarrow> (\<not> c \<Longrightarrow> res_post P b) \<Longrightarrow> res_post P (if c then a else b)"
  by simp

lemma res_post_option:
  "(x = None \<Longrightarrow> res_post P a) \<Longrightarrow> (\<And>y. x = Some y \<Longrightarrow> res_post P (f y)) \<Longrightarrow>
     res_post P (case x of None \<Rightarrow> a | Some y \<Rightarrow> f y)"
  by (cases x) auto

lemma res_post_let: "res_post P (f x) \<Longrightarrow> res_post P (let y = x in f y)"
  by simp

lemmas res_post_intros = res_post_rbind res_post_prod res_post_prod_app res_post_if res_post_option res_post_let

section \<open>Memory\<close>

text \<open>
  A pointer into an object is an offset; reading or writing \<open>n\<close> bytes at an offset is a
  fault unless the whole range lies inside the object.
\<close>

definition mem_read :: "bytes \<Rightarrow> nat \<Rightarrow> nat \<Rightarrow> bytes res" where
  "mem_read m off n = (if off + n \<le> length m then Inr (take n (drop off m)) else Inl Fault)"

definition mem_write :: "bytes \<Rightarrow> nat \<Rightarrow> bytes \<Rightarrow> bytes res" where
  "mem_write m off bs =
     (if off + length bs \<le> length m
      then Inr (take off m @ bs @ drop (off + length bs) m) else Inl Fault)"

lemma mem_read_ok [simp]: "off + n \<le> length m \<Longrightarrow> mem_read m off n = Inr (take n (drop off m))"
  by (simp add: mem_read_def)

lemma mem_write_ok [simp]:
  "off + length bs \<le> length m \<Longrightarrow>
     mem_write m off bs = Inr (take off m @ bs @ drop (off + length bs) m)"
  by (simp add: mem_write_def)

lemma mem_write_eq_Inr [res_elims]:
  "mem_write m off bs = Inr m' \<longleftrightarrow>
     off + length bs \<le> length m \<and> m' = take off m @ bs @ drop (off + length bs) m"
  by (auto simp: mem_write_def)

lemma mem_read_eq_Inr [res_elims]:
  "mem_read m off n = Inr bs \<longleftrightarrow> off + n \<le> length m \<and> bs = take n (drop off m)"
  by (auto simp: mem_read_def)

section \<open>32-bit words\<close>

lemma unat_u32_lt [simp]: "unat (x :: u32) < 4294967296"
  using unsigned_less [of x] by simp

lemma unat_plus_u32 [u32_simps]:
  "unat (a :: u32) + unat b < 4294967296 \<Longrightarrow> unat (a + b) = unat a + unat b"
  by (simp add: unat_word_ariths)

lemma unat_minus_u32 [u32_simps]: "b \<le> a \<Longrightarrow> unat ((a :: u32) - b) = unat a - unat b"
  by (simp add: unat_sub)

lemma unat_min_u32: "unat (min a (b :: u32)) = min (unat a) (unat b)"
  by (simp add: min_def word_le_nat_alt)

lemma unat_of_nat_u32 [u32_simps]: "n < 4294967296 \<Longrightarrow> unat (of_nat n :: u32) = n"
  by (simp add: unat_of_nat)

text \<open>The remainder by a zero is undefined in C.\<close>

definition umod :: "u32 \<Rightarrow> u32 \<Rightarrow> u32 res" where
  "umod a b = (if b = 0 then Inl Fault else Inr (a mod b))"

lemmas u32_order = word_less_nat_alt word_le_nat_alt

lemma unat_byte_lt [simp]: "unat (x :: byte) < 256"
  using unsigned_less [of x] by simp

lemma unat_ucast_byte [simp]: "unat (ucast (x :: byte) :: u32) = unat x"
  by (simp add: unsigned_ucast_eq take_bit_nat_eq_self less_imp_le order.strict_trans2 [OF unat_byte_lt])

lemma unat_ucast_down: "unat (x :: u32) < 256 \<Longrightarrow> unat (ucast x :: byte) = unat x"
  by (simp add: unsigned_ucast_eq take_bit_nat_eq_self)

lemma unat_plus_byte: "unat (a :: byte) + unat b < 256 \<Longrightarrow> unat (a + b) = unat a + unat b"
  by (simp add: unat_word_ariths)

lemma sint_small: "unat (x :: u32) < 2147483648 \<Longrightarrow> sint x = int (unat x)"
proof -
  assume "unat x < 2147483648"
  moreover have "uint x = int (unat x)" by simp
  ultimately have "uint x < 2147483648" by linarith
  moreover have "- 2147483648 \<le> uint x" by (rule order.trans [OF _ uint_ge_0]) simp
  ultimately have "signed_take_bit 31 (uint x) = uint x" by (intro signed_take_bit_int_eq_self) simp_all
  then show ?thesis by (simp add: sint_uint)
qed

text \<open>
  \<^verbatim>\<open>STORE32H\<close> and \<^verbatim>\<open>LOAD32H\<close> of libtomcrypt: big-endian 32-bit values.
\<close>

definition store32h :: "u32 \<Rightarrow> bytes" where
  "store32h x = [ucast (drop_bit 24 x), ucast (drop_bit 16 x), ucast (drop_bit 8 x), ucast x]"

definition load32h :: "bytes \<Rightarrow> u32" where
  "load32h y = (case y of
     [a, b, c, d] \<Rightarrow> push_bit 24 (ucast a) OR push_bit 16 (ucast b) OR push_bit 8 (ucast c) OR ucast d
   | _ \<Rightarrow> 0)"

lemma length_store32h [simp]: "length (store32h x) = 4"
  by (simp add: store32h_def)

lemma load32h_store32h [simp]: "load32h (store32h x) = x"
proof (rule bit_word_eqI)
  fix n assume "n < LENGTH(32)"
  then consider "24 \<le> n" | "16 \<le> n" "n < 24" | "8 \<le> n" "n < 16" | "n < 8" by linarith
  then show "bit (load32h (store32h x)) n = bit x n"
    by cases (use \<open>n < LENGTH(32)\<close> in
      \<open>auto simp: load32h_def store32h_def bit_or_iff bit_push_bit_iff bit_ucast_iff bit_drop_bit_eq\<close>)
qed

lemma ucast_load_aux:
  fixes a b c d :: byte
  defines "x \<equiv> (push_bit 24 (ucast a) OR push_bit 16 (ucast b) OR push_bit 8 (ucast c) OR ucast d) :: u32"
  shows "ucast (drop_bit 24 x) = a" "ucast (drop_bit 16 x) = b" "ucast (drop_bit 8 x) = c" "ucast x = d"
  unfolding x_def
  by (rule bit_word_eqI; auto simp: bit_or_iff bit_push_bit_iff bit_ucast_iff bit_drop_bit_eq
        dest: bit_imp_le_length)+

lemma store32h_load32h: "length bs = 4 \<Longrightarrow> store32h (load32h bs) = bs"
proof -
  assume "length bs = 4"
  then obtain a b c d where bs: "bs = [a, b, c, d]"
    by (auto simp: length_Suc_conv eval_nat_numeral)
  show ?thesis
    unfolding bs load32h_def store32h_def list.case by (simp only: ucast_load_aux)
qed

end
