(* ===== verification/Interfaces.thy ===== *)
theory Interfaces
  imports Prelude
begin

text \<open>
  The contracts between the containers of the server and the code that uses them. A byte
  sink is what a writer of messages needs of a packet buffer: what is put is appended, and
  the room left shrinks by its length. A byte FIFO adds taking bytes from the front, which
  is what a channel needs of its circular buffer. An item queue is what the packet layer
  needs of the queue of encrypted packets. Each locale is interpreted on the model of the
  component that provides it.
\<close>

section \<open>Byte sinks\<close>

locale byte_sink =
  fixes fits :: "'s \<Rightarrow> nat \<Rightarrow> bool"
    and contents :: "'s \<Rightarrow> bytes"
    and put :: "'s \<Rightarrow> bytes \<Rightarrow> 's res"
  assumes fits_less: "fits s k \<Longrightarrow> j \<le> k \<Longrightarrow> fits s j"
    and put_fits: "fits s (length bs + k) \<Longrightarrow>
      \<exists>s'. put s bs = Inr s' \<and> fits s' k \<and> contents s' = contents s @ bs"
begin

fun put_all :: "'s \<Rightarrow> bytes list \<Rightarrow> 's res" where
  "put_all s [] = Inr s"
| "put_all s (bs # bss) = rbind (put s bs) (\<lambda>s. put_all s bss)"

lemma put_all_fits:
  "fits s (length (concat bss) + k) \<Longrightarrow>
     \<exists>s'. put_all s bss = Inr s' \<and> fits s' k \<and> contents s' = contents s @ concat bss"
proof (induction bss arbitrary: s)
  case Nil
  then show ?case by simp
next
  case (Cons bs bss)
  then obtain s' where "put s bs = Inr s'" "fits s' (length (concat bss) + k)" "contents s' = contents s @ bs"
    using put_fits [of s bs "length (concat bss) + k"] by (auto simp: add.assoc)
  with Cons.IH [of s'] show ?case by auto
qed

end

section \<open>Byte FIFOs\<close>

locale byte_fifo = byte_sink fits contents put
  for fits :: "'s \<Rightarrow> nat \<Rightarrow> bool" and contents :: "'s \<Rightarrow> bytes" and put :: "'s \<Rightarrow> bytes \<Rightarrow> 's res" +
  fixes wf :: "'s \<Rightarrow> bool"
    and drop_front :: "'s \<Rightarrow> u32 \<Rightarrow> 's res"
  assumes fits_wf: "fits s k \<Longrightarrow> wf s"
    and put_full: "wf s \<Longrightarrow> \<not> fits s (length bs) \<Longrightarrow> length bs < 4294967296 \<Longrightarrow>
      \<exists>msg. put s bs = Inl (Dropbear_exit msg)"
    and drop_front_ok: "wf s \<Longrightarrow> unat n \<le> length (contents s) \<Longrightarrow>
      \<exists>s'. drop_front s n = Inr s' \<and> wf s' \<and> contents s' = drop (unat n) (contents s)"
    and drop_front_short: "wf s \<Longrightarrow> length (contents s) < unat n \<Longrightarrow>
      \<exists>msg. drop_front s n = Inl (Assert_fail msg)"
begin

lemma put_cases:
  assumes "wf s" "length bs < 4294967296"
  shows "(\<exists>s'. put s bs = Inr s' \<and> wf s' \<and> contents s' = contents s @ bs)
       \<or> (\<exists>msg. put s bs = Inl (Dropbear_exit msg))"
  using put_fits [of s bs 0] put_full [OF assms(1) _ assms(2)] fits_wf by auto

lemma put_res_ok:
  "wf s \<Longrightarrow> length bs < 4294967296 \<Longrightarrow>
     res_ok (\<lambda>s'. wf s' \<and> contents s' = contents s @ bs) (put s bs)"
  using put_cases [of s bs] by auto

lemma drop_front_res_ok:
  "wf s \<Longrightarrow> res_ok (\<lambda>s'. wf s' \<and> unat n \<le> length (contents s)
     \<and> contents s' = drop (unat n) (contents s)) (drop_front s n)"
  using drop_front_ok [of s n] drop_front_short [of s n] by (cases "unat n \<le> length (contents s)") auto

end

section \<open>Item queues\<close>

text \<open>\<open>rep q xs\<close>: the linked structure \<open>q\<close> holds the items \<open>xs\<close>, oldest first.\<close>

locale item_queue =
  fixes rep :: "'q \<Rightarrow> 'i list \<Rightarrow> bool"
    and is_empty :: "'q \<Rightarrow> bool"
    and enq :: "'q \<Rightarrow> 'i \<Rightarrow> 'q res"
    and deq :: "'q \<Rightarrow> ('i \<times> 'q) res"
    and front :: "'q \<Rightarrow> 'i res"
  assumes is_empty_rep: "rep q xs \<Longrightarrow> is_empty q \<longleftrightarrow> xs = []"
    and enq_rep: "rep q xs \<Longrightarrow> \<exists>q'. enq q x = Inr q' \<and> rep q' (xs @ [x])"
    and deq_rep: "rep q (x # xs) \<Longrightarrow> \<exists>q'. deq q = Inr (x, q') \<and> rep q' xs"
    and front_rep: "rep q (x # xs) \<Longrightarrow> front q = Inr x"
begin

fun enq_all :: "'q \<Rightarrow> 'i list \<Rightarrow> 'q res" where
  "enq_all q [] = Inr q"
| "enq_all q (x # xs) = rbind (enq q x) (\<lambda>q. enq_all q xs)"

fun deq_all :: "nat \<Rightarrow> 'q \<Rightarrow> ('i list \<times> 'q) res" where
  "deq_all 0 q = Inr ([], q)"
| "deq_all (Suc n) q =
     (if is_empty q then Inr ([], q)
      else rbind (deq q) (\<lambda>(x, q). rbind (deq_all n q) (\<lambda>(xs, q). Inr (x # xs, q))))"

lemma enq_all_rep: "rep q xs \<Longrightarrow> \<exists>q'. enq_all q ys = Inr q' \<and> rep q' (xs @ ys)"
proof (induction ys arbitrary: q xs)
  case Nil
  then show ?case by simp
next
  case (Cons y ys)
  then obtain q' where "enq q y = Inr q'" "rep q' (xs @ [y])" using enq_rep by blast
  with Cons.IH [of q' "xs @ [y]"] show ?case by simp
qed

lemma deq_all_rep: "rep q xs \<Longrightarrow> \<exists>q'. deq_all n q = Inr (take n xs, q') \<and> rep q' (drop n xs)"
proof (induction n arbitrary: q xs)
  case 0
  then show ?case by simp
next
  case (Suc n)
  show ?case
  proof (cases xs)
    case Nil
    with Suc.prems show ?thesis by (simp add: is_empty_rep)
  next
    case (Cons x xs')
    with Suc.prems obtain q' where "deq q = Inr (x, q')" "rep q' xs'" using deq_rep by blast
    with Suc.IH [of q' xs'] Suc.prems Cons show ?thesis by (auto simp: is_empty_rep)
  qed
qed

end

end
