(* ===== verification/Buffer.thy ===== *)
theory Buffer
  imports Interfaces
begin

unbundle bit_operations_syntax

text \<open>
  The packet buffer of Dropbear (\<^verbatim>\<open>buffer.c\<close>). A buffer is an allocated object with a
  size, a used length and a read/write position, all 32-bit unsigned; every access goes
  through a check that ends the process when it would leave the buffer. The component's
  invariant \<open>buf_wf\<close> is kept by every operation; on a well-formed buffer no operation
  faults; writing at the end of a buffer is appending to its contents; and every
  \<open>get\<close> reads back what the corresponding \<open>put\<close> wrote.
\<close>

section \<open>The data structure and its operations\<close>

abbreviation BUF_MAX_INCR :: u32 where "BUF_MAX_INCR \<equiv> 1000000000"
abbreviation BUF_MAX_SIZE :: u32 where "BUF_MAX_SIZE \<equiv> 1000000000"
abbreviation BUF_MAX_MPINT :: u32 where "BUF_MAX_MPINT \<equiv> 1030"
abbreviation MAX_STRING_LEN :: u32 where "MAX_STRING_LEN \<equiv> 9000"

record buffer =
  b_data :: bytes
  b_len :: u32
  b_pos :: u32
  b_size :: u32

text \<open>\<^verbatim>\<open>m_malloc\<close> clears what it allocates, so a new buffer is all zero.\<close>

definition buf_new :: "u32 \<Rightarrow> buffer res" where
  "buf_new sz =
     (if sz > BUF_MAX_SIZE then Inl (Dropbear_exit ''buf->size too big'')
      else Inr \<lparr>b_data = replicate (unat sz) 0, b_len = 0, b_pos = 0, b_size = sz\<rparr>)"

text \<open>
  \<^verbatim>\<open>realloc\<close> keeps the old bytes; what lies beyond them is unspecified and is an argument
  of the model (\<open>junk\<close>, indexed by the offset).
\<close>

definition buf_resize :: "(nat \<Rightarrow> byte) \<Rightarrow> buffer \<Rightarrow> u32 \<Rightarrow> buffer res" where
  "buf_resize junk b newsize =
     (if newsize > BUF_MAX_SIZE then Inl (Dropbear_exit ''buf->size too big'')
      else Inr \<lparr>b_data = take (unat newsize) (b_data b) @ map junk [length (b_data b)..<unat newsize],
                b_len = min newsize (b_len b), b_pos = min newsize (b_pos b), b_size = newsize\<rparr>)"

definition buf_newcopy :: "buffer \<Rightarrow> buffer res" where
  "buf_newcopy b =
     rbind (buf_new (b_len b)) (\<lambda>ret.
     let ret = ret\<lparr>b_len := b_len b\<rparr> in
     if b_len b > 0 then
       rbind (mem_read (b_data b) 0 (unat (b_len b))) (\<lambda>src.
       rbind (mem_write (b_data ret) 0 src) (\<lambda>d. Inr (ret\<lparr>b_data := d\<rparr>)))
     else Inr ret)"

definition buf_setlen :: "buffer \<Rightarrow> u32 \<Rightarrow> buffer res" where
  "buf_setlen b l =
     (if l > b_size b then Inl (Dropbear_exit ''Bad buf_setlen'')
      else Inr (b\<lparr>b_len := l, b_pos := min (b_pos b) l\<rparr>))"

definition buf_incrlen :: "buffer \<Rightarrow> u32 \<Rightarrow> buffer res" where
  "buf_incrlen b incr =
     (if incr > BUF_MAX_INCR \<or> b_len b + incr > b_size b then Inl (Dropbear_exit ''Bad buf_incrlen'')
      else Inr (b\<lparr>b_len := b_len b + incr\<rparr>))"

definition buf_setpos :: "buffer \<Rightarrow> u32 \<Rightarrow> buffer res" where
  "buf_setpos b p =
     (if p > b_len b then Inl (Dropbear_exit ''Bad buf_setpos'') else Inr (b\<lparr>b_pos := p\<rparr>))"

definition buf_incrwritepos :: "buffer \<Rightarrow> u32 \<Rightarrow> buffer res" where
  "buf_incrwritepos b incr =
     (if incr > BUF_MAX_INCR \<or> b_pos b + incr > b_size b
      then Inl (Dropbear_exit ''Bad buf_incrwritepos'')
      else let b = b\<lparr>b_pos := b_pos b + incr\<rparr>
           in Inr (if b_pos b > b_len b then b\<lparr>b_len := b_pos b\<rparr> else b))"

definition buf_incrpos :: "buffer \<Rightarrow> u32 \<Rightarrow> buffer res" where
  "buf_incrpos b incr =
     (if incr > BUF_MAX_INCR \<or> b_pos b + incr > b_len b then Inl (Dropbear_exit ''Bad buf_incrpos'')
      else Inr (b\<lparr>b_pos := b_pos b + incr\<rparr>))"

definition buf_decrpos :: "buffer \<Rightarrow> u32 \<Rightarrow> buffer res" where
  "buf_decrpos b decr =
     (if decr > b_pos b then Inl (Dropbear_exit ''Bad buf_decrpos'')
      else Inr (b\<lparr>b_pos := b_pos b - decr\<rparr>))"

definition buf_getbyte :: "buffer \<Rightarrow> (byte \<times> buffer) res" where
  "buf_getbyte b =
     (if b_pos b \<ge> b_len b then Inl (Dropbear_exit ''Bad buf_getbyte'')
      else rbind (mem_read (b_data b) (unat (b_pos b)) 1) (\<lambda>bs.
           Inr (hd bs, b\<lparr>b_pos := b_pos b + 1\<rparr>)))"

definition buf_getbool :: "buffer \<Rightarrow> (bool \<times> buffer) res" where
  "buf_getbool b = rbind (buf_getbyte b) (\<lambda>(v, b). Inr (v \<noteq> 0, b))"

definition buf_putbyte :: "buffer \<Rightarrow> byte \<Rightarrow> buffer res" where
  "buf_putbyte b v =
     rbind (if b_pos b \<ge> b_len b then buf_incrlen b 1 else Inr b) (\<lambda>b.
     rbind (mem_write (b_data b) (unat (b_pos b)) [v]) (\<lambda>d.
     Inr (b\<lparr>b_data := d, b_pos := b_pos b + 1\<rparr>)))"

text \<open>A pointer into the buffer's memory is its offset.\<close>

definition buf_getptr :: "buffer \<Rightarrow> u32 \<Rightarrow> nat res" where
  "buf_getptr b l =
     (if l > BUF_MAX_INCR \<or> b_pos b + l > b_len b then Inl (Dropbear_exit ''Bad buf_getptr'')
      else Inr (unat (b_pos b)))"

definition buf_getwriteptr :: "buffer \<Rightarrow> u32 \<Rightarrow> nat res" where
  "buf_getwriteptr b l =
     (if l > BUF_MAX_INCR \<or> b_pos b + l > b_size b then Inl (Dropbear_exit ''Bad buf_getwriteptr'')
      else Inr (unat (b_pos b)))"

text \<open>
  Reading \<open>l\<close> bytes through \<^verbatim>\<open>buf_getptr\<close>, and copying bytes to \<^verbatim>\<open>buf_getwriteptr\<close>:
  the two uses the callers make of the pointers.
\<close>

definition buf_peek :: "buffer \<Rightarrow> u32 \<Rightarrow> bytes res" where
  "buf_peek b l = rbind (buf_getptr b l) (\<lambda>p. mem_read (b_data b) p (unat l))"

definition buf_poke :: "buffer \<Rightarrow> u32 \<Rightarrow> bytes \<Rightarrow> buffer res" where
  "buf_poke b l bs =
     rbind (buf_getwriteptr b l) (\<lambda>p.
     rbind (mem_read bs 0 (unat l)) (\<lambda>src.
     rbind (mem_write (b_data b) p src) (\<lambda>d. Inr (b\<lparr>b_data := d\<rparr>))))"

definition buf_getint :: "buffer \<Rightarrow> (u32 \<times> buffer) res" where
  "buf_getint b =
     rbind (buf_peek b 4) (\<lambda>bs.
     rbind (buf_incrpos b 4) (\<lambda>b. Inr (load32h bs, b)))"

definition buf_getstring :: "buffer \<Rightarrow> (bytes \<times> buffer) res" where
  "buf_getstring b =
     rbind (buf_getint b) (\<lambda>(l, b).
     if l > MAX_STRING_LEN then Inl (Dropbear_exit ''String too long'') else
     rbind (buf_peek b l) (\<lambda>ret.
     rbind (buf_incrpos b l) (\<lambda>b. Inr (ret, b))))"

definition buf_putint :: "buffer \<Rightarrow> u32 \<Rightarrow> buffer res" where
  "buf_putint b v =
     rbind (buf_poke b 4 (store32h v)) (\<lambda>b. buf_incrwritepos b 4)"

definition buf_putbytes :: "buffer \<Rightarrow> bytes \<Rightarrow> u32 \<Rightarrow> buffer res" where
  "buf_putbytes b bs l = rbind (buf_poke b l bs) (\<lambda>b. buf_incrwritepos b l)"

definition buf_putstring :: "buffer \<Rightarrow> bytes \<Rightarrow> u32 \<Rightarrow> buffer res" where
  "buf_putstring b str l = rbind (buf_putint b l) (\<lambda>b. buf_putbytes b str l)"

definition buf_putbufstring :: "buffer \<Rightarrow> buffer \<Rightarrow> buffer res" where
  "buf_putbufstring b s = buf_putstring b (b_data s) (b_len s)"

definition buf_getstringbuf_int :: "buffer \<Rightarrow> bool \<Rightarrow> (buffer \<times> buffer) res" where
  "buf_getstringbuf_int b incllen =
     rbind (buf_getint b) (\<lambda>(l, b).
     if l > MAX_STRING_LEN then Inl (Dropbear_exit ''String too long'') else
     rbind (buf_new (l + (if incllen then 4 else 0))) (\<lambda>ret.
     rbind (if incllen then buf_putint ret l else Inr ret) (\<lambda>ret.
     rbind (buf_peek b l) (\<lambda>src.
     rbind (buf_poke ret l src) (\<lambda>ret.
     rbind (buf_incrpos b l) (\<lambda>b.
     rbind (buf_incrlen ret l) (\<lambda>ret.
     rbind (buf_setpos ret 0) (\<lambda>ret. Inr (ret, b)))))))))"

definition buf_getstringbuf :: "buffer \<Rightarrow> (buffer \<times> buffer) res" where
  "buf_getstringbuf b = buf_getstringbuf_int b False"

definition buf_getbuf :: "buffer \<Rightarrow> (buffer \<times> buffer) res" where
  "buf_getbuf b = buf_getstringbuf_int b True"

definition buf_getptrcopy :: "buffer \<Rightarrow> u32 \<Rightarrow> buffer res" where
  "buf_getptrcopy b l =
     rbind (buf_peek b l) (\<lambda>src.
     rbind (buf_new l) (\<lambda>ret.
     rbind (buf_putbytes ret src l) (\<lambda>ret. buf_setpos ret 0)))"

definition buf_eatstring :: "buffer \<Rightarrow> buffer res" where
  "buf_eatstring b = rbind (buf_getint b) (\<lambda>(l, b). buf_incrpos b l)"

text \<open>
  Multi-precision integers (libtommath's \<^verbatim>\<open>mp_int\<close>) are taken by value: the number of
  bits of the magnitude and its big-endian bytes, as \<^verbatim>\<open>mp_count_bits\<close>, \<^verbatim>\<open>mp_to_ubin\<close>
  and \<^verbatim>\<open>mp_from_ubin\<close> document them.
\<close>

fun count_bits :: "nat \<Rightarrow> nat" where
  "count_bits n = (if n = 0 then 0 else Suc (count_bits (n div 2)))"

fun to_ubin :: "nat \<Rightarrow> bytes" where
  "to_ubin n = (if n = 0 then [] else to_ubin (n div 256) @ [word_of_nat (n mod 256)])"

definition from_ubin :: "bytes \<Rightarrow> nat" where
  "from_ubin bs = foldl (\<lambda>a b. 256 * a + unat b) 0 bs"

declare count_bits.simps [simp del] to_ubin.simps [simp del]

definition buf_putmpint :: "buffer \<Rightarrow> int \<Rightarrow> buffer res" where
  "buf_putmpint b mp =
     (if mp < 0 then Inl (Dropbear_exit ''negative bignum'') else
      let bits = (of_nat (count_bits (nat mp)) :: u32);
          pad = (if mp = 0 then 0 else if bits mod 8 = 0 then 1 else 0);
          l = (if mp = 0 then 0 else bits div 8 + 1)
      in rbind (buf_putint b l) (\<lambda>b.
         if l > 0 then
           rbind (if pad \<noteq> 0 then buf_putbyte b 0 else Inr b) (\<lambda>b.
           rbind (buf_getwriteptr b (l - pad)) (\<lambda>p.
           let out = to_ubin (nat mp) in
           if length out > unat (l - pad) then Inl (Dropbear_exit ''mpint error'') else
           rbind (mem_write (b_data b) p out) (\<lambda>d.
           buf_incrwritepos (b\<lparr>b_data := d\<rparr>) (of_nat (length out)))))
         else Inr b))"

text \<open>\<open>None\<close> is \<^verbatim>\<open>DROPBEAR_FAILURE\<close>: too long, or negative.\<close>

definition buf_getmpint :: "buffer \<Rightarrow> (int option \<times> buffer) res" where
  "buf_getmpint b =
     rbind (buf_getint b) (\<lambda>(l, b).
     if l = 0 then Inr (Some 0, b)
     else if l > BUF_MAX_MPINT then Inr (None, b)
     else rbind (buf_peek b 1) (\<lambda>c.
          if hd c AND 128 \<noteq> 0 then Inr (None, b)
          else rbind (buf_peek b l) (\<lambda>bs.
               rbind (buf_incrpos b l) (\<lambda>b. Inr (Some (int (from_ubin bs)), b)))))"

section \<open>The invariant\<close>

definition buf_wf :: "buffer \<Rightarrow> bool" where
  "buf_wf b \<longleftrightarrow> length (b_data b) = unat (b_size b) \<and> b_size b \<le> BUF_MAX_SIZE
     \<and> b_len b \<le> b_size b \<and> b_pos b \<le> b_len b"

lemma buf_wf_nat:
  "buf_wf b \<longleftrightarrow> length (b_data b) = unat (b_size b) \<and> unat (b_size b) \<le> 1000000000
     \<and> unat (b_len b) \<le> unat (b_size b) \<and> unat (b_pos b) \<le> unat (b_len b)"
  by (simp add: buf_wf_def word_le_nat_alt)

text \<open>
  On a well-formed buffer the checks mean what they say on natural numbers: the bound
  \<open>BUF_MAX_INCR\<close> makes the 32-bit sums exact.
\<close>

named_theorems buf_eqs \<open>the operations on a well-formed buffer, over the natural numbers\<close>

lemma buf_incrlen_eq [buf_eqs]:
  "buf_wf b \<Longrightarrow> buf_incrlen b n =
     (if unat (b_len b) + unat n \<le> unat (b_size b) then Inr (b\<lparr>b_len := b_len b + n\<rparr>)
      else Inl (Dropbear_exit ''Bad buf_incrlen''))"
  by (auto simp: buf_incrlen_def buf_wf_nat u32_order u32_simps)

lemma buf_incrpos_eq [buf_eqs]:
  "buf_wf b \<Longrightarrow> buf_incrpos b n =
     (if unat (b_pos b) + unat n \<le> unat (b_len b) then Inr (b\<lparr>b_pos := b_pos b + n\<rparr>)
      else Inl (Dropbear_exit ''Bad buf_incrpos''))"
  by (auto simp: buf_incrpos_def buf_wf_nat u32_order u32_simps)

lemma buf_incrwritepos_eq [buf_eqs]:
  "buf_wf b \<Longrightarrow> buf_incrwritepos b n =
     (if unat (b_pos b) + unat n \<le> unat (b_size b)
      then Inr (b\<lparr>b_pos := b_pos b + n,
                  b_len := (if b_len b < b_pos b + n then b_pos b + n else b_len b)\<rparr>)
      else Inl (Dropbear_exit ''Bad buf_incrwritepos''))"
  by (auto simp: buf_incrwritepos_def buf_wf_nat u32_order u32_simps Let_def)

lemma buf_getptr_eq [buf_eqs]:
  "buf_wf b \<Longrightarrow> buf_getptr b n =
     (if unat (b_pos b) + unat n \<le> unat (b_len b) then Inr (unat (b_pos b))
      else Inl (Dropbear_exit ''Bad buf_getptr''))"
  by (auto simp: buf_getptr_def buf_wf_nat u32_order u32_simps)

lemma buf_getwriteptr_eq [buf_eqs]:
  "buf_wf b \<Longrightarrow> buf_getwriteptr b n =
     (if unat (b_pos b) + unat n \<le> unat (b_size b) then Inr (unat (b_pos b))
      else Inl (Dropbear_exit ''Bad buf_getwriteptr''))"
  by (auto simp: buf_getwriteptr_def buf_wf_nat u32_order u32_simps)

lemma buf_peek_eq [buf_eqs]:
  "buf_wf b \<Longrightarrow> buf_peek b n =
     (if unat (b_pos b) + unat n \<le> unat (b_len b)
      then Inr (take (unat n) (drop (unat (b_pos b)) (b_data b)))
      else Inl (Dropbear_exit ''Bad buf_getptr''))"
  by (auto simp: buf_peek_def buf_getptr_eq buf_wf_nat)

lemma buf_poke_eq [buf_eqs]:
  "buf_wf b \<Longrightarrow> unat n \<le> length bs \<Longrightarrow> buf_poke b n bs =
     (if unat (b_pos b) + unat n \<le> unat (b_size b)
      then Inr (b\<lparr>b_data := take (unat (b_pos b)) (b_data b) @ take (unat n) bs
                            @ drop (unat (b_pos b) + unat n) (b_data b)\<rparr>)
      else Inl (Dropbear_exit ''Bad buf_getwriteptr''))"
  by (auto simp: buf_poke_def buf_getwriteptr_eq buf_wf_nat min_def)

subsection \<open>Every operation keeps the invariant and faults nowhere\<close>

lemma buf_new_ok: "res_ok (\<lambda>b. buf_wf b \<and> b_size b = n \<and> b_len b = 0 \<and> b_pos b = 0) (buf_new n)"
  by (simp add: buf_new_def buf_wf_nat u32_order)

lemma buf_new_eq: "unat n \<le> 1000000000 \<Longrightarrow>
  buf_new n = Inr \<lparr>b_data = replicate (unat n) 0, b_len = 0, b_pos = 0, b_size = n\<rparr>"
  by (simp add: buf_new_def u32_order)

lemma buf_resize_ok: "buf_wf b \<Longrightarrow> res_ok buf_wf (buf_resize junk b n)"
  by (auto simp: buf_resize_def buf_wf_nat unat_min_u32 u32_order)

lemma buf_newcopy_ok:
  "buf_wf b \<Longrightarrow> res_ok (\<lambda>b'. buf_wf b' \<and> b_len b' = b_len b \<and> b_pos b' = 0) (buf_newcopy b)"
  by (auto simp: buf_newcopy_def buf_new_eq buf_wf_nat Let_def min_def)

lemma buf_setlen_ok: "buf_wf b \<Longrightarrow> res_ok buf_wf (buf_setlen b n)"
  by (auto simp: buf_setlen_def buf_wf_nat unat_min_u32 u32_order)

lemma buf_incrlen_ok: "buf_wf b \<Longrightarrow> res_ok buf_wf (buf_incrlen b n)"
  by (auto simp: buf_eqs buf_wf_nat u32_simps)

lemma buf_setpos_ok: "buf_wf b \<Longrightarrow> res_ok buf_wf (buf_setpos b n)"
  by (auto simp: buf_setpos_def buf_wf_nat u32_order)

lemma buf_incrwritepos_ok: "buf_wf b \<Longrightarrow> res_ok buf_wf (buf_incrwritepos b n)"
  by (auto simp: buf_eqs) (auto simp: buf_wf_nat u32_simps u32_order)

lemma buf_incrpos_ok: "buf_wf b \<Longrightarrow> res_ok buf_wf (buf_incrpos b n)"
  by (auto simp: buf_eqs) (auto simp: buf_wf_nat u32_simps)

lemma buf_decrpos_ok: "buf_wf b \<Longrightarrow> res_ok buf_wf (buf_decrpos b n)"
  by (auto simp: buf_decrpos_def buf_wf_nat u32_simps u32_order)

lemma buf_getbyte_ok: "buf_wf b \<Longrightarrow> res_ok (\<lambda>(v, b'). buf_wf b') (buf_getbyte b)"
  by (auto simp: buf_getbyte_def buf_wf_nat u32_order unat_word_ariths)

lemma buf_getbool_ok: "buf_wf b \<Longrightarrow> res_ok (\<lambda>(v, b'). buf_wf b') (buf_getbool b)"
  unfolding buf_getbool_def by (rule res_ok_rbind [OF buf_getbyte_ok]) auto

lemma buf_putbyte_ok: "buf_wf b \<Longrightarrow> res_ok buf_wf (buf_putbyte b v)"
  by (auto simp: buf_putbyte_def buf_eqs) (auto simp: buf_wf_nat u32_order unat_word_ariths)

lemma buf_peek_ok: "buf_wf b \<Longrightarrow> res_ok (\<lambda>bs. length bs = unat n) (buf_peek b n)"
  by (auto simp: buf_eqs) (auto simp: buf_wf_nat)

lemma buf_poke_ok: "buf_wf b \<Longrightarrow> unat n \<le> length bs \<Longrightarrow> res_ok buf_wf (buf_poke b n bs)"
  by (auto simp: buf_eqs) (auto simp: buf_wf_nat)

lemma buf_getint_ok: "buf_wf b \<Longrightarrow> res_ok (\<lambda>(v, b'). buf_wf b') (buf_getint b)"
  unfolding buf_getint_def
  by (rule res_ok_rbind [OF buf_peek_ok], assumption, rule res_ok_rbind [OF buf_incrpos_ok]) auto

lemma buf_getstring_ok: "buf_wf b \<Longrightarrow> res_ok (\<lambda>(s, b'). buf_wf b' \<and> length s \<le> 9000) (buf_getstring b)"
  unfolding buf_getstring_def
  by (rule res_ok_rbind [OF buf_getint_ok])
    (auto simp: u32_order not_less intro!: res_ok_rbind [OF buf_peek_ok] res_ok_rbind [OF buf_incrpos_ok])

lemma buf_putint_ok: "buf_wf b \<Longrightarrow> res_ok buf_wf (buf_putint b v)"
  unfolding buf_putint_def
  by (rule res_ok_rbind [OF buf_poke_ok]) (auto intro: buf_incrwritepos_ok)

lemma buf_putbytes_ok: "buf_wf b \<Longrightarrow> unat n \<le> length bs \<Longrightarrow> res_ok buf_wf (buf_putbytes b bs n)"
  unfolding buf_putbytes_def
  by (rule res_ok_rbind [OF buf_poke_ok]) (auto intro: buf_incrwritepos_ok)

lemma buf_putstring_ok: "buf_wf b \<Longrightarrow> unat n \<le> length bs \<Longrightarrow> res_ok buf_wf (buf_putstring b bs n)"
  unfolding buf_putstring_def
  by (rule res_ok_rbind [OF buf_putint_ok]) (auto intro: buf_putbytes_ok)

lemma buf_putbufstring_ok: "buf_wf b \<Longrightarrow> buf_wf s \<Longrightarrow> res_ok buf_wf (buf_putbufstring b s)"
  unfolding buf_putbufstring_def by (rule buf_putstring_ok) (auto simp: buf_wf_nat)

lemma buf_eatstring_ok: "buf_wf b \<Longrightarrow> res_ok buf_wf (buf_eatstring b)"
  unfolding buf_eatstring_def
  by (rule res_ok_rbind [OF buf_getint_ok]) (auto intro: buf_incrpos_ok)

lemma buf_getstringbuf_int_ok:
  "buf_wf b \<Longrightarrow> res_ok (\<lambda>(r, b'). buf_wf r \<and> buf_wf b') (buf_getstringbuf_int b incl)"
  unfolding buf_getstringbuf_int_def
  by (rule res_ok_rbind [OF buf_getint_ok])
    (auto intro!: res_ok_rbind [OF buf_new_ok] res_ok_rbind [OF buf_putint_ok]
       res_ok_rbind [OF buf_peek_ok] res_ok_rbind [OF buf_poke_ok] res_ok_rbind [OF buf_incrpos_ok]
       res_ok_rbind [OF buf_incrlen_ok] res_ok_rbind [OF buf_setpos_ok])

lemma buf_getptrcopy_ok: "buf_wf b \<Longrightarrow> res_ok buf_wf (buf_getptrcopy b n)"
  unfolding buf_getptrcopy_def
  by (auto intro!: res_ok_rbind [OF buf_peek_ok] res_ok_rbind [OF buf_new_ok]
       res_ok_rbind [OF buf_putbytes_ok] buf_setpos_ok)

lemma buf_getmpint_ok: "buf_wf b \<Longrightarrow> res_ok (\<lambda>(v, b'). buf_wf b') (buf_getmpint b)"
  unfolding buf_getmpint_def
  by (rule res_ok_rbind [OF buf_getint_ok])
    (auto intro!: res_ok_rbind [OF buf_peek_ok] res_ok_rbind [OF buf_incrpos_ok])

lemma buf_write_data_ok:
  assumes "buf_wf b" "buf_getwriteptr b n = Inr p" "length out \<le> unat n"
  shows "res_ok (\<lambda>d. buf_wf (b\<lparr>b_data := d\<rparr>)) (mem_write (b_data b) p out)"
  using assms by (auto simp: buf_eqs split: if_splits) (auto simp: buf_wf_nat)

lemma buf_write_out_ok:
  assumes "buf_wf b"
  shows "res_ok buf_wf (rbind (buf_getwriteptr b n) (\<lambda>p.
     if length out > unat n then Inl (Dropbear_exit msg)
     else rbind (mem_write (b_data b) p out) (\<lambda>d. buf_incrwritepos (b\<lparr>b_data := d\<rparr>) k)))"
proof (rule res_ok_rbind_eq)
  fix p assume p: "buf_getwriteptr b n = Inr p"
  show "res_ok buf_wf (if length out > unat n then Inl (Dropbear_exit msg)
     else rbind (mem_write (b_data b) p out) (\<lambda>d. buf_incrwritepos (b\<lparr>b_data := d\<rparr>) k))"
    by (auto intro: res_ok_rbind [OF buf_write_data_ok [OF assms p]] buf_incrwritepos_ok)
qed (simp add: buf_getwriteptr_def)

lemma buf_putmpint_ok: "buf_wf b \<Longrightarrow> res_ok buf_wf (buf_putmpint b mp)"
  unfolding buf_putmpint_def Let_def
  by (auto simp del: diff_zero
       intro!: res_ok_rbind [OF buf_putint_ok] res_ok_rbind [OF buf_putbyte_ok] buf_write_out_ok)

section \<open>Writing at the end is appending\<close>

text \<open>
  A buffer whose position is at its end, with room for \<open>k\<close> more bytes. Every \<open>put\<close> at such
  a position appends the encoding of its argument to the contents.
\<close>

definition buf_contents :: "buffer \<Rightarrow> bytes" where
  "buf_contents b = take (unat (b_len b)) (b_data b)"

definition b_append :: "buffer \<Rightarrow> bytes \<Rightarrow> buffer" where
  "b_append b bs = b\<lparr>
     b_data := take (unat (b_len b)) (b_data b) @ bs @ drop (unat (b_len b) + length bs) (b_data b),
     b_len := b_len b + of_nat (length bs), b_pos := b_len b + of_nat (length bs)\<rparr>"

definition buf_end :: "buffer \<Rightarrow> nat \<Rightarrow> bool" where
  "buf_end b k \<longleftrightarrow> buf_wf b \<and> b_pos b = b_len b \<and> unat (b_len b) + k \<le> unat (b_size b)"

lemma buf_end_mono: "buf_end b k \<Longrightarrow> j \<le> k \<Longrightarrow> buf_end b j"
  by (simp add: buf_end_def)

lemma buf_end_wf: "buf_end b k \<Longrightarrow> buf_wf b"
  by (simp add: buf_end_def)

lemma buf_end_lt: "buf_end b k \<Longrightarrow> unat (b_len b) + k \<le> 1000000000"
  by (simp add: buf_end_def buf_wf_nat)

lemma unat_len_append:
  "buf_end b (length bs) \<Longrightarrow> unat (b_len b + of_nat (length bs)) = unat (b_len b) + length bs"
  using buf_end_lt [of b "length bs"] by (simp add: u32_simps)

lemma buf_end_append: "buf_end b (length bs + k) \<Longrightarrow> buf_end (b_append b bs) k"
  using unat_len_append [of b bs]
  by (auto simp: buf_end_def b_append_def buf_wf_nat)

lemma buf_contents_append:
  "buf_end b (length bs) \<Longrightarrow> buf_contents (b_append b bs) = buf_contents b @ bs"
  using unat_len_append [of b bs]
  by (auto simp: buf_end_def b_append_def buf_wf_nat buf_contents_def)

lemma b_append_append:
  "buf_end b (length bs + length cs) \<Longrightarrow> b_append (b_append b bs) cs = b_append b (bs @ cs)"
  using unat_len_append [of b bs]
  by (auto simp: buf_end_def b_append_def buf_wf_nat ac_simps)

lemma b_append_Nil: "buf_end b 0 \<Longrightarrow> b_append b [] = b"
  by (simp add: b_append_def buf_end_def)

lemma b_append_size [simp]: "b_size (b_append b bs) = b_size b"
  by (simp add: b_append_def)

lemma buf_putbytes_append:
  assumes "buf_end b (length bs)"
  shows "buf_putbytes b bs (of_nat (length bs)) = Inr (b_append b bs)"
proof -
  have u: "unat (of_nat (length bs) :: u32) = length bs"
    using buf_end_lt [OF assms] by (simp add: u32_simps)
  have w: "buf_wf b" "b_pos b = b_len b" "unat (b_len b) + length bs \<le> unat (b_size b)"
    using assms by (auto simp: buf_end_def)
  have w': "buf_wf (b\<lparr>b_data := take (unat (b_len b)) (b_data b) @ bs @ drop (unat (b_len b) + length bs) (b_data b)\<rparr>)"
    using w by (auto simp: buf_wf_nat)
  have l: "b_len b < b_len b + of_nat (length bs)" if "bs \<noteq> []"
    using that unat_len_append [OF assms] by (simp add: word_less_nat_alt)
  show ?thesis
    using w l unat_len_append [OF assms]
    by (cases "bs = []")
      (simp_all add: buf_putbytes_def buf_poke_eq u buf_incrwritepos_eq [OF w']
         buf_incrwritepos_eq b_append_def)
qed

lemma buf_putint_append: "buf_end b 4 \<Longrightarrow> buf_putint b v = Inr (b_append b (store32h v))"
  using buf_putbytes_append [of b "store32h v"]
  by (simp add: buf_putbytes_def buf_putint_def)

lemma buf_putbyte_append: "buf_end b 1 \<Longrightarrow> buf_putbyte b v = Inr (b_append b [v])"
  by (auto simp: buf_putbyte_def buf_eqs buf_end_def b_append_def buf_wf_nat)

lemma buf_putstring_append:
  assumes "buf_end b (4 + length s)"
  shows "buf_putstring b s (of_nat (length s)) = Inr (b_append b (store32h (of_nat (length s)) @ s))"
  using assms buf_end_append [of b "store32h (of_nat (length s))" "length s"] b_append_append [of b "store32h (of_nat (length s))" s]
  by (simp add: buf_putstring_def buf_putint_append buf_end_mono buf_putbytes_append)


section \<open>Reading consumes the rest\<close>

text \<open>The bytes between the position and the used length, and moving the position over them.\<close>

definition buf_rest :: "buffer \<Rightarrow> bytes" where
  "buf_rest b = drop (unat (b_pos b)) (take (unat (b_len b)) (b_data b))"

definition buf_skip :: "buffer \<Rightarrow> nat \<Rightarrow> buffer" where
  "buf_skip b n = b\<lparr>b_pos := b_pos b + of_nat n\<rparr>"

lemma length_buf_rest: "buf_wf b \<Longrightarrow> length (buf_rest b) = unat (b_len b) - unat (b_pos b)"
  by (auto simp: buf_rest_def buf_wf_nat min_def)

lemma unat_pos_skip:
  "buf_wf b \<Longrightarrow> n \<le> length (buf_rest b) \<Longrightarrow> unat (b_pos b + of_nat n) = unat (b_pos b) + n"
  by (auto simp: length_buf_rest buf_wf_nat u32_simps)

lemma buf_skip_wf: "buf_wf b \<Longrightarrow> n \<le> length (buf_rest b) \<Longrightarrow> buf_wf (buf_skip b n)"
  using unat_pos_skip [of b n] length_buf_rest [of b] by (auto simp: buf_skip_def buf_wf_nat)

lemma buf_rest_skip: "buf_wf b \<Longrightarrow> n \<le> length (buf_rest b) \<Longrightarrow> buf_rest (buf_skip b n) = drop n (buf_rest b)"
  using unat_pos_skip [of b n] by (simp add: buf_skip_def buf_rest_def add.commute)

lemma buf_skip_fields [simp]:
  "b_data (buf_skip b n) = b_data b" "b_len (buf_skip b n) = b_len b" "b_size (buf_skip b n) = b_size b"
  by (simp_all add: buf_skip_def)

lemma buf_skip_skip [simp]: "buf_skip (buf_skip b m) n = buf_skip b (m + n)"
  by (simp add: buf_skip_def ac_simps)

lemma buf_getbyte_rest:
  "buf_wf b \<Longrightarrow> buf_getbyte b = (case buf_rest b of
     [] \<Rightarrow> Inl (Dropbear_exit ''Bad buf_getbyte'') | v # r \<Rightarrow> Inr (v, buf_skip b 1))"
proof (cases "buf_rest b")
  case Nil
  moreover assume "buf_wf b"
  ultimately show ?thesis
    using length_buf_rest [of b] by (simp add: buf_getbyte_def u32_order)
next
  case (Cons v r)
  assume w: "buf_wf b"
  have lt: "unat (b_pos b) < unat (b_len b)"
    using length_buf_rest [OF w] Cons by simp
  then have "b_data b ! unat (b_pos b) = buf_rest b ! 0"
    using w by (simp add: buf_rest_def buf_wf_nat)
  then have "b_data b ! unat (b_pos b) = v"
    by (simp add: Cons)
  with w lt show ?thesis
    by (simp add: Cons buf_getbyte_def buf_skip_def u32_order buf_wf_nat hd_drop_conv_nth)
qed

lemma buf_peek_rest:
  "buf_wf b \<Longrightarrow> buf_peek b n =
     (if unat n \<le> length (buf_rest b) then Inr (take (unat n) (buf_rest b))
      else Inl (Dropbear_exit ''Bad buf_getptr''))"
  by (auto simp: buf_peek_eq length_buf_rest buf_rest_def drop_take min_def buf_wf_nat)

lemma buf_incrpos_rest:
  "buf_wf b \<Longrightarrow> buf_incrpos b n =
     (if unat n \<le> length (buf_rest b) then Inr (buf_skip b (unat n))
      else Inl (Dropbear_exit ''Bad buf_incrpos''))"
  by (auto simp: buf_incrpos_eq length_buf_rest buf_skip_def buf_wf_nat)

lemma buf_getint_rest:
  "buf_wf b \<Longrightarrow> buf_getint b =
     (if 4 \<le> length (buf_rest b) then Inr (load32h (take 4 (buf_rest b)), buf_skip b 4)
      else Inl (Dropbear_exit ''Bad buf_getptr''))"
  by (simp add: buf_getint_def buf_peek_rest buf_incrpos_rest)

lemma buf_getstring_rest:
  "buf_wf b \<Longrightarrow> buf_getstring b =
     (if length (buf_rest b) < 4 then Inl (Dropbear_exit ''Bad buf_getptr'')
      else let l = unat (load32h (take 4 (buf_rest b))) in
           if l > 9000 then Inl (Dropbear_exit ''String too long'')
           else if length (buf_rest b) < 4 + l then Inl (Dropbear_exit ''Bad buf_getptr'')
           else Inr (take l (drop 4 (buf_rest b)), buf_skip b (4 + l)))"
  by (auto simp: buf_getstring_def buf_getint_rest buf_peek_rest buf_incrpos_rest buf_skip_wf buf_rest_skip
      Let_def u32_order)

section \<open>Sequences of operations\<close>

text \<open>
  A client of a buffer runs any sequence of the operations; a \<open>get\<close> is run for its effect
  on the buffer here. A string is passed with its own length.
\<close>

datatype buf_op =
    Resize "nat \<Rightarrow> byte" u32 | Setlen u32 | Incrlen u32 | Setpos u32 | Incrwritepos u32
  | Incrpos u32 | Decrpos u32 | Getbyte | Getbool | Putbyte byte | Getint | Putint u32
  | Getstring | Eatstring | Getstringbuf | Getbuf | Getmpint | Putbytes bytes | Putstring bytes
  | Putmpint int

fun buf_exec :: "buf_op \<Rightarrow> buffer \<Rightarrow> buffer res" where
  "buf_exec (Resize junk n) b = buf_resize junk b n"
| "buf_exec (Setlen n) b = buf_setlen b n"
| "buf_exec (Incrlen n) b = buf_incrlen b n"
| "buf_exec (Setpos n) b = buf_setpos b n"
| "buf_exec (Incrwritepos n) b = buf_incrwritepos b n"
| "buf_exec (Incrpos n) b = buf_incrpos b n"
| "buf_exec (Decrpos n) b = buf_decrpos b n"
| "buf_exec Getbyte b = rbind (buf_getbyte b) (\<lambda>(_, b). Inr b)"
| "buf_exec Getbool b = rbind (buf_getbool b) (\<lambda>(_, b). Inr b)"
| "buf_exec (Putbyte v) b = buf_putbyte b v"
| "buf_exec Getint b = rbind (buf_getint b) (\<lambda>(_, b). Inr b)"
| "buf_exec (Putint v) b = buf_putint b v"
| "buf_exec Getstring b = rbind (buf_getstring b) (\<lambda>(_, b). Inr b)"
| "buf_exec Eatstring b = buf_eatstring b"
| "buf_exec Getstringbuf b = rbind (buf_getstringbuf b) (\<lambda>(_, b). Inr b)"
| "buf_exec Getbuf b = rbind (buf_getbuf b) (\<lambda>(_, b). Inr b)"
| "buf_exec Getmpint b = rbind (buf_getmpint b) (\<lambda>(_, b). Inr b)"
| "buf_exec (Putbytes s) b = buf_putbytes b s (of_nat (length s))"
| "buf_exec (Putstring s) b = buf_putstring b s (of_nat (length s))"
| "buf_exec (Putmpint v) b = buf_putmpint b v"

fun buf_run :: "buf_op list \<Rightarrow> buffer \<Rightarrow> buffer res" where
  "buf_run [] b = Inr b"
| "buf_run (x # xs) b = rbind (buf_exec x b) (buf_run xs)"

lemma unat_of_nat_le: "unat (of_nat n :: u32) \<le> n"
  by (simp add: unat_of_nat)

lemma buf_exec_ok: "buf_wf b \<Longrightarrow> res_ok buf_wf (buf_exec x b)"
  by (cases x)
    (auto intro: buf_resize_ok buf_setlen_ok buf_incrlen_ok buf_setpos_ok buf_incrwritepos_ok
       buf_incrpos_ok buf_decrpos_ok buf_putbyte_ok buf_putint_ok buf_eatstring_ok buf_putbytes_ok
       buf_putstring_ok buf_putmpint_ok unat_of_nat_le
       res_ok_rbind [OF buf_getbyte_ok] res_ok_rbind [OF buf_getbool_ok] res_ok_rbind [OF buf_getint_ok]
       res_ok_rbind [OF buf_getstring_ok] res_ok_rbind [OF buf_getmpint_ok]
       res_ok_rbind [OF buf_getstringbuf_int_ok] simp: buf_getstringbuf_def buf_getbuf_def)

lemma buf_run_ok: "buf_wf b \<Longrightarrow> res_ok buf_wf (buf_run xs b)"
proof (induction xs arbitrary: b)
  case Nil
  then show ?case by simp
next
  case (Cons x xs)
  then show ?case by (auto intro: res_ok_rbind [OF buf_exec_ok])
qed

section \<open>Buffers are byte sinks\<close>

lemma buf_put_fits:
  assumes "buf_end b (length bs + k)"
  shows "\<exists>b'. buf_putbytes b bs (of_nat (length bs)) = Inr b' \<and> buf_end b' k
     \<and> buf_contents b' = buf_contents b @ bs"
  using buf_end_append [OF assms] buf_end_mono [OF assms, of "length bs"]
  by (simp add: buf_putbytes_append buf_contents_append)

interpretation sink: byte_sink buf_end buf_contents "\<lambda>b bs. buf_putbytes b bs (of_nat (length bs))"
  by unfold_locales (auto intro: buf_end_mono buf_put_fits)

section \<open>Properties\<close>

text \<open>
  Property C13. Whatever sequence of buffer operations is run on a new buffer of any size,
  with any arguments, no access leaves the buffer's memory: the run ends in one of the
  checks of \<^verbatim>\<open>buffer.c\<close> or returns a buffer on which
  position \<open>\<le>\<close> length \<open>\<le>\<close> size \<open>\<le>\<close> \<open>BUF_MAX_SIZE\<close> and whose allocation has that size.
\<close>

theorem buffer_memory_safe: "res_ok buf_wf (rbind (buf_new n) (buf_run ops))"
  by (rule res_ok_rbind [OF buf_new_ok]) (simp add: buf_run_ok)

end
