(* ===== verification/Buffer_Codec.thy ===== *)
theory Buffer_Codec
  imports Buffer
begin

unbundle bit_operations_syntax

text \<open>
  The SSH wire encoding over buffers: bytes, booleans, 32-bit integers, strings and
  multi-precision integers. A field written at the end of a buffer appends its encoding,
  reading a field consumes exactly that encoding, and so a sequence of fields is read
  back as it was written.
\<close>

section \<open>Multi-precision integers\<close>

lemma count_bits_le: "count_bits n \<le> k \<longleftrightarrow> n < 2 ^ k"
proof (induction k arbitrary: n)
  case 0
  then show ?case by (simp add: count_bits.simps)
next
  case (Suc k)
  show ?case using Suc.IH [of "n div 2"] by (auto simp: count_bits.simps [of n])
qed

lemma length_to_ubin_le: "length (to_ubin n) \<le> k \<longleftrightarrow> n < 256 ^ k"
proof (induction k arbitrary: n)
  case 0
  then show ?case by (simp add: to_ubin.simps)
next
  case (Suc k)
  show ?case using Suc.IH [of "n div 256"] by (auto simp: to_ubin.simps [of n])
qed

lemma length_to_ubin: "length (to_ubin n) = (count_bits n + 7) div 8"
proof -
  let ?L = "length (to_ubin n)"
  have *: "?L \<le> k \<longleftrightarrow> count_bits n \<le> 8 * k" for k
    by (simp add: length_to_ubin_le count_bits_le power_mult)
  have "count_bits n \<le> 8 * ?L" using * by blast
  moreover have "\<not> count_bits n \<le> 8 * (?L - 1)" if "?L > 0"
    using that * [of "?L - 1"] by (simp only: flip: *)
  ultimately show ?thesis by linarith
qed

lemma from_ubin_append1: "from_ubin (bs @ [b]) = 256 * from_ubin bs + unat b"
  by (simp add: from_ubin_def)

lemma from_ubin_to_ubin [simp]: "from_ubin (to_ubin n) = n"
proof (induction n rule: to_ubin.induct)
  case (1 n)
  show ?case
  proof (cases "n = 0")
    case True
    then show ?thesis by (simp add: to_ubin.simps from_ubin_def)
  next
    case False
    with 1 show ?thesis
      by (subst to_ubin.simps) (simp add: from_ubin_append1 unat_of_nat)
  qed
qed

lemma from_ubin_Cons: "from_ubin (b # bs) = unat b * 256 ^ length bs + from_ubin bs"
proof (induction bs rule: rev_induct)
  case Nil
  then show ?case by (simp add: from_ubin_def)
next
  case (snoc c bs)
  have "from_ubin (b # bs @ [c]) = 256 * from_ubin (b # bs) + unat c"
    using from_ubin_append1 [of "b # bs" c] by simp
  with snoc show ?case by (simp add: from_ubin_append1 algebra_simps)
qed

lemma and_128_eq_0: "unat (x :: byte) < 128 \<Longrightarrow> x AND 128 = 0"
proof -
  assume "unat x < 128"
  then have "\<not> bit x 7" 
    by (simp add: bit_iff_odd_drop_bit drop_bit_eq_div word_arith_nat_div flip: word_less_nat_alt)
  then show ?thesis using and_exp_eq_0_iff_not_bit [of x 7] by simp
qed

lemma hd_to_ubin: "count_bits n mod 8 \<noteq> 0 \<Longrightarrow> hd (to_ubin n) AND 128 = 0 \<and> to_ubin n \<noteq> []"
proof -
  assume m: "count_bits n mod 8 \<noteq> 0"
  obtain b bs where bs: "to_ubin n = b # bs"
    using length_to_ubin [of n] m by (cases "to_ubin n") auto
  have "count_bits n \<le> 8 * length bs + 7"
    using length_to_ubin [of n] m bs by simp presburger
  then have "n < 2 ^ (8 * length bs + 7)" by (simp add: count_bits_le)
  then have "n < 128 * 256 ^ length bs" by (simp add: power_add power_mult)
  moreover have "unat b * 256 ^ length bs \<le> n"
    using from_ubin_to_ubin [of n] bs from_ubin_Cons [of b bs] by simp
  ultimately have "unat b * 256 ^ length bs < 128 * 256 ^ length bs" by linarith
  then show ?thesis by (simp add: bs and_128_eq_0)
qed


text \<open>The body of an mpint: minimal big-endian bytes, with a leading zero when the top bit is set.\<close>

definition enc_mpint :: "nat \<Rightarrow> bytes" where
  "enc_mpint n = (if n \<noteq> 0 \<and> count_bits n mod 8 = 0 then [0] else []) @ to_ubin n"

lemma enc_mpint_0 [simp]: "enc_mpint 0 = []"
  by (simp add: enc_mpint_def to_ubin.simps)

lemma count_bits_pos: "0 < n \<Longrightarrow> 0 < count_bits n"
  by (simp add: count_bits.simps)

lemma div8_round: "(c + 7) div 8 = c div 8 + (if c mod 8 = 0 then 0 else 1)" for c :: nat
proof -
  have "r < 8 \<Longrightarrow> (8 * q + r + 7) div 8 = q + (if r = 0 then 0 else 1)" for q r :: nat
    by (rule div_nat_eqI) auto
  from this [of "c mod 8" "c div 8"] show ?thesis by simp
qed

lemma length_enc_mpint: "0 < n \<Longrightarrow> length (enc_mpint n) = count_bits n div 8 + 1"
  by (simp add: enc_mpint_def length_to_ubin div8_round)

lemma from_ubin_enc_mpint [simp]: "from_ubin (enc_mpint n) = n"
  by (simp add: enc_mpint_def from_ubin_Cons)

lemma hd_enc_mpint: "0 < n \<Longrightarrow> hd (enc_mpint n) AND 128 = 0"
  using hd_to_ubin [of n] by (auto simp: enc_mpint_def)

lemma u32_div8: "n < 4294967296 \<Longrightarrow> (of_nat n :: u32) div 8 = of_nat (n div 8)"
  by (rule word_unat_eq_iff [THEN iffD2]) (simp add: unat_div unat_of_nat)

lemma u32_mod8: "n < 4294967296 \<Longrightarrow> (of_nat n :: u32) mod 8 = of_nat (n mod 8)"
  by (rule word_unat_eq_iff [THEN iffD2]) (simp add: unat_mod unat_of_nat)

lemma buf_write_out_putbytes:
  assumes "unat n = length out"
  shows "rbind (buf_getwriteptr b n) (\<lambda>p.
      if length out > unat n then Inl e
      else rbind (mem_write (b_data b) p out) (\<lambda>d.
           buf_incrwritepos (b\<lparr>b_data := d\<rparr>) (of_nat (length out))))
    = buf_putbytes b out (of_nat (length out))"
proof -
  have n: "n = of_nat (length out)" by (simp flip: assms)
  show ?thesis using assms unfolding n by (simp add: buf_putbytes_def buf_poke_def rbind_assoc)
qed

lemma buf_putmpint_pos:
  assumes "0 < n" "l = (of_nat (count_bits n) :: u32) div 8 + 1" "0 < l"
    "pad = (if (of_nat (count_bits n) :: u32) mod 8 = 0 then 1 else 0)"
    "buf_putint b l = Inr b1" "(if pad \<noteq> 0 then buf_putbyte b1 0 else Inr b1) = Inr b2"
    "unat (l - pad) = length (to_ubin n)"
  shows "buf_putmpint b (int n) = buf_putbytes b2 (to_ubin n) (of_nat (length (to_ubin n)))"
proof -
  let ?out = "to_ubin n"
  have "buf_putmpint b (int n) = rbind (buf_putint b l) (\<lambda>b. if l > 0 then
      rbind (if pad \<noteq> 0 then buf_putbyte b 0 else Inr b) (\<lambda>b. rbind (buf_getwriteptr b (l - pad)) (\<lambda>p.
        if length ?out > unat (l - pad) then Inl (Dropbear_exit ''mpint error'')
        else rbind (mem_write (b_data b) p ?out) (\<lambda>d.
             buf_incrwritepos (b\<lparr>b_data := d\<rparr>) (of_nat (length ?out))))) else Inr b)"
    using assms(1) assms(3) unfolding assms(2,4) by (simp add: buf_putmpint_def Let_def)
  then show ?thesis
    using assms(3) buf_write_out_putbytes [OF assms(7)] by (simp only: assms(5,6) rbind_simps if_True)
qed

lemma buf_putmpint_append:
  assumes e: "buf_end b (4 + length (enc_mpint n))" and n: "count_bits n < 8240"
  shows "buf_putmpint b (int n) =
    Inr (b_append b (store32h (of_nat (length (enc_mpint n))) @ enc_mpint n))"
proof (cases "n = 0")
  case True
  with e show ?thesis by (simp add: buf_putmpint_def buf_putint_append buf_end_mono)
next
  case False
  define l pad where l: "l = (of_nat (count_bits n) :: u32) div 8 + 1"
    and pad: "pad = (if (of_nat (count_bits n) :: u32) mod 8 = 0 then 1 else 0 :: u32)"
  have len: "length (enc_mpint n) = count_bits n div 8 + 1" using False by (simp add: length_enc_mpint)
  have ll: "l = of_nat (length (enc_mpint n))" using n by (simp add: l len u32_div8)
  have ul: "unat l = length (enc_mpint n)" using n by (simp add: ll len unat_word_ariths unat_of_nat)
  have md: "pad \<noteq> 0 \<longleftrightarrow> count_bits n mod 8 = 0"
    using n by (simp add: pad u32_mod8 word_unat_eq_iff unat_of_nat)
  have pd: "pad = (if count_bits n mod 8 = 0 then 1 else 0)" using md unfolding pad by (simp split: if_splits)
  have lp: "unat (l - pad) = length (to_ubin n)"
    using ul False by (simp add: pd enc_mpint_def u32_simps word_le_nat_alt split: if_splits)
  let ?b = "b_append b (store32h l @ (if count_bits n mod 8 = 0 then [0] else []))"
  have b1: "buf_putint b l = Inr (b_append b (store32h l))"
    using e by (simp add: buf_putint_append buf_end_mono)
  have b2: "(if pad \<noteq> 0 then buf_putbyte (b_append b (store32h l)) 0 else Inr (b_append b (store32h l))) = Inr ?b"
    using False buf_end_mono [OF e, of 5] len
    by (simp add: md buf_putbyte_append buf_end_append b_append_append)
  have eb: "buf_end ?b (length (to_ubin n))"
    using e False by (intro buf_end_append) (simp add: enc_mpint_def split: if_splits)
  have "buf_putmpint b (int n) = buf_putbytes ?b (to_ubin n) (of_nat (length (to_ubin n)))"
    using False ul len by (intro buf_putmpint_pos [OF _ l _ pad b1 b2 lp]) (auto simp: word_less_nat_alt)
  also have "\<dots> = Inr (b_append b (store32h l @ enc_mpint n))"
    using e False by (simp add: buf_putbytes_append [OF eb] b_append_append enc_mpint_def split: if_splits)
  finally show ?thesis by (simp add: ll)
qed

section \<open>Fields\<close>

text \<open>
  A field of an SSH message and its encoding. The bounds of \<open>field_ok\<close> are the ones the
  reader enforces: \<open>MAX_STRING_LEN\<close>, and \<open>BUF_MAX_MPINT\<close> bytes for an mpint.
\<close>

datatype fkind = KByte | KBool | KInt | KString | KMpint
datatype field = FByte byte | FBool bool | FInt u32 | FString bytes | FMpint nat

fun kind_of :: "field \<Rightarrow> fkind" where
  "kind_of (FByte _) = KByte"
| "kind_of (FBool _) = KBool"
| "kind_of (FInt _) = KInt"
| "kind_of (FString _) = KString"
| "kind_of (FMpint _) = KMpint"

definition enc_string :: "bytes \<Rightarrow> bytes" where
  "enc_string s = store32h (of_nat (length s)) @ s"

fun enc_field :: "field \<Rightarrow> bytes" where
  "enc_field (FByte v) = [v]"
| "enc_field (FBool v) = [if v then 1 else 0]"
| "enc_field (FInt v) = store32h v"
| "enc_field (FString s) = enc_string s"
| "enc_field (FMpint n) = enc_string (enc_mpint n)"

fun field_ok :: "field \<Rightarrow> bool" where
  "field_ok (FString s) = (length s \<le> 9000)"
| "field_ok (FMpint n) = (count_bits n < 8240)"
| "field_ok _ = True"

fun put_field :: "buffer \<Rightarrow> field \<Rightarrow> buffer res" where
  "put_field b (FByte v) = buf_putbyte b v"
| "put_field b (FBool v) = buf_putbyte b (if v then 1 else 0)"
| "put_field b (FInt v) = buf_putint b v"
| "put_field b (FString s) = buf_putstring b s (of_nat (length s))"
| "put_field b (FMpint n) = buf_putmpint b (int n)"

fun get_field :: "buffer \<Rightarrow> fkind \<Rightarrow> (field \<times> buffer) res" where
  "get_field b KByte = rbind (buf_getbyte b) (\<lambda>(v, b). Inr (FByte v, b))"
| "get_field b KBool = rbind (buf_getbool b) (\<lambda>(v, b). Inr (FBool v, b))"
| "get_field b KInt = rbind (buf_getint b) (\<lambda>(v, b). Inr (FInt v, b))"
| "get_field b KString = rbind (buf_getstring b) (\<lambda>(v, b). Inr (FString v, b))"
| "get_field b KMpint = rbind (buf_getmpint b) (\<lambda>(v, b).
     case v of None \<Rightarrow> Inl (Dropbear_exit ''bad mpint'') | Some v \<Rightarrow> Inr (FMpint (nat v), b))"

fun put_fields :: "buffer \<Rightarrow> field list \<Rightarrow> buffer res" where
  "put_fields b [] = Inr b"
| "put_fields b (f # fs) = rbind (put_field b f) (\<lambda>b. put_fields b fs)"

fun get_fields :: "buffer \<Rightarrow> fkind list \<Rightarrow> (field list \<times> buffer) res" where
  "get_fields b [] = Inr ([], b)"
| "get_fields b (k # ks) = rbind (get_field b k) (\<lambda>(f, b).
     rbind (get_fields b ks) (\<lambda>(fs, b). Inr (f # fs, b)))"

definition enc_fields :: "field list \<Rightarrow> bytes" where
  "enc_fields fs = concat (map enc_field fs)"

lemma put_field_append:
  "field_ok f \<Longrightarrow> buf_end b (length (enc_field f)) \<Longrightarrow> put_field b f = Inr (b_append b (enc_field f))"
  by (cases f) (simp_all add: buf_putbyte_append buf_putint_append buf_putstring_append
      buf_putmpint_append enc_string_def)

lemma put_fields_append:
  "list_all field_ok fs \<Longrightarrow> buf_end b (length (enc_fields fs)) \<Longrightarrow>
     put_fields b fs = Inr (b_append b (enc_fields fs))"
proof (induction fs arbitrary: b)
  case Nil
  then show ?case by (simp add: enc_fields_def b_append_Nil)
next
  case (Cons f fs)
  then show ?case
    by (simp add: enc_fields_def put_field_append [OF _ buf_end_mono] buf_end_append b_append_append)
qed

lemma buf_rest_string:
  "buf_wf b \<Longrightarrow> length s \<le> 9000 \<Longrightarrow> buf_rest b = enc_string s @ r \<Longrightarrow>
     buf_getstring b = Inr (s, buf_skip b (length (enc_string s)))"
  by (simp add: buf_getstring_rest enc_string_def Let_def u32_simps)

lemma buf_rest_mpint:
  assumes "buf_wf b" "count_bits n < 8240" "buf_rest b = enc_string (enc_mpint n) @ r"
  shows "buf_getmpint b = Inr (Some (int n), buf_skip b (length (enc_string (enc_mpint n))))"
proof (cases "n = 0")
  case True
  with assms show ?thesis by (simp add: buf_getmpint_def buf_getint_rest enc_string_def)
next
  case False
  let ?m = "enc_mpint n"
  have len: "length ?m = count_bits n div 8 + 1" using False by (simp add: length_enc_mpint)
  have ul: "unat (of_nat (length ?m) :: u32) = length ?m" using assms(2) len by (simp add: u32_simps)
  obtain c cs where m: "?m = c # cs" using len by (cases ?m) auto
  have wf: "buf_wf (buf_skip b 4)" using assms by (simp add: buf_skip_wf enc_string_def)
  have rest: "buf_rest (buf_skip b 4) = ?m @ r" using assms by (simp add: buf_rest_skip enc_string_def)
  have l: "(of_nat (length ?m) :: u32) \<noteq> 0" "\<not> BUF_MAX_MPINT < (of_nat (length ?m) :: u32)"
    using ul len assms(2) by (auto simp: word_less_nat_alt word_unat_eq_iff)
  have "buf_getint b = Inr (of_nat (length ?m), buf_skip b 4)"
    using assms by (simp add: buf_getint_rest enc_string_def)
  with l show ?thesis
    using hd_enc_mpint [of n] False ul
    by (simp add: buf_getmpint_def buf_peek_rest wf rest buf_incrpos_rest enc_string_def m del: length_greater_0_conv)
      (simp flip: m)
qed

lemma get_field_rest:
  assumes "field_ok f" "buf_wf b" "buf_rest b = enc_field f @ r"
  shows "get_field b (kind_of f) = Inr (f, buf_skip b (length (enc_field f)))"
  using assms
  by (cases f) (simp_all add: buf_getbyte_rest buf_getbool_def buf_getint_rest buf_rest_string
      buf_rest_mpint)

lemma get_fields_rest:
  "list_all field_ok fs \<Longrightarrow> buf_wf b \<Longrightarrow> buf_rest b = enc_fields fs @ r \<Longrightarrow>
     get_fields b (map kind_of fs) = Inr (fs, buf_skip b (length (enc_fields fs)))"
proof (induction fs arbitrary: b)
  case Nil
  then show ?case by (simp add: enc_fields_def buf_skip_def)
next
  case (Cons f fs)
  have r: "buf_rest b = enc_field f @ enc_fields fs @ r"
    using Cons.prems(3) by (simp add: enc_fields_def)
  have "get_fields (buf_skip b (length (enc_field f))) (map kind_of fs) =
      Inr (fs, buf_skip (buf_skip b (length (enc_field f))) (length (enc_fields fs)))"
    using Cons.prems r by (intro Cons.IH) (auto simp: buf_skip_wf buf_rest_skip)
  then show ?case
    using Cons.prems r by (simp add: get_field_rest enc_fields_def)
qed

section \<open>Properties\<close>

text \<open>
  Property C14. Messages round-trip: any sequence of fields within the protocol's limits,
  put at the end of a buffer that has room for their encoding, is read back unchanged by
  the corresponding \<open>get\<close> operations from the position where it was put, which end
  exactly where the writing ended.
\<close>

theorem fields_roundtrip:
  assumes "list_all field_ok fs" "buf_end b (length (enc_fields fs))"
  shows "\<exists>b1 b2. put_fields b fs = Inr b1 \<and> buf_setpos b1 (b_pos b) = Inr b2 \<and>
           get_fields b2 (map kind_of fs) = Inr (fs, b1)"
proof -
  let ?b1 = "b_append b (enc_fields fs)"
  let ?b2 = "?b1\<lparr>b_pos := b_pos b\<rparr>"
  have w: "buf_wf ?b1" using buf_end_append [of b "enc_fields fs" 0] assms(2) by (auto dest: buf_end_wf)
  have u: "unat (b_len b + of_nat (length (enc_fields fs))) = unat (b_len b) + length (enc_fields fs)"
    using unat_len_append [OF assms(2)] .
  have sp: "buf_setpos ?b1 (b_pos b) = Inr ?b2"
    using assms(2) u by (simp add: buf_setpos_def b_append_def buf_end_def word_less_nat_alt)
  have w2: "buf_wf ?b2" using w sp buf_setpos_ok [OF w, of "b_pos b"] by simp
  have "buf_rest ?b2 = enc_fields fs"
    using assms(2) u by (simp add: buf_rest_def b_append_def buf_end_def buf_wf_nat)
  then have "get_fields ?b2 (map kind_of fs) = Inr (fs, buf_skip ?b2 (length (enc_fields fs)))"
    using get_fields_rest [OF assms(1) w2, of "[]"] by simp
  moreover have "buf_skip ?b2 (length (enc_fields fs)) = ?b1"
    using assms(2) by (simp add: buf_skip_def b_append_def buf_end_def)
  ultimately show ?thesis
    using put_fields_append [OF assms] sp by auto
qed

theorem fields_roundtrip_witness:
  "\<exists>b b1 b2. buf_new 64 = Inr b \<and>
     put_fields b [FByte 20, FString [1, 2, 3], FBool True, FInt 7, FMpint 255] = Inr b1 \<and>
     buf_setpos b1 (b_pos b) = Inr b2 \<and>
     get_fields b2 [KByte, KString, KBool, KInt, KMpint] =
       Inr ([FByte 20, FString [1, 2, 3], FBool True, FInt 7, FMpint 255], b1)"
proof -
  let ?fs = "[FByte 20, FString [1, 2, 3], FBool True, FInt 7, FMpint 255]"
  obtain b where b: "buf_new 64 = Inr b" "buf_end b 64"
    by (simp add: buf_new_def buf_end_def buf_wf_nat)
  have "count_bits 255 < 8240" "length (enc_mpint 255) = 2" by code_simp+
  then have "list_all field_ok ?fs" "buf_end b (length (enc_fields ?fs))"
    using buf_end_mono [OF b(2)] by (simp_all add: enc_fields_def enc_string_def)
  from fields_roundtrip [OF this] b(1) show ?thesis by simp
qed

end
