(* ===== verification/Circbuffer.thy ===== *)
theory Circbuffer
  imports Interfaces
begin

text \<open>
  The circular buffer that holds a channel's received data until the local side takes it
  (\<^verbatim>\<open>circbuffer.c\<close>). The abstract value is the list of stored bytes in order; writing
  appends to it, reading drops from its front, and the two read segments together are the
  list. The assertions of \<^verbatim>\<open>cbuf_writelen\<close> are part of the model and are shown never to
  fire on a well-formed buffer.
\<close>

section \<open>The data structure and its operations\<close>

abbreviation MAX_CBUF_SIZE :: u32 where "MAX_CBUF_SIZE \<equiv> 100000000"

record circbuffer =
  c_size :: u32
  c_readpos :: u32
  c_writepos :: u32
  c_used :: u32
  c_data :: "bytes option"

definition cbuf_new :: "u32 \<Rightarrow> circbuffer res" where
  "cbuf_new sz =
     (if sz > MAX_CBUF_SIZE then Inl (Dropbear_exit ''Bad cbuf size'')
      else Inr \<lparr>c_size = sz, c_readpos = 0, c_writepos = 0, c_used = 0, c_data = None\<rparr>)"

definition cbuf_getused :: "circbuffer \<Rightarrow> u32" where
  "cbuf_getused c = c_used c"

definition cbuf_getavail :: "circbuffer \<Rightarrow> u32" where
  "cbuf_getavail c = c_size c - c_used c"

definition cbuf_writelen :: "circbuffer \<Rightarrow> u32 res" where
  "cbuf_writelen c =
     rbind (dassert (c_used c \<le> c_size c) ''cbuf->used <= cbuf->size'') (\<lambda>_.
     rbind (umod (2 * c_size c + c_writepos c - c_readpos c) (c_size c)) (\<lambda>x.
     rbind (dassert (x = c_used c mod c_size c) ''writepos-readpos == used'') (\<lambda>_.
     rbind (umod (2 * c_size c + c_readpos c - c_writepos c) (c_size c)) (\<lambda>y.
     rbind (dassert (y = (c_size c - c_used c) mod c_size c) ''readpos-writepos == size-used'') (\<lambda>_.
     Inr (if c_used c = c_size c then 0
          else if c_writepos c < c_readpos c then c_readpos c - c_writepos c
          else c_size c - c_writepos c))))))"

text \<open>The bytes of the two readable segments; the pointer of an empty segment is not used.\<close>

definition cbuf_readptrs :: "circbuffer \<Rightarrow> (bytes \<times> bytes) res" where
  "cbuf_readptrs c =
     (let len1 = min (c_used c) (c_size c - c_readpos c);
          len2 = (if len1 < c_used c then c_used c - len1 else 0)
      in if len1 = 0 \<and> len2 = 0 then Inr ([], [])
         else case c_data c of
           None \<Rightarrow> Inl Fault
         | Some d \<Rightarrow> rbind (mem_read d (unat (c_readpos c)) (unat len1)) (\<lambda>p1.
                     rbind (mem_read d 0 (unat len2)) (\<lambda>p2. Inr (p1, p2))))"

text \<open>The write pointer (an offset), with the allocation on first use.\<close>

definition cbuf_writeptr :: "circbuffer \<Rightarrow> u32 \<Rightarrow> (nat \<times> circbuffer) res" where
  "cbuf_writeptr c l =
     rbind (cbuf_writelen c) (\<lambda>wl.
     if l > wl then Inl (Dropbear_exit ''Bad cbuf write'')
     else let c = (case c_data c of
                     None \<Rightarrow> c\<lparr>c_data := Some (replicate (unat (c_size c)) 0)\<rparr> | Some _ \<Rightarrow> c)
          in Inr (unat (c_writepos c), c))"

definition cbuf_incrwrite :: "circbuffer \<Rightarrow> u32 \<Rightarrow> circbuffer res" where
  "cbuf_incrwrite c l =
     rbind (cbuf_writelen c) (\<lambda>wl.
     if l > wl then Inl (Dropbear_exit ''Bad cbuf write'')
     else let c = c\<lparr>c_used := c_used c + l\<rparr> in
          rbind (dassert (c_used c \<le> c_size c) ''cbuf->used <= cbuf->size'') (\<lambda>_.
          rbind (umod (c_writepos c + l) (c_size c)) (\<lambda>w. Inr (c\<lparr>c_writepos := w\<rparr>))))"

definition cbuf_incrread :: "circbuffer \<Rightarrow> u32 \<Rightarrow> circbuffer res" where
  "cbuf_incrread c l =
     rbind (dassert (c_used c \<ge> l) ''cbuf->used >= len'') (\<lambda>_.
     let c = c\<lparr>c_used := c_used c - l\<rparr> in
     rbind (umod (c_readpos c + l) (c_size c)) (\<lambda>r. Inr (c\<lparr>c_readpos := r\<rparr>)))"

text \<open>Copying bytes to the write pointer and advancing over them, as the channel code does.\<close>

definition cbuf_write :: "circbuffer \<Rightarrow> bytes \<Rightarrow> circbuffer res" where
  "cbuf_write c bs =
     rbind (cbuf_writeptr c (of_nat (length bs))) (\<lambda>(off, c).
     case c_data c of
       None \<Rightarrow> Inl Fault
     | Some d \<Rightarrow> rbind (mem_write d off bs) (\<lambda>d.
                 cbuf_incrwrite (c\<lparr>c_data := Some d\<rparr>) (of_nat (length bs))))"

section \<open>Invariant and abstraction\<close>

definition cbuf_wf :: "circbuffer \<Rightarrow> bool" where
  "cbuf_wf c \<longleftrightarrow> 0 < unat (c_size c) \<and> unat (c_size c) \<le> 100000000
     \<and> unat (c_used c) \<le> unat (c_size c) \<and> unat (c_readpos c) < unat (c_size c)
     \<and> unat (c_writepos c) = (unat (c_readpos c) + unat (c_used c)) mod unat (c_size c)
     \<and> (case c_data c of None \<Rightarrow> c_used c = 0 | Some d \<Rightarrow> length d = unat (c_size c))"

definition cbuf_list :: "circbuffer \<Rightarrow> bytes" where
  "cbuf_list c = (case c_data c of None \<Rightarrow> []
     | Some d \<Rightarrow> map (\<lambda>i. d ! ((unat (c_readpos c) + i) mod unat (c_size c))) [0..<unat (c_used c)])"

definition linear_room :: "nat \<Rightarrow> nat \<Rightarrow> nat \<Rightarrow> nat" where
  "linear_room s r u = (if u = s then 0 else if (r + u) mod s < r then r - (r + u) mod s
     else s - (r + u) mod s)"

lemma ring_position:
  fixes s r u :: nat
  assumes "r < s" "u \<le> s"
  shows "(r + u) mod s = (if r + u < s then r + u else r + u - s)"
  using assms by (auto simp: mod_if)

lemma ring_old_cell:
  assumes "r < s" "u \<le> s" "n \<le> linear_room s r u" "i < u"
  shows "(r + i) mod s < (r + u) mod s \<or> (r + u) mod s + n \<le> (r + i) mod s"
  using assms ring_position [of r s u] ring_position [of r s i]
  by (auto simp: linear_room_def split: if_splits)

lemma ring_new_cell:
  assumes "r < s" "u \<le> s" "n \<le> linear_room s r u" "u \<le> i" "i < u + n"
  shows "(r + i) mod s = (r + u) mod s + (i - u)"
  using assms ring_position [of r s u] ring_position [of r s i]
  by (auto simp: linear_room_def split: if_splits)

lemma linear_room_le: "r < s \<Longrightarrow> u \<le> s \<Longrightarrow> linear_room s r u \<le> s - u"
  using ring_position [of r s u] by (auto simp: linear_room_def split: if_splits)

lemma linear_room_pos: "r < s \<Longrightarrow> u < s \<Longrightarrow> 0 < linear_room s r u"
  using ring_position [of r s u] by (auto simp: linear_room_def split: if_splits)

lemma linear_room_fits: "r < s \<Longrightarrow> u \<le> s \<Longrightarrow> (r + u) mod s + linear_room s r u \<le> s"
  using ring_position [of r s u] by (auto simp: linear_room_def split: if_splits)

lemma length_cbuf_list: "cbuf_wf c \<Longrightarrow> length (cbuf_list c) = unat (c_used c)"
  by (auto simp: cbuf_list_def cbuf_wf_def split: option.splits)

lemma cbuf_wf_ring:
  "cbuf_wf c \<Longrightarrow> unat (c_readpos c) < unat (c_size c) \<and> unat (c_used c) \<le> unat (c_size c)"
  by (simp add: cbuf_wf_def)

section \<open>The operations on a well-formed buffer\<close>

lemma ring_diff_used:
  fixes s r u :: nat
  assumes "r < s" "u \<le> s"
  shows "(2 * s + (r + u) mod s - r) mod s = u mod s"
proof (cases "r + u < s")
  case True
  then have "2 * s + (r + u) mod s - r = 2 * s + u" by simp
  then show ?thesis by simp
next
  case False
  then have "2 * s + (r + u) mod s - r = s + u" using assms ring_position [of r s u] by simp
  then show ?thesis by simp
qed

lemma ring_diff_free:
  fixes s r u :: nat
  assumes "r < s" "u \<le> s"
  shows "(2 * s + r - (r + u) mod s) mod s = (s - u) mod s"
proof (cases "r + u < s")
  case True
  then have "2 * s + r - (r + u) mod s = s + (s - u)" using assms by simp
  then show ?thesis by (simp only: mod_add_self1)
next
  case False
  then have "2 * s + r - (r + u) mod s = 2 * s + (s - u)" using assms ring_position [of r s u] by simp
  then show ?thesis by (simp only: mod_mult_self3)
qed

lemma cbuf_writelen_eq:
  assumes wf: "cbuf_wf c"
  shows "cbuf_writelen c =
    Inr (of_nat (linear_room (unat (c_size c)) (unat (c_readpos c)) (unat (c_used c))))"
proof -
  let ?s = "unat (c_size c)" and ?r = "unat (c_readpos c)" and ?u = "unat (c_used c)"
  have w: "unat (c_writepos c) = (?r + ?u) mod ?s" and b: "?r < ?s" "?u \<le> ?s" "?s \<le> 100000000"
    using wf by (simp_all add: cbuf_wf_def)
  have wl: "unat (c_writepos c) < ?s" using w b by simp
  have ge: "c_used c \<le> c_size c" using b by (simp add: word_le_nat_alt)
  have s0: "c_size c \<noteq> 0" using b by (auto simp: word_unat_eq_iff)
  have two: "unat (2 * c_size c) = 2 * ?s" using b by (simp add: unat_word_ariths)
  have x1: "unat (2 * c_size c + c_writepos c) = 2 * ?s + unat (c_writepos c)"
    using b wl by (simp add: unat_plus_u32 two)
  have x2: "unat (2 * c_size c + c_readpos c) = 2 * ?s + ?r"
    using b wl by (simp add: unat_plus_u32 two)
  have "unat ((2 * c_size c + c_writepos c - c_readpos c) mod c_size c) = unat (c_used c mod c_size c)"
    using ring_diff_used [OF b(1,2)] b wl by (simp add: unat_mod unat_minus_u32 word_le_nat_alt x1 flip: w)
  then have a1: "(2 * c_size c + c_writepos c - c_readpos c) mod c_size c = c_used c mod c_size c"
    by (simp add: word_unat_eq_iff)
  have "unat ((2 * c_size c + c_readpos c - c_writepos c) mod c_size c) = unat ((c_size c - c_used c) mod c_size c)"
    using ring_diff_free [OF b(1,2)] b wl ge by (simp add: unat_mod unat_minus_u32 word_le_nat_alt x2 flip: w)
  then have a2: "(2 * c_size c + c_readpos c - c_writepos c) mod c_size c = (c_size c - c_used c) mod c_size c"
    by (simp add: word_unat_eq_iff)
  have "cbuf_writelen c = Inr (if c_used c = c_size c then 0
          else if c_writepos c < c_readpos c then c_readpos c - c_writepos c
          else c_size c - c_writepos c)"
    by (simp add: cbuf_writelen_def ge umod_def s0 a1 a2)
  also have "(if c_used c = c_size c then 0
          else if c_writepos c < c_readpos c then c_readpos c - c_writepos c
          else c_size c - c_writepos c) = of_nat (linear_room ?s ?r ?u)"
    using wl b unfolding linear_room_def w [symmetric]
    by (auto simp: word_unat_eq_iff unat_minus_u32 u32_order unat_of_nat)
  finally show ?thesis .
qed


definition cbuf_room :: "circbuffer \<Rightarrow> nat" where
  "cbuf_room c = unat (c_size c) - unat (c_used c)"

abbreviation cbuf_linear :: "circbuffer \<Rightarrow> nat" where
  "cbuf_linear c \<equiv> linear_room (unat (c_size c)) (unat (c_readpos c)) (unat (c_used c))"

lemma unat_cbuf_getavail: "cbuf_wf c \<Longrightarrow> unat (cbuf_getavail c) = cbuf_room c"
  by (simp add: cbuf_getavail_def cbuf_room_def cbuf_wf_def unat_minus_u32 word_le_nat_alt)

lemma cbuf_linear_bounds:
  assumes "cbuf_wf c"
  shows "cbuf_linear c \<le> cbuf_room c" "unat (c_writepos c) + cbuf_linear c \<le> unat (c_size c)"
    "cbuf_linear c \<le> 100000000"
  using assms linear_room_le [of "unat (c_readpos c)" "unat (c_size c)" "unat (c_used c)"]
    linear_room_fits [of "unat (c_readpos c)" "unat (c_size c)" "unat (c_used c)"]
  by (auto simp: cbuf_wf_def cbuf_room_def)

text \<open>The state after storing \<open>bs\<close> in one linear piece.\<close>

definition cbuf_stored :: "circbuffer \<Rightarrow> bytes \<Rightarrow> circbuffer" where
  "cbuf_stored c bs =
     (let d = (case c_data c of None \<Rightarrow> replicate (unat (c_size c)) 0 | Some d \<Rightarrow> d);
          w = unat (c_writepos c)
      in c\<lparr>c_data := Some (take w d @ bs @ drop (w + length bs) d),
           c_used := c_used c + of_nat (length bs),
           c_writepos := (c_writepos c + of_nat (length bs)) mod c_size c\<rparr>)"

lemma cbuf_stored_fields [simp]: "c_size (cbuf_stored c bs) = c_size c" "c_readpos (cbuf_stored c bs) = c_readpos c"
  by (simp_all add: cbuf_stored_def Let_def)

lemma cbuf_write_eq:
  assumes wf: "cbuf_wf c" and n: "length bs \<le> cbuf_linear c"
  shows "cbuf_write c bs = Inr (cbuf_stored c bs)"
proof -
  note b = cbuf_linear_bounds [OF wf]
  have u: "unat (of_nat (length bs) :: u32) = length bs" using n b by (simp add: u32_simps)
  have ul: "unat (of_nat (cbuf_linear c) :: u32) = cbuf_linear c" using b by (simp add: u32_simps)
  have nw: "\<not> of_nat (length bs) > (of_nat (cbuf_linear c) :: u32)" using n by (simp add: word_less_nat_alt u ul)
  let ?d = "case c_data c of None \<Rightarrow> replicate (unat (c_size c)) 0 | Some d \<Rightarrow> d"
  let ?c = "c\<lparr>c_data := Some ?d\<rparr>"
  have ld: "length ?d = unat (c_size c)" using wf by (auto simp: cbuf_wf_def split: option.splits)
  have fits: "unat (c_writepos c) + length bs \<le> length ?d" using n b ld by simp
  let ?d' = "take (unat (c_writepos c)) ?d @ bs @ drop (unat (c_writepos c) + length bs) ?d"
  have wf': "cbuf_wf (c\<lparr>c_data := Some ?d'\<rparr>)" using wf fits ld by (auto simp: cbuf_wf_def)
  have s0: "c_size c \<noteq> 0" using wf by (auto simp: cbuf_wf_def word_unat_eq_iff)
  have us: "c_used c + of_nat (length bs) \<le> c_size c"
    using n b wf by (auto simp: word_le_nat_alt unat_plus_u32 u cbuf_wf_def cbuf_room_def)
  have "cbuf_writeptr c (of_nat (length bs)) = Inr (unat (c_writepos c), ?c)"
    using nw by (auto simp: cbuf_writeptr_def cbuf_writelen_eq [OF wf] Let_def split: option.splits)
  then have "cbuf_write c bs = cbuf_incrwrite (c\<lparr>c_data := Some ?d'\<rparr>) (of_nat (length bs))"
    using fits by (simp add: cbuf_write_def)
  also have "\<dots> = Inr (cbuf_stored c bs)"
    using nw us s0 by (simp add: cbuf_incrwrite_def cbuf_writelen_eq [OF wf'] umod_def cbuf_stored_def Let_def)
  finally show ?thesis .
qed

lemma nth_splice_out: "w + length bs \<le> length d \<Longrightarrow> j < w \<or> w + length bs \<le> j \<Longrightarrow>
  (take w d @ bs @ drop (w + length bs) d) ! j = d ! j"
  by (auto simp: nth_append)

lemma nth_splice_in: "w + length bs \<le> length d \<Longrightarrow> k < length bs \<Longrightarrow>
  (take w d @ bs @ drop (w + length bs) d) ! (w + k) = bs ! k"
  by (simp add: nth_append)

lemma cbuf_stored_used:
  assumes "cbuf_wf c" "length bs \<le> cbuf_linear c"
  shows "unat (c_used (cbuf_stored c bs)) = unat (c_used c) + length bs"
  using cbuf_linear_bounds [OF assms(1)] assms
  by (auto simp: cbuf_stored_def Let_def unat_plus_u32 u32_simps cbuf_wf_def cbuf_room_def)

lemma cbuf_stored_wf:
  assumes wf: "cbuf_wf c" and n: "length bs \<le> cbuf_linear c"
  shows "cbuf_wf (cbuf_stored c bs)"
proof -
  note b = cbuf_linear_bounds [OF wf]
  have u: "unat (of_nat (length bs) :: u32) = length bs" using n b by (simp add: u32_simps)
  have "unat (c_writepos c + of_nat (length bs)) = unat (c_writepos c) + length bs"
    using n b wf by (auto simp: unat_plus_u32 u cbuf_wf_def)
  then have w: "unat (c_writepos (cbuf_stored c bs)) =
      (unat (c_readpos c) + (unat (c_used c) + length bs)) mod unat (c_size c)"
    using wf by (simp add: cbuf_stored_def Let_def unat_mod cbuf_wf_def mod_add_left_eq add.assoc)
  have "case c_data (cbuf_stored c bs) of None \<Rightarrow> False | Some d \<Rightarrow> length d = unat (c_size c)"
    using wf n b by (auto simp: cbuf_stored_def Let_def cbuf_wf_def split: option.splits)
  then show ?thesis
    using wf n b w cbuf_stored_used [OF wf n]
    by (auto simp: cbuf_wf_def cbuf_room_def split: option.splits)
qed

lemma cbuf_stored_list:
  assumes wf: "cbuf_wf c" and n: "length bs \<le> cbuf_linear c"
  shows "cbuf_list (cbuf_stored c bs) = cbuf_list c @ bs"
proof -
  let ?s = "unat (c_size c)" and ?r = "unat (c_readpos c)" and ?u = "unat (c_used c)"
  let ?w = "unat (c_writepos c)"
  define d where "d = (case c_data c of None \<Rightarrow> replicate ?s 0 | Some d \<Rightarrow> d)"
  have r: "?r < ?s" "?u \<le> ?s" and w: "?w = (?r + ?u) mod ?s" using wf by (simp_all add: cbuf_wf_def)
  have ld: "?w + length bs \<le> length d"
    using wf n cbuf_linear_bounds [OF wf] by (auto simp: d_def cbuf_wf_def split: option.splits)
  let ?d = "take ?w d @ bs @ drop (?w + length bs) d"
  have cell: "?d ! ((?r + i) mod ?s) = d ! ((?r + i) mod ?s)" if "i < ?u" for i
    using nth_splice_out [OF ld ring_old_cell [OF r n that, folded w]] .
  have "cbuf_list c = map (\<lambda>i. d ! ((?r + i) mod ?s)) [0..<?u]"
    using wf by (auto simp: cbuf_list_def d_def cbuf_wf_def split: option.splits)
  moreover have "map (\<lambda>i. ?d ! ((?r + i) mod ?s)) [0..<?u] = map (\<lambda>i. d ! ((?r + i) mod ?s)) [0..<?u]"
    by (rule map_cong [OF refl], rule cell) simp
  ultimately have old: "map (\<lambda>i. ?d ! ((?r + i) mod ?s)) [0..<?u] = cbuf_list c" by (simp only:)
  have new: "map (\<lambda>i. ?d ! ((?r + i) mod ?s)) [?u..<?u + length bs] = bs"
    using ring_new_cell [OF r n, folded w] by (intro nth_equalityI) (auto simp: nth_splice_in [OF ld])
  have "cbuf_list (cbuf_stored c bs) = map (\<lambda>i. ?d ! ((?r + i) mod ?s)) [0..<?u + length bs]"
    using cbuf_stored_used [OF wf n]
    by (simp add: cbuf_list_def) (simp add: cbuf_stored_def Let_def d_def)
  also have "[0..<?u + length bs] = [0..<?u] @ [?u..<?u + length bs]" by (rule upt_add_eq_append) simp
  finally show ?thesis using old new by simp
qed

lemma ring_segments:
  assumes "r < s" "u \<le> s" "length d = s"
  shows "map (\<lambda>i. d ! ((r + i) mod s)) [0..<u] = take (min u (s - r)) (drop r d) @ take (u - (s - r)) d"
proof (intro nth_equalityI)
  fix i assume "i < length (map (\<lambda>i. d ! ((r + i) mod s)) [0..<u])"
  then show "map (\<lambda>i. d ! ((r + i) mod s)) [0..<u] ! i
      = (take (min u (s - r)) (drop r d) @ take (u - (s - r)) d) ! i"
    using assms ring_position [of r s i] by (auto simp: nth_append add.commute)
qed (use assms in auto)

lemma cbuf_readptrs_eq:
  assumes wf: "cbuf_wf c"
  shows "\<exists>p1 p2. cbuf_readptrs c = Inr (p1, p2) \<and> p1 @ p2 = cbuf_list c \<and> (p1 = [] \<longrightarrow> cbuf_list c = [])"
proof (cases "c_data c")
  case None
  with wf show ?thesis by (simp add: cbuf_wf_def cbuf_readptrs_def cbuf_list_def)
next
  case (Some d)
  let ?s = "unat (c_size c)" and ?r = "unat (c_readpos c)" and ?u = "unat (c_used c)"
  have r: "?r < ?s" "?u \<le> ?s" "length d = ?s" using wf Some by (simp_all add: cbuf_wf_def)
  define l1 l2 where l1: "l1 = min (c_used c) (c_size c - c_readpos c)"
    and l2: "l2 = (if l1 < c_used c then c_used c - l1 else 0)"
  have u1: "unat l1 = min ?u (?s - ?r)"
    using r by (simp add: l1 unat_min_u32 unat_minus_u32 word_le_nat_alt)
  have u2: "unat l2 = ?u - (?s - ?r)"
    using u1 by (auto simp: l2 unat_minus_u32 u32_order)
  have list: "cbuf_list c = take (unat l1) (drop ?r d) @ take (unat l2) d"
    using ring_segments [OF r] Some by (simp add: cbuf_list_def u1 u2)
  have fits: "?r + unat l1 \<le> length d" "unat l2 \<le> length d" using r u1 u2 by auto
  have z: "l1 = 0 \<Longrightarrow> l2 = 0" using r u1 u2 by (auto simp: word_unat_eq_iff)
  have eq: "cbuf_readptrs c = (if l1 = 0 \<and> l2 = 0 then Inr ([], [])
     else rbind (mem_read d ?r (unat l1)) (\<lambda>p1. rbind (mem_read d 0 (unat l2)) (\<lambda>p2. Inr (p1, p2))))"
    by (simp only: cbuf_readptrs_def Let_def l1 [symmetric] l2 [symmetric] Some option.case)
  show ?thesis
  proof (cases "l1 = 0")
    case True
    then have "cbuf_readptrs c = Inr ([], [])" using z by (simp add: eq)
    then show ?thesis using True z list by simp
  next
    case False
    then have "cbuf_readptrs c = Inr (take (unat l1) (drop ?r d), take (unat l2) d)"
      using fits by (simp add: eq)
    moreover have "take (unat l1) (drop ?r d) \<noteq> []" using False r by (auto simp: word_unat_eq_iff)
    ultimately show ?thesis using list by simp
  qed
qed

lemma cbuf_incrread_eq:
  assumes wf: "cbuf_wf c" and n: "unat n \<le> unat (c_used c)"
  shows "\<exists>c'. cbuf_incrread c n = Inr c' \<and> cbuf_wf c' \<and> cbuf_list c' = drop (unat n) (cbuf_list c)
     \<and> c_size c' = c_size c \<and> unat (c_used c') = unat (c_used c) - unat n"
proof -
  let ?s = "unat (c_size c)" and ?r = "unat (c_readpos c)" and ?u = "unat (c_used c)"
  let ?c = "c\<lparr>c_used := c_used c - n, c_readpos := (c_readpos c + n) mod c_size c\<rparr>"
  have b: "0 < ?s" "?r < ?s" "?u \<le> ?s" "?s \<le> 100000000"
    and w: "unat (c_writepos c) = (?r + ?u) mod ?s" using wf by (auto simp: cbuf_wf_def)
  have le: "n \<le> c_used c" using n by (simp add: word_le_nat_alt)
  have u: "unat (c_used c - n) = ?u - unat n" using le by (simp add: unat_minus_u32)
  have r: "unat ((c_readpos c + n) mod c_size c) = (?r + unat n) mod ?s"
    using b n by (simp add: unat_mod unat_plus_u32)
  have "((?r + unat n) mod ?s + (?u - unat n)) mod ?s = (?r + ?u) mod ?s"
    using n by (simp only: mod_add_left_eq) simp
  then have "cbuf_wf ?c"
    using wf b n u r w by (auto simp: cbuf_wf_def word_unat_eq_iff split: option.splits)
  moreover have "cbuf_list ?c = drop (unat n) (cbuf_list c)"
    using n by (auto simp: cbuf_list_def u r mod_add_left_eq add.assoc intro!: nth_equalityI split: option.splits)
  moreover have "cbuf_incrread c n = Inr ?c"
    using le b by (auto simp: cbuf_incrread_def umod_def word_unat_eq_iff)
  ultimately show ?thesis using u by (intro exI [of _ ?c]) simp
qed

section \<open>The byte FIFO contract\<close>

definition cbuf_fits :: "circbuffer \<Rightarrow> nat \<Rightarrow> bool" where
  "cbuf_fits c k \<longleftrightarrow> cbuf_wf c \<and> k \<le> cbuf_linear c"

lemma linear_room_write:
  assumes "r < s" "u \<le> s" "n + k \<le> linear_room s r u"
  shows "k \<le> linear_room s r (u + n)"
  using assms ring_position [of r s u] ring_position [of r s "u + n"]
  by (auto simp: linear_room_def split: if_splits)

lemma cbuf_put_fits:
  assumes "cbuf_fits c (length bs + k)"
  shows "\<exists>c'. cbuf_write c bs = Inr c' \<and> cbuf_fits c' k \<and> cbuf_list c' = cbuf_list c @ bs"
proof -
  have wf: "cbuf_wf c" and n: "length bs + k \<le> cbuf_linear c" using assms by (auto simp: cbuf_fits_def)
  from n have m: "length bs \<le> cbuf_linear c" by simp
  have "k \<le> cbuf_linear (cbuf_stored c bs)"
    using linear_room_write [OF _ _ n] cbuf_wf_ring [OF wf] by (simp add: cbuf_stored_used [OF wf m])
  then show ?thesis
    using cbuf_write_eq [OF wf m] cbuf_stored_wf [OF wf m] cbuf_stored_list [OF wf m]
    by (simp add: cbuf_fits_def)
qed

lemma cbuf_put_full:
  assumes "cbuf_wf c" "\<not> cbuf_fits c (length bs)" "length bs < 4294967296"
  shows "cbuf_write c bs = Inl (Dropbear_exit ''Bad cbuf write'')"
proof -
  have "(of_nat (cbuf_linear c) :: u32) < of_nat (length bs)"
    using assms cbuf_linear_bounds [OF assms(1)]
    by (simp add: word_less_nat_alt u32_simps cbuf_fits_def)
  then show ?thesis by (simp add: cbuf_write_def cbuf_writeptr_def cbuf_writelen_eq [OF assms(1)])
qed

lemma cbuf_incrread_short:
  "unat (c_used c) < unat n \<Longrightarrow> cbuf_incrread c n = Inl (Assert_fail ''cbuf->used >= len'')"
  by (simp add: cbuf_incrread_def word_le_nat_alt dassert_def)

interpretation cb: byte_fifo cbuf_fits cbuf_list cbuf_write cbuf_wf cbuf_incrread
proof unfold_locales
  fix c bs k
  show "cbuf_fits c (length bs + k) \<Longrightarrow>
      \<exists>s'. cbuf_write c bs = Inr s' \<and> cbuf_fits s' k \<and> cbuf_list s' = cbuf_list c @ bs"
    by (rule cbuf_put_fits)
next
  fix c and n :: u32
  show "cbuf_wf c \<Longrightarrow> unat n \<le> length (cbuf_list c) \<Longrightarrow>
      \<exists>s'. cbuf_incrread c n = Inr s' \<and> cbuf_wf s' \<and> cbuf_list s' = drop (unat n) (cbuf_list c)"
    using cbuf_incrread_eq [of c n] by (auto simp: length_cbuf_list)
qed (auto simp: cbuf_put_full cbuf_incrread_short length_cbuf_list, auto simp: cbuf_fits_def)

section \<open>Sequences of operations\<close>

datatype cbuf_op = Cwrite bytes | Cincrread u32

fun cbuf_exec :: "cbuf_op \<Rightarrow> circbuffer \<Rightarrow> circbuffer res" where
  "cbuf_exec (Cwrite bs) c = cbuf_write c bs"
| "cbuf_exec (Cincrread n) c = cbuf_incrread c n"

fun cbuf_run :: "cbuf_op list \<Rightarrow> circbuffer \<Rightarrow> circbuffer res" where
  "cbuf_run [] c = Inr c"
| "cbuf_run (x # xs) c = rbind (cbuf_exec x c) (cbuf_run xs)"

text \<open>All bytes written, and the number of bytes taken, by a sequence of operations.\<close>

fun cbuf_written :: "cbuf_op list \<Rightarrow> bytes" where
  "cbuf_written [] = []"
| "cbuf_written (Cwrite bs # xs) = bs @ cbuf_written xs"
| "cbuf_written (Cincrread n # xs) = cbuf_written xs"

fun cbuf_taken :: "cbuf_op list \<Rightarrow> nat" where
  "cbuf_taken [] = 0"
| "cbuf_taken (Cwrite bs # xs) = cbuf_taken xs"
| "cbuf_taken (Cincrread n # xs) = unat n + cbuf_taken xs"

fun cbuf_op_ok :: "cbuf_op \<Rightarrow> bool" where
  "cbuf_op_ok (Cwrite bs) = (length bs < 4294967296)"
| "cbuf_op_ok (Cincrread n) = True"

lemma cbuf_run_ok:
  "cbuf_wf c \<Longrightarrow> list_all cbuf_op_ok xs \<Longrightarrow>
     res_ok (\<lambda>c'. cbuf_wf c' \<and> cbuf_list c' = drop (cbuf_taken xs) (cbuf_list c @ cbuf_written xs)) (cbuf_run xs c)"
proof (induction xs arbitrary: c)
  case Nil
  then show ?case by simp
next
  case (Cons x xs)
  show ?case
  proof (cases x)
    case (Cwrite bs)
    with Cons show ?thesis
      by (auto intro!: res_ok_rbind [OF cb.put_res_ok] res_ok_mono [OF Cons.IH])
  next
    case (Cincrread n)
    with Cons.prems show ?thesis
      by (auto intro!: res_ok_rbind [OF cb.drop_front_res_ok] res_ok_mono [OF Cons.IH] simp: add.commute)
  qed
qed

lemma cbuf_new_wf: "0 < sz \<Longrightarrow> sz \<le> MAX_CBUF_SIZE \<Longrightarrow>
    \<exists>c. cbuf_new sz = Inr c \<and> cbuf_wf c \<and> cbuf_list c = []"
  by (auto simp: cbuf_new_def cbuf_wf_def cbuf_list_def u32_order)

text \<open>
  The two consistency assertions of \<^verbatim>\<open>cbuf_writelen\<close> hold on a well-formed buffer; it reports space unless the buffer
  is full, and never more than the free space.
\<close>

lemma cbuf_writelen_sound:
  assumes wf: "cbuf_wf c"
  shows "\<exists>l. cbuf_writelen c = Inr l \<and> (l = 0 \<longleftrightarrow> c_used c = c_size c) \<and> l \<le> cbuf_getavail c"
proof -
  note b = cbuf_linear_bounds [OF wf]
  have "of_nat (cbuf_linear c) = (0 :: u32) \<longleftrightarrow> cbuf_linear c = 0"
    using b by (simp add: word_unat_eq_iff u32_simps)
  also have "\<dots> \<longleftrightarrow> c_used c = c_size c"
    using linear_room_pos [of "unat (c_readpos c)" "unat (c_size c)" "unat (c_used c)"] cbuf_wf_ring [OF wf]
    by (auto simp: linear_room_def word_unat_eq_iff)
  finally show ?thesis
    using b by (simp add: cbuf_writelen_eq [OF wf] word_le_nat_alt unat_cbuf_getavail [OF wf] u32_simps)
qed

section \<open>Properties\<close>

text \<open>
  Property C15. The circular buffer is a FIFO of bytes: whatever sequence of writes and
  reads is run on a new buffer, the process is never led to undefined behaviour, and a run
  that is not ended by a rejected operation leaves a well-formed buffer whose two read
  segments are, in order, all the bytes written without those already taken. On that buffer the two
  consistency assertions of \<^verbatim>\<open>cbuf_writelen\<close> hold; it reports space unless the buffer is
  full, and never more than the free space.
\<close>

theorem cbuf_fifo:
  assumes "0 < sz" "sz \<le> MAX_CBUF_SIZE" "list_all cbuf_op_ok xs"
  shows "res_ok (\<lambda>c. cbuf_wf c \<and>
           (\<exists>p1 p2. cbuf_readptrs c = Inr (p1, p2) \<and> p1 @ p2 = drop (cbuf_taken xs) (cbuf_written xs)) \<and>
           (\<exists>l. cbuf_writelen c = Inr l \<and> (l = 0 \<longleftrightarrow> c_used c = c_size c) \<and> l \<le> cbuf_getavail c))
         (rbind (cbuf_new sz) (cbuf_run xs))"
proof -
  obtain c where c: "cbuf_new sz = Inr c" "cbuf_wf c" "cbuf_list c = []"
    using cbuf_new_wf [OF assms(1,2)] by blast
  have "res_ok (\<lambda>c'. cbuf_wf c' \<and> cbuf_list c' = drop (cbuf_taken xs) (cbuf_written xs)) (cbuf_run xs c)"
    using cbuf_run_ok [OF c(2) assms(3)] c(3) by simp
  then show ?thesis
    unfolding c(1) rbind_simps by (rule res_ok_mono) (use cbuf_readptrs_eq cbuf_writelen_sound in force)
qed

theorem cbuf_fifo_witness:
  "rbind (rbind (cbuf_new 4) (cbuf_run [Cwrite [1, 2, 3], Cincrread 2, Cwrite [4], Cwrite [5, 6]]))
       cbuf_readptrs = Inr ([3, 4], [5, 6])
   \<and> res_ok (\<lambda>c. cbuf_wf c \<and> (\<exists>p1 p2. cbuf_readptrs c = Inr (p1, p2) \<and> p1 @ p2 = [3, 4, 5, 6]) \<and>
         (\<exists>l. cbuf_writelen c = Inr l \<and> (l = 0 \<longleftrightarrow> c_used c = c_size c) \<and> l \<le> cbuf_getavail c))
       (rbind (cbuf_new 4) (cbuf_run [Cwrite [1, 2, 3], Cincrread 2, Cwrite [4], Cwrite [5, 6]]))"
  by (rule conjI, code_simp)
    (use cbuf_fifo [of 4 "[Cwrite [1, 2, 3], Cincrread 2, Cwrite [4], Cwrite [5, 6]]"] in simp)

end
