(* ===== verification/Queue.thy ===== *)
theory Queue
  imports Interfaces
begin

text \<open>
  The singly linked queue of \<^verbatim>\<open>queue.c\<close>, which holds the encrypted packets waiting to be
  written. The links live in a store of cells by address; \<^verbatim>\<open>m_malloc\<close> hands out an address
  that is not live and \<^verbatim>\<open>m_free\<close> makes an address dead, so that following a freed or a
  null link is a fault. \<open>queue_rep\<close> relates the pointer structure to the list of items, and
  the operations are shown to be the list operations.
\<close>

section \<open>The data structure and its operations\<close>

record 'i link =
  l_item :: 'i
  l_link :: "nat option"

record 'i queue =
  q_head :: "nat option"
  q_tail :: "nat option"
  q_count :: u32
  q_cells :: "nat \<Rightarrow> 'i link option"
  q_brk :: nat

text \<open>Dereferencing a pointer to a link.\<close>

definition link_at :: "(nat \<Rightarrow> 'i link option) \<Rightarrow> nat option \<Rightarrow> 'i link res" where
  "link_at h p = (case p of None \<Rightarrow> Inl Fault
     | Some a \<Rightarrow> (case h a of None \<Rightarrow> Inl Fault | Some l \<Rightarrow> Inr l))"

definition initqueue :: "'i queue" where
  "initqueue = \<lparr>q_head = None, q_tail = None, q_count = 0, q_cells = Map.empty, q_brk = 0\<rparr>"

definition isempty :: "'i queue \<Rightarrow> bool" where
  "isempty q \<longleftrightarrow> q_head q = None"

definition dequeue :: "'i queue \<Rightarrow> ('i \<times> 'i queue) res" where
  "dequeue q =
     rbind (dassert (\<not> isempty q) ''!isempty(queue)'') (\<lambda>_.
     rbind (link_at (q_cells q) (q_head q)) (\<lambda>oldhead.
     let ret = l_item oldhead;
         q' = (if l_link oldhead \<noteq> None then q\<lparr>q_head := l_link oldhead\<rparr>
               else q\<lparr>q_head := None, q_tail := None\<rparr>);
         q' = q'\<lparr>q_cells := (q_cells q)(the (q_head q) := None)\<rparr>
     in Inr (ret, q'\<lparr>q_count := q_count q - 1\<rparr>)))"

definition examine :: "'i queue \<Rightarrow> 'i res" where
  "examine q =
     rbind (dassert (\<not> isempty q) ''!isempty(queue)'') (\<lambda>_.
     rbind (link_at (q_cells q) (q_head q)) (\<lambda>l. Inr (l_item l)))"

definition enqueue :: "'i queue \<Rightarrow> 'i \<Rightarrow> 'i queue res" where
  "enqueue q item =
     (let newlink = q_brk q;
          h = (q_cells q)(newlink \<mapsto> \<lparr>l_item = item, l_link = None\<rparr>);
          q = q\<lparr>q_cells := h, q_brk := Suc newlink\<rparr>
      in rbind (case q_tail q of None \<Rightarrow> Inr q
                | Some t \<Rightarrow> rbind (link_at (q_cells q) (Some t)) (\<lambda>l.
                    Inr (q\<lparr>q_cells := (q_cells q)(t \<mapsto> l\<lparr>l_link := Some newlink\<rparr>)\<rparr>))) (\<lambda>q.
         let q = q\<lparr>q_tail := Some newlink\<rparr>;
             q = (if q_head q = None then q\<lparr>q_head := Some newlink\<rparr> else q)
         in Inr (q\<lparr>q_count := q_count q + 1\<rparr>)))"

section \<open>What a queue holds\<close>

fun chain :: "(nat \<Rightarrow> 'i link option) \<Rightarrow> nat option \<Rightarrow> nat list \<Rightarrow> 'i list \<Rightarrow> bool" where
  "chain h p [] [] = (p = None)"
| "chain h p (a # as) (x # xs) =
     (p = Some a \<and> (case h a of None \<Rightarrow> False | Some l \<Rightarrow> l_item l = x \<and> chain h (l_link l) as xs))"
| "chain h p _ _ = False"

definition queue_rep :: "'i queue \<Rightarrow> 'i list \<Rightarrow> bool" where
  "queue_rep q xs \<longleftrightarrow> (\<exists>as. chain (q_cells q) (q_head q) as xs \<and> distinct as \<and> (\<forall>a \<in> set as. a < q_brk q)
     \<and> q_tail q = (if as = [] then None else Some (last as)) \<and> q_count q = of_nat (length xs))"

lemma chain_length: "chain h p as xs \<Longrightarrow> length as = length xs"
  by (induction h p as xs rule: chain.induct) (auto split: option.splits)

lemma chain_frame: "chain h p as xs \<Longrightarrow> a \<notin> set as \<Longrightarrow> chain (h(a := v)) p as xs"
  by (induction h p as xs rule: chain.induct) (auto split: option.splits)

lemma chain_Nil [simp]: "chain h p as [] \<longleftrightarrow> p = None \<and> as = []"
  by (cases as) auto

lemma chain_None [simp]: "chain h None as xs \<longleftrightarrow> as = [] \<and> xs = []"
  by (cases as; cases xs) auto

lemma chain_ConsD:
  "chain h p as (x # xs) \<Longrightarrow>
     \<exists>a as' l. as = a # as' \<and> p = Some a \<and> h a = Some l \<and> l_item l = x \<and> chain h (l_link l) as' xs"
  by (cases as) (auto split: option.splits)

text \<open>Hanging a fresh cell on the last link extends the chain by one item.\<close>

lemma chain_snoc:
  "chain h p as xs \<Longrightarrow> as \<noteq> [] \<Longrightarrow> distinct as \<Longrightarrow> n \<notin> set as \<Longrightarrow>
   h n = Some \<lparr>l_item = x, l_link = None\<rparr> \<Longrightarrow>
     \<exists>l. h (last as) = Some l
       \<and> chain (h(last as \<mapsto> l\<lparr>l_link := Some n\<rparr>)) p (as @ [n]) (xs @ [x])"
proof (induction h p as xs rule: chain.induct)
  case (2 h p a as y ys)
  then obtain l where l: "h a = Some l" "l_item l = y" "chain h (l_link l) as ys" "p = Some a"
    by (auto split: option.splits)
  show ?case
  proof (cases "as = []")
    case True
    with 2 l show ?thesis by (cases ys) auto
  next
    case False
    have "distinct as" "n \<notin> set as" using 2(4,5) by auto
    then obtain k where "h (last as) = Some k"
      "chain (h(last as \<mapsto> k\<lparr>l_link := Some n\<rparr>)) (l_link l) (as @ [n]) (ys @ [x])"
      using "2.IH" [OF l(1) l(3) False _ _ 2(6)] by blast
    moreover have "last as \<noteq> a" using 2 False last_in_set by fastforce
    ultimately show ?thesis using l False by (simp add: fun_upd_def)
  qed
qed auto

lemma queue_rep_init: "queue_rep initqueue []"
  by (simp add: queue_rep_def initqueue_def)

lemma isempty_rep: "queue_rep q xs \<Longrightarrow> isempty q \<longleftrightarrow> xs = []"
  by (cases xs) (auto simp: queue_rep_def isempty_def dest: chain_ConsD)

lemma examine_rep: "queue_rep q (x # xs) \<Longrightarrow> examine q = Inr x"
  by (auto simp: queue_rep_def examine_def isempty_def link_at_def dest!: chain_ConsD)

lemma dequeue_rep: "queue_rep q (x # xs) \<Longrightarrow> \<exists>q'. dequeue q = Inr (x, q') \<and> queue_rep q' xs"
proof -
  assume "queue_rep q (x # xs)"
  then obtain a as l where r: "q_head q = Some a" "q_cells q a = Some l" "l_item l = x"
    "chain (q_cells q) (l_link l) as xs" "distinct (a # as)" "\<forall>b \<in> set (a # as). b < q_brk q"
    "q_tail q = Some (last (a # as))" "q_count q = of_nat (length (x # xs))"
    unfolding queue_rep_def by (auto dest!: chain_ConsD)
  have c: "chain ((q_cells q)(a := None)) (l_link l) as xs" using r by (auto intro: chain_frame)
  have n: "as = [] \<longleftrightarrow> l_link l = None" using r(4) by (cases as; cases xs) auto
  let ?q = "(if l_link l \<noteq> None then q\<lparr>q_head := l_link l\<rparr> else q\<lparr>q_head := None, q_tail := None\<rparr>)
      \<lparr>q_cells := (q_cells q)(a := None), q_count := q_count q - 1\<rparr>"
  have "dequeue q = Inr (x, ?q)"
    using r by (simp add: dequeue_def isempty_def link_at_def Let_def)
  moreover have "queue_rep ?q xs"
    unfolding queue_rep_def using c r n by (intro exI [of _ as]) (auto simp: chain_length)
  ultimately show ?thesis by blast
qed

lemma enqueue_rep: "queue_rep q xs \<Longrightarrow> \<exists>q'. enqueue q x = Inr q' \<and> queue_rep q' (xs @ [x])"
proof -
  assume "queue_rep q xs"
  then obtain as where r: "chain (q_cells q) (q_head q) as xs" "distinct as" "\<forall>a \<in> set as. a < q_brk q"
    "q_tail q = (if as = [] then None else Some (last as))" "q_count q = of_nat (length xs)"
    unfolding queue_rep_def by auto
  let ?n = "q_brk q"
  let ?h = "(q_cells q)(?n \<mapsto> \<lparr>l_item = x, l_link = None\<rparr>)"
  have fresh: "?n \<notin> set as" using r by auto
  show ?thesis
  proof (cases "as = []")
    case True
    with r have "xs = []" "q_head q = None" by (cases xs; simp)+
    with True r show ?thesis
      by (auto simp: enqueue_def Let_def queue_rep_def intro!: exI [of _ "[?n]"])
  next
    case False
    obtain l where l: "?h (last as) = Some l"
      "chain (?h(last as \<mapsto> l\<lparr>l_link := Some ?n\<rparr>)) (q_head q) (as @ [?n]) (xs @ [x])"
      using chain_snoc [OF chain_frame [OF r(1) fresh] False r(2) fresh] by auto
    have hd: "q_head q \<noteq> None" using r(1) False by (cases "q_head q") auto
    have "enqueue q x = Inr (q\<lparr>q_cells := ?h(last as \<mapsto> l\<lparr>l_link := Some ?n\<rparr>), q_brk := Suc ?n,
        q_tail := Some ?n, q_count := q_count q + 1\<rparr>)" (is "_ = Inr ?q")
      using r False l hd by (auto simp: enqueue_def Let_def link_at_def)
    moreover have "queue_rep ?q (xs @ [x])"
      unfolding queue_rep_def using l r fresh by (intro exI [of _ "as @ [?n]"]) (auto simp: less_SucI)
    ultimately show ?thesis by blast
  qed
qed

interpretation pq: item_queue queue_rep isempty enqueue dequeue examine
  by unfold_locales (auto simp: isempty_rep examine_rep intro: enqueue_rep dequeue_rep)

section \<open>Sequences of operations\<close>

datatype 'i queue_op = Enqueue 'i | Dequeue

fun queue_exec :: "'i queue_op \<Rightarrow> 'i list \<times> 'i queue \<Rightarrow> ('i list \<times> 'i queue) res" where
  "queue_exec (Enqueue x) (out, q) = rbind (enqueue q x) (\<lambda>q. Inr (out, q))"
| "queue_exec Dequeue (out, q) = rbind (dequeue q) (\<lambda>(x, q). Inr (out @ [x], q))"

fun queue_run :: "'i queue_op list \<Rightarrow> 'i list \<times> 'i queue \<Rightarrow> ('i list \<times> 'i queue) res" where
  "queue_run [] s = Inr s"
| "queue_run (x # xs) s = rbind (queue_exec x s) (queue_run xs)"

text \<open>The same sequence on lists: the items taken, and those still held.\<close>

fun queue_spec :: "'i queue_op list \<Rightarrow> 'i list \<times> 'i list \<Rightarrow> ('i list \<times> 'i list) res" where
  "queue_spec [] s = Inr s"
| "queue_spec (Enqueue x # ops) (out, xs) = queue_spec ops (out, xs @ [x])"
| "queue_spec (Dequeue # ops) (out, xs) =
     (case xs of [] \<Rightarrow> Inl (Assert_fail ''!isempty(queue)'') | x # xs \<Rightarrow> queue_spec ops (out @ [x], xs))"

lemma dequeue_empty: "queue_rep q [] \<Longrightarrow> dequeue q = Inl (Assert_fail ''!isempty(queue)'')"
  by (simp add: dequeue_def isempty_rep)

lemma queue_run_spec:
  "queue_rep q xs \<Longrightarrow>
     (case queue_spec ops (out, xs) of
        Inl e \<Rightarrow> queue_run ops (out, q) = Inl e
      | Inr (out', xs') \<Rightarrow> \<exists>q'. queue_run ops (out, q) = Inr (out', q') \<and> queue_rep q' xs')"
proof (induction ops "(out, xs)" arbitrary: out xs q rule: queue_spec.induct)
  case 1
  then show ?case by simp
next
  case (2 x ops out xs)
  obtain q' where q': "enqueue q x = Inr q'" "queue_rep q' (xs @ [x])"
    using enqueue_rep [OF 2(2), of x] by blast
  then have "queue_run (Enqueue x # ops) (out, q) = queue_run ops (out, q')" by simp
  with 2(1) [OF q'(2)] show ?case by (simp only: queue_spec.simps)
next
  case (3 ops out xs)
  show ?case
  proof (cases xs)
    case Nil
    with 3 show ?thesis by (simp add: dequeue_empty)
  next
    case (Cons x xs')
    obtain q' where q': "dequeue q = Inr (x, q')" "queue_rep q' xs'"
      using dequeue_rep [OF 3(2) [unfolded Cons]] by blast
    then have run: "queue_run (Dequeue # ops) (out, q) = queue_run ops (out @ [x], q')" by simp
    show ?thesis unfolding Cons queue_spec.simps list.case run by (rule 3(1) [OF Cons q'(2)])
  qed
qed

section \<open>Properties\<close>

text \<open>
  Property C16. The linked queue implements a list of items: every sequence of enqueue and
  dequeue operations on a new queue gives the items of the same sequence on a list (in the
  order they were put), ends with a linked structure that holds exactly the remaining
  items, whose \<^verbatim>\<open>count\<close> is their number, and stops only where the list is empty, with the
  assertion of \<^verbatim>\<open>dequeue\<close>. No freed or null link is ever followed.
\<close>

theorem queue_refines_list:
  "case queue_spec ops ([], []) of
     Inl e \<Rightarrow> queue_run ops ([], initqueue) = Inl e
   | Inr (out, xs) \<Rightarrow> \<exists>q. queue_run ops ([], initqueue) = Inr (out, q) \<and> queue_rep q xs
       \<and> q_count q = of_nat (length xs)"
  using queue_run_spec [OF queue_rep_init, of ops "[]"]
  by (auto simp: queue_rep_def split: sum.splits prod.splits)

end
