(* ===== verification/Session.thy ===== *)
theory Session
  imports Buffer_Codec Queue
begin

unbundle bit_operations_syntax

text \<open>
  The session state shared by the packet layer, the key exchange and the authentication
  code (\<^verbatim>\<open>struct sshsession\<close> and the structures it holds). The application is built
  with \<^verbatim>\<open>DROPBEAR_SERVER\<close> only, so \<^verbatim>\<open>IS_DROPBEAR_SERVER\<close> is the constant 1 and the client
  branches are not compiled. Ciphers, MACs, hashes and zlib are called through function
  pointers or library functions: they are fields of the state, so that every definition is
  over an arbitrary choice of them. The clock and the random source are streams of values
  with a position.
\<close>

section \<open>Algorithms\<close>

text \<open>
  \<^verbatim>\<open>struct dropbear_cipher_mode\<close>. A cipher state is opaque. \<open>None\<close> as a result stands for
  any return code other than \<^verbatim>\<open>CRYPT_OK\<close>; \<open>None\<close> as a field is a null function pointer.
  \<open>cm_aead_crypt seq inp taglen st enc\<close> gives the output for the whole input.
\<close>

record cipher_hash =
  ch_hash_desc :: "bytes option"
  ch_keysize :: u32
  ch_hashsize :: byte

record cipher_mode =
  cm_start :: "int \<Rightarrow> bytes \<Rightarrow> bytes \<Rightarrow> u32 \<Rightarrow> bytes option"
  cm_encrypt :: "bytes \<Rightarrow> bytes \<Rightarrow> (bytes \<times> bytes) option"
  cm_decrypt :: "bytes \<Rightarrow> bytes \<Rightarrow> (bytes \<times> bytes) option"
  cm_aead_crypt :: "(u32 \<Rightarrow> bytes \<Rightarrow> nat \<Rightarrow> bytes \<Rightarrow> bool \<Rightarrow> (bytes \<times> bytes) option) option"
  cm_aead_getlength :: "u32 \<Rightarrow> bytes \<Rightarrow> bytes \<Rightarrow> (u32 \<times> bytes) option"
  cm_aead_mac :: "cipher_hash option"

text \<open>
  \<^verbatim>\<open>struct dropbear_cipher\<close>; a null descriptor is \<open>None\<close>, a descriptor with a null name
  \<open>Some None\<close>.
\<close>

record cipher =
  cp_cipherdesc :: "bytes option option"
  cp_keysize :: u32
  cp_blocksize :: byte

text \<open>A hash descriptor: its output size and the function of all the bytes processed.\<close>

record hash_desc =
  hd_hashsize :: u32
  hd_hash :: "bytes \<Rightarrow> bytes"

datatype kex_mode = KEX_NORMAL_DH | KEX_ECDH | KEX_CURVE25519 | KEX_PQHYBRID

text \<open>
  \<^verbatim>\<open>struct dropbear_kem_desc\<close>: encapsulation draws on the random bytes to come and gives the cipher text and
  the shared secret, and how many of these bytes it used. A curve of libtomcrypt: making a
  key (public octets and secret), which draws on random bytes in the same way, reading a public key, which is refused or kept in its
  canonical form, and the shared secret.
\<close>

record kem_desc =
  kem_public_len :: u32
  kem_ciphertext_len :: u32
  kem_output_len :: u32
  kem_enc :: "bytes \<Rightarrow> (nat \<Rightarrow> byte) \<Rightarrow> (bytes \<times> bytes) \<times> nat"

record ecc_curve =
  ecc_make_key :: "(nat \<Rightarrow> byte) \<Rightarrow> (bytes \<times> bytes) option \<times> nat"
  ecc_raw_pubkey :: "bytes \<Rightarrow> bytes option"
  ecc_shared_secret :: "bytes \<Rightarrow> bytes \<Rightarrow> int"

text \<open>\<^verbatim>\<open>struct dropbear_kex\<close>; \<^verbatim>\<open>details\<close> is a curve or a KEM, depending on the mode.\<close>

record kex_alg =
  kx_mode :: kex_mode
  kx_dh_p_bytes :: bytes
  kx_curve :: "ecc_curve option"
  kx_kem :: "kem_desc option"
  kx_hash_desc :: hash_desc

datatype comp = COMP_NONE | COMP_ZLIB | COMP_ZLIB_DELAY

text \<open>\<^verbatim>\<open>struct key_context_directional\<close> and \<^verbatim>\<open>struct key_context\<close>.\<close>

record key_dir =
  kd_algo_crypt :: "cipher option"
  kd_crypt_mode :: "cipher_mode option"
  kd_algo_mac :: "cipher_hash option"
  kd_hash_index :: int
  kd_algo_comp :: comp
  kd_zstream :: "bytes option"
  kd_cipher_state :: bytes
  kd_mackey :: bytes
  kd_valid :: bool

record key_context =
  k_recv :: key_dir
  k_trans :: key_dir
  k_algo_kex :: "kex_alg option"
  k_algo_hostkey :: int
  k_algo_signature :: int

text \<open>
  The library functions the session calls: libtomcrypt's HMAC, cipher and hash lookup, and
  zlib. \<open>l_inflate st inp room\<close> is the return code being \<^verbatim>\<open>Z_OK\<close>, the output, the number
  of input bytes left and the new stream state; likewise \<open>l_deflate\<close>. An end of stream
  returns whether it is not \<^verbatim>\<open>Z_STREAM_ERROR\<close>.
\<close>

record libs =
  l_hmac :: "int \<Rightarrow> bytes \<Rightarrow> bytes \<Rightarrow> bytes option"
  l_find_cipher :: "bytes \<Rightarrow> int"
  l_find_hash :: "bytes \<Rightarrow> int"
  l_inflateInit :: "bytes option"
  l_inflate :: "bytes \<Rightarrow> bytes \<Rightarrow> nat \<Rightarrow> bool \<times> bytes \<times> nat \<times> bytes"
  l_inflateEnd :: "bytes \<Rightarrow> bool"
  l_deflateInit2 :: "bytes option"
  l_deflate :: "bytes \<Rightarrow> bytes \<Rightarrow> nat \<Rightarrow> bool \<times> bytes \<times> nat \<times> bytes"
  l_deflateEnd :: "bytes \<Rightarrow> bool"

section \<open>Session state\<close>

record KEXState =
  sentkexinit :: bool
  recvkexinit :: bool
  them_firstfollows :: bool
  sentnewkeys :: bool
  recvnewkeys :: bool
  donefirstkex :: bool
  donesecondkex :: bool
  recvfirstnewkeys :: bool
  our_first_follows_matches :: bool
  strict_kex :: bool
  lastkextime :: int
  needrekey :: bool
  datatrans :: u32
  datarecv :: u32

record timespec =
  tv_sec :: int
  tv_nsec :: int

text \<open>The options of a line of the authorized keys.\<close>

record PermitTCPFwdEntry =
  fwd_host :: "bytes option"
  fwd_port :: u32

record PubKeyOptions =
  no_port_forwarding_flag :: bool
  no_agent_forwarding_flag :: bool
  no_x11_forwarding_flag :: bool
  no_pty_flag :: bool
  forced_command :: "bytes option"
  permit_open_destinations :: "PermitTCPFwdEntry list option"
  permit_listens :: "PermitTCPFwdEntry list option"
  no_touch_required_flag :: bool
  verify_required_flag :: bool
  info_env :: "bytes option"

record AuthState =
  a_username :: "bytes option"
  authtypes :: byte
  failcount :: u32
  authdone :: bool
  perm_warn :: bool
  checkusername_failed :: bool
  auth_starttime :: timespec
  serv_pubkey_query_count :: u32
  pw_uid :: u32
  pw_gid :: u32
  pw_dir :: "bytes option"
  pw_shell :: "bytes option"
  pw_name :: "bytes option"
  pw_passwd :: "bytes option"
  pubkey_options :: "PubKeyOptions option"

text \<open>
  The outside world as the session reads it: successive values of the monotonic clock, of
  the high-resolution clock and of the random generator, each with the number of values
  already read.
\<close>

record world =
  w_clock :: "nat \<Rightarrow> int"
  w_ticks :: nat
  w_hires :: "nat \<Rightarrow> timespec"
  w_hires_ticks :: nat
  w_rand :: "nat \<Rightarrow> byte"
  w_rand_pos :: nat

record sshsession =
  s_remoteident :: "bytes option"
  s_writepayload :: buffer
  s_writequeue :: "buffer queue"
  s_writequeue_len :: u32
  s_readbuf :: "buffer option"
  s_payload :: "buffer option"
  s_payload_beginning :: u32
  s_transseq :: u32
  s_recvseq :: u32
  s_dataallowed :: bool
  s_requirenext :: byte
  s_ignorenext :: bool
  s_lastpacket :: byte
  s_connect_time :: int
  s_last_packet_time_keepalive_sent :: int
  s_last_packet_time_keepalive_recv :: int
  s_last_packet_time_any_sent :: int
  s_last_packet_time_idle :: int
  s_kexstate :: KEXState
  s_keys :: key_context
  s_newkeys :: "key_context option"
  s_session_id :: "buffer option"
  s_dh_K :: "int option"
  s_dh_K_bytes :: "buffer option"
  s_hash :: "buffer option"
  s_kexhashbuf :: "buffer option"
  s_transkexinit :: "buffer option"
  s_compression :: bool
  s_allow_ext_info :: bool
  s_reply_queue :: "buffer list"
  s_authstate :: AuthState
  s_allowprivport :: bool
  s_libs :: libs
  s_world :: world

section \<open>Access to the world and to pointers\<close>

text \<open>Following a pointer that may be null.\<close>

definition deref :: "'a option \<Rightarrow> 'a res" where
  "deref p = (case p of None \<Rightarrow> Inl Fault | Some x \<Rightarrow> Inr x)"

lemma deref_simps [simp]: "deref None = Inl Fault" "deref (Some x) = Inr x"
  by (simp_all add: deref_def)

lemma deref_eq_Inr [res_elims]: "deref p = Inr x \<longleftrightarrow> p = Some x"
  by (cases p) auto

definition monotonic_now :: "sshsession \<Rightarrow> int \<times> sshsession" where
  "monotonic_now s = (w_clock (s_world s) (w_ticks (s_world s)),
     s\<lparr>s_world := (s_world s)\<lparr>w_ticks := Suc (w_ticks (s_world s))\<rparr>\<rparr>)"

definition gettime_wrapper :: "sshsession \<Rightarrow> timespec \<times> sshsession" where
  "gettime_wrapper s = (w_hires (s_world s) (w_hires_ticks (s_world s)),
     s\<lparr>s_world := (s_world s)\<lparr>w_hires_ticks := Suc (w_hires_ticks (s_world s))\<rparr>\<rparr>)"

definition genrandom :: "sshsession \<Rightarrow> nat \<Rightarrow> bytes \<times> sshsession" where
  "genrandom s n = (map (w_rand (s_world s)) [w_rand_pos (s_world s)..<w_rand_pos (s_world s) + n],
     s\<lparr>s_world := (s_world s)\<lparr>w_rand_pos := w_rand_pos (s_world s) + n\<rparr>\<rparr>)"

text \<open>A library function that draws on the random bytes to come.\<close>

definition draw_random :: "((nat \<Rightarrow> byte) \<Rightarrow> 'a \<times> nat) \<Rightarrow> sshsession \<Rightarrow> 'a \<times> sshsession" where
  "draw_random f s = (let w = s_world s; (x, n) = f (\<lambda>i. w_rand w (w_rand_pos w + i))
     in (x, s\<lparr>s_world := w\<lparr>w_rand_pos := w_rand_pos w + n\<rparr>\<rparr>))"

lemma length_genrandom [simp]: "length (fst (genrandom s n)) = n"
  by (simp add: genrandom_def)

text \<open>The comparison of MACs and passwords.\<close>

definition constant_time_memcmp :: "bytes \<Rightarrow> bytes \<Rightarrow> nat \<Rightarrow> byte res" where
  "constant_time_memcmp a b n =
     rbind (mem_read a 0 n) (\<lambda>xa. rbind (mem_read b 0 n) (\<lambda>xb.
     Inr (foldl (\<lambda>c (x, y). c OR (x XOR y)) 0 (zip xa xb))))"

lemma or_eq_0_word: "(a :: byte) OR b = 0 \<longleftrightarrow> a = 0 \<and> b = 0"
  by (auto simp: bit_eq_iff bit_or_iff)

lemma xor_eq_0_word: "(a :: byte) XOR b = 0 \<longleftrightarrow> a = b"
  by (auto simp: bit_eq_iff bit_xor_iff)

lemma foldl_or_zero:
  "foldl (\<lambda>c (x, y). c OR (x XOR y)) c (zip a b) = 0 \<longleftrightarrow>
     c = 0 \<and> take (length b) a = take (length a) (b :: bytes)"
proof (induction a arbitrary: b c)
  case Nil
  then show ?case by simp
next
  case (Cons x a)
  then show ?case by (cases b) (auto simp: or_eq_0_word xor_eq_0_word)
qed

lemma constant_time_memcmp_eq:
  assumes "n \<le> length a" "n \<le> length b"
  shows "\<exists>c. constant_time_memcmp a b n = Inr c \<and> (c = 0 \<longleftrightarrow> take n a = take n b)"
  using assms foldl_or_zero [of 0 "take n a" "take n b"]
  by (simp add: constant_time_memcmp_def)

section \<open>The initial session\<close>

text \<open>The null cipher and the null MAC, in use until the first key exchange.\<close>

definition void_cipher :: "bytes \<Rightarrow> bytes \<Rightarrow> (bytes \<times> bytes) option" where
  "void_cipher inp st = Some (inp, st)"

definition void_start :: "int \<Rightarrow> bytes \<Rightarrow> bytes \<Rightarrow> u32 \<Rightarrow> bytes option" where
  "void_start cipher IV key keylen = Some []"

definition dropbear_nocipher :: cipher where
  "dropbear_nocipher = \<lparr>cp_cipherdesc = None, cp_keysize = 16, cp_blocksize = 8\<rparr>"

definition dropbear_mode_none :: cipher_mode where
  "dropbear_mode_none = \<lparr>cm_start = void_start, cm_encrypt = void_cipher, cm_decrypt = void_cipher,
     cm_aead_crypt = None, cm_aead_getlength = (\<lambda>_ _ _. None), cm_aead_mac = None\<rparr>"

definition dropbear_nohash :: cipher_hash where
  "dropbear_nohash = \<lparr>ch_hash_desc = None, ch_keysize = 16, ch_hashsize = 0\<rparr>"

text \<open>What \<^verbatim>\<open>m_malloc\<close> and the static initialisation leave in the structures: all zero.\<close>

definition zero_key_dir :: key_dir where
  "zero_key_dir = \<lparr>kd_algo_crypt = None, kd_crypt_mode = None, kd_algo_mac = None, kd_hash_index = 0,
     kd_algo_comp = COMP_NONE, kd_zstream = None, kd_cipher_state = [], kd_mackey = replicate 64 0, kd_valid = False\<rparr>"

definition zero_key_context :: key_context where
  "zero_key_context = \<lparr>k_recv = zero_key_dir, k_trans = zero_key_dir, k_algo_kex = None, k_algo_hostkey = 0, k_algo_signature = 0\<rparr>"

definition zero_KEXState :: KEXState where
  "zero_KEXState = \<lparr>sentkexinit = False, recvkexinit = False, them_firstfollows = False, sentnewkeys = False,
     recvnewkeys = False, donefirstkex = False, donesecondkex = False, recvfirstnewkeys = False,
     our_first_follows_matches = False, strict_kex = False, lastkextime = 0, needrekey = False, datatrans = 0, datarecv = 0\<rparr>"

definition zero_AuthState :: AuthState where
  "zero_AuthState = \<lparr>a_username = None, authtypes = 0, failcount = 0, authdone = False, perm_warn = False,
     checkusername_failed = False, auth_starttime = \<lparr>tv_sec = 0, tv_nsec = 0\<rparr>, serv_pubkey_query_count = 0,
     pw_uid = 0, pw_gid = 0, pw_dir = None, pw_shell = None, pw_name = None, pw_passwd = None, pubkey_options = None\<rparr>"

text \<open>
  \<^verbatim>\<open>common_session_init\<close>, over the libraries and the world of the process; the sockets
  and the signal pipe are not part of the state.
\<close>

definition initial_session :: "libs \<Rightarrow> world \<Rightarrow> bool \<Rightarrow> buffer \<Rightarrow> sshsession" where
  "initial_session lib w compression wp =
    (let nokey = zero_key_dir\<lparr>kd_algo_crypt := Some dropbear_nocipher, kd_crypt_mode := Some dropbear_mode_none,
                   kd_algo_mac := Some dropbear_nohash, kd_algo_comp := COMP_NONE, kd_zstream := None\<rparr>;
         now = w_clock w (w_ticks w); w = w\<lparr>w_ticks := Suc (w_ticks w)\<rparr>
     in \<lparr>s_remoteident = None, s_writepayload = wp, s_writequeue = initqueue, s_writequeue_len = 0,
          s_readbuf = None, s_payload = None, s_payload_beginning = 0, s_transseq = 0, s_recvseq = 0,
          s_dataallowed = True, s_requirenext = 20, s_ignorenext = False, s_lastpacket = 0,
          s_connect_time = now, s_last_packet_time_keepalive_sent = 0, s_last_packet_time_keepalive_recv = now,
          s_last_packet_time_any_sent = 0, s_last_packet_time_idle = now,
          s_kexstate = zero_KEXState, s_keys = zero_key_context\<lparr>k_recv := nokey, k_trans := nokey, k_algo_hostkey := -1\<rparr>,
          s_newkeys = None, s_session_id = None, s_dh_K = None, s_dh_K_bytes = None, s_hash = None, s_kexhashbuf = None,
          s_transkexinit = None, s_compression = compression, s_allow_ext_info = False, s_reply_queue = [],
          s_authstate = zero_AuthState, s_allowprivport = False, s_libs = lib, s_world = w\<rparr>)"

definition common_session_init :: "libs \<Rightarrow> world \<Rightarrow> bool \<Rightarrow> sshsession res" where
  "common_session_init lib w compression =
     rbind (buf_new 16384) (\<lambda>wp. Inr (initial_session lib w compression wp))"

text \<open>A session of a process with inert libraries, for examples.\<close>

definition plain_libs :: libs where
  "plain_libs = \<lparr>l_hmac = (\<lambda>_ _ _. Some []), l_find_cipher = (\<lambda>_. 0), l_find_hash = (\<lambda>_. 0), l_inflateInit = Some [],
     l_inflate = (\<lambda>st inp room. (True, take room inp, length (drop room inp), st)), l_inflateEnd = (\<lambda>_. True), l_deflateInit2 = Some [],
     l_deflate = (\<lambda>st inp room. (True, take room inp, length (drop room inp), st)), l_deflateEnd = (\<lambda>_. True)\<rparr>"

definition plain_world :: world where
  "plain_world = \<lparr>w_clock = int, w_ticks = 0, w_hires = (\<lambda>n. \<lparr>tv_sec = int n, tv_nsec = 0\<rparr>), w_hires_ticks = 0,
     w_rand = (\<lambda>n. of_nat n), w_rand_pos = 0\<rparr>"

definition plain_session :: sshsession where
  "plain_session = (case common_session_init plain_libs plain_world False of Inr s \<Rightarrow> s)"

definition small_session :: sshsession where
  "small_session = initial_session plain_libs plain_world False \<lparr>b_data = replicate 40 0, b_len = 0, b_pos = 0, b_size = 40\<rparr>"

end
