(* ===== verification/Packet.thy ===== *)
theory Packet
  imports Session
begin

unbundle bit_operations_syntax

text \<open>
  The binary packet protocol (\<^verbatim>\<open>packet.c\<close>, with the queue helpers of \<^verbatim>\<open>netio.c\<close> and the
  compression switches of \<^verbatim>\<open>common-kex.c\<close>): reading a packet in two steps, checking its
  length, decrypting and authenticating it; padding, encrypting and queueing a payload; and
  writing the queue to the socket. The result of a system call is an argument: \<open>Rd bs\<close> is
  a \<^verbatim>\<open>read\<close> for which the kernel has the bytes \<open>bs\<close> (none at the end of the stream) and
  \<open>Wr n\<close> a \<^verbatim>\<open>writev\<close> that accepts up to \<open>n\<close> bytes.
\<close>

section \<open>Constants\<close>

abbreviation (input) "MIN_PACKET_LEN \<equiv> 16 :: u32"
abbreviation (input) "PACKET_PADDING_OFF \<equiv> 4 :: u32"
abbreviation (input) "PACKET_PAYLOAD_OFF \<equiv> 5 :: u32"
abbreviation (input) "INIT_READBUF \<equiv> 128 :: u32"
abbreviation (input) "MAX_MAC_LEN \<equiv> 64 :: nat"
abbreviation (input) "RECV_MAX_PAYLOAD_LEN \<equiv> 131072 :: u32"
abbreviation (input) "RECV_MAX_PACKET_LEN \<equiv> 131172 :: u32"
abbreviation (input) "TRANS_MAX_PAYLOAD_LEN \<equiv> 16384 :: u32"
abbreviation (input) "ZLIB_COMPRESS_EXPANSION \<equiv> 51 :: u32"

abbreviation (input) "SSH_MSG_DISCONNECT \<equiv> 1 :: byte"
abbreviation (input) "SSH_MSG_IGNORE \<equiv> 2 :: byte"
abbreviation (input) "SSH_MSG_UNIMPLEMENTED \<equiv> 3 :: byte"
abbreviation (input) "SSH_MSG_DEBUG \<equiv> 4 :: byte"
abbreviation (input) "SSH_MSG_SERVICE_REQUEST \<equiv> 5 :: byte"
abbreviation (input) "SSH_MSG_SERVICE_ACCEPT \<equiv> 6 :: byte"
abbreviation (input) "SSH_MSG_KEXINIT \<equiv> 20 :: byte"
abbreviation (input) "SSH_MSG_NEWKEYS \<equiv> 21 :: byte"
abbreviation (input) "SSH_MSG_KEXDH_INIT \<equiv> 30 :: byte"
abbreviation (input) "SSH_MSG_USERAUTH_REQUEST \<equiv> 50 :: byte"
abbreviation (input) "SSH_MSG_USERAUTH_FAILURE \<equiv> 51 :: byte"
abbreviation (input) "SSH_MSG_USERAUTH_SUCCESS \<equiv> 52 :: byte"
abbreviation (input) "SSH_MSG_USERAUTH_BANNER \<equiv> 53 :: byte"
abbreviation (input) "SSH_MSG_USERAUTH_PK_OK \<equiv> 60 :: byte"
abbreviation (input) "SSH_MSG_GLOBAL_REQUEST \<equiv> 80 :: byte"
abbreviation (input) "SSH_MSG_REQUEST_FAILURE \<equiv> 82 :: byte"
abbreviation (input) "SSH_MSG_CHANNEL_FAILURE \<equiv> 100 :: byte"

datatype rd = Rd bytes | Rd_again | Rd_fail
datatype wr = Wr nat | Wr_again | Wr_fail

section \<open>Writing the queue of encrypted packets\<close>

text \<open>
  The buffers of the first \<open>n\<close> links, each with the bytes after its position. The links are
  followed for the counted number of steps, as in the C loop.
\<close>

fun iovec_walk :: "(nat \<Rightarrow> buffer link option) \<Rightarrow> nat option \<Rightarrow> nat \<Rightarrow> bytes list res" where
  "iovec_walk h p 0 = Inr []"
| "iovec_walk h p (Suc n) =
     rbind (link_at h p) (\<lambda>l.
     let writebuf = l_item l; len = b_len writebuf - b_pos writebuf in
     rbind (dassert (0 < sint len) ''len > 0'') (\<lambda>_.
     rbind (buf_peek writebuf len) (\<lambda>base.
     rbind (iovec_walk h (l_link l) n) (\<lambda>rest. Inr (base # rest)))))"

definition packet_queue_to_iovec :: "buffer queue \<Rightarrow> nat \<Rightarrow> bytes list res" where
  "packet_queue_to_iovec q iov_count =
     iovec_walk (q_cells q) (q_head q) (min (min (unat (q_count q)) 1024) iov_count)"

text \<open>The queue holds pointers to buffers: moving the position of the first one is an update of its cell.\<close>

definition update_front :: "'i queue \<Rightarrow> 'i \<Rightarrow> 'i queue res" where
  "update_front q x =
     rbind (link_at (q_cells q) (q_head q)) (\<lambda>l.
     Inr (q\<lparr>q_cells := (q_cells q)(the (q_head q) \<mapsto> l\<lparr>l_item := x\<rparr>)\<rparr>))"

text \<open>
  \<^verbatim>\<open>packet_queue_consume\<close>: every round but a last one takes a buffer off the queue, so
  one round more than the number of queued buffers is enough.
\<close>

fun consume_loop :: "nat \<Rightarrow> buffer queue \<Rightarrow> int \<Rightarrow> buffer queue res" where
  "consume_loop fuel q written =
     (if written > 0 then
        (case fuel of 0 \<Rightarrow> Inl Diverge
         | Suc fuel \<Rightarrow>
             rbind (examine q) (\<lambda>writebuf.
             let len = sint (b_len writebuf - b_pos writebuf) in
             if len > written then
               rbind (buf_incrpos writebuf (of_int written)) (\<lambda>b. update_front q b)
             else rbind (dequeue q) (\<lambda>(_, q). consume_loop fuel q (written - len))))
      else Inr q)"

declare consume_loop.simps [simp del]

definition packet_queue_consume :: "buffer queue \<Rightarrow> int \<Rightarrow> buffer queue res" where
  "packet_queue_consume q written = consume_loop (Suc (unat (q_count q))) q written"

text \<open>The bytes put on the wire are returned with the new state.\<close>

definition write_packet :: "wr \<Rightarrow> sshsession \<Rightarrow> (bytes \<times> sshsession) res" where
  "write_packet w s =
     rbind (dassert (\<not> isempty (s_writequeue s)) ''!isempty(&ses.writequeue)'') (\<lambda>_.
     rbind (packet_queue_to_iovec (s_writequeue s) 50) (\<lambda>iov.
     case w of
       Wr_again \<Rightarrow> Inr ([], s)
     | Wr_fail \<Rightarrow> Inl (Dropbear_exit ''Error writing'')
     | Wr n \<Rightarrow>
         let out = take n (concat iov); written = length out in
         rbind (packet_queue_consume (s_writequeue s) (int written)) (\<lambda>q.
         let s = s\<lparr>s_writequeue := q, s_writequeue_len := s_writequeue_len s - of_nat written\<rparr> in
         if written = 0 then Inl (Dropbear_close ''Exited normally'') else Inr (out, s))))"

section \<open>Message authentication and compression\<close>

definition is_compress_trans :: "sshsession \<Rightarrow> bool" where
  "is_compress_trans s \<longleftrightarrow> kd_algo_comp (k_trans (s_keys s)) = COMP_ZLIB
     \<or> (authdone (s_authstate s) \<and> kd_algo_comp (k_trans (s_keys s)) = COMP_ZLIB_DELAY)"

definition is_compress_recv :: "sshsession \<Rightarrow> bool" where
  "is_compress_recv s \<longleftrightarrow> kd_algo_comp (k_recv (s_keys s)) = COMP_ZLIB
     \<or> (authdone (s_authstate s) \<and> kd_algo_comp (k_recv (s_keys s)) = COMP_ZLIB_DELAY)"

text \<open>
  \<^verbatim>\<open>make_mac\<close> fills the caller's array of \<^verbatim>\<open>MAX_MAC_LEN\<close> bytes and moves the position of
  the clear buffer.
\<close>

definition make_mac :: "libs \<Rightarrow> u32 \<Rightarrow> key_dir \<Rightarrow> buffer \<Rightarrow> u32 \<Rightarrow> bytes \<Rightarrow> (bytes \<times> buffer) res" where
  "make_mac lib seqno ks clear_buf clear_len output_mac =
     rbind (deref (kd_algo_mac ks)) (\<lambda>am.
     if ch_hashsize am > 0 then
       rbind (mem_read (kd_mackey ks) 0 (unat (ch_keysize am))) (\<lambda>key.
       rbind (buf_setpos clear_buf 0) (\<lambda>clear_buf.
       rbind (buf_peek clear_buf clear_len) (\<lambda>contents.
       case l_hmac lib (kd_hash_index ks) key (store32h seqno @ contents) of
         None \<Rightarrow> Inl (Dropbear_exit ''HMAC error'')
       | Some mac \<Rightarrow> rbind (mem_write output_mac 0 (take MAX_MAC_LEN mac)) (\<lambda>out. Inr (out, clear_buf)))))
     else Inr (output_mac, clear_buf))"

text \<open>The check of the MAC at the end of the decrypted read buffer, whose position it moves.\<close>

definition checkmac :: "sshsession \<Rightarrow> buffer \<Rightarrow> (bool \<times> buffer) res" where
  "checkmac s rb =
     rbind (deref (kd_algo_mac (k_recv (s_keys s)))) (\<lambda>am.
     let mac_size = ucast (ch_hashsize am); contents_len = b_len rb - mac_size in
     rbind (buf_setpos rb 0) (\<lambda>rb.
     rbind (make_mac (s_libs s) (s_recvseq s) (k_recv (s_keys s)) rb contents_len (replicate MAX_MAC_LEN 0))
       (\<lambda>(mac_bytes, rb).
     rbind (buf_setpos rb contents_len) (\<lambda>rb.
     rbind (buf_peek rb mac_size) (\<lambda>theirs.
     rbind (constant_time_memcmp mac_bytes theirs (unat mac_size)) (\<lambda>c. Inr (c = 0, rb)))))))"

definition buf_decompress :: "sshsession \<Rightarrow> buffer \<Rightarrow> u32 \<Rightarrow> (buffer \<times> sshsession) res" where
  "buf_decompress s buf len =
     rbind (deref (kd_zstream (k_recv (s_keys s)))) (\<lambda>zstream.
     rbind (buf_new (RECV_MAX_PAYLOAD_LEN + 1)) (\<lambda>ret.
     rbind (buf_peek buf len) (\<lambda>next_in.
     let (ok, out, avail_in, zstream) = l_inflate (s_libs s) zstream next_in (unat (b_size ret));
         s = s\<lparr>s_keys := (s_keys s)\<lparr>k_recv := (k_recv (s_keys s))\<lparr>kd_zstream := Some zstream\<rparr>\<rparr>\<rparr> in
     rbind (mem_write (b_data ret) 0 out) (\<lambda>d.
     if \<not> ok then Inl (Dropbear_exit ''zlib error'') else
     rbind (buf_setlen (ret\<lparr>b_data := d\<rparr>) (of_nat (length out))) (\<lambda>ret.
     if avail_in > 0 \<or> b_len ret > RECV_MAX_PAYLOAD_LEN
     then Inl (Dropbear_exit ''bad packet, oversized decompressed'')
     else Inr (ret, s))))))"

text \<open>\<^verbatim>\<open>deflate\<close> works from the position of \<open>src\<close> to that of \<open>dest\<close>.\<close>

definition buf_compress :: "sshsession \<Rightarrow> buffer \<Rightarrow> buffer \<Rightarrow> u32 \<Rightarrow> (buffer \<times> buffer \<times> sshsession) res" where
  "buf_compress s dest src len =
     (let endpos = b_pos src + len in
      rbind (dassert (b_size dest - b_pos dest \<ge> len + ZLIB_COMPRESS_EXPANSION) ''dest room'') (\<lambda>_.
      rbind (deref (kd_zstream (k_trans (s_keys s)))) (\<lambda>zstream.
      let avail_in = endpos - b_pos src in
      rbind (buf_peek src avail_in) (\<lambda>next_in.
      let avail_out = b_size dest - b_pos dest in
      rbind (buf_getwriteptr dest avail_out) (\<lambda>next_out.
      let (ok, out, left, zstream) = l_deflate (s_libs s) zstream next_in (unat avail_out);
          s = s\<lparr>s_keys := (s_keys s)\<lparr>k_trans := (k_trans (s_keys s))\<lparr>kd_zstream := Some zstream\<rparr>\<rparr>\<rparr> in
      rbind (mem_write (b_data dest) next_out out) (\<lambda>d.
      rbind (buf_setpos src (endpos - of_nat left)) (\<lambda>src.
      rbind (buf_setlen (dest\<lparr>b_data := d\<rparr>) (b_size dest - (avail_out - of_nat (length out)))) (\<lambda>dest.
      rbind (buf_setpos dest (b_len dest)) (\<lambda>dest.
      if \<not> ok then Inl (Dropbear_exit ''zlib error'') else
      rbind (dassert (left = 0) ''avail_in == 0'') (\<lambda>_. Inr (dest, src, s)))))))))))"

section \<open>Reading a packet\<close>

text \<open>
  \<^verbatim>\<open>decrypt_packet\<close>: the whole packet is in the read buffer. In the AEAD modes everything
  is decrypted and authenticated here; otherwise the first block already is decrypted.
\<close>

definition decrypt_readbuf :: "sshsession \<Rightarrow> buffer \<Rightarrow> (buffer \<times> sshsession) res" where
  "decrypt_readbuf s rb =
     rbind (deref (kd_algo_crypt (k_recv (s_keys s)))) (\<lambda>ac.
     rbind (deref (kd_algo_mac (k_recv (s_keys s)))) (\<lambda>am.
     rbind (deref (kd_crypt_mode (k_recv (s_keys s)))) (\<lambda>cm.
     let blocksize = ucast (cp_blocksize ac) :: u32; macsize = ucast (ch_hashsize am) :: u32;
         st = kd_cipher_state (k_recv (s_keys s));
         put_st = (\<lambda>st. s\<lparr>s_keys := (s_keys s)\<lparr>k_recv := (k_recv (s_keys s))\<lparr>kd_cipher_state := st\<rparr>\<rparr>\<rparr>) in
     case cm_aead_crypt cm of
       Some aead \<Rightarrow>
         rbind (buf_setpos rb 0) (\<lambda>rb.
         let len = b_len rb - macsize - b_pos rb in
         rbind (buf_peek rb (len + macsize)) (\<lambda>inp.
         rbind (buf_getwriteptr rb len) (\<lambda>p.
         case aead (s_recvseq s) inp (unat macsize) st False of
           None \<Rightarrow> Inl (Dropbear_exit ''Error decrypting'')
         | Some (out, st) \<Rightarrow>
             rbind (mem_write (b_data rb) p out) (\<lambda>d.
             rbind (buf_incrpos (rb\<lparr>b_data := d\<rparr>) len) (\<lambda>rb. Inr (rb, put_st st))))))
     | None \<Rightarrow>
         rbind (buf_setpos rb blocksize) (\<lambda>rb.
         let len = b_len rb - macsize - b_pos rb in
         rbind (buf_peek rb len) (\<lambda>inp.
         rbind (buf_getwriteptr rb len) (\<lambda>p.
         case cm_decrypt cm inp st of
           None \<Rightarrow> Inl (Dropbear_exit ''Error decrypting'')
         | Some (out, st) \<Rightarrow>
             rbind (mem_write (b_data rb) p out) (\<lambda>d.
             rbind (buf_incrpos (rb\<lparr>b_data := d\<rparr>) len) (\<lambda>rb.
             rbind (checkmac s rb) (\<lambda>(good, rb).
             if \<not> good then Inl (Dropbear_exit ''Integrity error'') else Inr (rb, put_st st))))))))))"

definition take_payload :: "sshsession \<Rightarrow> buffer \<Rightarrow> sshsession res" where
  "take_payload s rb =
     rbind (deref (kd_algo_mac (k_recv (s_keys s)))) (\<lambda>am.
     rbind (buf_setpos rb PACKET_PADDING_OFF) (\<lambda>rb.
     rbind (buf_getbyte rb) (\<lambda>(padlen, rb).
     let len = b_len rb - ucast padlen - 4 - 1 - ucast (ch_hashsize am) in
     if len > RECV_MAX_PAYLOAD_LEN + ZLIB_COMPRESS_EXPANSION \<or> len < 1
     then Inl (Dropbear_exit ''Bad packet size'') else
     rbind (buf_setpos rb PACKET_PAYLOAD_OFF) (\<lambda>rb.
     rbind (if is_compress_recv s then
              rbind (buf_decompress s rb len) (\<lambda>(pl, s).
              rbind (buf_setpos pl 0) (\<lambda>pl.
              Inr (s\<lparr>s_payload := Some pl, s_payload_beginning := 0\<rparr>)))
            else
              rbind (buf_setlen rb (b_pos rb + len)) (\<lambda>pl.
              Inr (s\<lparr>s_payload := Some pl, s_payload_beginning := b_pos rb\<rparr>))) (\<lambda>s.
     Inr (s\<lparr>s_readbuf := None, s_recvseq := s_recvseq s + 1\<rparr>))))))"

definition decrypt_packet :: "sshsession \<Rightarrow> sshsession res" where
  "decrypt_packet s =
     rbind (deref (s_readbuf s)) (\<lambda>rb.
     let s = s\<lparr>s_kexstate := (s_kexstate s)\<lparr>datarecv := datarecv (s_kexstate s) + b_len rb\<rparr>\<rparr> in
     rbind (decrypt_readbuf s rb) (\<lambda>(rb, s). take_payload s rb))"

text \<open>
  \<^verbatim>\<open>read_packet_init\<close> returns whether the length is determined. The length of an AEAD
  packet comes from its own function, otherwise from the decrypted first block.
\<close>

definition packet_length :: "sshsession \<Rightarrow> buffer \<Rightarrow> (u32 \<times> u32 \<times> buffer \<times> bytes) res" where
  "packet_length s rb =
     rbind (deref (kd_algo_crypt (k_recv (s_keys s)))) (\<lambda>ac.
     rbind (deref (kd_algo_mac (k_recv (s_keys s)))) (\<lambda>am.
     rbind (deref (kd_crypt_mode (k_recv (s_keys s)))) (\<lambda>cm.
     let blocksize = ucast (cp_blocksize ac); macsize = ucast (ch_hashsize am);
         st = kd_cipher_state (k_recv (s_keys s)) in
     case cm_aead_crypt cm of
       Some aead \<Rightarrow>
         rbind (buf_peek rb blocksize) (\<lambda>blk.
         case cm_aead_getlength cm (s_recvseq s) blk st of
           None \<Rightarrow> Inl (Dropbear_exit ''Error decrypting'')
         | Some (plen, st) \<Rightarrow> Inr (plen, plen + 4 + macsize, rb, st))
     | None \<Rightarrow>
         rbind (buf_peek rb blocksize) (\<lambda>blk.
         rbind (buf_getwriteptr rb blocksize) (\<lambda>p.
         case cm_decrypt cm blk st of
           None \<Rightarrow> Inl (Dropbear_exit ''Error decrypting'')
         | Some (out, st) \<Rightarrow>
             rbind (mem_write (b_data rb) p out) (\<lambda>d.
             rbind (buf_getint (rb\<lparr>b_data := d\<rparr>)) (\<lambda>(x, rb).
             let plen = x + 4 in Inr (plen, plen + macsize, rb, st))))))))"

definition init_packet :: "(nat \<Rightarrow> byte) \<Rightarrow> u32 \<Rightarrow> sshsession \<Rightarrow> buffer \<Rightarrow> (bool \<times> sshsession) res" where
  "init_packet junk blocksize s rb =
     rbind (buf_setpos rb 0) (\<lambda>rb.
     rbind (packet_length s rb) (\<lambda>(plen, len, rb, st).
     rbind (umod plen blocksize) (\<lambda>rem.
     if len > RECV_MAX_PACKET_LEN \<or> plen < blocksize \<or> rem \<noteq> 0
     then Inl (Dropbear_exit ''Integrity error (bad packet size)'') else
     rbind (if len > b_size rb then buf_resize junk rb len else Inr rb) (\<lambda>rb.
     rbind (buf_setlen rb len) (\<lambda>rb.
     rbind (buf_setpos rb blocksize) (\<lambda>rb.
     Inr (True, s\<lparr>s_readbuf := Some rb,
        s_keys := (s_keys s)\<lparr>k_recv := (k_recv (s_keys s))\<lparr>kd_cipher_state := st\<rparr>\<rparr>\<rparr>)))))))"

definition read_packet_init :: "(nat \<Rightarrow> byte) \<Rightarrow> rd \<Rightarrow> sshsession \<Rightarrow> (bool \<times> sshsession) res" where
  "read_packet_init junk r s =
     rbind (deref (kd_algo_crypt (k_recv (s_keys s)))) (\<lambda>ac.
     let blocksize = ucast (cp_blocksize ac) :: u32 in
     rbind (case s_readbuf s of None \<Rightarrow> buf_new INIT_READBUF | Some rb \<Rightarrow> Inr rb) (\<lambda>rb.
     let maxlen = blocksize - b_pos rb in
     rbind (buf_getwriteptr rb maxlen) (\<lambda>p.
     case r of
       Rd_again \<Rightarrow> Inr (False, s\<lparr>s_readbuf := Some rb\<rparr>)
     | Rd_fail \<Rightarrow> Inl (Dropbear_exit ''Error reading'')
     | Rd bs \<Rightarrow>
         let got = take (unat maxlen) bs; slen = of_nat (length got) in
         if slen = 0 then Inl (Dropbear_close ''Exited normally'') else
         rbind (mem_write (b_data rb) p got) (\<lambda>d.
         rbind (buf_incrwritepos (rb\<lparr>b_data := d\<rparr>) slen) (\<lambda>rb.
         if slen \<noteq> maxlen then Inr (False, s\<lparr>s_readbuf := Some rb\<rparr>)
         else init_packet junk blocksize s rb)))))"

text \<open>\<^verbatim>\<open>read_packet\<close> makes up to two reads: \<open>r1\<close> for the first block, \<open>r2\<close> for the rest.\<close>

definition read_packet :: "(nat \<Rightarrow> byte) \<Rightarrow> rd \<Rightarrow> rd \<Rightarrow> sshsession \<Rightarrow> sshsession res" where
  "read_packet junk r1 r2 s =
     rbind (deref (kd_algo_crypt (k_recv (s_keys s)))) (\<lambda>ac.
     rbind (if (case s_readbuf s of None \<Rightarrow> True | Some rb \<Rightarrow> b_len rb < ucast (cp_blocksize ac))
            then read_packet_init junk r1 s else Inr (True, s)) (\<lambda>(ret, s).
     if \<not> ret then Inr s else
     rbind (deref (s_readbuf s)) (\<lambda>rb.
     let maxlen = b_len rb - b_pos rb in
     if maxlen = 0 then decrypt_packet s else
     rbind (buf_getptr rb maxlen) (\<lambda>p.
     case r2 of
       Rd_again \<Rightarrow> Inr s
     | Rd_fail \<Rightarrow> Inl (Dropbear_exit ''Error reading'')
     | Rd bs \<Rightarrow>
         let got = take (unat maxlen) bs; len = of_nat (length got) in
         if len = 0 then Inl (Dropbear_close ''Exited normally'') else
         rbind (mem_write (b_data rb) p got) (\<lambda>d.
         rbind (buf_incrpos (rb\<lparr>b_data := d\<rparr>) len) (\<lambda>rb.
         let s = s\<lparr>s_readbuf := Some rb\<rparr> in
         if len = maxlen then decrypt_packet s else Inr s))))))"

section \<open>Sending a packet\<close>

definition packet_is_okay_kex :: "byte \<Rightarrow> bool" where
  "packet_is_okay_kex type \<longleftrightarrow>
     (if type \<ge> SSH_MSG_USERAUTH_REQUEST then False
      else if type = SSH_MSG_SERVICE_REQUEST \<or> type = SSH_MSG_SERVICE_ACCEPT then False
      else if type = SSH_MSG_KEXINIT then False else True)"

definition enqueue_reply_packet :: "sshsession \<Rightarrow> sshsession res" where
  "enqueue_reply_packet s =
     rbind (buf_newcopy (s_writepayload s)) (\<lambda>pl.
     rbind (buf_setpos (s_writepayload s) 0) (\<lambda>wp.
     rbind (buf_setlen wp 0) (\<lambda>wp.
     Inr (s\<lparr>s_writepayload := wp, s_reply_queue := s_reply_queue s @ [pl]\<rparr>))))"

definition writebuf_enqueue :: "sshsession \<Rightarrow> buffer \<Rightarrow> sshsession res" where
  "writebuf_enqueue s writebuf =
     rbind (buf_setpos writebuf 0) (\<lambda>writebuf.
     rbind (enqueue (s_writequeue s) writebuf) (\<lambda>q.
     Inr (s\<lparr>s_writequeue := q, s_writequeue_len := s_writequeue_len s + b_len writebuf\<rparr>)))"

text \<open>The padding length, an \<^verbatim>\<open>unsigned char\<close>.\<close>

definition packet_padlen :: "bool \<Rightarrow> byte \<Rightarrow> u32 \<Rightarrow> byte res" where
  "packet_padlen aead blocksize wlen =
     (let len = (if aead then wlen - 4 else wlen) in
      rbind (umod len (ucast blocksize)) (\<lambda>r.
      let padlen = ucast (ucast blocksize - r) :: byte;
          padlen = (if padlen < 4 then padlen + blocksize else padlen);
          padlen = (if wlen + ucast padlen < MIN_PACKET_LEN then padlen + blocksize else padlen)
      in Inr padlen))"

definition fill_writebuf :: "sshsession \<Rightarrow> buffer \<Rightarrow> (buffer \<times> sshsession) res" where
  "fill_writebuf s writebuf =
     (let wp = s_writepayload s in
      if is_compress_trans s then
        rbind (buf_compress s writebuf wp (b_len wp)) (\<lambda>(writebuf, wp, s). Inr (writebuf, s\<lparr>s_writepayload := wp\<rparr>))
      else
        rbind (buf_peek wp (b_len wp)) (\<lambda>src.
        rbind (buf_poke writebuf (b_len wp) src) (\<lambda>writebuf.
        rbind (buf_incrwritepos writebuf (b_len wp)) (\<lambda>writebuf. Inr (writebuf, s)))))"

definition pad_writebuf :: "sshsession \<Rightarrow> buffer \<Rightarrow> byte \<Rightarrow> (buffer \<times> sshsession) res" where
  "pad_writebuf s writebuf padlen =
     rbind (buf_setpos writebuf 0) (\<lambda>writebuf.
     rbind (buf_putint writebuf (b_len writebuf + ucast padlen - 4)) (\<lambda>writebuf.
     rbind (buf_putbyte writebuf padlen) (\<lambda>writebuf.
     rbind (buf_setpos writebuf (b_len writebuf)) (\<lambda>writebuf.
     rbind (buf_incrlen writebuf (ucast padlen)) (\<lambda>writebuf.
     rbind (buf_getptr writebuf (ucast padlen)) (\<lambda>p.
     let (pad, s) = genrandom s (unat padlen) in
     rbind (mem_write (b_data writebuf) p pad) (\<lambda>d. Inr (writebuf\<lparr>b_data := d\<rparr>, s))))))))"

definition encrypt_writebuf :: "sshsession \<Rightarrow> buffer \<Rightarrow> (buffer \<times> sshsession) res" where
  "encrypt_writebuf s writebuf =
     rbind (deref (kd_algo_mac (k_trans (s_keys s)))) (\<lambda>am.
     rbind (deref (kd_crypt_mode (k_trans (s_keys s)))) (\<lambda>cm.
     let mac_size = ucast (ch_hashsize am) :: u32; st = kd_cipher_state (k_trans (s_keys s));
         put_st = (\<lambda>st. s\<lparr>s_keys := (s_keys s)\<lparr>k_trans := (k_trans (s_keys s))\<lparr>kd_cipher_state := st\<rparr>\<rparr>\<rparr>) in
     case cm_aead_crypt cm of
       Some aead \<Rightarrow>
         rbind (buf_setpos writebuf 0) (\<lambda>writebuf.
         let len = b_len writebuf in
         rbind (buf_incrlen writebuf mac_size) (\<lambda>writebuf.
         rbind (buf_peek writebuf len) (\<lambda>inp.
         rbind (buf_getwriteptr writebuf (len + mac_size)) (\<lambda>p.
         case aead (s_transseq s) inp (unat mac_size) st True of
           None \<Rightarrow> Inl (Dropbear_exit ''Error encrypting'')
         | Some (out, st) \<Rightarrow>
             rbind (mem_write (b_data writebuf) p out) (\<lambda>d.
             rbind (buf_incrpos (writebuf\<lparr>b_data := d\<rparr>) (len + mac_size)) (\<lambda>writebuf.
             Inr (writebuf, put_st st)))))))
     | None \<Rightarrow>
         rbind (make_mac (s_libs s) (s_transseq s) (k_trans (s_keys s)) writebuf (b_len writebuf)
                  (replicate MAX_MAC_LEN 0)) (\<lambda>(mac_bytes, writebuf).
         rbind (buf_setpos writebuf 0) (\<lambda>writebuf.
         let len = b_len writebuf in
         rbind (buf_peek writebuf len) (\<lambda>inp.
         rbind (buf_getwriteptr writebuf len) (\<lambda>p.
         case cm_encrypt cm inp st of
           None \<Rightarrow> Inl (Dropbear_exit ''Error encrypting'')
         | Some (out, st) \<Rightarrow>
             rbind (mem_write (b_data writebuf) p out) (\<lambda>d.
             rbind (buf_incrpos (writebuf\<lparr>b_data := d\<rparr>) len) (\<lambda>writebuf.
             rbind (buf_putbytes writebuf mac_bytes mac_size) (\<lambda>writebuf.
             Inr (writebuf, put_st st))))))))))"

definition encrypt_packet :: "sshsession \<Rightarrow> sshsession res" where
  "encrypt_packet s =
     rbind (buf_setpos (s_writepayload s) 0) (\<lambda>wp.
     rbind (buf_getbyte wp) (\<lambda>(packet_type, wp).
     rbind (buf_setpos wp 0) (\<lambda>wp.
     let s = s\<lparr>s_writepayload := wp\<rparr> in
     if \<not> s_dataallowed s \<and> \<not> packet_is_okay_kex packet_type then enqueue_reply_packet s else
     rbind (deref (kd_algo_crypt (k_trans (s_keys s)))) (\<lambda>ac.
     rbind (deref (kd_algo_mac (k_trans (s_keys s)))) (\<lambda>am.
     rbind (deref (kd_crypt_mode (k_trans (s_keys s)))) (\<lambda>cm.
     let blocksize = cp_blocksize ac; mac_size = ch_hashsize am;
         encrypt_buf_size = (b_len wp + 4 + 1) + max MIN_PACKET_LEN (ucast blocksize) + 3
           + ucast mac_size + ZLIB_COMPRESS_EXPANSION + 1 in
     rbind (buf_new encrypt_buf_size) (\<lambda>writebuf.
     rbind (buf_setlen writebuf PACKET_PAYLOAD_OFF) (\<lambda>writebuf.
     rbind (buf_setpos writebuf PACKET_PAYLOAD_OFF) (\<lambda>writebuf.
     rbind (fill_writebuf s writebuf) (\<lambda>(writebuf, s).
     rbind (buf_setpos (s_writepayload s) 0) (\<lambda>wp.
     rbind (buf_setlen wp 0) (\<lambda>wp.
     let s = s\<lparr>s_writepayload := wp\<rparr> in
     rbind (packet_padlen (cm_aead_crypt cm \<noteq> None) blocksize (b_len writebuf)) (\<lambda>padlen.
     rbind (pad_writebuf s writebuf padlen) (\<lambda>(writebuf, s).
     rbind (encrypt_writebuf s writebuf) (\<lambda>(writebuf, s).
     let s = s\<lparr>s_kexstate := (s_kexstate s)\<lparr>datatrans := datatrans (s_kexstate s) + b_len writebuf\<rparr>\<rparr> in
     rbind (writebuf_enqueue s writebuf) (\<lambda>s.
     let s = s\<lparr>s_transseq := s_transseq s + 1\<rparr>;
         (now, s) = monotonic_now s;
         s = s\<lparr>s_last_packet_time_any_sent := now\<rparr>
     in Inr (if packet_type \<noteq> SSH_MSG_REQUEST_FAILURE \<and> packet_type \<noteq> SSH_MSG_UNIMPLEMENTED
               \<and> packet_type \<noteq> SSH_MSG_IGNORE
             then s\<lparr>s_last_packet_time_idle := now\<rparr> else s)))))))))))))))))"

fun flush_replies :: "buffer list \<Rightarrow> sshsession \<Rightarrow> sshsession res" where
  "flush_replies [] s = Inr s"
| "flush_replies (pl # pls) s =
     rbind (buf_putbytes (s_writepayload s) (b_data pl) (b_len pl)) (\<lambda>wp.
     rbind (encrypt_packet (s\<lparr>s_writepayload := wp\<rparr>)) (flush_replies pls))"

definition maybe_flush_reply_queue :: "sshsession \<Rightarrow> sshsession res" where
  "maybe_flush_reply_queue s =
     (if \<not> s_dataallowed s then Inr s
      else rbind (flush_replies (s_reply_queue s) s) (\<lambda>s. Inr (s\<lparr>s_reply_queue := []\<rparr>)))"

end
