(* ===== verification/Packet_Safety.thy ===== *)
theory Packet_Safety
  imports Packet
begin

unbundle bit_operations_syntax

text \<open>
  The receiving side of the packet layer is memory safe and bounds what it hands on: under
  the documented output lengths of the ciphers and of zlib, \<^verbatim>\<open>read_packet\<close> keeps an
  invariant of the read buffer, the keys and the payload and never faults, whatever the
  peer sends and however the reads are cut. The padding chosen by \<^verbatim>\<open>encrypt_packet\<close> is
  characterised here too.
\<close>

section \<open>Padding\<close>

lemma packet_padlen_ok:
  assumes b: "8 \<le> unat bs" "unat bs \<le> 64" and w: "6 \<le> unat wlen" "unat wlen < 1000000000"
  shows "\<exists>p. packet_padlen aead bs wlen = Inr p \<and> 4 \<le> unat p \<and>
    (unat p \<le> unat bs + 3 \<or> unat wlen + unat p < 16 + unat bs) \<and>
    (unat wlen - (if aead then 4 else 0) + unat p) mod unat bs = 0 \<and> 16 \<le> unat wlen + unat p"
proof -
  define len where "len = (if aead then wlen - 4 else wlen)"
  have ul: "unat len = unat wlen - (if aead then 4 else 0)"
    using w by (simp add: len_def unat_minus_u32 word_le_nat_alt)
  have bz: "(ucast bs :: u32) \<noteq> 0" using b by (auto simp: word_unat_eq_iff)
  define r where "r = len mod ucast bs"
  have ur: "unat r = unat len mod unat bs" by (simp add: r_def unat_mod)
  then have rb: "unat r < unat bs" using b by simp
  define p0 :: byte where "p0 = ucast (ucast bs - r)"
  have up0: "unat p0 = unat bs - unat r"
    using rb b by (simp add: p0_def unat_ucast_down unat_minus_u32 word_le_nat_alt)
  define p1 where "p1 = (if p0 < 4 then p0 + bs else p0)"
  have up1: "unat p1 = (if unat p0 < 4 then unat p0 + unat bs else unat p0)"
    using up0 b by (simp add: p1_def word_less_nat_alt unat_plus_byte)
  define p2 where "p2 = (if wlen + ucast p1 < MIN_PACKET_LEN then p1 + bs else p1)"
  have le1: "unat p1 \<le> unat bs + 3" using up1 up0 by auto
  have up2: "unat p2 = (if unat wlen + unat p1 < 16 then unat p1 + unat bs else unat p1)"
    using w b le1 by (simp add: p2_def word_less_nat_alt unat_plus_byte unat_plus_u32)
  have eq: "packet_padlen aead bs wlen = Inr p2"
    by (simp add: packet_padlen_def umod_def bz Let_def len_def r_def p0_def p1_def p2_def)
  have m0: "(unat len + unat p0) mod unat bs = 0"
  proof -
    have "unat len + unat p0 = unat bs * (unat len div unat bs) + unat bs"
      using up0 rb ur by (metis add.assoc add_diff_inverse_nat less_imp_not_less mult_div_mod_eq)
    then show ?thesis by simp
  qed
  then have m1: "(unat len + unat p1) mod unat bs = 0" by (simp add: up1 flip: add.assoc)
  then have m2: "(unat len + unat p2) mod unat bs = 0" by (simp add: up2 flip: add.assoc)
  have "4 \<le> unat p1" using up1 b by auto
  then show ?thesis using eq m2 up2 w b le1 ul by auto
qed

section \<open>Memory safety of the receiving side\<close>

text \<open>
  What the packet code relies on of the ciphers and of zlib: outputs have the documented
  lengths.
\<close>

definition crypt_lengths :: "cipher_mode \<Rightarrow> bool" where
  "crypt_lengths cm \<longleftrightarrow>
     (\<forall>inp st out st'. cm_decrypt cm inp st = Some (out, st') \<longrightarrow> length out = length inp) \<and>
     (\<forall>inp st out st'. cm_encrypt cm inp st = Some (out, st') \<longrightarrow> length out = length inp) \<and>
     (\<forall>aead seq inp tag st out st'. cm_aead_crypt cm = Some aead \<longrightarrow>
        aead seq inp tag st False = Some (out, st') \<longrightarrow> length out + tag = length inp) \<and>
     (\<forall>aead seq inp tag st out st'. cm_aead_crypt cm = Some aead \<longrightarrow>
        aead seq inp tag st True = Some (out, st') \<longrightarrow> length out = length inp + tag)"

definition zlib_lengths :: "libs \<Rightarrow> bool" where
  "zlib_lengths l \<longleftrightarrow>
     (\<forall>st inp room ok out left st'. l_inflate l st inp room = (ok, out, left, st') \<longrightarrow> length out \<le> room) \<and>
     (\<forall>st inp room ok out left st'. l_deflate l st inp room = (ok, out, left, st') \<longrightarrow> length out \<le> room \<and> left \<le> length inp)"

definition keys_ok :: "key_dir \<Rightarrow> cipher \<Rightarrow> cipher_hash \<Rightarrow> cipher_mode \<Rightarrow> bool" where
  "keys_ok k ac am cm \<longleftrightarrow> kd_algo_crypt k = Some ac \<and> kd_algo_mac k = Some am \<and> kd_crypt_mode k = Some cm
     \<and> 8 \<le> unat (cp_blocksize ac) \<and> unat (cp_blocksize ac) \<le> 64 \<and> unat (ch_hashsize am) \<le> 64
     \<and> unat (ch_keysize am) \<le> length (kd_mackey k) \<and> crypt_lengths cm
     \<and> (kd_algo_comp k \<noteq> COMP_NONE \<longrightarrow> kd_zstream k \<noteq> None)"

text \<open>The read buffer: filling its first block, or its length known and the block decrypted.\<close>

definition readbuf_ok :: "nat \<Rightarrow> buffer option \<Rightarrow> bool" where
  "readbuf_ok bs ob \<longleftrightarrow> (case ob of None \<Rightarrow> True
     | Some rb \<Rightarrow> buf_wf rb \<and> (if unat (b_len rb) < bs then b_pos rb = b_len rb \<and> bs \<le> unat (b_size rb)
         else bs \<le> unat (b_pos rb)))"

definition payload_ok :: "sshsession \<Rightarrow> bool" where
  "payload_ok s \<longleftrightarrow> (case s_payload s of None \<Rightarrow> True | Some pl \<Rightarrow> buf_wf pl \<and> length (buf_rest pl) \<le> 131123)"

lemma mem_write_res_ok:
  "off + length bs \<le> length m \<Longrightarrow> res_ok (\<lambda>m'. length m' = length m) (mem_write m off bs)"
  by simp

lemma buf_wf_data: "buf_wf b \<Longrightarrow> length d = length (b_data b) \<Longrightarrow> buf_wf (b\<lparr>b_data := d\<rparr>)"
  by (simp add: buf_wf_nat)

lemma buf_getwriteptr_ok: "buf_wf b \<Longrightarrow> res_ok (\<lambda>p. p = unat (b_pos b) \<and> unat (b_pos b) + unat n \<le> length (b_data b)) (buf_getwriteptr b n)"
  by (auto simp: buf_eqs) (auto simp: buf_wf_nat)

lemma buf_getptr_ok: "buf_wf b \<Longrightarrow> res_ok (\<lambda>p. p = unat (b_pos b) \<and> unat (b_pos b) + unat n \<le> unat (b_len b)) (buf_getptr b n)"
  by (auto simp: buf_eqs)

lemma buf_setpos_eq: "buf_wf b \<Longrightarrow> res_ok (\<lambda>b'. buf_wf b' \<and> b' = b\<lparr>b_pos := p\<rparr> \<and> unat p \<le> unat (b_len b)) (buf_setpos b p)"
  by (auto simp: buf_setpos_def buf_wf_nat u32_order)

lemma buf_incrpos_res: "buf_wf b \<Longrightarrow> res_ok (\<lambda>b'. buf_wf b' \<and> unat (b_pos b') = unat (b_pos b) + unat n \<and> b_len b' = b_len b \<and> b_size b' = b_size b \<and> b_data b' = b_data b) (buf_incrpos b n)"
  using buf_incrpos_ok [of b n] by (auto simp: buf_eqs buf_wf_nat u32_simps)

lemma make_mac_ok:
  assumes "keys_ok k ac am cm" "buf_wf b" "length out = 64"
  shows "res_ok (\<lambda>(m, b'). length m = 64 \<and> buf_wf b' \<and> b_len b' = b_len b \<and> b_data b' = b_data b \<and> b_size b' = b_size b)
           (make_mac lib seq k b n out)"
  using assms
  by (auto simp: make_mac_def keys_ok_def intro!: res_ok_rbind [OF buf_setpos_eq] res_ok_rbind [OF buf_peek_ok]
      split: option.splits)

lemma checkmac_ok:
  assumes "keys_ok (k_recv (s_keys s)) ac am cm" "buf_wf rb"
  shows "res_ok (\<lambda>(ok, rb'). buf_wf rb' \<and> b_len rb' = b_len rb) (checkmac s rb)"
proof -
  have am: "kd_algo_mac (k_recv (s_keys s)) = Some am" "unat (ch_hashsize am) \<le> 64"
    using assms by (auto simp: keys_ok_def)
  have cmp: "res_ok (\<lambda>_. True) (constant_time_memcmp m t (unat (ch_hashsize am)))"
    if "length m = 64" "length t = unat (ch_hashsize am)" for m t
    using that am constant_time_memcmp_eq [of "unat (ch_hashsize am)" m t] by auto
  show ?thesis
    using assms am cmp
    by (auto simp: checkmac_def Let_def intro!: res_ok_rbind [OF buf_setpos_eq] res_ok_rbind [OF make_mac_ok]
       res_ok_rbind [OF buf_peek_ok] res_ok_rbind [OF cmp])
qed

lemma crypt_lengthsD:
  "crypt_lengths cm \<Longrightarrow> cm_decrypt cm inp st = Some (out, st') \<Longrightarrow> length out = length inp"
  "crypt_lengths cm \<Longrightarrow> cm_encrypt cm inp st = Some (out, st') \<Longrightarrow> length out = length inp"
  "crypt_lengths cm \<Longrightarrow> cm_aead_crypt cm = Some aead \<Longrightarrow> aead seq inp tag st False = Some (out, st') \<Longrightarrow>
     length out + tag = length inp"
  "crypt_lengths cm \<Longrightarrow> cm_aead_crypt cm = Some aead \<Longrightarrow> aead seq inp tag st True = Some (out, st') \<Longrightarrow>
     length out = length inp + tag"
  unfolding crypt_lengths_def by metis+

lemma keys_okD:
  assumes "keys_ok k ac am cm"
  shows "kd_algo_crypt k = Some ac" "kd_algo_mac k = Some am" "kd_crypt_mode k = Some cm" "crypt_lengths cm"
    "8 \<le> unat (cp_blocksize ac)" "unat (cp_blocksize ac) \<le> 64" "unat (ch_hashsize am) \<le> 64"
    "unat (ch_keysize am) \<le> length (kd_mackey k)" "kd_algo_comp k \<noteq> COMP_NONE \<Longrightarrow> \<exists>z. kd_zstream k = Some z"
  using assms by (auto simp: keys_ok_def)

text \<open>Replacing a cipher or zlib state leaves the keys usable.\<close>

definition set_recv_state :: "sshsession \<Rightarrow> bytes \<Rightarrow> sshsession" where
  "set_recv_state s st = s\<lparr>s_keys := (s_keys s)\<lparr>k_recv := (k_recv (s_keys s))\<lparr>kd_cipher_state := st\<rparr>\<rparr>\<rparr>"

lemma set_recv_state_simps [simp]:
  "s_readbuf (set_recv_state s st) = s_readbuf s"
  "s_payload (set_recv_state s st) = s_payload s"
  "s_recvseq (set_recv_state s st) = s_recvseq s"
  "s_libs (set_recv_state s st) = s_libs s"
  "s_authstate (set_recv_state s st) = s_authstate s"
  "s_kexstate (set_recv_state s st) = s_kexstate s"
  "k_trans (s_keys (set_recv_state s st)) = k_trans (s_keys s)"
  "kd_cipher_state (k_recv (s_keys (set_recv_state s st))) = st"
  "keys_ok (k_recv (s_keys (set_recv_state s st))) ac am cm = keys_ok (k_recv (s_keys s)) ac am cm"
  by (simp_all add: set_recv_state_def keys_ok_def)

lemma decrypt_readbuf_ok:
  assumes k: "keys_ok (k_recv (s_keys s)) ac am cm" and wf: "buf_wf rb"
  shows "res_ok (\<lambda>(rb', s'). buf_wf rb' \<and> b_len rb' = b_len rb \<and> s' = set_recv_state s (kd_cipher_state (k_recv (s_keys s'))))
           (decrypt_readbuf s rb)"
proof (cases "cm_aead_crypt cm")
  case None
  show ?thesis
    unfolding decrypt_readbuf_def keys_okD [OF k] deref_simps rbind_simps Let_def None option.case
      set_recv_state_def [symmetric]
    using wf
    by (auto intro!: res_ok_rbind [OF buf_setpos_eq] res_ok_rbind [OF buf_peek_ok] res_ok_rbind [OF buf_getwriteptr_ok]
       res_ok_rbind [OF mem_write_res_ok] res_ok_rbind [OF buf_incrpos_res] res_ok_rbind [OF checkmac_ok [OF k]] buf_wf_data
       split: option.splits dest!: crypt_lengthsD(1) [OF keys_okD(4) [OF k]])
next
  case (Some aead)
  show ?thesis
    unfolding decrypt_readbuf_def keys_okD [OF k] deref_simps rbind_simps Let_def Some option.case
      set_recv_state_def [symmetric]
    using wf
    by (auto intro!: res_ok_rbind [OF buf_setpos_eq] res_ok_rbind [OF buf_peek_ok] res_ok_rbind [OF buf_getwriteptr_ok]
       res_ok_rbind [OF mem_write_res_ok] res_ok_rbind [OF buf_incrpos_res] buf_wf_data
       split: option.splits dest!: crypt_lengthsD(3) [OF keys_okD(4) [OF k] Some]) (auto simp: buf_wf_nat)
qed

text \<open>What a finished packet leaves behind.\<close>

lemma buf_setlen_res: "buf_wf b \<Longrightarrow>
   res_ok (\<lambda>b'. buf_wf b' \<and> b' = b\<lparr>b_len := n, b_pos := min (b_pos b) n\<rparr> \<and> unat n \<le> unat (b_size b)) (buf_setlen b n)"
  by (auto simp: buf_setlen_def buf_wf_nat u32_order unat_min_u32)

lemma buf_getbyte_res: "buf_wf b \<Longrightarrow> res_ok (\<lambda>(v, b'). buf_wf b' \<and> b_len b' = b_len b \<and> b_data b' = b_data b \<and> b_size b' = b_size b) (buf_getbyte b)"
  using buf_getbyte_ok [of b] by (auto simp: buf_getbyte_def res_ok_def rbind_eq_Inr)

lemma buf_decompress_ok:
  assumes z: "kd_zstream (k_recv (s_keys s)) = Some z" and l: "zlib_lengths (s_libs s)" and wf: "buf_wf b"
  shows "res_ok (\<lambda>(pl, s'). buf_wf pl \<and> unat (b_len pl) \<le> 131072 \<and> s_readbuf s' = s_readbuf s \<and>
     s_libs s' = s_libs s \<and>
     (\<forall>ac am cm. keys_ok (k_recv (s_keys s)) ac am cm \<longrightarrow> keys_ok (k_recv (s_keys s')) ac am cm)) (buf_decompress s b n)"
proof -
  let ?P = "\<lambda>(pl, s'). buf_wf pl \<and> unat (b_len pl) \<le> 131072 \<and> s_readbuf s' = s_readbuf s \<and> s_libs s' = s_libs s \<and>
     (\<forall>ac am cm. keys_ok (k_recv (s_keys s)) ac am cm \<longrightarrow> keys_ok (k_recv (s_keys s')) ac am cm)"
  have b: "buf_new (RECV_MAX_PAYLOAD_LEN + 1) = Inr \<lparr>b_data = replicate 131073 0, b_len = 0, b_pos = 0, b_size = 131073\<rparr>"
    by (simp add: buf_new_def u32_order)
  show ?thesis
    unfolding buf_decompress_def z b deref_simps rbind_simps
  proof (rule res_ok_rbind [OF buf_peek_ok [OF wf]])
    fix inp
    obtain ok out left z' where i: "l_inflate (s_libs s) z inp 131073 = (ok, out, left, z')"
      by (metis prod_cases4)
    then have "length out \<le> 131073" using l unfolding zlib_lengths_def by blast
    then show "res_ok ?P (let (ok, out, avail_in, zstream) = l_inflate (s_libs s) z inp
          (unat (b_size \<lparr>b_data = replicate 131073 0, b_len = 0, b_pos = 0, b_size = 131073\<rparr>));
          s = s\<lparr>s_keys := (s_keys s)\<lparr>k_recv := (k_recv (s_keys s))\<lparr>kd_zstream := Some zstream\<rparr>\<rparr>\<rparr>
        in rbind (mem_write (b_data \<lparr>b_data = replicate 131073 0, b_len = 0, b_pos = 0, b_size = 131073\<rparr>) 0 out) (\<lambda>d.
           if \<not> ok then Inl (Dropbear_exit ''zlib error'')
           else rbind (buf_setlen (\<lparr>b_data = replicate 131073 0, b_len = 0, b_pos = 0, b_size = 131073\<rparr>\<lparr>b_data := d\<rparr>) (of_nat (length out))) (\<lambda>ret.
             if avail_in > 0 \<or> b_len ret > RECV_MAX_PAYLOAD_LEN
             then Inl (Dropbear_exit ''bad packet, oversized decompressed'') else Inr (ret, s))))"
      by (auto simp: i Let_def u32_order u32_simps keys_ok_def intro!: res_ok_rbind [OF mem_write_res_ok] res_ok_rbind [OF buf_setlen_res])
        (auto simp: buf_wf_nat)
  qed
qed

definition recv_inv :: "cipher \<Rightarrow> cipher_hash \<Rightarrow> cipher_mode \<Rightarrow> sshsession \<Rightarrow> bool" where
  "recv_inv ac am cm s \<longleftrightarrow> keys_ok (k_recv (s_keys s)) ac am cm \<and> zlib_lengths (s_libs s)
     \<and> readbuf_ok (unat (cp_blocksize ac)) (s_readbuf s) \<and> payload_ok s"

lemma take_payload_ok:
  assumes k: "keys_ok (k_recv (s_keys s)) ac am cm" and z: "zlib_lengths (s_libs s)" and wf: "buf_wf rb"
  shows "res_ok (\<lambda>s'. recv_inv ac am cm s' \<and> s_readbuf s' = None) (take_payload s rb)"
proof -
  have cz: "\<exists>z. kd_zstream (k_recv (s_keys s)) = Some z" if "is_compress_recv s"
    using that keys_okD(9) [OF k] by (auto simp: is_compress_recv_def)
  have plain: "res_ok (\<lambda>s'. recv_inv ac am cm s' \<and> s_readbuf s' = None)
      (rbind (rbind (buf_setlen b n) (\<lambda>pl. Inr (s\<lparr>s_payload := Some pl, s_payload_beginning := 5\<rparr>)))
        (\<lambda>s. Inr (s\<lparr>s_readbuf := None, s_recvseq := s_recvseq s + 1\<rparr>)))"
    if "buf_wf b" "b_pos b = 5" "unat (n - 5) \<le> 131123" for b n
  proof -
    have "unat n - 5 \<le> 131123"
      using that by (cases "5 \<le> n") (auto simp: unat_minus_u32 word_le_nat_alt)
    then show ?thesis
      using that k z
      by (auto simp: rbind_assoc recv_inv_def readbuf_ok_def payload_ok_def length_buf_rest unat_min_u32
        intro!: res_ok_rbind [OF buf_setlen_res])
  qed
  have comp: "res_ok (\<lambda>s'. recv_inv ac am cm s' \<and> s_readbuf s' = None)
      (rbind (rbind (buf_decompress s b len) (\<lambda>(pl, s). rbind (buf_setpos pl 0) (\<lambda>pl.
           Inr (s\<lparr>s_payload := Some pl, s_payload_beginning := 0\<rparr>))))
        (\<lambda>s. Inr (s\<lparr>s_readbuf := None, s_recvseq := s_recvseq s + 1\<rparr>)))"
    if "buf_wf b" "is_compress_recv s" for b len
  proof -
    from that(2) cz obtain z' where z': "kd_zstream (k_recv (s_keys s)) = Some z'" by blast
    show ?thesis
      unfolding rbind_assoc
      by (rule res_ok_rbind [OF buf_decompress_ok [OF z' z that(1)]])
        (use k z in \<open>auto simp: rbind_assoc recv_inv_def readbuf_ok_def payload_ok_def length_buf_rest
          intro!: res_ok_rbind [OF buf_setpos_eq]\<close>)
  qed
  have reorder: "x + (- a - m) - 5 = x - a - 5 - m" for x a m :: u32 by (simp add: algebra_simps)
  show ?thesis
    unfolding take_payload_def keys_okD [OF k] deref_simps rbind_simps Let_def
    using wf
    by (auto simp: not_less u32_order intro!: res_ok_rbind [OF buf_setpos_eq] res_ok_rbind [OF buf_getbyte_res] plain comp)
      (simp add: reorder)
qed

lemma decrypt_packet_ok:
  assumes "recv_inv ac am cm s" "s_readbuf s = Some rb"
  shows "res_ok (\<lambda>s'. recv_inv ac am cm s' \<and> s_readbuf s' = None) (decrypt_packet s)"
proof -
  have wf: "buf_wf rb" using assms by (auto simp: recv_inv_def readbuf_ok_def)
  let ?s = "s\<lparr>s_kexstate := (s_kexstate s)\<lparr>datarecv := datarecv (s_kexstate s) + b_len rb\<rparr>\<rparr>"
  have k: "keys_ok (k_recv (s_keys ?s)) ac am cm" and z: "zlib_lengths (s_libs ?s)"
    using assms(1) by (simp_all add: recv_inv_def)
  have "res_ok (\<lambda>s'. recv_inv ac am cm s' \<and> s_readbuf s' = None) (take_payload (set_recv_state ?s st) rb')"
    if "buf_wf rb'" for rb' st
    using take_payload_ok [OF _ _ that, of "set_recv_state ?s st"] k z by simp
  then show ?thesis
    unfolding decrypt_packet_def assms(2) deref_simps rbind_simps Let_def
    by (intro res_ok_rbind [OF decrypt_readbuf_ok [OF k wf]]) (auto, metis)
qed

lemma packet_length_ok:
  assumes k: "keys_ok (k_recv (s_keys s)) ac am cm" and wf: "buf_wf rb"
  shows "res_ok (\<lambda>(plen, len, rb', st). buf_wf rb' \<and> b_size rb' = b_size rb) (packet_length s rb)"
proof (cases "cm_aead_crypt cm")
  case None
  show ?thesis
    unfolding packet_length_def keys_okD [OF k] deref_simps rbind_simps Let_def None option.case
    using wf
    by (auto simp: buf_getint_rest buf_wf_data buf_skip_wf length_buf_rest
       intro!: res_ok_rbind [OF buf_peek_ok] res_ok_rbind [OF buf_getwriteptr_ok] res_ok_rbind [OF mem_write_res_ok]
       split: option.splits dest!: crypt_lengthsD(1) [OF keys_okD(4) [OF k]])
next
  case (Some aead)
  show ?thesis
    unfolding packet_length_def keys_okD [OF k] deref_simps rbind_simps Let_def Some option.case
    using wf by (auto intro!: res_ok_rbind [OF buf_peek_ok] split: option.splits)
qed

lemma buf_resize_res: "buf_wf b \<Longrightarrow>
  res_ok (\<lambda>b'. buf_wf b' \<and> b_size b' = n) (buf_resize junk b n)"
  using buf_resize_ok [of b junk n] by (auto simp: res_ok_def buf_resize_def)

lemma buf_incrwritepos_res: "buf_wf b \<Longrightarrow> b_pos b = b_len b \<Longrightarrow>
  res_ok (\<lambda>b'. buf_wf b' \<and> b_size b' = b_size b \<and> unat (b_pos b') = unat (b_pos b) + unat n \<and> b_pos b' = b_len b')
    (buf_incrwritepos b n)"
  using buf_incrwritepos_ok [of b n] by (auto simp: buf_eqs) (auto simp: buf_wf_nat u32_simps u32_order word_unat_eq_iff)

lemma read_block_ok:
  assumes wf: "buf_wf rb" and pos: "b_pos rb = b_len rb" and sz: "unat bs \<le> unat (b_size rb)"
    and lt: "unat (b_len rb) < unat bs" and got: "got = take (unat (bs - b_pos rb)) xs"
  shows "res_ok (\<lambda>rb'. buf_wf rb' \<and> b_size rb' = b_size rb \<and> b_pos rb' = b_len rb' \<and>
      unat (b_len rb') = unat (b_len rb) + length got \<and> unat (b_len rb') \<le> unat bs)
    (rbind (mem_write (b_data rb) (unat (b_pos rb)) got) (\<lambda>d. buf_incrwritepos (rb\<lparr>b_data := d\<rparr>) (of_nat (length got))))"
proof -
  have m: "unat (bs - b_pos rb) = unat bs - unat (b_len rb)" using lt pos by (simp add: unat_minus_u32 word_le_nat_alt)
  have len: "unat (b_len rb) + length got \<le> unat bs" using got m lt by simp
  then have u: "unat (of_nat (length got) :: u32) = length got"
    using sz wf by (simp add: u32_simps buf_wf_nat)
  have fits: "unat (b_pos rb) + length got \<le> length (b_data rb)" using len sz wf pos by (simp add: buf_wf_nat)
  have "res_ok (\<lambda>rb'. buf_wf rb' \<and> b_size rb' = b_size rb \<and> b_pos rb' = b_len rb' \<and>
      unat (b_len rb') = unat (b_len rb) + length got \<and> unat (b_len rb') \<le> unat bs)
     (buf_incrwritepos (rb\<lparr>b_data := d\<rparr>) (of_nat (length got)))" if "length d = length (b_data rb)" for d
    using buf_incrwritepos_res [OF buf_wf_data [OF wf that], of "of_nat (length got)"] pos len u
    by (auto elim!: res_ok_mono)
  then show ?thesis using fits by (intro res_ok_rbind [OF mem_write_res_ok]) auto
qed

lemma read_packet_init_ok:
  assumes inv: "recv_inv ac am cm s"
    and first: "case s_readbuf s of None \<Rightarrow> True | Some rb \<Rightarrow> b_len rb < ucast (cp_blocksize ac)"
  shows "res_ok (\<lambda>(ret, s'). recv_inv ac am cm s' \<and>
      (ret \<longrightarrow> (\<exists>rb. s_readbuf s' = Some rb \<and> unat (cp_blocksize ac) \<le> unat (b_len rb)))) (read_packet_init junk r s)"
proof -
  let ?bs = "ucast (cp_blocksize ac) :: u32"
  have k: "keys_ok (k_recv (s_keys s)) ac am cm" and ro: "readbuf_ok (unat (cp_blocksize ac)) (s_readbuf s)"
    using inv by (auto simp: recv_inv_def)
  have inv_rb: "recv_inv ac am cm (s\<lparr>s_readbuf := Some rb\<rparr>)"
    if "buf_wf rb" "b_pos rb = b_len rb" "unat (b_len rb) < unat (cp_blocksize ac)" "unat (cp_blocksize ac) \<le> unat (b_size rb)" for rb
    using inv that by (simp add: recv_inv_def readbuf_ok_def payload_ok_def)
  have start: "res_ok (\<lambda>rb. buf_wf rb \<and> b_pos rb = b_len rb \<and> unat (b_len rb) < unat (cp_blocksize ac)
       \<and> unat (cp_blocksize ac) \<le> unat (b_size rb)) (case s_readbuf s of None \<Rightarrow> buf_new INIT_READBUF | Some rb \<Rightarrow> Inr rb)"
    using ro first keys_okD(5,6) [OF k]
    by (auto simp: readbuf_ok_def buf_new_eq word_less_nat_alt buf_wf_nat split: option.splits)
  have finish: "res_ok (\<lambda>(ret, s'). recv_inv ac am cm s' \<and>
      (ret \<longrightarrow> (\<exists>rb. s_readbuf s' = Some rb \<and> unat (cp_blocksize ac) \<le> unat (b_len rb))))
     (init_packet junk ?bs s rb)" if "buf_wf rb" for rb
    using that keys_okD(5) [OF k] inv
    by (auto simp: init_packet_def umod_def word_unat_eq_iff intro!: res_ok_rbind [OF buf_setpos_eq]
        res_ok_rbind [OF packet_length_ok [OF k]] res_ok_rbind [OF buf_resize_res] res_ok_rbind [OF buf_setlen_res])
      (auto simp: recv_inv_def readbuf_ok_def payload_ok_def keys_ok_def)
  have read: "res_ok (\<lambda>(ret, s'). recv_inv ac am cm s' \<and>
      (ret \<longrightarrow> (\<exists>rb. s_readbuf s' = Some rb \<and> unat (cp_blocksize ac) \<le> unat (b_len rb))))
     (rbind (mem_write (b_data rb) (unat (b_len rb)) (take (unat (?bs - b_len rb)) bs)) (\<lambda>d.
      rbind (buf_incrwritepos (rb\<lparr>b_data := d\<rparr>) (of_nat (length (take (unat (?bs - b_len rb)) bs)))) (\<lambda>rb'.
      if of_nat (length (take (unat (?bs - b_len rb)) bs)) \<noteq> ?bs - b_len rb
      then Inr (False, s\<lparr>s_readbuf := Some rb'\<rparr>) else init_packet junk ?bs s rb')))"
    if rb: "buf_wf rb" "b_pos rb = b_len rb" "unat (b_len rb) < unat (cp_blocksize ac)"
      "unat (cp_blocksize ac) \<le> unat (b_size rb)" for rb bs
  proof -
    let ?got = "take (unat (?bs - b_pos rb)) bs"
    have m: "unat (?bs - b_pos rb) = unat (cp_blocksize ac) - unat (b_len rb)"
      using rb by (simp add: unat_minus_u32 word_le_nat_alt)
    have ne: "length ?got < unat (?bs - b_pos rb)" if "of_nat (length ?got) \<noteq> ?bs - b_pos rb"
      using that by (cases "length ?got = unat (?bs - b_pos rb)") auto
    show ?thesis
      unfolding rbind_assoc [symmetric] rb(2) [symmetric]
      by (rule res_ok_rbind [OF read_block_ok [OF rb(1,2) _ _ refl, of ?bs bs]])
        (use rb m ne finish inv_rb in auto)
  qed
  show ?thesis
    unfolding read_packet_init_def keys_okD [OF k] deref_simps rbind_simps Let_def
    by (rule res_ok_rbind [OF start])
      (auto simp del: mem_write_ok length_take intro!: res_ok_rbind [OF buf_getwriteptr_ok] inv_rb read split: rd.splits)
qed

lemma read_packet_ok:
  assumes inv: "recv_inv ac am cm s"
  shows "res_ok (recv_inv ac am cm) (read_packet junk r1 r2 s)"
proof -
  have k: "keys_ok (k_recv (s_keys s)) ac am cm" using inv by (simp add: recv_inv_def)
  have init: "res_ok (\<lambda>(ret, s'). recv_inv ac am cm s' \<and>
      (ret \<longrightarrow> (\<exists>rb. s_readbuf s' = Some rb \<and> unat (cp_blocksize ac) \<le> unat (b_len rb))))
     (if (case s_readbuf s of None \<Rightarrow> True | Some rb \<Rightarrow> b_len rb < ucast (cp_blocksize ac))
      then read_packet_init junk r1 s else Inr (True, s))"
    using read_packet_init_ok [OF inv] inv by (auto simp: word_less_nat_alt not_less split: option.splits)
  have rest: "res_ok (recv_inv ac am cm) (rbind (deref (s_readbuf s')) (\<lambda>rb.
     let maxlen = b_len rb - b_pos rb in
     if maxlen = 0 then decrypt_packet s' else
     rbind (buf_getptr rb maxlen) (\<lambda>p.
     case r2 of
       Rd_again \<Rightarrow> Inr s'
     | Rd_fail \<Rightarrow> Inl (Dropbear_exit ''Error reading'')
     | Rd bs \<Rightarrow>
         let got = take (unat maxlen) bs; len = of_nat (length got) in
         if len = 0 then Inl (Dropbear_close ''Exited normally'') else
         rbind (mem_write (b_data rb) p got) (\<lambda>d.
         rbind (buf_incrpos (rb\<lparr>b_data := d\<rparr>) len) (\<lambda>rb.
         let s = s'\<lparr>s_readbuf := Some rb\<rparr> in
         if len = maxlen then decrypt_packet s else Inr s)))))"
    if s': "recv_inv ac am cm s'" "s_readbuf s' = Some rb" "unat (cp_blocksize ac) \<le> unat (b_len rb)" for s' rb
  proof -
    have wf: "buf_wf rb" "unat (cp_blocksize ac) \<le> unat (b_pos rb)" using s' by (auto simp: recv_inv_def readbuf_ok_def)
    have upd: "recv_inv ac am cm (s'\<lparr>s_readbuf := Some b\<rparr>)"
      if "buf_wf b" "b_len b = b_len rb" "unat (b_pos rb) \<le> unat (b_pos b)" for b
      using s' wf that by (auto simp: recv_inv_def readbuf_ok_def payload_ok_def)
    have m: "unat (b_len rb - b_pos rb) = unat (b_len rb) - unat (b_pos rb)"
      using wf by (simp add: unat_minus_u32 word_le_nat_alt buf_wf_nat)
    show ?thesis
      using wf s'(1) m res_ok_mono [OF decrypt_packet_ok [OF s'(1,2)]]
      by (auto simp: s'(2) Let_def intro!: res_ok_rbind [OF buf_getptr_ok] res_ok_rbind [OF mem_write_res_ok]
          res_ok_rbind [OF buf_incrpos_res] buf_wf_data upd res_ok_mono [OF decrypt_packet_ok]
          split: rd.splits) (auto simp: buf_wf_nat intro!: upd)
  qed
  show ?thesis
    unfolding read_packet_def keys_okD [OF k] deref_simps rbind_simps
    by (rule res_ok_rbind [OF init]) (use rest in auto)
qed

end
