(* ===== verification/Aead.thy ===== *)
theory Aead
  imports Packet_Safety
begin

text \<open>
  The two modes with an authentication tag: \<^verbatim>\<open>chachapoly.c\<close> and \<^verbatim>\<open>gcm.c\<close>, over the primitives of libtomcrypt, which are
  arguments. They satisfy what the packet layer relies on: the lengths of their results, and that what one
  end seals the other opens, with the length of the packet readable from its first block.
\<close>

section \<open>ChaCha20 and Poly1305\<close>

text \<open>
  \<open>chacha key iv counter n\<close> are \<open>n\<close> bytes of the key stream from block \<open>counter\<close> on; \<open>poly1305 key msg\<close> is the tag of a
  message.
\<close>

record chacha_lib =
  chacha :: "bytes \<Rightarrow> bytes \<Rightarrow> nat \<Rightarrow> nat \<Rightarrow> bytes"
  poly1305 :: "bytes \<Rightarrow> bytes \<Rightarrow> bytes"

definition chacha_lib_ok :: "chacha_lib \<Rightarrow> bool" where
  "chacha_lib_ok L \<longleftrightarrow> (\<forall>key iv ctr n. length (chacha L key iv ctr n) = n) \<and> (\<forall>key msg. length (poly1305 L key msg) = 16)"

definition xor_bytes :: "bytes \<Rightarrow> bytes \<Rightarrow> bytes" where
  "xor_bytes xs ys = map2 (XOR) xs ys"

definition chacha_crypt :: "chacha_lib \<Rightarrow> bytes \<Rightarrow> bytes \<Rightarrow> nat \<Rightarrow> bytes \<Rightarrow> bytes" where
  "chacha_crypt L key iv ctr inp = xor_bytes inp (chacha L key iv ctr (length inp))"

abbreviation (input) "CHACHA20_KEY_LEN \<equiv> 32 :: nat"
abbreviation (input) "POLY1305_KEY_LEN \<equiv> 32 :: nat"
abbreviation (input) "POLY1305_TAG_LEN \<equiv> 16 :: nat"

text \<open>\<^verbatim>\<open>STORE64H\<close> of a sequence number.\<close>

definition seqbuf :: "u32 \<Rightarrow> bytes" where
  "seqbuf seq = [0, 0, 0, 0] @ store32h seq"

text \<open>The state is the key: its first half for the content, its second half for the length.\<close>

definition dropbear_chachapoly_start :: "int \<Rightarrow> bytes \<Rightarrow> bytes \<Rightarrow> u32 \<Rightarrow> bytes option" where
  "dropbear_chachapoly_start cipher IV key keylen =
     (if unat keylen \<noteq> CHACHA20_KEY_LEN * 2 then None else Some (take (CHACHA20_KEY_LEN * 2) key))"

definition dropbear_chachapoly_crypt :: "chacha_lib \<Rightarrow> u32 \<Rightarrow> bytes \<Rightarrow> nat \<Rightarrow> bytes \<Rightarrow> bool \<Rightarrow> (bytes \<times> bytes) option" where
  "dropbear_chachapoly_crypt L seq inp taglen state encrypt =
     (let len = (if encrypt then length inp else length inp - taglen);
          body = take len inp; k1 = take CHACHA20_KEY_LEN state; k2 = drop CHACHA20_KEY_LEN state in
      if len < 4 \<or> taglen \<noteq> POLY1305_TAG_LEN then None else
      let key = chacha L k1 (seqbuf seq) 0 POLY1305_KEY_LEN in
      if \<not> encrypt \<and> take taglen (drop len inp) \<noteq> poly1305 L key body then None else
      let out = chacha_crypt L k2 (seqbuf seq) 0 (take 4 body) @ chacha_crypt L k1 (seqbuf seq) 1 (drop 4 body) in
      Some (if encrypt then out @ poly1305 L key out else out, state))"

definition dropbear_chachapoly_getlength :: "chacha_lib \<Rightarrow> u32 \<Rightarrow> bytes \<Rightarrow> bytes \<Rightarrow> (u32 \<times> bytes) option" where
  "dropbear_chachapoly_getlength L seq inp state =
     (if length inp < 4 then None
      else Some (load32h (chacha_crypt L (drop CHACHA20_KEY_LEN state) (seqbuf seq) 0 (take 4 inp)), state))"

definition dropbear_chachapoly_mac :: cipher_hash where
  "dropbear_chachapoly_mac = \<lparr>ch_hash_desc = None, ch_keysize = 32, ch_hashsize = 16\<rparr>"

definition dropbear_chachapoly :: cipher where
  "dropbear_chachapoly = \<lparr>cp_cipherdesc = Some None, cp_keysize = 64, cp_blocksize = 8\<rparr>"

definition dropbear_mode_chachapoly :: "chacha_lib \<Rightarrow> cipher_mode" where
  "dropbear_mode_chachapoly L = \<lparr>cm_start = dropbear_chachapoly_start, cm_encrypt = (\<lambda>_ _. None), cm_decrypt = (\<lambda>_ _. None),
     cm_aead_crypt = Some (dropbear_chachapoly_crypt L), cm_aead_getlength = dropbear_chachapoly_getlength L,
     cm_aead_mac = Some dropbear_chachapoly_mac\<rparr>"

section \<open>GCM\<close>

text \<open>
  \<open>gcm_process key iv inp\<close> is the input with the key stream applied, in either direction, and \<open>gcm_done key iv aad ct\<close>
  the tag of the additional data and the encrypted text. \<open>gcm_init\<close> tells whether a key can be used with a cipher.
\<close>

record gcm_lib =
  gcm_init :: "int \<Rightarrow> bytes \<Rightarrow> bool"
  gcm_process :: "bytes \<Rightarrow> bytes \<Rightarrow> bytes \<Rightarrow> bytes"
  gcm_done :: "bytes \<Rightarrow> bytes \<Rightarrow> bytes \<Rightarrow> bytes \<Rightarrow> bytes"

definition gcm_lib_ok :: "gcm_lib \<Rightarrow> bool" where
  "gcm_lib_ok L \<longleftrightarrow> (\<forall>key iv inp. length (gcm_process L key iv inp) = length inp \<and> gcm_process L key iv (gcm_process L key iv inp) = inp) \<and>
     (\<forall>key iv aad ct. length (gcm_done L key iv aad ct) = 16)"

abbreviation (input) "GCM_NONCE_LEN \<equiv> 12 :: nat"
abbreviation (input) "GCM_IVFIX_LEN \<equiv> 4 :: nat"
abbreviation (input) "GHASH_LEN \<equiv> 16 :: nat"

text \<open>The state: the nonce, then the key.\<close>

definition dropbear_gcm_start :: "gcm_lib \<Rightarrow> int \<Rightarrow> bytes \<Rightarrow> bytes \<Rightarrow> u32 \<Rightarrow> bytes option" where
  "dropbear_gcm_start L cipher IV key keylen =
     (if gcm_init L cipher (take (unat keylen) key) then Some (take GCM_NONCE_LEN IV @ take (unat keylen) key) else None)"

text \<open>The loop that increments the invocation counter, from its last byte (here the first of the list).\<close>

fun increment_iv :: "bytes \<Rightarrow> bytes" where
  "increment_iv [] = []"
| "increment_iv (b # bs) = (if b + 1 = 0 then 0 # increment_iv bs else (b + 1) # bs)"

definition next_iv :: "bytes \<Rightarrow> bytes" where
  "next_iv iv = take GCM_IVFIX_LEN iv @ rev (increment_iv (rev (drop GCM_IVFIX_LEN iv)))"

definition dropbear_gcm_crypt :: "gcm_lib \<Rightarrow> u32 \<Rightarrow> bytes \<Rightarrow> nat \<Rightarrow> bytes \<Rightarrow> bool \<Rightarrow> (bytes \<times> bytes) option" where
  "dropbear_gcm_crypt L seq inp taglen state encrypt =
     (let len = (if encrypt then length inp else length inp - taglen); body = take len inp;
          iv = take GCM_NONCE_LEN state; key = drop GCM_NONCE_LEN state in
      if len < 4 \<or> taglen \<noteq> GHASH_LEN then None else
      let out = gcm_process L key iv (drop 4 body); tag = gcm_done L key iv (take 4 body) (if encrypt then out else drop 4 body) in
      if \<not> encrypt \<and> take taglen (drop len inp) \<noteq> tag then None
      else Some (take 4 body @ out @ (if encrypt then tag else []), next_iv iv @ key))"

definition dropbear_gcm_getlength :: "u32 \<Rightarrow> bytes \<Rightarrow> bytes \<Rightarrow> (u32 \<times> bytes) option" where
  "dropbear_gcm_getlength seq inp state = (if length inp < 4 then None else Some (load32h (take 4 inp), state))"

definition dropbear_ghash :: cipher_hash where
  "dropbear_ghash = \<lparr>ch_hash_desc = None, ch_keysize = 0, ch_hashsize = 16\<rparr>"

definition dropbear_mode_gcm :: "gcm_lib \<Rightarrow> cipher_mode" where
  "dropbear_mode_gcm L = \<lparr>cm_start = dropbear_gcm_start L, cm_encrypt = (\<lambda>_ _. None), cm_decrypt = (\<lambda>_ _. None),
     cm_aead_crypt = Some (dropbear_gcm_crypt L), cm_aead_getlength = dropbear_gcm_getlength, cm_aead_mac = Some dropbear_ghash\<rparr>"

section \<open>Sealing and opening\<close>

lemma xor_bytes_simps [simp]:
  "length (xor_bytes xs ys) = min (length xs) (length ys)"
  "length xs = length ys \<Longrightarrow> xor_bytes (xor_bytes xs ys) ys = xs"
proof -
  show "length xs = length ys \<Longrightarrow> xor_bytes (xor_bytes xs ys) ys = xs"
    by (induction xs ys rule: list_induct2) (simp_all add: xor_bytes_def xor.assoc)
qed (simp add: xor_bytes_def)

lemma chacha_crypt_simps:
  assumes "chacha_lib_ok L"
  shows "length (chacha_crypt L key iv ctr inp) = length inp"
    "chacha_crypt L key iv ctr (chacha_crypt L key iv ctr inp) = inp"
  using assms by (simp_all add: chacha_crypt_def chacha_lib_ok_def)

lemma chachapoly_lengths: "chacha_lib_ok L \<Longrightarrow> crypt_lengths (dropbear_mode_chachapoly L)"
  unfolding crypt_lengths_def dropbear_mode_chachapoly_def
  by (auto simp: dropbear_chachapoly_crypt_def Let_def chacha_crypt_simps(1) chacha_lib_ok_def split: if_splits)

lemma chachapoly_opens:
  assumes L: "chacha_lib_ok L" and len: "8 \<le> length clear"
  shows "\<exists>ct. dropbear_chachapoly_crypt L seq clear 16 st True = Some (ct, st) \<and>
    dropbear_chachapoly_getlength L seq (take 8 ct) st = Some (load32h (take 4 clear), st) \<and>
    dropbear_chachapoly_crypt L seq ct 16 st False = Some (clear, st)"
proof -
  note simps = chacha_crypt_simps [OF L]
  have tag: "length (poly1305 L key msg) = 16" for key msg using L by (simp add: chacha_lib_ok_def)
  let ?h = "chacha_crypt L (drop 32 st) (seqbuf seq) 0 (take 4 clear)" and ?b = "chacha_crypt L (take 32 st) (seqbuf seq) 1 (drop 4 clear)"
  let ?ct = "(?h @ ?b) @ poly1305 L (chacha L (take 32 st) (seqbuf seq) 0 32) (?h @ ?b)"
  have h: "length ?h = 4" "take 4 (take 8 ?ct) = ?h" using len by (simp_all add: simps)
  have "dropbear_chachapoly_crypt L seq clear 16 st True = Some (?ct, st)"
    using len by (simp add: dropbear_chachapoly_crypt_def Let_def)
  moreover have "dropbear_chachapoly_getlength L seq (take 8 ?ct) st = Some (load32h (take 4 clear), st)"
    unfolding dropbear_chachapoly_getlength_def h(2) using len by (simp add: simps tag)
  moreover have "dropbear_chachapoly_crypt L seq ?ct 16 st False = Some (clear, st)"
    using len by (simp add: dropbear_chachapoly_crypt_def Let_def simps tag)
  ultimately show ?thesis by blast
qed

lemma gcm_lengths: "gcm_lib_ok L \<Longrightarrow> crypt_lengths (dropbear_mode_gcm L)"
  unfolding crypt_lengths_def dropbear_mode_gcm_def
  by (auto simp: dropbear_gcm_crypt_def Let_def gcm_lib_ok_def split: if_splits)

lemma gcm_opens:
  assumes L: "gcm_lib_ok L" and len: "16 \<le> length clear"
  shows "\<exists>ct st'. dropbear_gcm_crypt L seq clear 16 st True = Some (ct, st') \<and>
    dropbear_gcm_getlength seq (take 16 ct) st = Some (load32h (take 4 clear), st) \<and>
    dropbear_gcm_crypt L seq ct 16 st False = Some (clear, st')"
proof -
  have g: "length (gcm_process L key iv inp) = length inp" "gcm_process L key iv (gcm_process L key iv inp) = inp"
    "length (gcm_done L key iv aad ct) = 16" for key iv inp aad ct using L by (simp_all add: gcm_lib_ok_def)
  show ?thesis using len by (simp add: dropbear_gcm_crypt_def dropbear_gcm_getlength_def Let_def g)
qed

end
