(* ===== verification/Packet_Wire.thy ===== *)
theory Packet_Wire
  imports Aead
begin

unbundle bit_operations_syntax

text \<open>
  What goes over the wire. A packet sent by \<^verbatim>\<open>encrypt_packet\<close> is the specified sequence of
  bytes (length, padding length, payload, padding, sealed with the cipher and the MAC); a
  receiver with the matching keys that reads it gets the payload back; and \<^verbatim>\<open>write_packet\<close>
  puts the queued bytes on the socket in order, without loss or repetition.
\<close>

section \<open>The bytes of a sent packet\<close>

text \<open>A buffer given by its used bytes \<open>xs\<close>, the rest \<open>ys\<close> of its memory, and a position.\<close>

definition mk_buf :: "bytes \<Rightarrow> bytes \<Rightarrow> nat \<Rightarrow> buffer" where
  "mk_buf xs ys p = \<lparr>b_data = xs @ ys, b_len = of_nat (length xs), b_pos = of_nat p, b_size = of_nat (length xs + length ys)\<rparr>"

definition mk_ok :: "bytes \<Rightarrow> bytes \<Rightarrow> nat \<Rightarrow> bool" where
  "mk_ok xs ys p \<longleftrightarrow> length xs + length ys \<le> 1000000000 \<and> p \<le> length xs"

lemma mk_buf_sel [simp]:
  "b_data (mk_buf xs ys p) = xs @ ys" "b_len (mk_buf xs ys p) = of_nat (length xs)"
  "b_pos (mk_buf xs ys p) = of_nat p" "b_size (mk_buf xs ys p) = of_nat (length xs + length ys)"
  by (simp_all add: mk_buf_def)

lemma mk_ok_unat:
  "mk_ok xs ys p \<Longrightarrow> unat (of_nat p :: u32) = p" "mk_ok xs ys p \<Longrightarrow> unat (of_nat (length xs) :: u32) = length xs"
  "mk_ok xs ys p \<Longrightarrow> unat (of_nat (length xs + length ys) :: u32) = length xs + length ys"
  by (simp_all add: mk_ok_def u32_simps del: of_nat_add)

lemma mk_buf_wf: "mk_ok xs ys p \<Longrightarrow> buf_wf (mk_buf xs ys p)"
  using mk_ok_unat [of xs ys p] by (simp add: buf_wf_nat mk_ok_def del: of_nat_add)

lemma mk_buf_contents: "mk_ok xs ys p \<Longrightarrow> buf_contents (mk_buf xs ys p) = xs"
  using mk_ok_unat [of xs ys p] by (simp add: buf_contents_def)

lemma mk_buf_rest: "mk_ok xs ys p \<Longrightarrow> buf_rest (mk_buf xs ys p) = drop p xs"
  using mk_ok_unat [of xs ys p] by (simp add: buf_rest_def)

lemma buf_wf_mk:
  assumes "buf_wf b"
  shows "b = mk_buf (buf_contents b) (drop (unat (b_len b)) (b_data b)) (unat (b_pos b))"
    "mk_ok (buf_contents b) (drop (unat (b_len b)) (b_data b)) (unat (b_pos b))"
proof -
  have l: "length (buf_contents b) = unat (b_len b)" "length (buf_contents b) + length (drop (unat (b_len b)) (b_data b)) = unat (b_size b)"
    using assms by (auto simp: buf_contents_def buf_wf_nat)
  show "b = mk_buf (buf_contents b) (drop (unat (b_len b)) (b_data b)) (unat (b_pos b))"
    by (rule buffer.equality)
      (simp_all only: mk_buf_sel l(2), simp_all add: l(1), simp add: buf_contents_def)
  show "mk_ok (buf_contents b) (drop (unat (b_len b)) (b_data b)) (unat (b_pos b))"
    unfolding mk_ok_def l using assms by (simp add: l buf_wf_nat)
qed

lemma mk_setpos: "mk_ok xs ys p \<Longrightarrow> q \<le> length xs \<Longrightarrow> buf_setpos (mk_buf xs ys p) (of_nat q) = Inr (mk_buf xs ys q)"
  using mk_ok_unat(2) [of xs ys p] mk_ok_unat(1) [of xs ys q]
  by (simp add: buf_setpos_def u32_order mk_ok_def mk_buf_def)

lemma mk_setpos_0: "mk_ok xs ys p \<Longrightarrow> buf_setpos (mk_buf xs ys p) 0 = Inr (mk_buf xs ys 0)"
  using mk_setpos [of xs ys p 0] by simp

lemma mk_peek: "mk_ok xs ys p \<Longrightarrow> p + unat n \<le> length xs \<Longrightarrow> buf_peek (mk_buf xs ys p) n = Inr (take (unat n) (drop p xs))"
  by (simp add: buf_peek_rest mk_buf_wf mk_buf_rest)

lemma mk_getptr: "mk_ok xs ys p \<Longrightarrow> p + unat n \<le> length xs \<Longrightarrow> buf_getptr (mk_buf xs ys p) n = Inr p"
  using mk_ok_unat [of xs ys p] by (simp add: buf_getptr_eq mk_buf_wf)

lemma mk_getwriteptr: "mk_ok xs ys p \<Longrightarrow> p + unat n \<le> length xs + length ys \<Longrightarrow> buf_getwriteptr (mk_buf xs ys p) n = Inr p"
  using mk_ok_unat [of xs ys p] by (simp add: buf_getwriteptr_eq mk_buf_wf del: of_nat_add)

lemma mk_incrpos: "mk_ok xs ys p \<Longrightarrow> p + unat n \<le> length xs \<Longrightarrow> buf_incrpos (mk_buf xs ys p) n = Inr (mk_buf xs ys (p + unat n))"
  by (simp add: buf_incrpos_rest mk_buf_wf mk_buf_rest) (simp add: buf_skip_def mk_buf_def)

lemma mk_incrlen: "mk_ok xs ys p \<Longrightarrow> unat n \<le> length ys \<Longrightarrow>
   buf_incrlen (mk_buf xs ys p) n = Inr (mk_buf (xs @ take (unat n) ys) (drop (unat n) ys) p)"
  using mk_ok_unat [of xs ys p]
  by (simp add: buf_incrlen_eq mk_buf_wf del: of_nat_add) (simp add: mk_buf_def)

text \<open>Writing inside the used part, and at its end.\<close>

lemma mk_putbytes_in:
  assumes ok: "mk_ok (as @ os @ cs) ys (length as)" and l: "length os = unat n" and s: "unat n \<le> length src"
  shows "buf_putbytes (mk_buf (as @ os @ cs) ys (length as)) src n =
    Inr (mk_buf (as @ take (unat n) src @ cs) ys (length as + unat n))"
proof -
  note wf = mk_buf_wf [OF ok] and u = mk_ok_unat [OF ok]
  have eq: "buf_poke (mk_buf (as @ os @ cs) ys (length as)) n src = Inr (mk_buf (as @ take (unat n) src @ cs) ys (length as))"
    using u l s by (simp add: buf_poke_eq [OF wf s] del: of_nat_add length_append) (simp add: mk_buf_def)
  have ok': "mk_ok (as @ take (unat n) src @ cs) ys (length as)" using ok l s by (simp add: mk_ok_def)
  have pl: "unat (of_nat (length as) + n) = length as + unat n"
    using ok l u by (simp add: unat_plus_u32 mk_ok_def)
  show ?thesis
    unfolding buf_putbytes_def eq rbind_simps buf_incrwritepos_eq [OF mk_buf_wf [OF ok']]
    using mk_ok_unat [OF ok'] l s u by (simp add: u32_order pl del: of_nat_add) (simp add: mk_buf_def)
qed

lemma mk_putbytes_end:
  assumes ok: "mk_ok xs ys (length xs)" and l: "unat n \<le> length ys" "unat n \<le> length src"
  shows "buf_putbytes (mk_buf xs ys (length xs)) src n =
    Inr (mk_buf (xs @ take (unat n) src) (drop (unat n) ys) (length xs + unat n))"
proof -
  note wf = mk_buf_wf [OF ok] and u = mk_ok_unat [OF ok]
  have e: "buf_end (mk_buf xs ys (length xs)) (length (take (unat n) src))"
    using wf u l by (simp add: buf_end_def del: of_nat_add)
  have "buf_putbytes (mk_buf xs ys (length xs)) src n = buf_putbytes (mk_buf xs ys (length xs)) (take (unat n) src) (of_nat (length (take (unat n) src)))"
    using l by (simp add: buf_putbytes_def buf_poke_eq [OF wf])
  then show ?thesis
    unfolding buf_putbytes_append [OF e] using u l by (simp add: b_append_def mk_buf_def)
qed

text \<open>
  The specification of a sent packet: length, padding length, payload, padding; then
  either the AEAD output or the cipher text followed by the MAC of the sequence number and
  the clear text.
\<close>

definition packet_clear :: "bytes \<Rightarrow> bytes \<Rightarrow> bytes" where
  "packet_clear pl pad = store32h (of_nat (1 + length pl + length pad)) @ [of_nat (length pad)] @ pl @ pad"

definition mac_of :: "libs \<Rightarrow> u32 \<Rightarrow> key_dir \<Rightarrow> cipher_hash \<Rightarrow> bytes \<Rightarrow> bytes option" where
  "mac_of lib seq k am clear =
     (if ch_hashsize am = 0 then Some [] else
      case l_hmac lib (kd_hash_index k) (take (unat (ch_keysize am)) (kd_mackey k)) (store32h seq @ clear) of
        None \<Rightarrow> None
      | Some m \<Rightarrow> Some (take (unat (ch_hashsize am)) (take 64 m @ replicate (64 - length m) 0)))"

definition seal :: "libs \<Rightarrow> u32 \<Rightarrow> key_dir \<Rightarrow> cipher_hash \<Rightarrow> cipher_mode \<Rightarrow> bytes \<Rightarrow> (bytes \<times> bytes) option" where
  "seal lib seq k am cm clear =
     (case cm_aead_crypt cm of
        Some aead \<Rightarrow> aead seq clear (unat (ch_hashsize am)) (kd_cipher_state k) True
      | None \<Rightarrow> (case mac_of lib seq k am clear of None \<Rightarrow> None
        | Some m \<Rightarrow> (case cm_encrypt cm clear (kd_cipher_state k) of None \<Rightarrow> None
          | Some (ct, st) \<Rightarrow> Some (ct @ m, st))))"

lemma length_packet_clear: "length (packet_clear pl pad) = 5 + length pl + length pad"
  by (simp add: packet_clear_def)

definition mac_array :: "libs \<Rightarrow> u32 \<Rightarrow> key_dir \<Rightarrow> cipher_hash \<Rightarrow> bytes \<Rightarrow> bytes" where
  "mac_array lib seq k am clear =
     (if ch_hashsize am = 0 then replicate 64 0
      else let h = the (l_hmac lib (kd_hash_index k) (take (unat (ch_keysize am)) (kd_mackey k)) (store32h seq @ clear))
           in take 64 h @ replicate (64 - length h) 0)"

lemma length_mac_array [simp]: "length (mac_array lib seq k am clear) = 64"
  by (auto simp: mac_array_def Let_def min_def)

lemma make_mac_mk:
  assumes k: "keys_ok k ac am cm" and ok: "mk_ok xs ys p" and n: "unat n \<le> length xs"
  shows "make_mac lib seq k (mk_buf xs ys p) n (replicate 64 0) =
     (case mac_of lib seq k am (take (unat n) xs) of None \<Rightarrow> Inl (Dropbear_exit ''HMAC error'')
      | Some m \<Rightarrow> Inr (mac_array lib seq k am (take (unat n) xs), mk_buf xs ys (if ch_hashsize am = 0 then p else 0)))"
  using keys_okD(2,8) [OF k] ok n
  by (auto simp: make_mac_def mac_of_def mac_array_def Let_def mk_setpos_0 mk_peek mk_ok_def word_gt_0 split: option.splits)

lemma mac_array_take:
  assumes "mac_of lib seq k am clear = Some m" "unat (ch_hashsize am) \<le> 64"
  shows "m = take (unat (ch_hashsize am)) (mac_array lib seq k am clear)" "length m = unat (ch_hashsize am)"
  using assms by (auto simp: mac_of_def mac_array_def Let_def split: if_splits option.splits)

lemma mem_write_all: "length out = n \<Longrightarrow> n \<le> length d \<Longrightarrow> mem_write d 0 out = Inr (out @ drop n d)"
  by simp

text \<open>Replacing the cipher state of the sending direction.\<close>

definition set_trans_state :: "sshsession \<Rightarrow> bytes \<Rightarrow> sshsession" where
  "set_trans_state s st = s\<lparr>s_keys := (s_keys s)\<lparr>k_trans := (k_trans (s_keys s))\<lparr>kd_cipher_state := st\<rparr>\<rparr>\<rparr>"

lemma mk_buf_data: "mk_buf xs ys p\<lparr>b_data := xs' @ ys'\<rparr> = mk_buf xs' ys' p"
  if "length xs' = length xs" "length ys' = length ys"
  using that by (simp add: mk_buf_def)

lemma encrypt_writebuf_mk:
  assumes k: "keys_ok (k_trans (s_keys s)) ac am cm"
    and ok: "mk_ok xs ys p" and room: "unat (ch_hashsize am) \<le> length ys"
    and sl: "seal (s_libs s) (s_transseq s) (k_trans (s_keys s)) am cm xs = Some (wire, st)"
  shows "\<exists>ys'. encrypt_writebuf s (mk_buf xs ys p) = Inr (mk_buf wire ys' (length wire), set_trans_state s st)
     \<and> mk_ok wire ys' (length wire) \<and> length wire = length xs + unat (ch_hashsize am)"
proof (cases "cm_aead_crypt cm")
  case None
  obtain m ct where m: "mac_of (s_libs s) (s_transseq s) (k_trans (s_keys s)) am xs = Some m"
    and ct: "cm_encrypt cm xs (kd_cipher_state (k_trans (s_keys s))) = Some (ct, st)" and w: "wire = ct @ m"
    using sl None by (auto simp: seal_def split: option.splits)
  have lc: "length ct = length xs" using crypt_lengthsD(2) [OF keys_okD(4) [OF k] ct] .
  note lm = mac_array_take [OF m keys_okD(7) [OF k]]
  note u = mk_ok_unat [OF ok]
  define arr where "arr = mac_array (s_libs s) (s_transseq s) (k_trans (s_keys s)) am xs"
  define q where "q = (if ch_hashsize am = 0 then p else 0)"
  have mm: "m = take (unat (ch_hashsize am)) arr" "length arr = 64" using lm(1) by (auto simp: arr_def)
  have mk: "make_mac (s_libs s) (s_transseq s) (k_trans (s_keys s)) (mk_buf xs ys p) (of_nat (length xs)) (replicate 64 0)
      = Inr (arr, mk_buf xs ys q)"
    using make_mac_mk [OF k ok, of "of_nat (length xs)"] u m by (simp add: arr_def q_def)
  have q: "q \<le> length xs" using ok by (simp add: q_def mk_ok_def)
  have okq: "mk_ok xs ys q" "mk_ok xs ys 0" "mk_ok ct ys 0" "mk_ok ct ys (length ct)" "mk_ok (ct @ m) (drop (unat (ch_hashsize am)) ys) (length (ct @ m))"
    using ok q lc lm(2) room by (auto simp: mk_ok_def)
  have d: "mk_buf xs ys 0\<lparr>b_data := ct @ drop (length xs) (xs @ ys)\<rparr> = mk_buf ct ys 0"
    using lc by (simp add: mk_buf_data)
  have put: "buf_putbytes (mk_buf ct ys (length xs)) arr (ucast (ch_hashsize am)) =
      Inr (mk_buf (ct @ m) (drop (unat (ch_hashsize am)) ys) (length xs + unat (ch_hashsize am)))"
    using mk_putbytes_end [OF okq(4), of "ucast (ch_hashsize am)" arr] keys_okD(7) [OF k] room mm lc by simp
  have wr: "mem_write (xs @ ys) 0 ct = Inr (ct @ drop (length xs) (xs @ ys))" using lc by simp
  have "encrypt_writebuf s (mk_buf xs ys p) = Inr (mk_buf wire (drop (unat (ch_hashsize am)) ys) (length wire), set_trans_state s st)"
    unfolding encrypt_writebuf_def keys_okD [OF k] deref_simps rbind_simps Let_def None option.case mk_buf_sel mk prod.case
    using u lc room mm(2) lm(2)
    by (simp add: mk_setpos_0 [OF okq(1)] mk_peek [OF okq(2)] mk_getwriteptr [OF okq(2)] ct d wr mk_incrpos [OF okq(3)]
        put set_trans_state_def [symmetric] w mm(1) [symmetric] del: mem_write_ok drop_append)
  then show ?thesis using okq w lm(2) lc by auto
next
  case (Some aead)
  have ct: "aead (s_transseq s) xs (unat (ch_hashsize am)) (kd_cipher_state (k_trans (s_keys s))) True = Some (wire, st)"
    using sl Some by (simp add: seal_def)
  have lw: "length wire = length xs + unat (ch_hashsize am)" using crypt_lengthsD(4) [OF keys_okD(4) [OF k] Some ct] .
  note u = mk_ok_unat [OF ok]
  let ?h = "unat (ch_hashsize am)"
  have okq: "mk_ok xs ys 0" "mk_ok (xs @ take ?h ys) (drop ?h ys) 0" "mk_ok wire (drop ?h ys) 0" "mk_ok wire (drop ?h ys) (length wire)"
    using ok lw room by (auto simp: mk_ok_def)
  have ul: "unat (of_nat (length xs) + ucast (ch_hashsize am) :: u32) = length wire"
    using u lw ok room by (simp add: unat_plus_u32 mk_ok_def)
  have wr: "mem_write (xs @ ys) 0 wire = Inr (wire @ drop ?h ys)" using lw room by (simp)
  have d: "mk_buf (xs @ take ?h ys) (drop ?h ys) 0\<lparr>b_data := wire @ drop ?h ys\<rparr> = mk_buf wire (drop ?h ys) 0"
    using lw room by (simp add: mk_buf_data)
  have "encrypt_writebuf s (mk_buf xs ys p) = Inr (mk_buf wire (drop ?h ys) (length wire), set_trans_state s st)"
    unfolding encrypt_writebuf_def keys_okD [OF k] deref_simps rbind_simps Let_def Some option.case mk_setpos_0 [OF ok] mk_buf_sel
    using u lw room ul
    by (simp add: mk_incrlen [OF okq(1)] mk_peek [OF okq(2)] mk_getwriteptr [OF okq(2)] ct d wr mk_incrpos [OF okq(3)]
        set_trans_state_def [symmetric] del: mem_write_ok)
  then show ?thesis using okq lw by auto
qed

lemma mk_putint_0:
  assumes ok: "mk_ok (z @ cs) ys 0" and z: "length z = 4"
  shows "buf_putint (mk_buf (z @ cs) ys 0) v = Inr (mk_buf (store32h v @ cs) ys 4)"
  using mk_putbytes_in [of "[]" z cs ys 4 "store32h v"] ok z by (simp add: buf_putint_def buf_putbytes_def)

lemma mk_putbyte_in:
  assumes ok: "mk_ok (as @ b # cs) ys (length as)"
  shows "buf_putbyte (mk_buf (as @ b # cs) ys (length as)) v = Inr (mk_buf (as @ v # cs) ys (Suc (length as)))"
proof -
  note u = mk_ok_unat [OF ok]
  have "\<not> b_pos (mk_buf (as @ b # cs) ys (length as)) \<ge> b_len (mk_buf (as @ b # cs) ys (length as))"
    using u by (simp add: word_le_nat_alt del: of_nat_add of_nat_Suc length_append) simp
  then show ?thesis using u
    by (simp add: buf_putbyte_def del: of_nat_add of_nat_Suc) (simp add: mk_buf_def)
qed

lemma mk_getbyte: "mk_ok xs ys 0 \<Longrightarrow> xs \<noteq> [] \<Longrightarrow> buf_getbyte (mk_buf xs ys 0) = Inr (hd xs, mk_buf xs ys 1)"
  by (cases xs) (simp_all add: buf_getbyte_rest [OF mk_buf_wf] mk_buf_rest, simp add: buf_skip_def mk_buf_def)

lemma pad_writebuf_mk:
  assumes ok: "mk_ok (z4 @ z1 # pl) ys (5 + length pl)" and z: "length z4 = 4" and room: "unat p \<le> length ys"
    and pad: "pad = fst (genrandom s (unat p))"
  shows "pad_writebuf s (mk_buf (z4 @ z1 # pl) ys (5 + length pl)) p =
    Inr (mk_buf (packet_clear pl pad) (drop (unat p) ys) (5 + length pl), snd (genrandom s (unat p)))"
proof -
  let ?v = "of_nat (length (z4 @ z1 # pl)) + ucast p - 4 :: u32"
  have v: "?v = of_nat (1 + length pl + length pad)"
    using z pad room by (simp add: word_unat_eq_iff)
  have ok0: "mk_ok (z4 @ z1 # pl) ys 0" "mk_ok (store32h ?v @ z1 # pl) ys 4" "mk_ok (store32h ?v @ p # pl) ys 5"
    "mk_ok (store32h ?v @ p # pl) ys (5 + length pl)"
    "mk_ok ((store32h ?v @ p # pl) @ take (unat p) ys) (drop (unat p) ys) (5 + length pl)"
    using ok z room by (auto simp: mk_ok_def)
  have pb: "buf_putbyte (mk_buf (store32h ?v @ z1 # pl) ys 4) p = Inr (mk_buf (store32h ?v @ p # pl) ys 5)"
    using mk_putbyte_in [of "store32h ?v" z1 pl ys p] ok0(2) by (simp add: eval_nat_numeral)
  have sp: "buf_setpos (mk_buf (store32h ?v @ p # pl) ys 5) (of_nat (length (store32h ?v @ p # pl))) =
      Inr (mk_buf (store32h ?v @ p # pl) ys (5 + length pl))"
    using mk_setpos [OF ok0(3), of "5 + length pl"] by simp
  have gp: "buf_getptr (mk_buf ((store32h ?v @ p # pl) @ take (unat p) ys) (drop (unat p) ys) (5 + length pl)) (ucast p) = Inr (5 + length pl)"
    using mk_getptr [OF ok0(5), of "ucast p"] room by simp
  have lp: "length pad = unat p" "of_nat (length pad) = p" using pad by simp_all
  have wr: "mem_write (((store32h ?v @ p # pl) @ take (unat p) ys) @ drop (unat p) ys) (5 + length pl) pad
      = Inr (packet_clear pl pad @ drop (unat p) ys)"
    using lp room z by (simp add: packet_clear_def)
  have up: "mk_buf ((store32h ?v @ p # pl) @ take (unat p) ys) (drop (unat p) ys) (5 + length pl)\<lparr>b_data := packet_clear pl pad @ drop (unat p) ys\<rparr>
      = mk_buf (packet_clear pl pad) (drop (unat p) ys) (5 + length pl)"
    using lp room by (intro mk_buf_data) (auto simp: length_packet_clear)
  show ?thesis
    unfolding pad_writebuf_def mk_setpos_0 [OF ok] rbind_simps mk_buf_sel mk_putint_0 [OF ok0(1) z] pb sp
    using room pad
    by (simp only: mk_incrlen [OF ok0(4)] rbind_simps gp unat_ucast_byte case_prod_unfold Let_def mk_buf_sel wr [unfolded pad] up [unfolded pad] pad)
qed

definition sent_padding :: "sshsession \<Rightarrow> cipher \<Rightarrow> cipher_mode \<Rightarrow> bytes \<Rightarrow> bytes" where
  "sent_padding s ac cm pl =
     (case packet_padlen (cm_aead_crypt cm \<noteq> None) (cp_blocksize ac) (of_nat (5 + length pl)) of
        Inl _ \<Rightarrow> [] | Inr p \<Rightarrow> fst (genrandom s (unat p)))"

lemma new_writebuf:
  assumes "unat n \<le> 1000000000" "5 \<le> unat n"
  shows "rbind (buf_new n) (\<lambda>b. rbind (buf_setlen b PACKET_PAYLOAD_OFF) (\<lambda>b. buf_setpos b PACKET_PAYLOAD_OFF))
     = Inr (mk_buf (replicate 5 0) (replicate (unat n - 5) 0) 5)"
  using assms
  by (simp add: buf_new_eq buf_setlen_def buf_setpos_def u32_order mk_buf_def flip: replicate_add)

lemma fill_writebuf_mk:
  assumes nc: "\<not> is_compress_trans s" and wp: "s_writepayload s = mk_buf pl zs 0" "mk_ok pl zs 0"
    and ok: "mk_ok xs ys (length xs)" and room: "length pl \<le> length ys"
  shows "fill_writebuf s (mk_buf xs ys (length xs)) = Inr (mk_buf (xs @ pl) (drop (length pl) ys) (length xs + length pl), s)"
proof -
  note u = mk_ok_unat(2) [OF wp(2)]
  have "rbind (buf_poke (mk_buf xs ys (length xs)) (of_nat (length pl)) pl) (\<lambda>b. buf_incrwritepos b (of_nat (length pl)))
      = Inr (mk_buf (xs @ pl) (drop (length pl) ys) (length xs + length pl))"
    using mk_putbytes_end [OF ok, of "of_nat (length pl)" pl] u room by (simp add: buf_putbytes_def)
  then show ?thesis
    using nc u by (auto simp: fill_writebuf_def wp(1) Let_def mk_peek [OF wp(2)] rbind_eq_Inr)
qed

lemma enqueue_mk:
  assumes "queue_rep (s_writequeue s) bufs" "mk_ok wire ys p"
  shows "\<exists>q. writebuf_enqueue s (mk_buf wire ys p) =
      Inr (s\<lparr>s_writequeue := q, s_writequeue_len := s_writequeue_len s + of_nat (length wire)\<rparr>)
     \<and> queue_rep q (bufs @ [mk_buf wire ys 0])"
  using enqueue_rep [OF assms(1), of "mk_buf wire ys 0"] assms(2)
  by (auto simp: writebuf_enqueue_def mk_setpos_0)


text \<open>The state in which a packet of the given size, type and time leaves the session.\<close>

lemma encrypt_packet_sealed:
  assumes k: "keys_ok (k_trans (s_keys s)) ac am cm" and nc: "\<not> is_compress_trans s"
    and wp: "s_writepayload s = mk_buf pl zs p0" "mk_ok pl zs p0" and pl: "pl \<noteq> []" "length pl \<le> 200000"
    and allowed: "s_dataallowed s \<or> packet_is_okay_kex (hd pl)"
    and q: "queue_rep (s_writequeue s) bufs"
    and sl: "seal (s_libs s) (s_transseq s) (k_trans (s_keys s)) am cm (packet_clear pl (sent_padding s ac cm pl)) = Some (wire, st)"
  shows "\<exists>s' ys. encrypt_packet s = Inr s' \<and> queue_rep (s_writequeue s') (bufs @ [mk_buf wire ys 0]) \<and> mk_ok wire ys 0
     \<and> s_transseq s' = s_transseq s + 1 \<and> s_writequeue_len s' = s_writequeue_len s + of_nat (length wire)
     \<and> s_writepayload s' = mk_buf [] (pl @ zs) 0 \<and> length wire = 5 + length pl + length (sent_padding s ac cm pl) + unat (ch_hashsize am)"
proof -
  let ?bs = "unat (cp_blocksize ac)" and ?h = "unat (ch_hashsize am)"
  let ?N = "(of_nat (length pl) + 4 + 1) + max MIN_PACKET_LEN (ucast (cp_blocksize ac)) + 3 + ucast (ch_hashsize am) + ZLIB_COMPRESS_EXPANSION + 1 :: u32"
  note kd = keys_okD [OF k] and u = mk_ok_unat [OF wp(2)]
  have N: "unat ?N = length pl + 60 + max 16 ?bs + ?h"
    using pl kd(6,7) u by (simp add: unat_plus_u32 max_def word_le_nat_alt)
  obtain p where p: "packet_padlen (cm_aead_crypt cm \<noteq> None) (cp_blocksize ac) (of_nat (5 + length pl)) = Inr p"
     "unat p \<le> ?bs + 3 \<or> 5 + length pl + unat p < 16 + ?bs"
    using packet_padlen_ok [OF kd(5,6), of "of_nat (5 + length pl)" "cm_aead_crypt cm \<noteq> None"] pl
    by (cases pl) (auto simp: u32_simps simp del: of_nat_add of_nat_Suc)
  define pad where "pad = sent_padding s ac cm pl"
  have pad: "pad = fst (genrandom s (unat p))" unfolding pad_def sent_padding_def p(1) by simp
  have lpad: "length pad = unat p" by (simp add: pad)
  define s1 where "s1 = s\<lparr>s_writepayload := mk_buf pl zs 0\<rparr>"
  define s2 where "s2 = s1\<lparr>s_writepayload := mk_buf [] (pl @ zs) 0\<rparr>"
  define s3 where "s3 = snd (genrandom s2 (unat p))"
  have s3: "s_keys s3 = s_keys s" "s_libs s3 = s_libs s" "s_transseq s3 = s_transseq s" "s_writequeue s3 = s_writequeue s"
    "s_writequeue_len s3 = s_writequeue_len s" "s_writepayload s3 = mk_buf [] (pl @ zs) 0"
    by (simp_all add: s3_def s2_def s1_def genrandom_def)
  have g: "fst (genrandom s2 (unat p)) = pad" by (simp add: pad s2_def s1_def genrandom_def)
  let ?ys = "replicate (unat ?N - 5) (0 :: byte)"
  have okp: "mk_ok pl zs 0" using wp(2) by (simp add: mk_ok_def)
  have okw: "mk_ok (replicate 5 0) ?ys (length (replicate 5 (0::byte)))" using N pl kd(6,7) by (simp add: mk_ok_def)
  have nb: "rbind (buf_new ?N) (\<lambda>b. rbind (buf_setlen b PACKET_PAYLOAD_OFF) (\<lambda>b. buf_setpos b PACKET_PAYLOAD_OFF))
     = Inr (mk_buf (replicate 5 0) ?ys 5)" using N pl kd(6,7) by (intro new_writebuf) auto
  have fw: "fill_writebuf s1 (mk_buf (replicate 5 0) ?ys 5) = Inr (mk_buf (replicate 5 0 @ pl) (drop (length pl) ?ys) (5 + length pl), s1)"
    using fill_writebuf_mk [of s1 pl zs, OF _ _ okp okw] nc N by (simp add: s1_def is_compress_trans_def)
  have r5: "replicate 5 (0 :: byte) @ pl = replicate 4 0 @ 0 # pl" by (simp add: eval_nat_numeral)
  have pw: "pad_writebuf s2 (mk_buf (replicate 5 0 @ pl) (drop (length pl) ?ys) (5 + length pl)) p =
     Inr (mk_buf (packet_clear pl pad) (drop (unat p) (drop (length pl) ?ys)) (5 + length pl), s3)"
    unfolding r5 s3_def using p(2) N pl kd(6,7) by (intro pad_writebuf_mk) (auto simp: g mk_ok_def)
  have okc: "mk_ok (packet_clear pl pad) (drop (unat p) (drop (length pl) ?ys)) (5 + length pl)"
    using N pl kd(6,7) p(2) by (auto simp: mk_ok_def length_packet_clear lpad)
  have k3: "keys_ok (k_trans (s_keys s3)) ac am cm" using k by (simp add: s3)
  have sl3: "seal (s_libs s3) (s_transseq s3) (k_trans (s_keys s3)) am cm (packet_clear pl pad) = Some (wire, st)"
    using sl by (simp add: s3 pad_def)
  have room: "?h \<le> length (drop (unat p) (drop (length pl) ?ys))" using N p(2) by auto
  obtain ys' where ew: "encrypt_writebuf s3 (mk_buf (packet_clear pl pad) (drop (unat p) (drop (length pl) ?ys)) (5 + length pl))
      = Inr (mk_buf wire ys' (length wire), set_trans_state s3 st)" and okf: "mk_ok wire ys' (length wire)"
    and lw: "length wire = length (packet_clear pl pad) + ?h"
    using encrypt_writebuf_mk [OF k3 okc room sl3] by blast
  define s4 where "s4 = (set_trans_state s3 st)\<lparr>s_kexstate := (s_kexstate (set_trans_state s3 st))\<lparr>datatrans := datatrans (s_kexstate (set_trans_state s3 st)) + of_nat (length wire)\<rparr>\<rparr>"
  have s4: "s_writequeue s4 = s_writequeue s" "s_transseq s4 = s_transseq s" "s_writequeue_len s4 = s_writequeue_len s" "s_writepayload s4 = mk_buf [] (pl @ zs) 0"
    by (simp_all add: s4_def set_trans_state_def s3)
  obtain q' where we: "writebuf_enqueue s4 (mk_buf wire ys' (length wire)) = Inr (s4\<lparr>s_writequeue := q', s_writequeue_len := s_writequeue_len s4 + of_nat (length wire)\<rparr>)"
    and q': "queue_rep q' (bufs @ [mk_buf wire ys' 0])"
    using enqueue_mk [of s4 bufs, OF _ okf] q by (auto simp: s4)
  have gb: "buf_getbyte (mk_buf pl zs 0) = Inr (hd pl, mk_buf pl zs 1)" "mk_ok pl zs 1"
    using mk_getbyte [OF okp pl(1)] pl okp by (auto simp: mk_ok_def Suc_le_eq)
  have sl0: "buf_setlen (mk_buf pl zs 0) 0 = Inr (mk_buf [] (pl @ zs) 0)" by (simp add: buf_setlen_def mk_buf_def)
  obtain b1 b2 where b: "buf_new ?N = Inr b1" "buf_setlen b1 PACKET_PAYLOAD_OFF = Inr b2" "buf_setpos b2 PACKET_PAYLOAD_OFF = Inr (mk_buf (replicate 5 0) ?ys 5)"
    using nb by (auto simp: rbind_eq_Inr)
  have s1: "s_keys s1 = s_keys s" "s_dataallowed s1 = s_dataallowed s" "s_writepayload s1 = mk_buf pl zs 0" by (simp_all add: s1_def)
  have nl: "b_len (mk_buf (replicate 5 0 @ pl) (drop (length pl) ?ys) (5 + length pl)) = of_nat (5 + length pl)" by simp
  have cond: "(\<not> s_dataallowed s \<and> \<not> packet_is_okay_kex (hd pl)) = False" using allowed by simp
  have "encrypt_packet s = (let s = s4\<lparr>s_writequeue := q', s_writequeue_len := s_writequeue_len s4 + of_nat (length wire)\<rparr>;
         s = s\<lparr>s_transseq := s_transseq s + 1\<rparr>; (now, s) = monotonic_now s; s = s\<lparr>s_last_packet_time_any_sent := now\<rparr>
     in Inr (if hd pl \<noteq> SSH_MSG_REQUEST_FAILURE \<and> hd pl \<noteq> SSH_MSG_UNIMPLEMENTED \<and> hd pl \<noteq> SSH_MSG_IGNORE
             then s\<lparr>s_last_packet_time_idle := now\<rparr> else s))"
    by (simp only: encrypt_packet_def wp(1) mk_setpos_0 [OF wp(2)] mk_setpos_0 [OF gb(2)] gb rbind_simps prod.case Let_def
      s1_def [symmetric] s1 cond if_False kd(1-3) deref_simps mk_buf_sel(2) b fw mk_setpos_0 [OF okp] sl0 s2_def [symmetric]
      nl [unfolded mk_buf_sel] p(1) pw ew s4_def [symmetric] we)
  then have "\<exists>s'. encrypt_packet s = Inr s' \<and> s_writequeue s' = q' \<and> s_transseq s' = s_transseq s + 1
     \<and> s_writequeue_len s' = s_writequeue_len s + of_nat (length wire) \<and> s_writepayload s' = mk_buf [] (pl @ zs) 0"
    by (simp add: Let_def monotonic_now_def s4)
  then show ?thesis using q' okf lw by (auto simp: mk_ok_def length_packet_clear pad_def)
qed

section \<open>Opening a sealed packet\<close>

text \<open>
  What the receiver relies on of the peer's cipher: the first block and the rest decrypt to
  the clear text, in the AEAD modes the length is that of the clear text, and the MAC is the
  one the receiver computes.
\<close>

definition opens :: "libs \<Rightarrow> u32 \<Rightarrow> key_dir \<Rightarrow> cipher \<Rightarrow> cipher_hash \<Rightarrow> cipher_mode \<Rightarrow> bytes \<Rightarrow> bytes \<Rightarrow> bool" where
  "opens lib seq k ac am cm wire clear \<longleftrightarrow>
     (let bs = unat (cp_blocksize ac); h = unat (ch_hashsize am); st = kd_cipher_state k in
      length wire = length clear + h \<and>
      (case cm_aead_crypt cm of
         Some aead \<Rightarrow>
           (case cm_aead_getlength cm seq (take bs wire) st of None \<Rightarrow> False
            | Some (plen, st1) \<Rightarrow> plen = load32h (take 4 clear) \<and>
                (case aead seq wire h st1 False of None \<Rightarrow> False | Some (out, st2) \<Rightarrow> out = clear))
       | None \<Rightarrow>
           mac_of lib seq k am clear = Some (drop (length clear) wire) \<and>
           (case cm_decrypt cm (take bs wire) st of None \<Rightarrow> False
            | Some (out1, st1) \<Rightarrow> out1 = take bs clear \<and>
                (case cm_decrypt cm (drop bs (take (length clear) wire)) st1 of None \<Rightarrow> False
                 | Some (out2, st2) \<Rightarrow> out2 = drop bs clear))))"

lemma mk_write_end:
  assumes ok: "mk_ok xs ys (length xs)" and l: "length got \<le> length ys"
  shows "rbind (mem_write (xs @ ys) (length xs) got) (\<lambda>d. buf_incrwritepos (mk_buf xs ys (length xs)\<lparr>b_data := d\<rparr>) (of_nat (length got)))
    = Inr (mk_buf (xs @ got) (drop (length got) ys) (length xs + length got))"
proof -
  have u: "unat (of_nat (length got) :: u32) = length got" using ok l by (simp add: mk_ok_def u32_simps)
  have "buf_putbytes (mk_buf xs ys (length xs)) got (of_nat (length got)) =
      Inr (mk_buf (xs @ got) (drop (length got) ys) (length xs + length got))"
    using mk_putbytes_end [OF ok, of "of_nat (length got)" got] u l by simp
  then show ?thesis
    using u l by (simp add: buf_putbytes_def buf_poke_def mk_getwriteptr [OF ok])
qed

lemma mk_write_in:
  assumes ok: "mk_ok (as @ os @ cs) ys p" and l: "length got = length os"
  shows "mem_write ((as @ os @ cs) @ ys) (length as) got = Inr ((as @ got @ cs) @ ys)"
    "mk_buf (as @ os @ cs) ys p\<lparr>b_data := (as @ got @ cs) @ ys\<rparr> = mk_buf (as @ got @ cs) ys p"
  using l by (simp_all add: mk_buf_data del: append_assoc)

lemma mk_setlen:
  assumes ok: "mk_ok xs ys p" and n: "p \<le> n" "n \<le> length xs + length ys"
  shows "buf_setlen (mk_buf xs ys p) (of_nat n) = Inr (mk_buf (take n (xs @ ys)) (drop n (xs @ ys)) p)"
proof -
  have u: "unat (of_nat n :: u32) = n" "unat (of_nat p :: u32) = p"
    "unat (of_nat (length xs + length ys) :: u32) = length xs + length ys"
    using ok n by (simp_all add: mk_ok_def u32_simps del: of_nat_add)
  have l: "length (take n (xs @ ys)) = n" "n + length (drop n (xs @ ys)) = length xs + length ys"
    using n by auto
  have m: "min (of_nat p) (of_nat n :: u32) = of_nat p" using n u by (simp add: min_def word_le_nat_alt)
  have nl: "\<not> of_nat n > b_size (mk_buf xs ys p)" unfolding mk_buf_sel word_less_nat_alt u using n by simp
  have "mk_buf xs ys p\<lparr>b_len := of_nat n, b_pos := of_nat p\<rparr> = mk_buf (take n (xs @ ys)) (drop n (xs @ ys)) p"
    by (rule buffer.equality) (simp_all only: mk_buf_sel l append_take_drop_id buffer.simps, simp_all)
  then show ?thesis unfolding buf_setlen_def mk_buf_sel(3) m using nl by simp
qed

lemma mk_resize: "mk_ok xs ys p \<Longrightarrow> length xs + length ys < n \<Longrightarrow> n \<le> 1000000000 \<Longrightarrow>
   \<exists>ys'. buf_resize junk (mk_buf xs ys p) (of_nat n) = Inr (mk_buf xs ys' p) \<and> length xs + length ys' = n"
  using mk_ok_unat [of xs ys p]
  by (auto simp: buf_resize_def u32_order mk_ok_def u32_simps mk_buf_def min_def
      intro!: exI [of _ "ys @ map junk [length xs + length ys..<n]"] simp del: of_nat_add)

lemma first_block:
  assumes w: "8 \<le> bs" "bs \<le> 64" "bs \<le> length wire" and b: "unat (b :: byte) = bs"
  shows "rbind (buf_getwriteptr (mk_buf [] (replicate 128 0) 0) (ucast b)) (\<lambda>p.
      rbind (mem_write (replicate 128 0) p (take bs wire)) (\<lambda>d.
      buf_incrwritepos (mk_buf [] (replicate 128 0) 0\<lparr>b_data := d\<rparr>) (of_nat (length (take bs wire)))))
    = Inr (mk_buf (take bs wire) (replicate (128 - bs) 0) bs)"
proof -
  have ok: "mk_ok [] (replicate 128 0) (length ([] :: bytes))" by (simp add: mk_ok_def)
  show ?thesis
    using mk_write_end [OF ok, of "take bs wire"] w mk_getwriteptr [OF ok, of "ucast b"] b
    by (simp add: min_def del: mem_write_ok)
qed

lemma take4_clear: "take 4 (packet_clear pl pad) = store32h (of_nat (1 + length pl + length pad))"
  by (simp add: packet_clear_def)

text \<open>The first block, as the buffer holds it once the length is known.\<close>

definition block_view :: "cipher_mode \<Rightarrow> nat \<Rightarrow> bytes \<Rightarrow> bytes \<Rightarrow> bytes" where
  "block_view cm bs wire clear = (if cm_aead_crypt cm = None then take bs clear else take bs wire)"

lemma packet_length_mk:
  assumes k: "keys_ok (k_recv (s_keys s)) ac am cm" and bs: "bs = unat (cp_blocksize ac)"
    and op: "opens (s_libs s) (s_recvseq s) (k_recv (s_keys s)) ac am cm wire clear"
    and cl: "clear = packet_clear pl pad" and len: "bs \<le> length clear" and ok: "mk_ok (take bs wire) ys 0"
  shows "\<exists>st p plen. packet_length s (mk_buf (take bs wire) ys 0) =
      Inr (plen, of_nat (length wire), mk_buf (block_view cm bs wire clear) ys p, st) \<and> p \<le> bs
      \<and> plen = of_nat (length clear - (if cm_aead_crypt cm = None then 0 else 4))
      \<and> (case cm_aead_crypt cm of
           Some aead \<Rightarrow> (\<exists>st2. aead (s_recvseq s) wire (unat (ch_hashsize am)) st False = Some (clear, st2))
         | None \<Rightarrow> (\<exists>st2. cm_decrypt cm (drop bs (take (length clear) wire)) st = Some (drop bs clear, st2)))"
proof (cases "cm_aead_crypt cm")
  case None
  note kd = keys_okD [OF k]
  have lw: "length wire = length clear + unat (ch_hashsize am)" using op by (simp add: opens_def Let_def)
  obtain st1 st2 where d1: "cm_decrypt cm (take bs wire) (kd_cipher_state (k_recv (s_keys s))) = Some (take bs clear, st1)"
    and d2: "cm_decrypt cm (drop bs (take (length clear) wire)) st1 = Some (drop bs clear, st2)"
    using op None by (auto simp: opens_def bs Let_def split: option.splits)
  have l: "length (take bs wire) = bs" "length (take bs clear) = bs" using len lw by auto
  have ok': "mk_ok (take bs clear) ys 0" using ok l by (simp add: mk_ok_def)
  have "bs \<ge> 8" using kd(5) bs by simp
  then have t4: "take 4 (take bs clear) = store32h (of_nat (1 + length pl + length pad))"
    using take4_clear [of pl pad] cl by simp
  have wr: "mem_write (take bs wire @ ys) 0 (take bs clear) = Inr (take bs clear @ ys)" using l by simp
  have up: "mk_buf (take bs wire) ys 0\<lparr>b_data := take bs clear @ ys\<rparr> = mk_buf (take bs clear) ys 0" using l by (intro mk_buf_data) auto
  have gi: "buf_getint (mk_buf (take bs clear) ys 0) = Inr (of_nat (1 + length pl + length pad), mk_buf (take bs clear) ys 4)"
    using \<open>bs \<ge> 8\<close> l t4 by (simp add: buf_getint_rest [OF mk_buf_wf [OF ok']] mk_buf_rest [OF ok'] del: take_take of_nat_add) (simp add: buf_skip_def mk_buf_def)
  have pe: "buf_peek (mk_buf (take bs wire) ys 0) (ucast (cp_blocksize ac)) = Inr (take bs wire)"
    and gw: "buf_getwriteptr (mk_buf (take bs wire) ys 0) (ucast (cp_blocksize ac)) = Inr 0"
    using mk_peek [OF ok, of "ucast (cp_blocksize ac)"] mk_getwriteptr [OF ok, of "ucast (cp_blocksize ac)"] l bs by simp_all
  have "packet_length s (mk_buf (take bs wire) ys 0) = Inr (of_nat (1 + length pl + length pad) + 4,
      of_nat (1 + length pl + length pad) + 4 + ucast (ch_hashsize am), mk_buf (take bs clear) ys 4, st1)"
    by (simp only: packet_length_def kd deref_simps rbind_simps Let_def None option.case pe gw d1 prod.case mk_buf_sel wr up gi)
  moreover have "of_nat (1 + length pl + length pad) + 4 + ucast (ch_hashsize am) = (of_nat (length wire) :: u32)"
    using lw cl by (simp add: length_packet_clear add.assoc)
  moreover have "of_nat (1 + length pl + length pad) + 4 = (of_nat (length clear) :: u32)"
    using cl by (simp add: length_packet_clear)
  ultimately show ?thesis using d2 \<open>bs \<ge> 8\<close> by (auto simp: block_view_def None)
next
  case (Some aead)
  note kd = keys_okD [OF k]
  have lw: "length wire = length clear + unat (ch_hashsize am)" using op by (simp add: opens_def Let_def)
  obtain st1 st2 where g: "cm_aead_getlength cm (s_recvseq s) (take bs wire) (kd_cipher_state (k_recv (s_keys s))) = Some (load32h (take 4 clear), st1)"
    and d2: "aead (s_recvseq s) wire (unat (ch_hashsize am)) st1 False = Some (clear, st2)"
    using op Some by (auto simp: opens_def bs Let_def split: option.splits)
  have l: "length (take bs wire) = bs" using len lw by auto
  have lh: "load32h (take 4 clear) = (of_nat (1 + length pl + length pad) :: u32)" by (simp add: cl take4_clear)
  have pe: "buf_peek (mk_buf (take bs wire) ys 0) (ucast (cp_blocksize ac)) = Inr (take bs wire)"
    using mk_peek [OF ok, of "ucast (cp_blocksize ac)"] l bs by simp
  have "packet_length s (mk_buf (take bs wire) ys 0) = Inr (of_nat (1 + length pl + length pad),
      of_nat (1 + length pl + length pad) + 4 + ucast (ch_hashsize am), mk_buf (take bs wire) ys 0, st1)"
    by (simp only: packet_length_def kd deref_simps rbind_simps Let_def Some option.case pe g lh prod.case)
  moreover have "of_nat (1 + length pl + length pad) + 4 + ucast (ch_hashsize am) = (of_nat (length wire) :: u32)"
    using lw cl by (simp add: length_packet_clear add.assoc)
  ultimately show ?thesis using d2 cl by (auto simp: block_view_def Some length_packet_clear)
qed

lemma init_packet_mk:
  assumes k: "keys_ok (k_recv (s_keys s)) ac am cm" and bs: "bs = unat (cp_blocksize ac)"
    and op: "opens (s_libs s) (s_recvseq s) (k_recv (s_keys s)) ac am cm wire clear"
    and cl: "clear = packet_clear pl pad" and len: "bs \<le> length clear - (if cm_aead_crypt cm = None then 0 else 4)" and lw: "length wire \<le> 131172"
    and md: "(length clear - (if cm_aead_crypt cm = None then 0 else 4)) mod bs = 0"
    and ok: "mk_ok (take bs wire) ys p0" and yl: "bs + length ys = 128"
  shows "\<exists>st xs ys'. init_packet junk (ucast (cp_blocksize ac)) s (mk_buf (take bs wire) ys p0) =
      Inr (True, (set_recv_state s st)\<lparr>s_readbuf := Some (mk_buf (block_view cm bs wire clear @ xs) ys' bs)\<rparr>)
      \<and> mk_ok (block_view cm bs wire clear @ xs) ys' bs \<and> bs + length xs = length wire
      \<and> (case cm_aead_crypt cm of
           Some aead \<Rightarrow> (\<exists>st2. aead (s_recvseq s) wire (unat (ch_hashsize am)) st False = Some (clear, st2))
         | None \<Rightarrow> (\<exists>st2. cm_decrypt cm (drop bs (take (length clear) wire)) st = Some (drop bs clear, st2)))"
proof -
  have lwc: "length wire = length clear + unat (ch_hashsize am)" using op by (simp add: opens_def Let_def)
  have lc: "bs \<le> length clear" using len by (simp split: if_splits)
  have bl: "length (block_view cm bs wire clear) = bs" using lc lwc by (auto simp: block_view_def)
  have ok0: "mk_ok (take bs wire) ys 0" using ok by (simp add: mk_ok_def)
  obtain st p plen where pk: "packet_length s (mk_buf (take bs wire) ys 0) =
      Inr (plen, of_nat (length wire), mk_buf (block_view cm bs wire clear) ys p, st)" "p \<le> bs"
      "plen = of_nat (length clear - (if cm_aead_crypt cm = None then 0 else 4))"
      and st: "(case cm_aead_crypt cm of
           Some aead \<Rightarrow> (\<exists>st2. aead (s_recvseq s) wire (unat (ch_hashsize am)) st False = Some (clear, st2))
         | None \<Rightarrow> (\<exists>st2. cm_decrypt cm (drop bs (take (length clear) wire)) st = Some (drop bs clear, st2)))"
    using packet_length_mk [OF k bs op cl lc ok0] by blast
  have up: "unat plen = length clear - (if cm_aead_crypt cm = None then 0 else 4)" using pk(3) lw lwc by (simp add: u32_simps)
  have ul: "unat (of_nat (length wire) :: u32) = length wire" using lw by (simp add: u32_simps)
  have "unat (plen mod ucast (cp_blocksize ac)) = 0" using md up bs by (simp add: unat_mod)
  then have um: "umod plen (ucast (cp_blocksize ac)) = Inr 0" using keys_okD(5) [OF k] by (simp add: umod_def word_unat_eq_iff)
  have okb: "mk_ok (block_view cm bs wire clear) ys p" using ok bl pk(2) lc lwc by (simp add: mk_ok_def)
  obtain zs where rs: "(if of_nat (length wire) > b_size (mk_buf (block_view cm bs wire clear) ys p)
       then buf_resize junk (mk_buf (block_view cm bs wire clear) ys p) (of_nat (length wire))
       else Inr (mk_buf (block_view cm bs wire clear) ys p)) = Inr (mk_buf (block_view cm bs wire clear) zs p)"
     and zl: "length wire \<le> bs + length zs" "mk_ok (block_view cm bs wire clear) zs p"
  proof (cases "length wire > 128")
    case True
    obtain ys' where "buf_resize junk (mk_buf (block_view cm bs wire clear) ys p) (of_nat (length wire)) = Inr (mk_buf (block_view cm bs wire clear) ys' p)"
      "length (block_view cm bs wire clear) + length ys' = length wire"
      using mk_resize [OF okb, of "length wire"] True lw bl yl by auto
    with True ul bl yl lw pk(2) show ?thesis
      by (intro that [of ys']) (auto simp: mk_ok_def word_less_nat_alt mk_ok_unat(3) [OF okb] simp del: of_nat_add)
  next
    case False
    with ul bl yl okb show ?thesis
      by (intro that [of ys]) (auto simp: word_less_nat_alt mk_ok_unat(3) [OF okb] simp del: of_nat_add)
  qed
  have nchk: "\<not> (of_nat (length wire) > RECV_MAX_PACKET_LEN \<or> plen < ucast (cp_blocksize ac) \<or> (0 :: u32) \<noteq> 0)"
    using lw ul up len bs by (simp add: u32_order)
  define xs where "xs = take (length wire - bs) zs"
  have bw: "bs \<le> length wire" using lc lwc by simp
  have tk: "take (length wire) (block_view cm bs wire clear @ zs) = block_view cm bs wire clear @ xs"
    "drop (length wire) (block_view cm bs wire clear @ zs) = drop (length wire - bs) zs"
    using bl bw by (simp_all add: xs_def)
  have sl: "buf_setlen (mk_buf (block_view cm bs wire clear) zs p) (of_nat (length wire)) =
      Inr (mk_buf (block_view cm bs wire clear @ xs) (drop (length wire - bs) zs) p)"
    using mk_setlen [OF zl(2), of "length wire"] pk(2) bw zl(1) bl by (simp add: tk xs_def)
  have okx: "mk_ok (block_view cm bs wire clear @ xs) (drop (length wire - bs) zs) p" "mk_ok (block_view cm bs wire clear @ xs) (drop (length wire - bs) zs) bs"
    using zl bl pk(2) by (auto simp: mk_ok_def xs_def)
  have sp: "buf_setpos (mk_buf (block_view cm bs wire clear @ xs) (drop (length wire - bs) zs) p) (ucast (cp_blocksize ac)) =
      Inr (mk_buf (block_view cm bs wire clear @ xs) (drop (length wire - bs) zs) bs)"
    using mk_setpos [OF okx(1), of bs] bl bs by simp
  have "init_packet junk (ucast (cp_blocksize ac)) s (mk_buf (take bs wire) ys p0) =
      Inr (True, (set_recv_state s st)\<lparr>s_readbuf := Some (mk_buf (block_view cm bs wire clear @ xs) (drop (length wire - bs) zs) bs)\<rparr>)"
    unfolding init_packet_def mk_setpos_0 [OF ok] rbind_simps pk(1) prod.case um if_not_P [OF nchk] rs sl sp
    by (simp add: set_recv_state_def)
  moreover have "bs + length xs = length wire" using zl(1) bw by (simp add: xs_def)
  ultimately show ?thesis using okx(2) st by blast
qed

lemma mk_getbyte_at:
  assumes ok: "mk_ok xs ys p" and p: "p < length xs"
  shows "buf_getbyte (mk_buf xs ys p) = Inr (xs ! p, mk_buf xs ys (Suc p))"
proof -
  have "buf_rest (mk_buf xs ys p) = xs ! p # drop (Suc p) xs"
    using mk_buf_rest [OF ok] p by (simp add: Cons_nth_drop_Suc)
  then show ?thesis
    by (simp add: buf_getbyte_rest [OF mk_buf_wf [OF ok]]) (simp add: buf_skip_def mk_buf_def)
qed

lemma checkmac_mk:
  assumes k: "keys_ok (k_recv (s_keys s)) ac am cm" and ok: "mk_ok (clear @ m) ys p"
    and mac: "mac_of (s_libs s) (s_recvseq s) (k_recv (s_keys s)) am clear = Some m"
  shows "checkmac s (mk_buf (clear @ m) ys p) = Inr (True, mk_buf (clear @ m) ys (length clear))"
proof -
  note kd = keys_okD [OF k] and lm = mac_array_take [OF mac keys_okD(7) [OF k]]
  let ?arr = "mac_array (s_libs s) (s_recvseq s) (k_recv (s_keys s)) am clear"
  have ok0: "mk_ok (clear @ m) ys 0" "mk_ok (clear @ m) ys (length clear)" using ok by (auto simp: mk_ok_def)
  have cl: "of_nat (length (clear @ m)) - ucast (ch_hashsize am) = (of_nat (length clear) :: u32)"
    using lm(2) by (simp add: word_unat_eq_iff)
  have uc: "unat (of_nat (length clear) :: u32) = length clear" using mk_ok_unat(1) [OF ok0(2)] .
  have mm: "make_mac (s_libs s) (s_recvseq s) (k_recv (s_keys s)) (mk_buf (clear @ m) ys 0) (of_nat (length clear)) (replicate 64 0) =
      Inr (?arr, mk_buf (clear @ m) ys 0)"
    using make_mac_mk [OF k ok0(1), of "of_nat (length clear)"] uc mac by simp
  have sp: "buf_setpos (mk_buf (clear @ m) ys 0) (of_nat (length clear)) = Inr (mk_buf (clear @ m) ys (length clear))"
    using mk_setpos [OF ok0(1), of "length clear"] by simp
  have pk: "buf_peek (mk_buf (clear @ m) ys (length clear)) (ucast (ch_hashsize am)) = Inr m"
    using mk_peek [OF ok0(2), of "ucast (ch_hashsize am)"] lm(2) by simp
  obtain c where c: "constant_time_memcmp ?arr m (unat (ch_hashsize am)) = Inr c" "c = 0"
    using constant_time_memcmp_eq [of "unat (ch_hashsize am)" ?arr m] lm kd(7) by auto
  show ?thesis
    by (simp only: checkmac_def kd deref_simps rbind_simps Let_def mk_setpos_0 [OF ok] mk_buf_sel cl mm prod.case sp pk
        unat_ucast_byte c) simp
qed

lemma decrypt_readbuf_mk:
  assumes k: "keys_ok (k_recv (s_keys s)) ac am cm" and bs: "bs = unat (cp_blocksize ac)"
    and ok: "mk_ok (block_view cm bs wire clear @ drop bs wire) ys p" and len: "bs \<le> length clear"
    and lw: "length wire = length clear + unat (ch_hashsize am)"
    and st: "case cm_aead_crypt cm of
           Some aead \<Rightarrow> (\<exists>st2. aead (s_recvseq s) wire (unat (ch_hashsize am)) (kd_cipher_state (k_recv (s_keys s))) False = Some (clear, st2))
         | None \<Rightarrow> mac_of (s_libs s) (s_recvseq s) (k_recv (s_keys s)) am clear = Some (drop (length clear) wire) \<and>
             (\<exists>st2. cm_decrypt cm (drop bs (take (length clear) wire)) (kd_cipher_state (k_recv (s_keys s))) = Some (drop bs clear, st2))"
  shows "\<exists>st2. decrypt_readbuf s (mk_buf (block_view cm bs wire clear @ drop bs wire) ys p) =
      Inr (mk_buf (clear @ drop (length clear) wire) ys (length clear), set_recv_state s st2)
      \<and> mk_ok (clear @ drop (length clear) wire) ys (length clear)"
proof (cases "cm_aead_crypt cm")
  case None
  note kd = keys_okD [OF k]
  obtain st2 where mac: "mac_of (s_libs s) (s_recvseq s) (k_recv (s_keys s)) am clear = Some (drop (length clear) wire)"
    and d: "cm_decrypt cm (drop bs (take (length clear) wire)) (kd_cipher_state (k_recv (s_keys s))) = Some (drop bs clear, st2)"
    using st None by auto
  let ?m = "drop (length clear) wire" and ?ct = "drop bs (take (length clear) wire)"
  have split: "drop bs wire = ?ct @ ?m" using len lw by (metis append_take_drop_id drop_append drop_take length_take min.absorb2 le_add1 diff_is_0_eq drop_0)
  have bv: "block_view cm bs wire clear = take bs clear" by (simp add: block_view_def None)
  have ok1: "mk_ok (take bs clear @ ?ct @ ?m) ys p" "mk_ok (take bs clear @ ?ct @ ?m) ys bs"
    "mk_ok (take bs clear @ drop bs clear @ ?m) ys bs" "mk_ok (clear @ ?m) ys (length clear)"
    using ok lw len unfolding bv split by (auto simp: mk_ok_def)
  have lt: "length (take bs clear) = bs" "length (drop bs clear) = length ?ct" using len lw by auto
  have sp: "buf_setpos (mk_buf (take bs clear @ ?ct @ ?m) ys p) (ucast (cp_blocksize ac)) = Inr (mk_buf (take bs clear @ ?ct @ ?m) ys bs)"
    using mk_setpos [OF ok1(1), of bs] bs len by simp
  have tot: "length (take bs clear @ ?ct @ ?m) = length wire" using len lw by simp
  have ln: "of_nat (length (take bs clear @ ?ct @ ?m)) - ucast (ch_hashsize am) - of_nat bs = (of_nat (length ?ct) :: u32)"
    unfolding tot using len lw by (simp add: word_unat_eq_iff of_nat_diff)
  have ul: "unat (of_nat (length ?ct) :: u32) = length ?ct" using ok1(1) by (simp add: mk_ok_def u32_simps)
  have pk: "buf_peek (mk_buf (take bs clear @ ?ct @ ?m) ys bs) (of_nat (length ?ct)) = Inr ?ct"
    and gw: "buf_getwriteptr (mk_buf (take bs clear @ ?ct @ ?m) ys bs) (of_nat (length ?ct)) = Inr bs"
    using mk_peek [OF ok1(2), of "of_nat (length ?ct)"] mk_getwriteptr [OF ok1(2), of "of_nat (length ?ct)"] ul len lw by simp_all
  have wr: "mem_write ((take bs clear @ ?ct @ ?m) @ ys) bs (drop bs clear) = Inr ((take bs clear @ drop bs clear @ ?m) @ ys)"
    "mk_buf (take bs clear @ ?ct @ ?m) ys bs\<lparr>b_data := (take bs clear @ drop bs clear @ ?m) @ ys\<rparr> = mk_buf (clear @ ?m) ys bs"
    using mk_write_in [OF ok1(2) lt(2)] lt(1) by simp_all
  have ip: "buf_incrpos (mk_buf (clear @ ?m) ys bs) (of_nat (length ?ct)) = Inr (mk_buf (clear @ ?m) ys (length clear))"
    using mk_incrpos [of "clear @ ?m" ys bs "of_nat (length ?ct)"] ok1(4) ul len lw by (simp add: mk_ok_def)
  have "decrypt_readbuf s (mk_buf (take bs clear @ ?ct @ ?m) ys p) = Inr (mk_buf (clear @ ?m) ys (length clear), set_recv_state s st2)"
    by (simp only: decrypt_readbuf_def kd deref_simps rbind_simps Let_def None option.case sp mk_buf_sel ln pk gw d prod.case
        wr ip checkmac_mk [OF k ok1(4) mac] not_True_eq_False if_False set_recv_state_def)
  then show ?thesis using ok1(4) unfolding bv split by blast
next
  case (Some aead)
  note kd = keys_okD [OF k]
  obtain st2 where d: "aead (s_recvseq s) wire (unat (ch_hashsize am)) (kd_cipher_state (k_recv (s_keys s))) False = Some (clear, st2)"
    using st Some by auto
  have bv: "block_view cm bs wire clear @ drop bs wire = wire" by (simp add: block_view_def Some)
  let ?m = "drop (length clear) wire"
  have ok1: "mk_ok wire ys p" "mk_ok wire ys 0" "mk_ok (clear @ ?m) ys 0" "mk_ok (clear @ ?m) ys (length clear)"
    using ok lw unfolding bv by (auto simp: mk_ok_def)
  have ln: "of_nat (length wire) - ucast (ch_hashsize am) - of_nat 0 = (of_nat (length clear) :: u32)"
    using lw by (simp add: word_unat_eq_iff)
  have ul: "unat (of_nat (length clear) :: u32) = length clear" using ok1(4) by (simp add: mk_ok_def u32_simps)
  have ut: "unat (of_nat (length clear) + ucast (ch_hashsize am) :: u32) = length wire"
    using ul lw ok1(1) by (simp add: unat_plus_u32 mk_ok_def)
  have pk: "buf_peek (mk_buf wire ys 0) (of_nat (length clear) + ucast (ch_hashsize am)) = Inr wire"
    and gw: "buf_getwriteptr (mk_buf wire ys 0) (of_nat (length clear)) = Inr 0"
    using mk_peek [OF ok1(2), of "of_nat (length clear) + ucast (ch_hashsize am)"] mk_getwriteptr [OF ok1(2), of "of_nat (length clear)"] ul ut lw by simp_all
  have wr: "mem_write (wire @ ys) 0 clear = Inr ((clear @ ?m) @ ys)" using lw by simp
  have up: "mk_buf wire ys 0\<lparr>b_data := (clear @ ?m) @ ys\<rparr> = mk_buf (clear @ ?m) ys 0" using lw by (intro mk_buf_data) auto
  have ip: "buf_incrpos (mk_buf (clear @ ?m) ys 0) (of_nat (length clear)) = Inr (mk_buf (clear @ ?m) ys (length clear))"
    using mk_incrpos [OF ok1(3), of "of_nat (length clear)"] ul by simp
  have "decrypt_readbuf s (mk_buf wire ys p) = Inr (mk_buf (clear @ ?m) ys (length clear), set_recv_state s st2)"
    by (simp only: decrypt_readbuf_def kd deref_simps rbind_simps Let_def Some option.case mk_setpos_0 [OF ok1(1)] mk_buf_sel ln pk gw
        unat_ucast_byte d prod.case wr up ip set_recv_state_def)
  then show ?thesis using ok1(4) unfolding bv by blast
qed

lemma take_payload_mk:
  assumes k: "keys_ok (k_recv (s_keys s)) ac am cm" and nc: "\<not> is_compress_recv s"
    and cl: "clear = packet_clear pl pad" and pl: "pl \<noteq> []" "length pl \<le> 131072" and pad: "length pad < 256"
    and ok: "mk_ok (clear @ m) ys p" and m: "length m = unat (ch_hashsize am)"
  shows "\<exists>b. take_payload s (mk_buf (clear @ m) ys p) =
      Inr (s\<lparr>s_payload := Some b, s_payload_beginning := 5, s_readbuf := None, s_recvseq := s_recvseq s + 1\<rparr>)
     \<and> buf_wf b \<and> buf_rest b = pl"
proof -
  note kd = keys_okD [OF k]
  have ok1: "mk_ok (clear @ m) ys 4" "mk_ok (clear @ m) ys 5" using ok cl by (auto simp: mk_ok_def length_packet_clear)
  have sp: "buf_setpos (mk_buf (clear @ m) ys p) 4 = Inr (mk_buf (clear @ m) ys 4)"
    using mk_setpos [OF ok, of 4] cl by (simp add: length_packet_clear)
  have up: "unat (of_nat (length pad) :: byte) = length pad" using pad by (simp add: unat_of_nat)
  have uc: "ucast (of_nat (length pad) :: byte) = (of_nat (length pad) :: u32)"
    using up pad by (simp add: word_unat_eq_iff unat_of_nat)
  have gb: "buf_getbyte (mk_buf (clear @ m) ys 4) = Inr (of_nat (length pad), mk_buf (clear @ m) ys 5)"
    using mk_getbyte_at [OF ok1(1)] by (simp add: cl length_packet_clear) (simp add: packet_clear_def nth_append eval_nat_numeral)
  have ln: "of_nat (length (clear @ m)) - ucast (of_nat (length pad) :: byte) - 4 - 1 - ucast (ch_hashsize am) = (of_nat (length pl) :: u32)"
    using m cl uc by (simp add: length_packet_clear)
  have ul: "unat (of_nat (length pl) :: u32) = length pl" using pl by (simp add: u32_simps)
  have chk: "\<not> (of_nat (length pl) > RECV_MAX_PAYLOAD_LEN + ZLIB_COMPRESS_EXPANSION \<or> of_nat (length pl) < (1 :: u32))"
    using ul pl by (cases pl) (simp_all add: u32_order)
  have sp5: "buf_setpos (mk_buf (clear @ m) ys 5) 5 = Inr (mk_buf (clear @ m) ys 5)"
    using mk_setpos [OF ok1(2), of 5] cl by (simp add: length_packet_clear)
  let ?n = "5 + length pl"
  let ?b = "mk_buf (take ?n ((clear @ m) @ ys)) (drop ?n ((clear @ m) @ ys)) 5"
  have sl: "buf_setlen (mk_buf (clear @ m) ys 5) (of_nat 5 + of_nat (length pl)) = Inr ?b"
    using mk_setlen [OF ok1(2), of ?n] cl by (simp add: length_packet_clear)
  have okb: "mk_ok (take ?n ((clear @ m) @ ys)) (drop ?n ((clear @ m) @ ys)) 5" using ok cl by (auto simp: mk_ok_def length_packet_clear)
  have "drop 5 (take ?n ((clear @ m) @ ys)) = pl" by (simp add: cl packet_clear_def)
  then have "buf_wf ?b \<and> buf_rest ?b = pl" using mk_buf_wf [OF okb] mk_buf_rest [OF okb] by simp
  moreover have "take_payload s (mk_buf (clear @ m) ys p) =
      Inr (s\<lparr>s_payload := Some ?b, s_payload_beginning := 5, s_readbuf := None, s_recvseq := s_recvseq s + 1\<rparr>)"
    using nc by (simp only: take_payload_def kd deref_simps rbind_simps sp gb prod.case mk_buf_sel Let_def ln chk if_False sp5 sl) simp
  ultimately show ?thesis by blast
qed

lemma read_packet_opens:
  assumes k: "keys_ok (k_recv (s_keys t)) ac am cm" and nc: "\<not> is_compress_recv t" and rb: "s_readbuf t = None"
    and bs: "bs = unat (cp_blocksize ac)"
    and op: "opens (s_libs t) (s_recvseq t) (k_recv (s_keys t)) ac am cm wire clear"
    and cl: "clear = packet_clear pl pad" and len: "bs \<le> length clear - (if cm_aead_crypt cm = None then 0 else 4)"
    and lw: "length wire \<le> 131172"
    and md: "(length clear - (if cm_aead_crypt cm = None then 0 else 4)) mod bs = 0"
    and pl: "pl \<noteq> []" "length pl \<le> 131072" and pad: "length pad < 256"
  shows "\<exists>t' b. read_packet junk (Rd wire) (Rd (drop bs wire)) t = Inr t' \<and> s_payload t' = Some b \<and> buf_wf b \<and> buf_rest b = pl
     \<and> s_recvseq t' = s_recvseq t + 1 \<and> s_readbuf t' = None"
proof -
  note kd = keys_okD [OF k]
  have lwc: "length wire = length clear + unat (ch_hashsize am)" using op by (simp add: opens_def Let_def)
  have lc: "bs \<le> length clear" using len by (simp split: if_splits)
  have b8: "8 \<le> bs" "bs \<le> 64" "bs \<le> length wire" using kd(5,6) bs lc lwc by auto
  let ?rb0 = "mk_buf [] (replicate 128 0) 0"
  have nb: "buf_new INIT_READBUF = Inr ?rb0" by (simp add: buf_new_eq mk_buf_def)
  obtain p d where fb: "buf_getwriteptr ?rb0 (ucast (cp_blocksize ac)) = Inr p" "mem_write (replicate 128 0) p (take bs wire) = Inr d"
    "buf_incrwritepos (?rb0\<lparr>b_data := d\<rparr>) (of_nat (length (take bs wire))) = Inr (mk_buf (take bs wire) (replicate (128 - bs) 0) bs)"
    using first_block [OF b8, of "cp_blocksize ac"] bs by (auto simp: rbind_eq_Inr)
  have ok: "mk_ok (take bs wire) (replicate (128 - bs) 0) bs" using b8 by (simp add: mk_ok_def)
  obtain st xs ys where ini: "init_packet junk (ucast (cp_blocksize ac)) t (mk_buf (take bs wire) (replicate (128 - bs) 0) bs) =
      Inr (True, (set_recv_state t st)\<lparr>s_readbuf := Some (mk_buf (block_view cm bs wire clear @ xs) ys bs)\<rparr>)"
    and okx: "mk_ok (block_view cm bs wire clear @ xs) ys bs" and lx: "bs + length xs = length wire"
    and st: "case cm_aead_crypt cm of
           Some aead \<Rightarrow> (\<exists>st2. aead (s_recvseq t) wire (unat (ch_hashsize am)) st False = Some (clear, st2))
         | None \<Rightarrow> (\<exists>st2. cm_decrypt cm (drop bs (take (length clear) wire)) st = Some (drop bs clear, st2))"
    using init_packet_mk [OF k bs op cl len lw md ok, of junk] b8 by auto
  have ma: "ucast (cp_blocksize ac) = (of_nat bs :: u32)" by (simp add: bs word_unat_eq_iff)
  have sl: "(of_nat (length (take bs wire)) :: u32) = of_nat bs" "(of_nat bs :: u32) \<noteq> 0" "unat (of_nat bs :: u32) = bs"
    using b8 by (auto simp: word_unat_eq_iff u32_simps)
  have init: "read_packet_init junk (Rd wire) t = Inr (True, (set_recv_state t st)\<lparr>s_readbuf := Some (mk_buf (block_view cm bs wire clear @ xs) ys bs)\<rparr>)"
    using fb ini sl
    by (simp add: read_packet_init_def kd rb nb Let_def ma bs [symmetric] del: mem_write_ok length_take)
  let ?t1 = "(set_recv_state t st)\<lparr>s_readbuf := Some (mk_buf (block_view cm bs wire clear @ xs) ys bs)\<rparr>"
  let ?t2 = "(set_recv_state t st)\<lparr>s_readbuf := Some (mk_buf (block_view cm bs wire clear @ drop bs wire) ys (length wire))\<rparr>"
  have bl: "length (block_view cm bs wire clear) = bs" using lc lwc by (auto simp: block_view_def)
  have mx: "of_nat (length (block_view cm bs wire clear @ xs)) - of_nat bs = (of_nat (length xs) :: u32)" using bl by simp
  have ux: "unat (of_nat (length xs) :: u32) = length xs" using lx lw by (simp add: u32_simps)
  have lxd: "length xs = length (drop bs wire)" using lx by simp
  have rest: "read_packet junk (Rd wire) (Rd (drop bs wire)) t = decrypt_packet ?t2"
  proof (cases "xs = []")
    case True
    then have eq: "?t1 = ?t2" using lx bl by simp
    have "read_packet junk (Rd wire) (Rd (drop bs wire)) t = decrypt_packet ?t1"
      using True by (simp add: read_packet_def kd rb init Let_def bl)
    then show ?thesis unfolding eq .
  next
    case False
    have nz: "(of_nat (length xs) :: u32) \<noteq> 0" using False ux by (auto simp: word_unat_eq_iff)
    have gp: "buf_getptr (mk_buf (block_view cm bs wire clear @ xs) ys bs) (of_nat (length xs)) = Inr bs"
      using mk_getptr [OF okx, of "of_nat (length xs)"] ux bl by simp
    have tk: "take (unat (of_nat (length xs) :: u32)) (drop bs wire) = drop bs wire" using ux lxd by simp
    have wr: "mem_write ((block_view cm bs wire clear @ xs) @ ys) bs (drop bs wire) = Inr ((block_view cm bs wire clear @ drop bs wire) @ ys)"
      "mk_buf (block_view cm bs wire clear @ xs) ys bs\<lparr>b_data := (block_view cm bs wire clear @ drop bs wire) @ ys\<rparr> = mk_buf (block_view cm bs wire clear @ drop bs wire) ys bs"
      using mk_write_in [of "block_view cm bs wire clear" xs "[]" ys bs "drop bs wire"] okx lxd bl by simp_all
    have ip: "buf_incrpos (mk_buf (block_view cm bs wire clear @ drop bs wire) ys bs) (of_nat (length xs)) = Inr (mk_buf (block_view cm bs wire clear @ drop bs wire) ys (length wire))"
      using mk_incrpos [of "block_view cm bs wire clear @ drop bs wire" ys bs "of_nat (length xs)"] okx ux bl lx lxd by (simp add: mk_ok_def)
    have sel: "s_readbuf ?t1 = Some (mk_buf (block_view cm bs wire clear @ xs) ys bs)"
      "?t1\<lparr>s_readbuf := b\<rparr> = (set_recv_state t st)\<lparr>s_readbuf := b\<rparr>" for b by simp_all
    show ?thesis
      unfolding read_packet_def kd(1) deref_simps rbind_simps rb option.case if_True init prod.case not_True_eq_False if_False
      by (simp only: Let_def sel deref_simps rbind_simps mk_buf_sel mx nz if_False gp rd.case tk lxd [symmetric] wr ip if_True) simp
  qed
  let ?t3 = "set_recv_state t st\<lparr>s_readbuf := s_readbuf ?t2, s_kexstate := (s_kexstate t)\<lparr>datarecv := datarecv (s_kexstate t) + of_nat (length (block_view cm bs wire clear @ drop bs wire))\<rparr>\<rparr>"
  have okw: "mk_ok (block_view cm bs wire clear @ drop bs wire) ys (length wire)" using okx lx bl by (simp add: mk_ok_def)
  have k3: "keys_ok (k_recv (s_keys ?t3)) ac am cm" using k by simp
  have st3: "case cm_aead_crypt cm of
           Some aead \<Rightarrow> (\<exists>st2. aead (s_recvseq ?t3) wire (unat (ch_hashsize am)) (kd_cipher_state (k_recv (s_keys ?t3))) False = Some (clear, st2))
         | None \<Rightarrow> mac_of (s_libs ?t3) (s_recvseq ?t3) (k_recv (s_keys ?t3)) am clear = Some (drop (length clear) wire) \<and>
             (\<exists>st2. cm_decrypt cm (drop bs (take (length clear) wire)) (kd_cipher_state (k_recv (s_keys ?t3))) = Some (drop bs clear, st2))"
    using st op by (auto simp: opens_def Let_def set_recv_state_def mac_of_def split: option.splits if_splits)
  obtain st2 where dr: "decrypt_readbuf ?t3 (mk_buf (block_view cm bs wire clear @ drop bs wire) ys (length wire)) =
      Inr (mk_buf (clear @ drop (length clear) wire) ys (length clear), set_recv_state ?t3 st2)"
    and okc: "mk_ok (clear @ drop (length clear) wire) ys (length clear)"
    using decrypt_readbuf_mk [OF k3 bs okw lc lwc st3] by blast
  have k4: "keys_ok (k_recv (s_keys (set_recv_state ?t3 st2))) ac am cm" using k by simp
  have nc4: "\<not> is_compress_recv (set_recv_state ?t3 st2)" using nc by (simp add: is_compress_recv_def set_recv_state_def)
  have lm: "length (drop (length clear) wire) = unat (ch_hashsize am)" using lwc by simp
  obtain b where tp: "take_payload (set_recv_state ?t3 st2) (mk_buf (clear @ drop (length clear) wire) ys (length clear)) =
      Inr (set_recv_state ?t3 st2\<lparr>s_payload := Some b, s_payload_beginning := 5, s_readbuf := None, s_recvseq := s_recvseq (set_recv_state ?t3 st2) + 1\<rparr>)"
    "buf_wf b" "buf_rest b = pl"
    using take_payload_mk [OF k4 nc4 cl pl pad okc lm] by blast
  have "decrypt_packet ?t2 = take_payload (set_recv_state ?t3 st2) (mk_buf (clear @ drop (length clear) wire) ys (length clear))"
    using dr by (simp add: decrypt_packet_def Let_def)
  then show ?thesis using rest tp by simp
qed

section \<open>The round trip\<close>

text \<open>
  What the two ends rely on of the negotiated cipher: decrypting the first block and then
  the rest undoes the encryption, and in the AEAD modes the length field can be read from
  the first block. Clear texts have at least a block, and without AEAD whole blocks.
\<close>

definition cipher_inverse :: "cipher_mode \<Rightarrow> nat \<Rightarrow> nat \<Rightarrow> u32 \<Rightarrow> bytes \<Rightarrow> bytes \<Rightarrow> bool" where
  "cipher_inverse cm bs tag seq st_s st_r \<longleftrightarrow>
     (case cm_aead_crypt cm of
        None \<Rightarrow> \<forall>clear. bs \<le> length clear \<and> length clear mod bs = 0 \<longrightarrow> (\<exists>ct st st1 st2. cm_encrypt cm clear st_s = Some (ct, st) \<and>
          cm_decrypt cm (take bs ct) st_r = Some (take bs clear, st1) \<and> cm_decrypt cm (drop bs ct) st1 = Some (drop bs clear, st2))
      | Some aead \<Rightarrow> \<forall>clear. bs \<le> length clear \<longrightarrow> (\<exists>ct st st1 st2. aead seq clear tag st_s True = Some (ct, st) \<and>
          cm_aead_getlength cm seq (take bs ct) st_r = Some (load32h (take 4 clear), st1) \<and> aead seq ct tag st1 False = Some (clear, st2)))"

lemma chachapoly_inverse: "chacha_lib_ok L \<Longrightarrow> cipher_inverse (dropbear_mode_chachapoly L) 8 16 seq st st"
  unfolding cipher_inverse_def using chachapoly_opens [of L _ seq st] by (simp add: dropbear_mode_chachapoly_def) blast

lemma gcm_inverse: "gcm_lib_ok L \<Longrightarrow> cipher_inverse (dropbear_mode_gcm L) 16 16 seq st st"
  unfolding cipher_inverse_def using gcm_opens [of L _ seq st] by (simp add: dropbear_mode_gcm_def) blast

text \<open>The MAC state of the two ends: the same function and key, which does not fail.\<close>

definition mac_agree :: "sshsession \<Rightarrow> sshsession \<Rightarrow> cipher_hash \<Rightarrow> bool" where
  "mac_agree s t am \<longleftrightarrow> (\<forall>d. mac_of (s_libs s) (s_transseq s) (k_trans (s_keys s)) am d \<noteq> None \<and>
     mac_of (s_libs t) (s_recvseq t) (k_recv (s_keys t)) am d = mac_of (s_libs s) (s_transseq s) (k_trans (s_keys s)) am d)"

lemma seal_opens:
  assumes ks: "keys_ok (k_trans (s_keys s)) ac am cm" and kr: "keys_ok (k_recv (s_keys t)) ac am cm"
    and seq: "s_transseq s = s_recvseq t" and ma: "cm_aead_crypt cm = None \<longrightarrow> mac_agree s t am"
    and inv: "cipher_inverse cm (unat (cp_blocksize ac)) (unat (ch_hashsize am)) (s_transseq s)
        (kd_cipher_state (k_trans (s_keys s))) (kd_cipher_state (k_recv (s_keys t)))"
    and md: "cm_aead_crypt cm = None \<Longrightarrow> length clear mod unat (cp_blocksize ac) = 0"
    and len: "unat (cp_blocksize ac) \<le> length clear"
  shows "\<exists>wire st. seal (s_libs s) (s_transseq s) (k_trans (s_keys s)) am cm clear = Some (wire, st) \<and>
     opens (s_libs t) (s_recvseq t) (k_recv (s_keys t)) ac am cm wire clear"
proof (cases "cm_aead_crypt cm")
  case None
  obtain m where m: "mac_of (s_libs s) (s_transseq s) (k_trans (s_keys s)) am clear = Some m"
      "mac_of (s_libs t) (s_recvseq t) (k_recv (s_keys t)) am clear = Some m"
    using ma None unfolding mac_agree_def by (metis option.exhaust)
  obtain ct st st1 st2 where c: "cm_encrypt cm clear (kd_cipher_state (k_trans (s_keys s))) = Some (ct, st)"
    "cm_decrypt cm (take (unat (cp_blocksize ac)) ct) (kd_cipher_state (k_recv (s_keys t))) = Some (take (unat (cp_blocksize ac)) clear, st1)"
    "cm_decrypt cm (drop (unat (cp_blocksize ac)) ct) st1 = Some (drop (unat (cp_blocksize ac)) clear, st2)"
    using inv [unfolded cipher_inverse_def None option.case, rule_format, OF conjI [OF len md [OF None]]] by blast
  have lc: "length ct = length clear" using crypt_lengthsD(2) [OF keys_okD(4) [OF ks] c(1)] .
  have lm: "length m = unat (ch_hashsize am)" using mac_array_take(2) [OF m(1) keys_okD(7) [OF ks]] .
  show ?thesis
    using None m c lc lm len by (simp add: seal_def opens_def Let_def)
next
  case (Some aead)
  obtain ct st st1 st2 where c: "aead (s_transseq s) clear (unat (ch_hashsize am)) (kd_cipher_state (k_trans (s_keys s))) True = Some (ct, st)"
    "cm_aead_getlength cm (s_transseq s) (take (unat (cp_blocksize ac)) ct) (kd_cipher_state (k_recv (s_keys t))) = Some (load32h (take 4 clear), st1)"
    "aead (s_transseq s) ct (unat (ch_hashsize am)) st1 False = Some (clear, st2)"
    using inv [unfolded cipher_inverse_def Some option.case, rule_format, OF len] by blast
  have "length ct = length clear + unat (ch_hashsize am)" using crypt_lengthsD(4) [OF keys_okD(4) [OF ks] Some c(1)] .
  then show ?thesis using Some c seq by (simp add: seal_def opens_def Let_def)
qed

lemma sent_padding_ok:
  assumes k: "keys_ok k ac am cm" and pl: "pl \<noteq> []" "length pl \<le> 200000"
  shows "let clear = packet_clear pl (sent_padding s ac cm pl); bs = unat (cp_blocksize ac) in
     length (sent_padding s ac cm pl) < 256 \<and> bs \<le> length clear - (if cm_aead_crypt cm = None then 0 else 4) \<and>
     (length clear - (if cm_aead_crypt cm = None then 0 else 4)) mod bs = 0"
proof -
  note kd = keys_okD [OF k]
  have u: "unat (of_nat (5 + length pl) :: u32) = 5 + length pl" using pl by (simp add: u32_simps del: of_nat_add)
  have "1 \<le> length pl" using pl by (cases pl) auto
  then obtain p where p: "packet_padlen (cm_aead_crypt cm \<noteq> None) (cp_blocksize ac) (of_nat (5 + length pl)) = Inr p"
    "4 \<le> unat p" "(5 + length pl - (if cm_aead_crypt cm \<noteq> None then 4 else 0) + unat p) mod unat (cp_blocksize ac) = 0"
    using packet_padlen_ok [OF kd(5,6), of "of_nat (5 + length pl)" "cm_aead_crypt cm \<noteq> None"] pl unfolding u by auto
  have sp: "length (sent_padding s ac cm pl) = unat p" unfolding sent_padding_def p(1) by simp
  let ?n = "5 + length pl - (if cm_aead_crypt cm \<noteq> None then 4 else 0) + unat p"
  have "unat (cp_blocksize ac) \<le> ?n" using p(2,3) by (intro dvd_imp_le) (auto simp: dvd_eq_mod_eq_0)
  then show ?thesis using p(2,3) by (simp add: Let_def length_packet_clear sp split: if_splits)
qed

section \<open>Writing the queue\<close>

definition bufs_ok :: "buffer list \<Rightarrow> bool" where
  "bufs_ok bufs \<longleftrightarrow> list_all (\<lambda>b. buf_wf b \<and> buf_rest b \<noteq> []) bufs \<and> length bufs < 4294967296"

definition pending :: "buffer list \<Rightarrow> bytes" where
  "pending bufs = concat (map buf_rest bufs)"

lemma pending_simps [simp]: "pending [] = []" "pending (b # bufs) = buf_rest b @ pending bufs"
  by (simp_all add: pending_def)

lemma buf_rest_len:
  assumes "buf_wf b"
  shows "unat (b_len b - b_pos b) = length (buf_rest b)" "sint (b_len b - b_pos b) = int (length (buf_rest b))"
proof -
  show u: "unat (b_len b - b_pos b) = length (buf_rest b)"
    using assms by (simp add: length_buf_rest buf_wf_nat unat_minus_u32 word_le_nat_alt)
  moreover have "length (buf_rest b) \<le> 1000000000" using assms length_buf_rest [OF assms] unfolding buf_wf_nat by linarith
  ultimately show "sint (b_len b - b_pos b) = int (length (buf_rest b))"
    by (simp add: sint_small)
qed

lemma iovec_walk_eq:
  "chain h p as bufs \<Longrightarrow> list_all (\<lambda>b. buf_wf b \<and> buf_rest b \<noteq> []) bufs \<Longrightarrow> n \<le> length bufs \<Longrightarrow>
     iovec_walk h p n = Inr (map buf_rest (take n bufs))"
proof (induction n arbitrary: p as bufs)
  case 0
  then show ?case by simp
next
  case (Suc n)
  then obtain b bufs' where b: "bufs = b # bufs'" by (cases bufs) auto
  obtain a as' l where c: "as = a # as'" "p = Some a" "h a = Some l" "l_item l = b" "chain h (l_link l) as' bufs'"
    using chain_ConsD Suc.prems(1) b by metis
  have "iovec_walk h (l_link l) n = Inr (map buf_rest (take n bufs'))"
    using Suc.IH [OF c(5)] Suc.prems b by simp
  moreover have "buf_peek b (b_len b - b_pos b) = Inr (buf_rest b)"
    using Suc.prems b by (simp add: buf_peek_rest buf_rest_len)
  ultimately show ?case
    using Suc.prems b c by (simp add: link_at_def Let_def buf_rest_len)
qed

lemma update_front_rep:
  assumes "queue_rep q (b # bufs)"
  shows "\<exists>q'. update_front q b' = Inr q' \<and> queue_rep q' (b' # bufs)"
proof -
  obtain a as l where r: "q_head q = Some a" "q_cells q a = Some l" "chain (q_cells q) (l_link l) as bufs" "distinct (a # as)"
    "\<forall>b \<in> set (a # as). b < q_brk q" "q_tail q = Some (last (a # as))" "q_count q = of_nat (length (b # bufs))"
    using assms unfolding queue_rep_def by (auto dest!: chain_ConsD)
  let ?q = "q\<lparr>q_cells := (q_cells q)(a \<mapsto> l\<lparr>l_item := b'\<rparr>)\<rparr>"
  have "chain (q_cells ?q) (Some a) (a # as) (b' # bufs)"
    using chain_frame [OF r(3), of a "Some (l\<lparr>l_item := b'\<rparr>)"] r(4) by (simp add: fun_upd_def)
  then have "queue_rep ?q (b' # bufs)"
    unfolding queue_rep_def using r by (intro exI [of _ "a # as"]) (auto simp: fun_upd_def)
  moreover have "update_front q b' = Inr ?q" using r by (simp add: update_front_def link_at_def)
  ultimately show ?thesis by blast
qed

lemma consume_loop_eq:
  "queue_rep q bufs \<Longrightarrow> bufs_ok bufs \<Longrightarrow> w \<le> length (pending bufs) \<Longrightarrow> length bufs < fuel \<Longrightarrow>
     \<exists>q' bufs'. consume_loop fuel q (int w) = Inr q' \<and> queue_rep q' bufs' \<and> bufs_ok bufs' \<and> pending bufs' = drop w (pending bufs)"
proof (induction bufs arbitrary: q w fuel)
  case Nil
  then show ?case by (auto simp: consume_loop.simps)
next
  case (Cons b bufs)
  obtain f where f: "fuel = Suc f" using Cons.prems(4) by (cases fuel) auto
  have b: "buf_wf b" "buf_rest b \<noteq> []" "bufs_ok bufs" using Cons.prems(2) by (auto simp: bufs_ok_def)
  show ?case
  proof (cases "w = 0")
    case True
    with Cons.prems show ?thesis by (auto simp: consume_loop.simps)
  next
    case w: False
    have ex: "examine q = Inr b" using examine_rep [OF Cons.prems(1)] .
    show ?thesis
    proof (cases "length (buf_rest b) > w")
      case True
      have le: "unat (of_int (int w) :: u32) = w"
      proof -
        have "w < 4294967296" using True length_buf_rest [OF b(1)] unat_u32_lt [of "b_len b"] by linarith
        then show ?thesis by (simp add: unat_of_nat_u32)
      qed
      obtain q' where q': "update_front q (buf_skip b w) = Inr q'" "queue_rep q' (buf_skip b w # bufs)"
        using update_front_rep [OF Cons.prems(1)] by blast
      have "consume_loop fuel q (int w) = Inr q'"
        unfolding f using True w ex q' le b(1)
        by (subst consume_loop.simps) (simp add: buf_rest_len Let_def buf_incrpos_rest)
      moreover have "bufs_ok (buf_skip b w # bufs)" "pending (buf_skip b w # bufs) = drop w (pending (b # bufs))"
        using True b Cons.prems(2) by (auto simp: bufs_ok_def buf_skip_wf buf_rest_skip)
      ultimately show ?thesis using q' by blast
    next
      case False
      obtain q' where q': "dequeue q = Inr (b, q')" "queue_rep q' bufs" using dequeue_rep [OF Cons.prems(1)] by blast
      have "int w - int (length (buf_rest b)) = int (w - length (buf_rest b))" using False by simp
      then have "consume_loop fuel q (int w) = consume_loop f q' (int (w - length (buf_rest b)))"
        unfolding f using False w ex q' b(1)
        by (subst consume_loop.simps) (simp add: buf_rest_len Let_def)
      moreover have "w - length (buf_rest b) \<le> length (pending bufs)" "length bufs < f" using Cons.prems f by auto
      then obtain q'' bufs'' where "consume_loop f q' (int (w - length (buf_rest b))) = Inr q''" "queue_rep q'' bufs''"
        "bufs_ok bufs''" "pending bufs'' = drop (w - length (buf_rest b)) (pending bufs)"
        using Cons.IH [OF q'(2) b(3)] by blast
      ultimately show ?thesis using False by auto
    qed
  qed
qed

text \<open>
  The bytes accepted by one \<^verbatim>\<open>writev\<close> are the front of what is pending, and the rest stays
  queued.
\<close>

lemma write_packet_sends:
  assumes q: "queue_rep (s_writequeue s) bufs" "bufs_ok bufs" "bufs \<noteq> []" and n: "0 < n"
    and len: "s_writequeue_len s = of_nat (length (pending bufs))"
  shows "\<exists>out s' bufs'. write_packet (Wr n) s = Inr (out, s') \<and> out \<noteq> [] \<and> out @ pending bufs' = pending bufs
     \<and> queue_rep (s_writequeue s') bufs' \<and> bufs_ok bufs' \<and> s_writequeue_len s' = of_nat (length (pending bufs'))"
proof -
  obtain as where c: "chain (q_cells (s_writequeue s)) (q_head (s_writequeue s)) as bufs" and cnt: "q_count (s_writequeue s) = of_nat (length bufs)"
    using q(1) unfolding queue_rep_def by blast
  have ucnt: "unat (q_count (s_writequeue s)) = length bufs" using cnt q(2) by (simp add: bufs_ok_def u32_simps)
  define k where "k = min (min (length bufs) 1024) 50"
  have iov: "packet_queue_to_iovec (s_writequeue s) 50 = Inr (map buf_rest (take k bufs))"
    using iovec_walk_eq [OF c, of k] q(2) by (simp add: packet_queue_to_iovec_def ucnt k_def bufs_ok_def)
  define out where "out = take n (pending (take k bufs))"
  have split: "pending bufs = pending (take k bufs) @ pending (drop k bufs)"
    unfolding pending_def by (metis append_take_drop_id concat_append map_append)
  have out: "out = take (length out) (pending bufs)" "length out \<le> length (pending bufs)"
    by (auto simp: out_def split min_def)
  have "pending (take k bufs) \<noteq> []"
    using q(2,3) by (cases bufs) (auto simp: k_def bufs_ok_def take_Cons')
  then have ne: "out \<noteq> []" using n by (simp add: out_def)
  obtain q' bufs' where co: "packet_queue_consume (s_writequeue s) (int (length out)) = Inr q'" "queue_rep q' bufs'" "bufs_ok bufs'"
    "pending bufs' = drop (length out) (pending bufs)"
    using consume_loop_eq [OF q(1,2) out(2), of "Suc (unat (q_count (s_writequeue s)))"] ucnt
    by (auto simp: packet_queue_consume_def)
  let ?s = "s\<lparr>s_writequeue := q', s_writequeue_len := s_writequeue_len s - of_nat (length out)\<rparr>"
  have "write_packet (Wr n) s = Inr (out, ?s)"
    using q co(1) ne isempty_rep [OF q(1)] iov by (simp add: write_packet_def Let_def out_def pending_def)
  moreover have "out @ pending bufs' = pending bufs" using out(1) co(4) by (metis append_take_drop_id)
  moreover have "s_writequeue_len ?s = of_nat (length (pending bufs'))"
    using len out(2) co(4) by (simp add: of_nat_diff)
  ultimately show ?thesis using co ne by (intro exI [of _ out] exI [of _ ?s] exI [of _ bufs']) simp
qed

section \<open>Properties\<close>

lemma null_cipher_lengths: "crypt_lengths dropbear_mode_none"
  by (simp add: crypt_lengths_def dropbear_mode_none_def void_cipher_def)

lemma plain_session_sel:
  "s_keys plain_session = zero_key_context\<lparr>
     k_recv := zero_key_dir\<lparr>kd_algo_crypt := Some dropbear_nocipher, kd_crypt_mode := Some dropbear_mode_none, kd_algo_mac := Some dropbear_nohash\<rparr>,
     k_trans := zero_key_dir\<lparr>kd_algo_crypt := Some dropbear_nocipher, kd_crypt_mode := Some dropbear_mode_none, kd_algo_mac := Some dropbear_nohash\<rparr>,
     k_algo_hostkey := -1\<rparr>"
  "s_readbuf plain_session = None" "s_payload plain_session = None" "s_libs plain_session = plain_libs"
  "s_writequeue plain_session = initqueue" "s_dataallowed plain_session" "s_transseq plain_session = 0" "s_recvseq plain_session = 0"
  "s_authstate plain_session = zero_AuthState" "s_writequeue_len plain_session = 0"
  "s_writepayload plain_session = mk_buf [] (replicate 16384 0) 0"
  by (simp_all add: plain_session_def common_session_init_def initial_session_def buf_new_eq zero_key_dir_def zero_key_context_def mk_buf_def Let_def)

lemma plain_keys_ok:
  "keys_ok (k_recv (s_keys plain_session)) dropbear_nocipher dropbear_nohash dropbear_mode_none"
  "keys_ok (k_trans (s_keys plain_session)) dropbear_nocipher dropbear_nohash dropbear_mode_none"
  by (simp_all add: keys_ok_def plain_session_sel zero_key_context_def zero_key_dir_def null_cipher_lengths
      dropbear_nocipher_def dropbear_nohash_def)

lemma plain_zlib: "zlib_lengths plain_libs"
  by (simp add: zlib_lengths_def plain_libs_def)

lemma plain_recv_inv: "recv_inv dropbear_nocipher dropbear_nohash dropbear_mode_none plain_session"
  by (simp add: recv_inv_def plain_keys_ok plain_session_sel(2-4) plain_zlib readbuf_ok_def payload_ok_def)

text \<open>
  Property C7. Reading a packet is memory safe: in every state that satisfies the receive
  invariant (usable keys whose cipher and zlib functions have their documented output
  lengths, a consistent read buffer, a bounded payload), whatever bytes, end of stream or
  error each of the two reads returns, \<^verbatim>\<open>read_packet\<close> makes no access outside a buffer and
  either ends the session or re-establishes the invariant; so no length sent by the peer,
  including one that wraps around 32 bits, gets past the checks, and a delivered payload is
  at most \<^verbatim>\<open>RECV_MAX_PAYLOAD_LEN + ZLIB_COMPRESS_EXPANSION\<close> bytes inside its buffer.
\<close>

theorem read_packet_safe:
  assumes "recv_inv ac am cm s"
  shows "res_ok (\<lambda>s'. recv_inv ac am cm s') (read_packet junk r1 r2 s)"
  by (rule read_packet_ok [OF assms])

theorem read_packet_safe_witness:
  "recv_inv dropbear_nocipher dropbear_nohash dropbear_mode_none plain_session \<and>
   res_ok (\<lambda>s'. recv_inv dropbear_nocipher dropbear_nohash dropbear_mode_none s')
     (read_packet (\<lambda>_. 0) (Rd [0, 0, 0, 12, 4]) Rd_again plain_session)"
  using plain_recv_inv read_packet_safe [OF plain_recv_inv] by blast

text \<open>
  Property C22. The padding of a packet: for every block size in use the computation in
  8-bit and 32-bit arithmetic gives at least four bytes, fills the packet (without its length
  field in the AEAD modes) to a multiple of the block size, reaches the minimum packet size,
  and stays within the space \<^verbatim>\<open>encrypt_packet\<close> reserves for it.
\<close>

theorem packet_padding:
  assumes "8 \<le> unat bs" "unat bs \<le> 64" "6 \<le> unat wlen" "unat wlen < 1000000000"
  shows "\<exists>p. packet_padlen aead bs wlen = Inr p \<and> 4 \<le> unat p \<and>
    (unat p \<le> unat bs + 3 \<or> unat wlen + unat p < 16 + unat bs) \<and>
    (unat wlen - (if aead then 4 else 0) + unat p) mod unat bs = 0 \<and> 16 \<le> unat wlen + unat p"
  by (rule packet_padlen_ok [OF assms])

theorem packet_padding_witness:
  "\<exists>p. packet_padlen True 8 10 = Inr p \<and> 4 \<le> unat p \<and> (6 + unat p) mod 8 = 0 \<and> 16 \<le> 10 + unat p"
  using packet_padding [of 8 10 True] by auto

text \<open>
  Property C4. Packets round-trip: when the two ends hold the negotiated algorithms with
  matching sequence numbers, cipher states and MAC keys, sending a payload of up to
  \<^verbatim>\<open>TRANS_MAX_PAYLOAD_LEN\<close> bytes queues one packet, and the receiver that reads its bytes
  delivers exactly that payload; afterwards the sequence numbers match again. This holds for
  the AEAD modes and for a cipher with a separate MAC; \<open>chachapoly_inverse\<close> and \<open>gcm_inverse\<close> show
  that the modes of \<^verbatim>\<open>chachapoly.c\<close> and \<^verbatim>\<open>gcm.c\<close> are such ciphers.
\<close>

theorem packet_roundtrip:
  assumes ks: "keys_ok (k_trans (s_keys s)) ac am cm" and kr: "keys_ok (k_recv (s_keys t)) ac am cm"
    and seq: "s_transseq s = s_recvseq t" and ma: "cm_aead_crypt cm = None \<longrightarrow> mac_agree s t am"
    and inv: "cipher_inverse cm (unat (cp_blocksize ac)) (unat (ch_hashsize am)) (s_transseq s)
        (kd_cipher_state (k_trans (s_keys s))) (kd_cipher_state (k_recv (s_keys t)))"
    and nc: "\<not> is_compress_trans s" "\<not> is_compress_recv t" and rb: "s_readbuf t = None"
    and wp: "buf_wf (s_writepayload s)" "pl = buf_contents (s_writepayload s)" "pl \<noteq> []" "length pl \<le> 16384"
    and allowed: "s_dataallowed s \<or> packet_is_okay_kex (hd pl)"
    and q: "queue_rep (s_writequeue s) bufs"
  shows "\<exists>s' t' wb b. encrypt_packet s = Inr s' \<and> queue_rep (s_writequeue s') (bufs @ [wb]) \<and>
     read_packet junk (Rd (buf_rest wb)) (Rd (drop (unat (cp_blocksize ac)) (buf_rest wb))) t = Inr t' \<and>
     s_payload t' = Some b \<and> buf_rest b = pl \<and> s_recvseq t' = s_transseq s'"
proof -
  let ?bs = "unat (cp_blocksize ac)" and ?pad = "sent_padding s ac cm pl"
  let ?clear = "packet_clear pl ?pad"
  have pl: "length pl \<le> 200000" "length pl \<le> 131072" using wp(4) by auto
  have sp: "length ?pad < 256" "?bs \<le> length ?clear - (if cm_aead_crypt cm = None then 0 else 4)"
     "(length ?clear - (if cm_aead_crypt cm = None then 0 else 4)) mod ?bs = 0"
    using sent_padding_ok [OF ks wp(3) pl(1), of s] by (auto simp: Let_def)
  have md: "length ?clear mod ?bs = 0" if "cm_aead_crypt cm = None" using sp(3) that by simp
  have len: "?bs \<le> length ?clear" using sp(2) by (simp split: if_splits)
  obtain wire st where sl: "seal (s_libs s) (s_transseq s) (k_trans (s_keys s)) am cm ?clear = Some (wire, st)"
    and op: "opens (s_libs t) (s_recvseq t) (k_recv (s_keys t)) ac am cm wire ?clear"
    using seal_opens [OF ks kr seq ma inv md len] by blast
  note mk = buf_wf_mk [OF wp(1), folded wp(2)]
  obtain s' ys where s': "encrypt_packet s = Inr s'" "queue_rep (s_writequeue s') (bufs @ [mk_buf wire ys 0])"
    "mk_ok wire ys 0" "s_transseq s' = s_transseq s + 1"
    "length wire = 5 + length pl + length ?pad + unat (ch_hashsize am)"
    using encrypt_packet_sealed [OF ks nc(1) mk wp(3) pl(1) allowed q sl] by blast
  have br: "buf_rest (mk_buf wire ys 0) = wire" using mk_buf_rest [OF s'(3)] by simp
  have lw: "length wire \<le> 131172" using s'(5) sp(1) wp(4) keys_okD(7) [OF ks] by linarith
  obtain t' b where "read_packet junk (Rd wire) (Rd (drop ?bs wire)) t = Inr t'" "s_payload t' = Some b" "buf_rest b = pl"
      "s_recvseq t' = s_recvseq t + 1"
    using read_packet_opens [OF kr nc(2) rb refl op refl sp(2) lw sp(3) wp(3) pl(2) sp(1)] by blast
  then show ?thesis using s' br seq by (intro exI [of _ s'] exI [of _ t'] exI [of _ "mk_buf wire ys 0"] exI [of _ b]) simp
qed

text \<open>A pair of sessions with ChaCha20 and Poly1305 on toy primitives.\<close>

definition example_chacha :: chacha_lib where
  "example_chacha = \<lparr>chacha = (\<lambda>key iv ctr n. map (\<lambda>i. of_nat (i + ctr) + hd key) [0..<n]),
     poly1305 = (\<lambda>key msg. replicate 16 (fold (+) msg (hd key)))\<rparr>"

lemma example_chacha_ok: "chacha_lib_ok example_chacha"
  by (simp add: chacha_lib_ok_def example_chacha_def)

definition example_sealed_keys :: key_context where
  "example_sealed_keys = (let d = zero_key_dir\<lparr>kd_algo_crypt := Some dropbear_chachapoly, kd_algo_mac := Some dropbear_chachapoly_mac,
       kd_crypt_mode := Some (dropbear_mode_chachapoly example_chacha), kd_cipher_state := replicate 32 7 @ replicate 32 9\<rparr>
     in zero_key_context\<lparr>k_recv := d, k_trans := d\<rparr>)"

lemma example_sealed_keys_ok:
  "keys_ok (k_trans example_sealed_keys) dropbear_chachapoly dropbear_chachapoly_mac (dropbear_mode_chachapoly example_chacha)"
  "keys_ok (k_recv example_sealed_keys) dropbear_chachapoly dropbear_chachapoly_mac (dropbear_mode_chachapoly example_chacha)"
  using chachapoly_lengths [OF example_chacha_ok]
  by (simp_all add: keys_ok_def example_sealed_keys_def Let_def zero_key_dir_def dropbear_chachapoly_def dropbear_chachapoly_mac_def)

theorem packet_roundtrip_witness:
  "let s = plain_session\<lparr>s_keys := example_sealed_keys, s_writepayload := mk_buf [21] (replicate 16383 0) 1\<rparr>;
       t = plain_session\<lparr>s_keys := example_sealed_keys\<rparr> in
   \<exists>s' t' wb b. encrypt_packet s = Inr s' \<and> queue_rep (s_writequeue s') [wb] \<and>
     read_packet (\<lambda>_. 0) (Rd (buf_rest wb)) (Rd (drop 8 (buf_rest wb))) t = Inr t' \<and>
     s_payload t' = Some b \<and> buf_rest b = [21] \<and> s_recvseq t' = s_transseq s'"
proof -
  let ?s = "plain_session\<lparr>s_keys := example_sealed_keys, s_writepayload := mk_buf [21] (replicate 16383 0) 1\<rparr>"
  let ?t = "plain_session\<lparr>s_keys := example_sealed_keys\<rparr>"
  let ?cm = "dropbear_mode_chachapoly example_chacha"
  have ok: "mk_ok [21] (replicate 16383 0) (Suc 0)" by (simp add: mk_ok_def)
  have ks: "keys_ok (k_trans (s_keys ?s)) dropbear_chachapoly dropbear_chachapoly_mac ?cm"
    "keys_ok (k_recv (s_keys ?t)) dropbear_chachapoly dropbear_chachapoly_mac ?cm"
    using example_sealed_keys_ok by simp_all
  have inv: "cipher_inverse ?cm (unat (cp_blocksize dropbear_chachapoly)) (unat (ch_hashsize dropbear_chachapoly_mac)) (s_transseq ?s)
      (kd_cipher_state (k_trans (s_keys ?s))) (kd_cipher_state (k_recv (s_keys ?t)))"
    using chachapoly_inverse [OF example_chacha_ok, of "s_transseq ?s" "kd_cipher_state (k_trans example_sealed_keys)"]
    by (simp add: dropbear_chachapoly_def dropbear_chachapoly_mac_def example_sealed_keys_def Let_def)
  have ma: "cm_aead_crypt ?cm = None \<longrightarrow> mac_agree ?s ?t dropbear_chachapoly_mac" by (simp add: dropbear_mode_chachapoly_def)
  have nc: "\<not> is_compress_trans ?s" "\<not> is_compress_recv ?t"
    by (simp_all add: is_compress_trans_def is_compress_recv_def example_sealed_keys_def zero_key_context_def zero_key_dir_def Let_def)
  have q: "queue_rep (s_writequeue ?s) []" by (simp add: plain_session_sel queue_rep_init)
  have "\<exists>s' t' wb b. encrypt_packet ?s = Inr s' \<and> queue_rep (s_writequeue s') ([] @ [wb]) \<and>
     read_packet (\<lambda>_. 0) (Rd (buf_rest wb)) (Rd (drop (unat (cp_blocksize dropbear_chachapoly)) (buf_rest wb))) ?t = Inr t' \<and>
     s_payload t' = Some b \<and> buf_rest b = [21] \<and> s_recvseq t' = s_transseq s'"
    by (rule packet_roundtrip [OF ks _ ma inv nc _ _ _ _ _ _ q])
      (simp_all add: plain_session_sel mk_buf_wf [OF ok] mk_buf_contents [OF ok])
  then show ?thesis by (simp add: dropbear_chachapoly_def Let_def)
qed

text \<open>
  Property C23. Writing loses and repeats nothing: one call of \<^verbatim>\<open>write_packet\<close> for which the
  kernel accepts some bytes terminates, puts a non-empty front part of the queued bytes on
  the wire, leaves exactly the rest queued in order, and keeps \<^verbatim>\<open>writequeue_len\<close> equal to the
  number of queued bytes.
\<close>

theorem write_packet_conserves:
  assumes "queue_rep (s_writequeue s) bufs" "bufs_ok bufs" "bufs \<noteq> []" "0 < n"
    and "s_writequeue_len s = of_nat (length (pending bufs))"
  shows "\<exists>out s' bufs'. write_packet (Wr n) s = Inr (out, s') \<and> out \<noteq> [] \<and> out @ pending bufs' = pending bufs
     \<and> queue_rep (s_writequeue s') bufs' \<and> bufs_ok bufs' \<and> s_writequeue_len s' = of_nat (length (pending bufs'))"
  by (rule write_packet_sends [OF assms])

theorem write_packet_conserves_witness:
  "\<exists>s bufs out s' bufs'. queue_rep (s_writequeue s) bufs \<and> pending bufs = [1, 2, 3] \<and>
     write_packet (Wr 2) s = Inr (out, s') \<and> out \<noteq> [] \<and> out @ pending bufs' = [1, 2, 3] \<and>
     queue_rep (s_writequeue s') bufs' \<and> bufs_ok bufs' \<and> s_writequeue_len s' = of_nat (length (pending bufs'))"
proof -
  let ?b = "mk_buf [1, 2, 3] [] 0"
  have ok: "mk_ok [1, 2, 3] [] 0" by (simp add: mk_ok_def)
  obtain q where q: "queue_rep q [?b]" using enqueue_rep [OF queue_rep_init, of ?b] by auto
  have b: "bufs_ok [?b]" "pending [?b] = [1, 2, 3]" by (simp_all add: bufs_ok_def mk_buf_wf [OF ok] mk_buf_rest [OF ok])
  let ?s = "plain_session\<lparr>s_writequeue := q, s_writequeue_len := 3\<rparr>"
  have "queue_rep (s_writequeue ?s) [?b]" using q by simp
  from write_packet_conserves [OF this b(1), of 2] b(2) this show ?thesis by fastforce
qed

lemma mk_newcopy: "mk_ok xs ys p \<Longrightarrow> buf_newcopy (mk_buf xs ys p) = Inr (mk_buf xs [] 0)"
  using mk_ok_unat [of xs ys p]
  by (cases "xs = []") (auto simp: buf_newcopy_def buf_new_eq mk_ok_def Let_def word_gt_0 word_unat_eq_iff mk_buf_def)

text \<open>
  Property C24. While a key exchange is in progress, a packet that is not part of it is not
  sent: \<^verbatim>\<open>encrypt_packet\<close> keeps a copy of its payload at the end of the reply queue, leaves
  the write queue and the sequence number alone and clears the payload buffer for the next
  message.
\<close>

theorem kex_holds_replies:
  assumes "\<not> s_dataallowed s" "\<not> packet_is_okay_kex (hd pl)"
    and wf: "buf_wf (s_writepayload s)" and pl: "pl = buf_contents (s_writepayload s)" "pl \<noteq> []"
  shows "\<exists>s' b. encrypt_packet s = Inr s' \<and> s_reply_queue s' = s_reply_queue s @ [b] \<and> buf_contents b = pl \<and>
     s_writequeue s' = s_writequeue s \<and> s_transseq s' = s_transseq s \<and> buf_contents (s_writepayload s') = []"
proof -
  obtain ys p where mk: "s_writepayload s = mk_buf pl ys p" "mk_ok pl ys p"
    using buf_wf_mk [OF wf, folded pl(1)] by blast
  have ok: "mk_ok pl ys 0" "mk_ok pl ys 1" "mk_ok pl [] 0"
    using mk(2) pl(2) by (auto simp: mk_ok_def Suc_le_eq)
  have sl0: "buf_setlen (mk_buf pl ys 0) 0 = Inr (mk_buf [] (pl @ ys) 0)" by (simp add: buf_setlen_def mk_buf_def)
  have "encrypt_packet s = enqueue_reply_packet (s\<lparr>s_writepayload := mk_buf pl ys 0\<rparr>)"
    unfolding encrypt_packet_def mk(1) mk_setpos_0 [OF mk(2)] rbind_simps mk_getbyte [OF ok(1) pl(2)] prod.case mk_setpos_0 [OF ok(2)]
    using assms(1,2) by (simp add: Let_def)
  moreover have "enqueue_reply_packet (s\<lparr>s_writepayload := mk_buf pl ys 0\<rparr>) = Inr (s\<lparr>s_writepayload := mk_buf [] (pl @ ys) 0, s_reply_queue := s_reply_queue s @ [mk_buf pl [] 0]\<rparr>)"
    by (simp add: enqueue_reply_packet_def mk_newcopy [OF ok(1)] mk_setpos_0 [OF ok(1)] sl0)
  moreover have "mk_ok [] (pl @ ys) 0" using ok(1) by (simp add: mk_ok_def)
  ultimately show ?thesis by (simp add: mk_buf_contents [OF ok(3)] mk_buf_contents)
qed

theorem kex_holds_replies_witness:
  "let s = plain_session\<lparr>s_dataallowed := False, s_writepayload := mk_buf [94, 1] (replicate 100 0) 2\<rparr> in
   \<exists>s' b. encrypt_packet s = Inr s' \<and> s_reply_queue s' = s_reply_queue s @ [b] \<and> buf_contents b = [94, 1] \<and>
     s_writequeue s' = s_writequeue s \<and> s_transseq s' = s_transseq s \<and> buf_contents (s_writepayload s') = []"
proof -
  have ok: "mk_ok [94, 1] (replicate 100 0) 2" by (simp add: mk_ok_def)
  show ?thesis
    unfolding Let_def
    by (rule kex_holds_replies) (simp_all add: packet_is_okay_kex_def mk_buf_wf [OF ok] mk_buf_contents [OF ok])
qed

end
