(* ===== verification/Algo.thy ===== *)
theory Algo
  imports Packet_Wire
begin

text \<open>
  Name lists of algorithms and their negotiation (\<^verbatim>\<open>common-algo.c\<close>). A table of algorithms
  is a list; the entry with a null name that ends the C array is the end of the list. Names
  are C strings, without their terminating zero.
\<close>

section \<open>Model\<close>

record 'd algo_type =
  a_name :: bytes
  a_val :: int
  a_data :: "'d option"
  a_usable :: bool
  a_mode :: "cipher_mode option"

text \<open>The tables the negotiation uses; \<^verbatim>\<open>sigalgs\<close> changes while the server runs.\<close>

record algo_tables =
  sshkex :: "kex_alg algo_type list"
  sigalgs :: "unit algo_type list"
  sshciphers :: "cipher algo_type list"
  sshhashes :: "cipher_hash algo_type list"

abbreviation (input) "MAX_PROPOSED_ALGO \<equiv> 50 :: nat"
abbreviation (input) "comma \<equiv> 44 :: byte"

fun put_names :: "bool \<Rightarrow> bool \<Rightarrow> buffer \<Rightarrow> 'd algo_type list \<Rightarrow> buffer res" where
  "put_names useall donefirst b [] = Inr b"
| "put_names useall donefirst b (a # localalgos) =
     (if a_usable a \<or> useall then
        rbind (if donefirst then buf_putbyte b comma else Inr b) (\<lambda>b.
        rbind (buf_putbytes b (a_name a) (of_nat (length (a_name a)))) (\<lambda>b.
        put_names useall True b localalgos))
      else put_names useall donefirst b localalgos)"

definition buf_put_algolist_all :: "buffer \<Rightarrow> 'd algo_type list \<Rightarrow> bool \<Rightarrow> buffer res" where
  "buf_put_algolist_all b localalgos useall =
     (let startpos = b_pos b in
      rbind (buf_putint b 0) (\<lambda>b.
      rbind (put_names useall False b localalgos) (\<lambda>b.
      let len = b_pos b - startpos - 4 in
      rbind (buf_setpos b startpos) (\<lambda>b.
      rbind (buf_putint b len) (\<lambda>b.
      buf_incrwritepos b len)))))"

definition buf_put_algolist :: "buffer \<Rightarrow> 'd algo_type list \<Rightarrow> buffer res" where
  "buf_put_algolist b localalgos = buf_put_algolist_all b localalgos False"

text \<open>
  The loop of \<^verbatim>\<open>get_algolist\<close>: \<open>cur\<close> is the name being read, \<open>done\<close> those before it, so that
  \<^verbatim>\<open>*ret_count\<close> is one more than the length of \<open>done\<close>.
\<close>

fun split_algos :: "nat \<Rightarrow> bytes list \<Rightarrow> bytes \<Rightarrow> bytes \<Rightarrow> bytes list res" where
  "split_algos max_count done cur [] = Inr (done @ [cur])"
| "split_algos max_count done cur (c # algolist) =
     (if c = 0 then Inr []
      else if c = comma then
        (if length done + 1 \<ge> max_count then Inl (Dropbear_exit ''Too many remote algorithms'')
         else split_algos max_count (done @ [cur]) [] algolist)
      else split_algos max_count done (cur @ [c]) algolist)"

text \<open>
  The test of the length of the list sets \<^verbatim>\<open>*ret_count\<close> to zero without returning, and
  the next statement sets it to one: it has no effect.
\<close>

definition get_algolist :: "bytes \<Rightarrow> nat \<Rightarrow> bytes list res" where
  "get_algolist algolist ret_count =
     (if ret_count = 0 then Inr [] else split_algos ret_count [] [] algolist)"

definition buf_has_algo :: "buffer \<Rightarrow> bytes \<Rightarrow> (bool \<times> buffer) res" where
  "buf_has_algo b algo =
     (let orig_pos = b_pos b in
      rbind (buf_getstring b) (\<lambda>(algolist, b).
      rbind (get_algolist algolist MAX_PROPOSED_ALGO) (\<lambda>remotenames.
      rbind (buf_setpos b orig_pos) (\<lambda>b.
      Inr (algo \<in> set remotenames, b)))))"

fun first_usable_algo :: "'d algo_type list \<Rightarrow> 'd algo_type option" where
  "first_usable_algo [] = None"
| "first_usable_algo (a # algos) = (if a_usable a then Some a else first_usable_algo algos)"

text \<open>The loop over the server's names for one name of the client; an unusable one is null.\<close>

fun match_server :: "'d algo_type list \<Rightarrow> nat \<Rightarrow> bytes \<Rightarrow> ('d algo_type \<times> nat) option" where
  "match_server [] j name = None"
| "match_server (a # algos) j name =
     (if a_usable a \<and> a_name a = name then Some (a, j) else match_server algos (Suc j) name)"

fun match_client :: "'d algo_type list \<Rightarrow> bool \<Rightarrow> nat \<Rightarrow> bytes list \<Rightarrow> 'd algo_type option \<times> bool" where
  "match_client localalgos kexguess2 i [] = (None, False)"
| "match_client localalgos kexguess2 i (name # names) =
     (case match_server localalgos 0 name of
        Some (a, j) \<Rightarrow> (Some a, if kexguess2 then i = 0 else i = 0 \<and> j = 0)
      | None \<Rightarrow> match_client localalgos kexguess2 (Suc i) names)"

text \<open>
  \<^verbatim>\<open>buf_match_algo\<close> of the server returns the algorithm, \<^verbatim>\<open>*goodguess\<close> and the buffer. The array
  of the local names has \<^verbatim>\<open>MAX_PROPOSED_ALGO\<close> elements.
\<close>

definition buf_match_algo :: "buffer \<Rightarrow> 'd algo_type list \<Rightarrow> bool \<Rightarrow> ('d algo_type option \<times> bool \<times> buffer) res" where
  "buf_match_algo b localalgos kexguess2 =
     rbind (buf_getstring b) (\<lambda>(algolist, b).
     rbind (get_algolist algolist MAX_PROPOSED_ALGO) (\<lambda>remotenames.
     if length localalgos > MAX_PROPOSED_ALGO then Inl Fault else
     let (ret, goodguess) = match_client localalgos kexguess2 0 remotenames
     in Inr (ret, goodguess, b)))"

section \<open>Name lists\<close>

fun join :: "bytes list \<Rightarrow> bytes" where
  "join [] = []"
| "join [n] = n"
| "join (n # m # ns) = n @ comma # join (m # ns)"

definition name_ok :: "bytes \<Rightarrow> bool" where
  "name_ok n \<longleftrightarrow> 0 \<notin> set n \<and> comma \<notin> set n"

lemma split_name: "name_ok n \<Longrightarrow> split_algos k done cur (n @ r) = split_algos k done (cur @ n) r"
  by (induction n arbitrary: cur) (auto simp: name_ok_def)

lemma split_join:
  assumes "ns \<noteq> []" and "\<forall>n \<in> set ns. name_ok n" and "length done + length ns \<le> k"
  shows "split_algos k done [] (join ns) = Inr (done @ ns)"
  using assms
proof (induction ns arbitrary: "done" rule: join.induct)
  case (2 n)
  then show ?case using split_name [of n k "done" "[]" "[]"] by simp
next
  case (3 n m ns)
  then have "split_algos k (done @ [n]) [] (join (m # ns)) = Inr (done @ n # m # ns)" by simp
  with 3 show ?case by (simp add: split_name)
qed simp

text \<open>Parsing undoes joining, for the lists the protocol allows.\<close>

lemma get_algolist_join:
  "ns \<noteq> [] \<Longrightarrow> \<forall>n \<in> set ns. name_ok n \<Longrightarrow> length ns \<le> k \<Longrightarrow> get_algolist (join ns) k = Inr ns"
  using split_join [of ns "[]" k] by (cases ns) (auto simp: get_algolist_def)

text \<open>Whatever the peer sends, the names have neither a comma nor a zero and fit the array.\<close>

lemma split_algos_ok:
  assumes "split_algos k done cur bs = Inr ns" and "length done < k" and "\<forall>n \<in> set done. name_ok n" and "name_ok cur"
  shows "length ns \<le> k \<and> (\<forall>n \<in> set ns. name_ok n)"
  using assms
  by (induction k "done" cur bs rule: split_algos.induct) (auto simp: name_ok_def split: if_splits)

lemma split_algos_safe: "safe (split_algos k done cur bs)"
  by (induction k "done" cur bs rule: split_algos.induct) auto

lemma get_algolist_safe: "safe (get_algolist bs k)"
  by (simp add: get_algolist_def split_algos_safe)

section \<open>Writing a name list\<close>

abbreviation (input) "usable_names algos \<equiv> map a_name (filter a_usable algos)"

fun join_rest :: "bool \<Rightarrow> bytes list \<Rightarrow> bytes" where
  "join_rest f [] = []"
| "join_rest f (n # ns) = (if f then comma # n else n) @ join_rest True ns"

lemma join_rest_True: "join_rest True ns = (if ns = [] then [] else comma # join ns)"
  by (induction ns rule: join.induct) auto

lemma join_rest_False: "join_rest False ns = join ns"
proof (cases ns)
  case (Cons n r)
  have "join_rest False ns = n @ join_rest True r" by (simp add: Cons)
  then show ?thesis unfolding join_rest_True Cons by (cases r) auto
qed simp

lemma put_names_append:
  "buf_end b (length (join_rest f (usable_names algos))) \<Longrightarrow>
     put_names False f b algos = Inr (b_append b (join_rest f (usable_names algos)))"
proof (induction algos arbitrary: b f)
  case Nil
  then show ?case by (simp add: b_append_Nil)
next
  case (Cons a algos)
  show ?case
  proof (cases "a_usable a")
    case True
    let ?c = "if f then [comma] else []" and ?n = "a_name a" and ?r = "join_rest True (usable_names algos)"
    have e: "buf_end b (length ?c + (length ?n + length ?r))" using Cons.prems True by (auto simp: ac_simps split: if_splits)
    have 1: "(if f then buf_putbyte b comma else Inr b) = Inr (b_append b ?c)"
      using e by (simp add: buf_putbyte_append b_append_Nil buf_end_mono [OF e])
    note e1 = buf_end_append [OF e]
    have 2: "buf_putbytes (b_append b ?c) ?n (of_nat (length ?n)) = Inr (b_append (b_append b ?c) ?n)"
      by (rule buf_putbytes_append) (rule buf_end_mono [OF e1], simp)
    note e2 = buf_end_append [OF e1]
    have "b_append (b_append (b_append b ?c) ?n) ?r = b_append b (?c @ ?n @ ?r)"
      using b_append_append [OF e1] b_append_append [of b ?c "?n @ ?r"] e by simp
    then show ?thesis using True 1 2 Cons.IH [OF e2] by auto
  qed (use Cons in simp)
qed

lemma mk_append:
  "mk_ok xs ys (length xs) \<Longrightarrow> b_append (mk_buf xs ys (length xs)) bs =
     mk_buf (xs @ bs) (drop (length bs) ys) (length xs + length bs)" if "length bs \<le> length ys"
  using mk_ok_unat [of xs ys "length xs"] that by (simp add: b_append_def mk_buf_def)

lemma mk_incrwritepos_in:
  "mk_ok xs ys p \<Longrightarrow> p + unat n \<le> length xs \<Longrightarrow> buf_incrwritepos (mk_buf xs ys p) n = Inr (mk_buf xs ys (p + unat n))"
proof -
  assume ok: "mk_ok xs ys p" and n: "p + unat n \<le> length xs"
  note u = mk_ok_unat [OF ok]
  have pl: "unat (of_nat p + n) = p + unat n" using ok n u by (simp add: unat_plus_u32 mk_ok_def)
  show ?thesis
    unfolding buf_incrwritepos_eq [OF mk_buf_wf [OF ok]] using u n pl
    by (simp add: u32_order del: of_nat_add) (simp add: mk_buf_def)
qed

lemma buf_put_algolist_append:
  assumes e: "buf_end b (4 + length (join (usable_names algos)))"
  shows "buf_put_algolist b algos = Inr (b_append b (enc_string (join (usable_names algos))))"
proof -
  let ?j = "join (usable_names algos)"
  define xs ys where "xs = buf_contents b" and "ys = drop (unat (b_len b)) (b_data b)"
  have w: "buf_wf b" "b_pos b = b_len b" using e by (auto simp: buf_end_def)
  have lx: "length xs = unat (b_len b)" using w by (auto simp: xs_def buf_contents_def buf_wf_nat)
  have b: "b = mk_buf xs ys (length xs)" and ok: "mk_ok xs ys (length xs)"
    using buf_wf_mk [OF w(1)] w lx unfolding xs_def ys_def by simp_all
  have ly: "4 + length ?j \<le> length ys" using e lx w by (auto simp: buf_end_def ys_def buf_wf_nat)
  let ?m = "\<lambda>v. mk_buf (xs @ store32h v @ ?j) (drop (4 + length ?j) ys)"
  have okm: "mk_ok (xs @ store32h v @ ?j) (drop (4 + length ?j) ys) p \<longleftrightarrow> p \<le> length xs + 4 + length ?j" for v p
    using ok ly by (auto simp: mk_ok_def)
  have 1: "buf_putint b 0 = Inr (b_append b (store32h 0))" by (rule buf_putint_append) (rule buf_end_mono [OF e], simp)
  have e1: "buf_end (b_append b (store32h 0)) (length ?j)" using e by (intro buf_end_append) simp
  have 2: "put_names False False (b_append b (store32h 0)) algos = Inr (b_append (b_append b (store32h 0)) ?j)"
    using put_names_append [of "b_append b (store32h 0)" False algos] e1 by (simp add: join_rest_False)
  have 3: "b_append (b_append b (store32h 0)) ?j = ?m 0 (length xs + 4 + length ?j)"
    using e ly b_append_append [of b "store32h 0" ?j] mk_append [OF _ ok, of "store32h 0 @ ?j"] b by (simp add: ac_simps)
  have lj: "of_nat (length xs + 4 + length ?j) - of_nat (length xs) - 4 = (of_nat (length ?j) :: u32)" by simp
  have uj: "unat (of_nat (length ?j) :: u32) = length ?j" using ok ly by (simp add: mk_ok_def u32_simps)
  have 4: "buf_setpos (?m 0 (length xs + 4 + length ?j)) (of_nat (length xs)) = Inr (?m 0 (length xs))"
    by (rule mk_setpos) (simp_all add: okm)
  have 5: "buf_putint (?m 0 (length xs)) v = Inr (?m v (length xs + 4))" for v
    using mk_putbytes_in [of xs "store32h 0" ?j "drop (4 + length ?j) ys" 4 "store32h v"] okm [of 0 "length xs"]
    by (simp add: buf_putint_def buf_putbytes_def)
  have 6: "buf_incrwritepos (?m v (length xs + 4)) (of_nat (length ?j)) = Inr (?m v (length xs + 4 + length ?j))" for v
    using mk_incrwritepos_in [of "xs @ store32h v @ ?j" "drop (4 + length ?j) ys" "length xs + 4" "of_nat (length ?j)"] okm uj
    by (simp del: of_nat_add)
  have 7: "b_append b (enc_string ?j) = ?m (of_nat (length ?j)) (length xs + 4 + length ?j)"
    using ly mk_append [OF _ ok, of "enc_string ?j"] b by (simp add: enc_string_def ac_simps)
  have bp: "b_pos b = of_nat (length xs)" using b by (metis mk_buf_sel(3))
  show ?thesis
    unfolding buf_put_algolist_def buf_put_algolist_all_def Let_def 1 rbind_simps 2 3 bp mk_buf_sel(3) lj 4 5 6 7 ..
qed

section \<open>Negotiation\<close>

text \<open>
  The algorithm RFC 4253 (7.1) prescribes: the first of the client's names that names a
  usable algorithm of the server.
\<close>

definition supported :: "'d algo_type list \<Rightarrow> bytes \<Rightarrow> bool" where
  "supported algos n \<longleftrightarrow> (\<exists>a \<in> set algos. a_usable a \<and> a_name a = n)"

definition negotiated :: "'d algo_type list \<Rightarrow> bytes list \<Rightarrow> 'd algo_type option" where
  "negotiated algos names = (case List.find (supported algos) names of
     None \<Rightarrow> None | Some n \<Rightarrow> List.find (\<lambda>a. a_usable a \<and> a_name a = n) algos)"

lemma match_server_find:
  "match_server algos j n = None \<longleftrightarrow> \<not> supported algos n"
  "match_server algos j n = Some (a, j') \<Longrightarrow> List.find (\<lambda>a. a_usable a \<and> a_name a = n) algos = Some a \<and> j \<le> j'"
  by (induction algos arbitrary: j) (fastforce simp: supported_def split: if_splits)+

lemma match_server_first:
  "match_server algos 0 n = Some (a, 0) \<longleftrightarrow> (\<exists>r. algos = a # r \<and> a_usable a \<and> a_name a = n)"
proof (cases algos)
  case (Cons b r)
  have "match_server r (Suc 0) n \<noteq> Some (a, 0)" using match_server_find(2) [of r "Suc 0" n a 0] by auto
  then show ?thesis using Cons by auto
qed simp

lemma match_client_negotiated: "fst (match_client algos k2 i names) = negotiated algos names"
proof (induction names arbitrary: i)
  case (Cons n names)
  then show ?case
    using match_server_find [of algos 0 n] by (auto simp: negotiated_def split: option.splits)
qed (simp add: negotiated_def)

lemma match_client_good:
  "snd (match_client algos k2 i names) \<longleftrightarrow> i = 0 \<and> names \<noteq> [] \<and> supported algos (hd names) \<and>
     (k2 \<or> (algos \<noteq> [] \<and> a_usable (hd algos) \<and> a_name (hd algos) = hd names))"
proof (induction names arbitrary: i)
  case (Cons n names)
  show ?case
  proof (cases "match_server algos 0 n")
    case None
    then show ?thesis using Cons [of "Suc i"] match_server_find(1) [of algos 0 n] by simp
  next
    case (Some p)
    then show ?thesis
      using match_server_find(1) [of algos 0 n] match_server_first [of algos n "fst p"]
      by (cases p; cases algos) auto
  qed
qed simp

lemma buf_match_algo_negotiated:
  assumes "buf_wf b" and "buf_rest b = enc_string (join names) @ r" and "length (join names) \<le> 9000"
    and "names \<noteq> []" and "\<forall>n \<in> set names. name_ok n" and "length names \<le> 50" and "length algos \<le> 50"
  shows "buf_match_algo b algos k2 = Inr (negotiated algos names,
     supported algos (hd names) \<and> (k2 \<or> (a_usable (hd algos) \<and> a_name (hd algos) = hd names)),
     buf_skip b (length (enc_string (join names))))"
proof -
  have e: "algos \<noteq> []" if "supported algos n" for n using that by (auto simp: supported_def)
  show ?thesis
    using assms buf_rest_string [OF assms(1,3,2)] get_algolist_join [of names 50]
      match_client_negotiated [of algos k2 0 names] match_client_good [of algos k2 0 names] e
    by (cases "match_client algos k2 0 names") (auto simp: buf_match_algo_def)
qed

definition example_algos :: "unit algo_type list" where
  "example_algos = [\<lparr>a_name = cstr ''aa'', a_val = 1, a_data = None, a_usable = True, a_mode = None\<rparr>,
     \<lparr>a_name = cstr ''bb'', a_val = 2, a_data = None, a_usable = False, a_mode = None\<rparr>,
     \<lparr>a_name = cstr ''cc'', a_val = 3, a_data = None, a_usable = True, a_mode = None\<rparr>]"

text \<open>
  Property C18. Algorithm negotiation follows the protocol: on a name list of the client, the
  server selects the first name of the client that is one of its usable algorithms, no
  algorithm exactly when there is none, and reports the client's guess as good under exactly
  the stated conditions (first name supported and, without the kexguess2 extension, also the
  server's own first). The buffer is left after the list.
\<close>

theorem negotiation:
  assumes "buf_wf b" and "buf_rest b = enc_string (join names) @ r" and "length (join names) \<le> 9000"
    and "names \<noteq> []" and "\<forall>n \<in> set names. name_ok n" and "length names \<le> 50" and "length algos \<le> 50"
  shows "buf_match_algo b algos k2 = Inr (negotiated algos names,
     supported algos (hd names) \<and> (k2 \<or> (a_usable (hd algos) \<and> a_name (hd algos) = hd names)),
     buf_skip b (length (enc_string (join names))))"
  using assms by (rule buf_match_algo_negotiated)

theorem negotiation_witness:
  "buf_match_algo (mk_buf (enc_string (join [cstr ''bb'', cstr ''cc'', cstr ''aa''])) [] 0) example_algos False =
     Inr (negotiated example_algos [cstr ''bb'', cstr ''cc'', cstr ''aa''], False,
       buf_skip (mk_buf (enc_string (join [cstr ''bb'', cstr ''cc'', cstr ''aa''])) [] 0) 12)"
proof -
  let ?ns = "[cstr ''bb'', cstr ''cc'', cstr ''aa'']"
  have ok: "mk_ok (enc_string (join ?ns)) [] 0" by (simp add: mk_ok_def enc_string_def)
  have "\<not> supported example_algos (hd ?ns)" by code_simp
  moreover have "\<forall>n \<in> set ?ns. name_ok n" by code_simp
  ultimately show ?thesis
    using negotiation [OF mk_buf_wf [OF ok], of ?ns "[]" example_algos False] mk_buf_rest [OF ok]
    by (simp add: example_algos_def enc_string_def)
qed

text \<open>
  Property C26. What the server advertises is what it understands: the name list it writes at
  the end of a buffer is the joined list of its usable names, and reading it back selects the
  server's most preferred usable algorithm with a good guess.
\<close>

theorem advertised_algos:
  assumes e: "buf_end b (4 + length (join (usable_names algos)))" and "length (join (usable_names algos)) \<le> 9000"
    and n: "\<forall>a \<in> set algos. name_ok (a_name a)" and u: "first_usable_algo algos = Some a" and l: "length algos \<le> 50"
  shows "\<exists>b'. buf_put_algolist b algos = Inr b' \<and> buf_contents b' = buf_contents b @ enc_string (join (usable_names algos)) \<and>
     (\<exists>b1 b2. buf_setpos b' (b_pos b) = Inr b1 \<and> buf_match_algo b1 algos True = Inr (Some a, True, b2))"
proof -
  let ?ns = "usable_names algos" and ?s = "enc_string (join (usable_names algos))"
  have ls: "length ?s = 4 + length (join ?ns)" by (simp add: enc_string_def)
  have es: "buf_end b (length ?s)" using e ls by simp
  let ?b = "b_append b ?s"
  have w: "buf_wf b" "b_pos b = b_len b" using e by (auto simp: buf_end_def)
  have ul: "unat (b_len b + of_nat (length ?s)) = unat (b_len b) + length ?s" by (rule unat_len_append [OF es])
  have wf: "buf_wf ?b" using buf_end_append [of b ?s 0] es by (simp add: buf_end_wf)
  let ?b1 = "?b\<lparr>b_pos := b_pos b\<rparr>"
  have sp: "buf_setpos ?b (b_pos b) = Inr ?b1"
    using w ul by (auto simp: buf_setpos_def b_append_def u32_order)
  have wf1: "buf_wf ?b1" using wf w ul by (auto simp: buf_wf_nat b_append_def)
  have "length (buf_contents b) = unat (b_len b)" using w by (auto simp: buf_contents_def buf_wf_nat)
  then have r1: "buf_rest ?b1 = ?s @ []"
    using buf_contents_append [OF es] w by (simp add: buf_rest_def buf_contents_def)
  have f: "filter a_usable algos \<noteq> []" "hd (filter a_usable algos) = a" "a_usable a"
    using u by (induction algos) (auto split: if_splits)
  then have ns: "?ns \<noteq> []" "hd ?ns = a_name a" by (auto simp: hd_map)
  have sup: "supported algos (a_name a)"
    using u by (induction algos) (auto simp: supported_def split: if_splits)
  have fnd: "List.find (\<lambda>x. a_usable x \<and> a_name x = a_name a) algos = Some a"
    using u by (induction algos) (auto split: if_splits)
  have neg: "negotiated algos ?ns = Some a"
    using ns sup fnd by (cases ?ns) (auto simp: negotiated_def)
  have "length (filter a_usable algos) \<le> 50" using l length_filter_le [of a_usable algos] by linarith
  then have "buf_match_algo ?b1 algos True = Inr (Some a, True, buf_skip ?b1 (length ?s))"
    using buf_match_algo_negotiated [OF wf1 r1 assms(2) ns(1) _ _ l, of True] n neg ns sup by auto
  then show ?thesis using sp buf_put_algolist_append [OF e] buf_contents_append [OF es] by auto
qed

theorem advertised_algos_witness:
  "\<exists>b'. buf_put_algolist (mk_buf [] (replicate 40 0) 0) example_algos = Inr b' \<and>
     buf_contents b' = buf_contents (mk_buf [] (replicate 40 0) 0) @ enc_string (join (usable_names example_algos)) \<and>
     (\<exists>b1 b2. buf_setpos b' 0 = Inr b1 \<and> buf_match_algo b1 example_algos True = Inr (Some (hd example_algos), True, b2))"
proof -
  let ?b = "mk_buf [] (replicate 40 0) 0"
  have ok: "mk_ok [] (replicate 40 (0 :: byte)) 0" by (simp add: mk_ok_def)
  have l: "length (join (usable_names example_algos)) = 5" by code_simp
  have e: "buf_end ?b (4 + length (join (usable_names example_algos)))"
    using mk_buf_wf [OF ok] unfolding l buf_end_def by simp
  have "\<forall>a \<in> set example_algos. name_ok (a_name a)" by code_simp
  moreover have "first_usable_algo example_algos = Some (hd example_algos)" by (simp add: example_algos_def)
  moreover have "length example_algos \<le> 50" by (simp add: example_algos_def)
  ultimately show ?thesis using advertised_algos [OF e] l by simp
qed

end
