(* ===== verification/Connection.thy ===== *)
theory Connection
  imports Algo Circbuffer
begin

text \<open>
  The state of a connection around the session: the channels, the run-time options the
  packet handlers read, the application's configuration and the trace of the calls that
  have an effect outside the process. \<^verbatim>\<open>struct Channel\<close> keeps a pointer to its type; here it
  keeps the name, and the handlers of each type are an argument of the operations that
  call them. \<^verbatim>\<open>read_mangler\<close> is only set by the client, which is not built. Also the
  combinators with which the handlers read \<^verbatim>\<open>ses.payload\<close> and fill \<^verbatim>\<open>ses.writepayload\<close>, and
  the frame of sending a packet.
\<close>

section \<open>State\<close>

datatype dropbear_prio = DROPBEAR_PRIO_NORMAL | DROPBEAR_PRIO_LOWDELAY

record 't Channel =
  chan_index :: u32
  remotechan :: u32
  recvwindow :: u32
  transwindow :: u32
  recvdonelen :: u32
  recvmaxpacket :: u32
  transmaxpacket :: u32
  typedata :: "'t option"
  writefd :: int
  readfd :: int
  errfd :: int
  bidir_fd :: bool
  writebuf :: "circbuffer option"
  extrabuf :: "circbuffer option"
  sent_close :: bool
  recv_close :: bool
  recv_eof :: bool
  sent_eof :: bool
  flushing :: bool
  conn_pending :: bool
  initconn :: bool
  await_open :: bool
  chan_type :: bytes
  chan_prio :: dropbear_prio

text \<open>The options of \<^verbatim>\<open>runopts\<close> and \<^verbatim>\<open>svr_runopts\<close> that the session reads.\<close>

record runopts =
  recv_window :: u32
  keepalive_secs :: int
  idle_timeout_secs :: int
  max_duration_secs :: int
  listen_fwd_all :: bool

record svr_runopts =
  noauthpass :: bool
  norootpass :: bool
  allowblankpass :: bool
  multiauthmethod :: bool
  maxauthtries :: u32
  banner :: "buffer option"
  svr_forced_command :: "bytes option"
  noremotefwd :: bool
  nolocaltcp :: bool
  svr_interface :: "bytes option"
  pass_on_env :: bool

text \<open>
  The globals of \<^verbatim>\<open>jni-dropbear.c\<close>, the files of the configuration directory as a map from
  full paths, and SHA-512 and base64 of libtomcrypt.
\<close>

record ikofi =
  ikofi_shell_exe :: bytes
  ikofi_home_path :: bytes
  lib_path :: bytes
  conf_path :: bytes
  env_var_list :: "bytes option"
  enable_service_shell_access :: bool
  enable_public_key_auth :: bool
  enable_single_use_passwords :: bool
  ik_files :: "bytes \<Rightarrow> bytes option"
  ik_sha512 :: "bytes \<Rightarrow> bytes"
  ik_base64 :: "bytes \<Rightarrow> bytes"

text \<open>
  The attributes of a terminal, and what a child of the server hands to \<^verbatim>\<open>execv\<close>: the program, its
  arguments, the environment and the working directory.
\<close>

record termios =
  c_iflag :: u32
  c_oflag :: u32
  c_cflag :: u32
  c_lflag :: u32
  c_cc :: bytes

record exec_call =
  ex_path :: bytes
  ex_argv :: "bytes list"
  ex_env :: "(bytes \<times> bytes) list"
  ex_dir :: bytes

text \<open>Calls with an effect outside the process; the child of \<open>Ev_spawn\<close> either executes a program or ends.\<close>

datatype event =
    Ev_close int
  | Ev_shutdown int int
  | Ev_prio int dropbear_prio
  | Ev_cancel_connect u32
  | Ev_log bytes
  | Ev_sleep int
  | Ev_write int bytes
  | Ev_spawn "exec_call option"
  | Ev_kill int int
  | Ev_winsize int u32 u32 u32 u32
  | Ev_termios int termios
  | Ev_connect u32 bytes "u32 option"
  | Ev_unlink bytes

text \<open>
  The children of the server: how one ended, and the table of their process ids. Its entries point
  to the session of a channel, here named by the index of the channel. What \<^verbatim>\<open>waitpid\<close> tells of a
  child that has ended is its status or the signal, with whether it left a core.
\<close>

record exitinfo =
  exitpid :: int
  exitstatus :: int
  exitsignal :: int
  exitcore :: bool

record ChildPid =
  child_pid :: int
  child_chan :: "u32 option"

datatype wait_status = Exited int | Signaled int bool

text \<open>
  A listening socket that forwards connections (\<^verbatim>\<open>listener.h\<close>, \<^verbatim>\<open>forward.h\<close>). The pair of functions a
  listener points to is one of two: those of \<^verbatim>\<open>tcp-accept.c\<close> and those of \<^verbatim>\<open>svr-streamfwd.c\<close>.
\<close>

record FwdListener =
  sendaddr :: "bytes option"
  sendport :: u32
  listenaddr :: "bytes option"
  listenport :: u32
  request_listenaddr :: "bytes option"
  fwd_interface :: "bytes option"
  fwd_chantype :: bytes
  fwd_forwarded :: bool
  socket_path :: "bytes option"

datatype listener_kind = Tcp_listener | Stream_listener

record Listener =
  li_socks :: "int list"
  li_index :: u32
  li_kind :: listener_kind
  li_type :: u32
  li_typedata :: FwdListener

text \<open>How far the creation of a listening Unix socket gets: \<^verbatim>\<open>socket\<close>, \<^verbatim>\<open>bind\<close> or \<^verbatim>\<open>listen\<close> may fail.\<close>

datatype unix_listen = No_socket | No_bind int | No_listen int | Listening int

text \<open>
  \<open>cn_read\<close>, \<open>cn_write\<close> and \<open>cn_ready\<close> are the successive results of \<^verbatim>\<open>read\<close>, \<^verbatim>\<open>writev\<close> and
  \<^verbatim>\<open>fd_read_pending\<close> on the descriptors of channels, \<open>cn_spawn\<close>, \<open>cn_fork\<close>, \<open>cn_pty\<close> and \<open>cn_kill\<close> of
  \<^verbatim>\<open>spawn_command\<close> (the descriptors for writing, reading and errors, and the process id), \<^verbatim>\<open>fork\<close>,
  \<^verbatim>\<open>pty_allocate\<close> (master, slave and name) and \<^verbatim>\<open>kill\<close>; \<open>cn_calls\<close> counts the calls made.
  Likewise \<open>cn_tcgetattr\<close> and \<open>cn_tcsetattr\<close> for the attributes of a terminal, \<open>cn_listen\<close> for \<^verbatim>\<open>dropbear_listen\<close> (the
  sockets, if any), \<open>cn_unix\<close> for a listening Unix socket and \<open>cn_accept\<close> for \<^verbatim>\<open>accept\<close> with \<^verbatim>\<open>getnameinfo\<close>. The
  environment, the user id with its home directory, the addresses of the connection (local host and port, remote host and port), the
  directories that can be entered and the ports of sockets are fixed.
\<close>

record 't conn =
  cn_ses :: sshsession
  cn_algos :: algo_tables
  cn_channels :: "'t Channel option list"
  cn_chansize :: u32
  cn_chancount :: u32
  cn_chantypes :: "bytes list"
  cn_signal_pending :: bool
  cn_sock_in :: int
  cn_sock_out :: int
  cn_socket_prio :: dropbear_prio
  cn_maxfd :: int
  cn_childpipe :: int
  cn_opts :: runopts
  cn_svr_opts :: svr_runopts
  cn_ikofi :: ikofi
  cn_trace :: "event list"
  cn_read :: "nat \<Rightarrow> rd"
  cn_write :: "nat \<Rightarrow> wr"
  cn_ready :: "nat \<Rightarrow> bool"
  cn_calls :: nat
  cn_childpids :: "ChildPid list"
  cn_lastexit :: exitinfo
  cn_spawn :: "nat \<Rightarrow> (int \<times> int \<times> int \<times> int) option"
  cn_fork :: "nat \<Rightarrow> int option"
  cn_pty :: "nat \<Rightarrow> (int \<times> int \<times> bytes) option"
  cn_kill :: "nat \<Rightarrow> bool"
  cn_tcgetattr :: "nat \<Rightarrow> termios option"
  cn_tcsetattr :: "nat \<Rightarrow> bool"
  cn_environ :: "(bytes \<times> bytes) list"
  cn_uid :: int
  cn_pw_home :: "bytes option"
  cn_addr :: "bytes \<times> bytes \<times> bytes \<times> bytes"
  cn_chdir :: "bytes \<Rightarrow> bool"
  cn_listeners :: "Listener option list"
  cn_listensize :: u32
  cn_listen :: "nat \<Rightarrow> int list option"
  cn_sock_port :: "int \<Rightarrow> u32"
  cn_unix :: "nat \<Rightarrow> unix_listen"
  cn_accept :: "nat \<Rightarrow> (int \<times> (bytes \<times> u32) option) option"

section \<open>Reading the payload, filling the write payload\<close>

definition on_payload :: "(buffer \<Rightarrow> ('a \<times> buffer) res) \<Rightarrow> sshsession \<Rightarrow> ('a \<times> sshsession) res" where
  "on_payload f s =
     rbind (deref (s_payload s)) (\<lambda>b. rbind (f b) (\<lambda>(x, b). Inr (x, s\<lparr>s_payload := Some b\<rparr>)))"

text \<open>Putting some fields into \<^verbatim>\<open>ses.writepayload\<close>, and sending it.\<close>

definition put_payload :: "field list \<Rightarrow> sshsession \<Rightarrow> sshsession res" where
  "put_payload fs s = rbind (put_fields (s_writepayload s) fs) (\<lambda>wp. Inr (s\<lparr>s_writepayload := wp\<rparr>))"

definition send_fields :: "field list \<Rightarrow> sshsession \<Rightarrow> sshsession res" where
  "send_fields fs s = rbind (put_payload fs s) encrypt_packet"

text \<open>An operation on the session inside a connection.\<close>

definition on_ses :: "(sshsession \<Rightarrow> sshsession res) \<Rightarrow> 't conn \<Rightarrow> 't conn res" where
  "on_ses f c = rbind (f (cn_ses c)) (\<lambda>s. Inr (c\<lparr>cn_ses := s\<rparr>))"

definition on_ses_get :: "(sshsession \<Rightarrow> ('a \<times> sshsession) res) \<Rightarrow> 't conn \<Rightarrow> ('a \<times> 't conn) res" where
  "on_ses_get f c = rbind (f (cn_ses c)) (\<lambda>(x, s). Inr (x, c\<lparr>cn_ses := s\<rparr>))"

definition emit :: "event \<Rightarrow> 't conn \<Rightarrow> 't conn" where
  "emit e c = c\<lparr>cn_trace := cn_trace c @ [e]\<rparr>"

section \<open>The frame of sending\<close>

text \<open>
  Sending a packet changes the write payload, the queue and its length, the sequence
  number, two time stamps, the count of transmitted data, the state of the outgoing cipher
  and compressor, the held-back replies and the position in the outside streams, and
  nothing else.
\<close>

definition unsent :: "sshsession \<Rightarrow> sshsession" where
  "unsent s = s\<lparr>s_writepayload := \<lparr>b_data = [], b_len = 0, b_pos = 0, b_size = 0\<rparr>, s_writequeue := initqueue,
     s_writequeue_len := 0, s_transseq := 0, s_last_packet_time_any_sent := 0, s_last_packet_time_idle := 0,
     s_kexstate := (s_kexstate s)\<lparr>datatrans := 0\<rparr>,
     s_keys := (s_keys s)\<lparr>k_trans := (k_trans (s_keys s))\<lparr>kd_zstream := None, kd_cipher_state := []\<rparr>\<rparr>,
     s_reply_queue := [], s_world := (s_world s)\<lparr>w_ticks := 0, w_hires_ticks := 0, w_rand_pos := 0\<rparr>\<rparr>"

definition sends :: "sshsession \<Rightarrow> sshsession \<Rightarrow> bool" where
  "sends s s' \<longleftrightarrow> unsent s' = unsent s"

lemma sends_refl [simp]: "sends s s"
  by (simp add: sends_def)

lemma sends_trans: "sends a b \<Longrightarrow> sends b c \<Longrightarrow> sends a c"
  by (simp add: sends_def)

text \<open>What a sender leaves alone.\<close>

lemma unsent_sel:
  "s_remoteident (unsent s) = s_remoteident s" "s_readbuf (unsent s) = s_readbuf s"
  "s_payload (unsent s) = s_payload s" "s_payload_beginning (unsent s) = s_payload_beginning s"
  "s_recvseq (unsent s) = s_recvseq s" "s_dataallowed (unsent s) = s_dataallowed s"
  "s_requirenext (unsent s) = s_requirenext s" "s_ignorenext (unsent s) = s_ignorenext s"
  "s_lastpacket (unsent s) = s_lastpacket s" "s_connect_time (unsent s) = s_connect_time s"
  "s_newkeys (unsent s) = s_newkeys s" "s_session_id (unsent s) = s_session_id s"
  "s_dh_K (unsent s) = s_dh_K s" "s_dh_K_bytes (unsent s) = s_dh_K_bytes s" "s_hash (unsent s) = s_hash s"
  "s_kexhashbuf (unsent s) = s_kexhashbuf s" "s_transkexinit (unsent s) = s_transkexinit s"
  "s_compression (unsent s) = s_compression s" "s_allow_ext_info (unsent s) = s_allow_ext_info s"
  "s_authstate (unsent s) = s_authstate s" "s_allowprivport (unsent s) = s_allowprivport s"
  "s_libs (unsent s) = s_libs s"
  "s_last_packet_time_keepalive_recv (unsent s) = s_last_packet_time_keepalive_recv s"
  "s_last_packet_time_keepalive_sent (unsent s) = s_last_packet_time_keepalive_sent s"
  "sentkexinit (s_kexstate (unsent s)) = sentkexinit (s_kexstate s)"
  "recvkexinit (s_kexstate (unsent s)) = recvkexinit (s_kexstate s)"
  "them_firstfollows (s_kexstate (unsent s)) = them_firstfollows (s_kexstate s)"
  "sentnewkeys (s_kexstate (unsent s)) = sentnewkeys (s_kexstate s)"
  "recvnewkeys (s_kexstate (unsent s)) = recvnewkeys (s_kexstate s)"
  "donefirstkex (s_kexstate (unsent s)) = donefirstkex (s_kexstate s)"
  "donesecondkex (s_kexstate (unsent s)) = donesecondkex (s_kexstate s)"
  "recvfirstnewkeys (s_kexstate (unsent s)) = recvfirstnewkeys (s_kexstate s)"
  "our_first_follows_matches (s_kexstate (unsent s)) = our_first_follows_matches (s_kexstate s)"
  "strict_kex (s_kexstate (unsent s)) = strict_kex (s_kexstate s)"
  "lastkextime (s_kexstate (unsent s)) = lastkextime (s_kexstate s)"
  "needrekey (s_kexstate (unsent s)) = needrekey (s_kexstate s)"
  "datarecv (s_kexstate (unsent s)) = datarecv (s_kexstate s)"
  "kd_algo_crypt (k_trans (s_keys (unsent s))) = kd_algo_crypt (k_trans (s_keys s))"
  "kd_crypt_mode (k_trans (s_keys (unsent s))) = kd_crypt_mode (k_trans (s_keys s))"
  "kd_algo_mac (k_trans (s_keys (unsent s))) = kd_algo_mac (k_trans (s_keys s))"
  "kd_hash_index (k_trans (s_keys (unsent s))) = kd_hash_index (k_trans (s_keys s))"
  "kd_algo_comp (k_trans (s_keys (unsent s))) = kd_algo_comp (k_trans (s_keys s))"
  "kd_mackey (k_trans (s_keys (unsent s))) = kd_mackey (k_trans (s_keys s))"
  "kd_valid (k_trans (s_keys (unsent s))) = kd_valid (k_trans (s_keys s))"
  "k_recv (s_keys (unsent s)) = k_recv (s_keys s)" "k_algo_kex (s_keys (unsent s)) = k_algo_kex (s_keys s)"
  "k_algo_hostkey (s_keys (unsent s)) = k_algo_hostkey (s_keys s)"
  "k_algo_signature (s_keys (unsent s)) = k_algo_signature (s_keys s)"
  "w_clock (s_world (unsent s)) = w_clock (s_world s)" "w_hires (s_world (unsent s)) = w_hires (s_world s)"
  "w_rand (s_world (unsent s)) = w_rand (s_world s)"
  by (simp_all add: unsent_def)

lemma sends_same:
  assumes "sends s s'"
  shows
    "s_remoteident s' = s_remoteident s" "s_readbuf s' = s_readbuf s" "s_payload s' = s_payload s"
    "s_payload_beginning s' = s_payload_beginning s" "s_recvseq s' = s_recvseq s"
    "s_dataallowed s' = s_dataallowed s" "s_requirenext s' = s_requirenext s"
    "s_ignorenext s' = s_ignorenext s" "s_lastpacket s' = s_lastpacket s"
    "s_connect_time s' = s_connect_time s" "s_newkeys s' = s_newkeys s" "s_session_id s' = s_session_id s"
    "s_dh_K s' = s_dh_K s" "s_dh_K_bytes s' = s_dh_K_bytes s" "s_hash s' = s_hash s"
    "s_kexhashbuf s' = s_kexhashbuf s" "s_transkexinit s' = s_transkexinit s"
    "s_compression s' = s_compression s" "s_allow_ext_info s' = s_allow_ext_info s"
    "s_authstate s' = s_authstate s" "s_allowprivport s' = s_allowprivport s" "s_libs s' = s_libs s"
    "s_last_packet_time_keepalive_recv s' = s_last_packet_time_keepalive_recv s"
    "s_last_packet_time_keepalive_sent s' = s_last_packet_time_keepalive_sent s"
    "sentkexinit (s_kexstate s') = sentkexinit (s_kexstate s)"
    "recvkexinit (s_kexstate s') = recvkexinit (s_kexstate s)"
    "them_firstfollows (s_kexstate s') = them_firstfollows (s_kexstate s)"
    "sentnewkeys (s_kexstate s') = sentnewkeys (s_kexstate s)"
    "recvnewkeys (s_kexstate s') = recvnewkeys (s_kexstate s)"
    "donefirstkex (s_kexstate s') = donefirstkex (s_kexstate s)"
    "donesecondkex (s_kexstate s') = donesecondkex (s_kexstate s)"
    "recvfirstnewkeys (s_kexstate s') = recvfirstnewkeys (s_kexstate s)"
    "our_first_follows_matches (s_kexstate s') = our_first_follows_matches (s_kexstate s)"
    "strict_kex (s_kexstate s') = strict_kex (s_kexstate s)"
    "lastkextime (s_kexstate s') = lastkextime (s_kexstate s)"
    "needrekey (s_kexstate s') = needrekey (s_kexstate s)" "datarecv (s_kexstate s') = datarecv (s_kexstate s)"
    "kd_algo_crypt (k_trans (s_keys s')) = kd_algo_crypt (k_trans (s_keys s))"
    "kd_crypt_mode (k_trans (s_keys s')) = kd_crypt_mode (k_trans (s_keys s))"
    "kd_algo_mac (k_trans (s_keys s')) = kd_algo_mac (k_trans (s_keys s))"
    "kd_hash_index (k_trans (s_keys s')) = kd_hash_index (k_trans (s_keys s))"
    "kd_algo_comp (k_trans (s_keys s')) = kd_algo_comp (k_trans (s_keys s))"
    "kd_mackey (k_trans (s_keys s')) = kd_mackey (k_trans (s_keys s))"
    "kd_valid (k_trans (s_keys s')) = kd_valid (k_trans (s_keys s))" "k_recv (s_keys s') = k_recv (s_keys s)"
    "k_algo_kex (s_keys s') = k_algo_kex (s_keys s)" "k_algo_hostkey (s_keys s') = k_algo_hostkey (s_keys s)"
    "k_algo_signature (s_keys s') = k_algo_signature (s_keys s)" "w_clock (s_world s') = w_clock (s_world s)"
    "w_hires (s_world s') = w_hires (s_world s)" "w_rand (s_world s') = w_rand (s_world s)"
  using assms unfolding sends_def by (metis unsent_sel)+

text \<open>The updates made by hand between the calls.\<close>

lemma sends_upd:
  "sends a (s\<lparr>s_writepayload := wp\<rparr>) \<longleftrightarrow> sends a s"
  "sends a (s\<lparr>s_transseq := ts\<rparr>) \<longleftrightarrow> sends a s"
  "sends a (s\<lparr>s_last_packet_time_any_sent := t\<rparr>) \<longleftrightarrow> sends a s"
  "sends a (s\<lparr>s_last_packet_time_idle := t\<rparr>) \<longleftrightarrow> sends a s"
  "sends a (s\<lparr>s_reply_queue := rq\<rparr>) \<longleftrightarrow> sends a s"
  "sends a (s\<lparr>s_writequeue_len := ql\<rparr>) \<longleftrightarrow> sends a s"
  "sends a (s\<lparr>s_writequeue := q\<rparr>) \<longleftrightarrow> sends a s"
  "sends a (s\<lparr>s_kexstate := (s_kexstate s)\<lparr>datatrans := dt\<rparr>\<rparr>) \<longleftrightarrow> sends a s"
  "sends a (s\<lparr>s_keys := (s_keys s)\<lparr>k_trans := (k_trans (s_keys s))\<lparr>kd_zstream := z\<rparr>\<rparr>\<rparr>) \<longleftrightarrow> sends a s"
  "sends a (s\<lparr>s_keys := (s_keys s)\<lparr>k_trans := (k_trans (s_keys s))\<lparr>kd_cipher_state := cs\<rparr>\<rparr>\<rparr>) \<longleftrightarrow> sends a s"
  by (simp_all add: sends_def unsent_def)

lemma sends_world:
  "monotonic_now s = (t, s') \<Longrightarrow> sends a s' \<longleftrightarrow> sends a s"
  "gettime_wrapper s = (u, s') \<Longrightarrow> sends a s' \<longleftrightarrow> sends a s"
  "genrandom s n = (v, s') \<Longrightarrow> sends a s' \<longleftrightarrow> sends a s"
  by (auto simp: sends_def unsent_def monotonic_now_def gettime_wrapper_def genrandom_def)

lemma sends_compress: "sends a s \<Longrightarrow> res_post (\<lambda>(d, b, s). sends a s) (buf_compress s d b n)"
  unfolding buf_compress_def by (intro res_post_intros) (simp_all add: sends_upd)

lemma sends_fill: "sends a s \<Longrightarrow> res_post (\<lambda>(b, s). sends a s) (fill_writebuf s b)"
  unfolding fill_writebuf_def Let_def
  by (intro res_post_if res_post_call [OF sends_compress] res_post_rbind) (auto simp: sends_upd)

lemma sends_pad: "sends a s \<Longrightarrow> res_post (\<lambda>(b, s). sends a s) (pad_writebuf s b p)"
  unfolding pad_writebuf_def by (intro res_post_intros) (simp_all add: sends_world)

lemma sends_encrypt: "sends a s \<Longrightarrow> res_post (\<lambda>(b, s). sends a s) (encrypt_writebuf s b)"
  unfolding encrypt_writebuf_def by (intro res_post_intros) (simp_all add: sends_upd)

lemma sends_enqueue: "sends a s \<Longrightarrow> res_post (sends a) (writebuf_enqueue s b)"
  unfolding writebuf_enqueue_def by (intro res_post_intros) (simp add: sends_def unsent_def)

lemma sends_reply: "sends a s \<Longrightarrow> res_post (sends a) (enqueue_reply_packet s)"
  unfolding enqueue_reply_packet_def by (intro res_post_intros) (simp add: sends_def unsent_def)

lemma encrypt_packet_post: "sends a s \<Longrightarrow> res_post (sends a) (encrypt_packet s)"
  unfolding encrypt_packet_def
  by (rule sends_reply res_post_call [OF sends_fill] res_post_call [OF sends_pad] res_post_call [OF sends_encrypt]
        res_post_call [OF sends_enqueue] res_post_intros
      | simp add: sends_upd sends_world; fail)+

lemma encrypt_packet_sends: "encrypt_packet s = Inr s' \<Longrightarrow> sends s s'"
  using encrypt_packet_post [OF sends_refl] by (rule res_postD)

lemma put_payload_post: "sends a s \<Longrightarrow> res_post (sends a) (put_payload fs s)"
  unfolding put_payload_def by (intro res_post_intros) (simp add: sends_upd)

lemma send_fields_post: "sends a s \<Longrightarrow> res_post (sends a) (send_fields fs s)"
  unfolding send_fields_def by (rule res_post_call [OF put_payload_post] encrypt_packet_post | assumption)+

lemma send_fields_sends: "send_fields fs s = Inr s' \<Longrightarrow> sends s s'"
  using send_fields_post [OF sends_refl] by (rule res_postD)

lemma flush_replies_post: "sends a s \<Longrightarrow> res_post (sends a) (flush_replies rs s)"
proof (induction rs arbitrary: s)
  case (Cons r rs)
  show ?case
    unfolding flush_replies.simps
    by (insert Cons.prems, (rule res_post_call [OF encrypt_packet_post] Cons.IH res_post_rbind | assumption | simp add: sends_upd; fail)+)
qed simp

lemma maybe_flush_post: "sends a s \<Longrightarrow> res_post (sends a) (maybe_flush_reply_queue s)"
  unfolding maybe_flush_reply_queue_def
  by (auto intro!: res_post_call [OF flush_replies_post] simp: sends_upd)

text \<open>
  Frames of operations on the payload.
\<close>

lemma on_payload_eq:
  "on_payload f s = Inr (x, s') \<longleftrightarrow> (\<exists>b b'. s_payload s = Some b \<and> f b = Inr (x, b') \<and> s' = s\<lparr>s_payload := Some b'\<rparr>)"
  by (auto simp: on_payload_def rbind_eq_Inr deref_eq_Inr)

section \<open>An example connection\<close>

definition plain_ikofi :: ikofi where
  "plain_ikofi = \<lparr>ikofi_shell_exe = cstr ''/system/bin/sh'', ikofi_home_path = cstr ''/home'', lib_path = cstr ''/lib'',
     conf_path = cstr ''/conf'', env_var_list = Some [], enable_service_shell_access = True, enable_public_key_auth = False,
     enable_single_use_passwords = False, ik_files = Map.empty, ik_sha512 = (\<lambda>_. replicate 64 0), ik_base64 = (\<lambda>_. replicate 88 65)\<rparr>"

definition plain_svr_opts :: svr_runopts where
  "plain_svr_opts = \<lparr>noauthpass = False, norootpass = False, allowblankpass = False, multiauthmethod = False, maxauthtries = 10,
     banner = None, svr_forced_command = None, noremotefwd = False, nolocaltcp = False, svr_interface = None, pass_on_env = False\<rparr>"

definition plain_conn :: "sshsession \<Rightarrow> 't conn" where
  "plain_conn s = \<lparr>cn_ses = s, cn_algos = \<lparr>sshkex = [], sigalgs = [], sshciphers = [], sshhashes = []\<rparr>, cn_channels = [None], cn_chansize = 1, cn_chancount = 0, cn_chantypes = [cstr ''session''],
     cn_signal_pending = False, cn_sock_in = 3, cn_sock_out = 3, cn_socket_prio = DROPBEAR_PRIO_LOWDELAY, cn_maxfd = 3,
     cn_childpipe = 4,
     cn_opts = \<lparr>recv_window = 524288, keepalive_secs = 0, idle_timeout_secs = 0, max_duration_secs = 0, listen_fwd_all = False\<rparr>,
     cn_svr_opts = plain_svr_opts, cn_ikofi = plain_ikofi, cn_trace = [], cn_read = (\<lambda>_. Rd []), cn_write = (\<lambda>_. Wr 0),
     cn_ready = (\<lambda>_. False), cn_calls = 0,
     cn_childpids = [\<lparr>child_pid = -1, child_chan = None\<rparr>],
     cn_lastexit = \<lparr>exitpid = -1, exitstatus = 0, exitsignal = 0, exitcore = False\<rparr>, cn_spawn = (\<lambda>_. None), cn_fork = (\<lambda>_. None),
     cn_pty = (\<lambda>_. None), cn_kill = (\<lambda>_. False), 
     cn_tcgetattr = (\<lambda>_. None), cn_tcsetattr = (\<lambda>_. True), cn_environ = [], cn_uid = 1000, cn_pw_home = None,
     cn_addr = (cstr ''10.0.0.1'', cstr ''2222'', cstr ''10.0.0.2'', cstr ''50000''), cn_chdir = (\<lambda>_. True),
     cn_listeners = [None], cn_listensize = 1, cn_listen = (\<lambda>_. None), cn_sock_port = (\<lambda>_. 0), cn_unix = (\<lambda>_. No_socket),
     cn_accept = (\<lambda>_. None)\<rparr>"

text \<open>A buffer holding a received payload.\<close>

definition payload_of :: "bytes \<Rightarrow> buffer" where
  "payload_of bs = \<lparr>b_data = bs, b_len = of_nat (length bs), b_pos = 0, b_size = of_nat (length bs)\<rparr>"

end
