(* ===== verification/Process_Packet.thy ===== *)
theory Process_Packet
  imports Connection
begin

text \<open>
  \<^verbatim>\<open>process-packet.c\<close>: what happens to a decrypted packet. The table of handlers is an
  argument, as \<^verbatim>\<open>ses.packettypes\<close> is. The decision the function takes before it calls a
  handler is stated as a table of its own (\<open>packet_action\<close>) and the function is shown to
  follow it; from that follow the rules of RFC 4252/4253 the comments name: nothing above
  \<^verbatim>\<open>MAX_UNAUTH_PACKET_TYPE\<close> before authentication, only the required packet during the
  key exchange, and no packet at all besides those during a strict first key exchange.
\<close>

section \<open>Model\<close>

abbreviation (input) "MAX_UNAUTH_PACKET_TYPE \<equiv> 60 :: byte"

type_synonym 't handler = "'t conn \<Rightarrow> 't conn res"
type_synonym 't packettypes = "(byte \<times> 't handler) list"

definition recv_unimplemented :: "sshsession \<Rightarrow> sshsession res" where
  "recv_unimplemented s = send_fields [FByte SSH_MSG_UNIMPLEMENTED, FInt (s_recvseq s - 1)] s"

text \<open>The loop over the table, which ends at an entry of type 0.\<close>

fun find_handler :: "'t packettypes \<Rightarrow> byte \<Rightarrow> 't handler option" where
  "find_handler [] type = None"
| "find_handler ((t, h) # ts) type =
     (if t = 0 then None else if t = type then Some h else find_handler ts type)"

text \<open>The code at \<^verbatim>\<open>out:\<close>.\<close>

definition packet_out :: "byte \<Rightarrow> 't conn \<Rightarrow> 't conn" where
  "packet_out type c = c\<lparr>cn_ses := (cn_ses c)\<lparr>s_lastpacket := type, s_payload := None\<rparr>\<rparr>"

definition process_packet :: "'t packettypes \<Rightarrow> 't conn \<Rightarrow> 't conn res" where
  "process_packet packettypes c =
     (let kx = s_kexstate (cn_ses c);
          first_strict_kex = strict_kex kx \<and> \<not> recvfirstnewkeys kx;
          out = (\<lambda>type c. Inr (packet_out type c)) in
      rbind (on_ses_get (on_payload buf_getbyte) c) (\<lambda>(type, c).
      let (now, s) = monotonic_now (cn_ses c);
          s = s\<lparr>s_last_packet_time_keepalive_recv := now\<rparr>;
          c = c\<lparr>cn_ses := s\<rparr> in
      if type = SSH_MSG_DISCONNECT then Inl (Dropbear_close ''Disconnect received'') else
      if \<not> first_strict_kex \<and> (type = SSH_MSG_IGNORE \<or> type = SSH_MSG_DEBUG \<or> type = SSH_MSG_UNIMPLEMENTED)
      then out type c else
      let s = (if \<not> (type = SSH_MSG_GLOBAL_REQUEST \<or> type = SSH_MSG_REQUEST_FAILURE \<or> type = SSH_MSG_CHANNEL_FAILURE)
               then s\<lparr>s_last_packet_time_idle := now\<rparr> else s);
          c = c\<lparr>cn_ses := s\<rparr> in
      if s_requirenext s \<noteq> 0 \<and> s_requirenext s \<noteq> type then
        (if type \<ge> 1 \<and> type \<le> 49 \<and> type \<noteq> SSH_MSG_SERVICE_REQUEST \<and> type \<noteq> SSH_MSG_SERVICE_ACCEPT
            \<and> type \<noteq> SSH_MSG_KEXINIT \<and> \<not> first_strict_kex
         then rbind (on_ses recv_unimplemented c) (out type)
         else Inl (Dropbear_exit ''Unexpected packet type'')) else
      if s_ignorenext s then out type (c\<lparr>cn_ses := s\<lparr>s_ignorenext := False\<rparr>\<rparr>) else
      let s = (if s_requirenext s \<noteq> 0 \<and> s_requirenext s = type then s\<lparr>s_requirenext := 0\<rparr> else s);
          c = c\<lparr>cn_ses := s\<rparr> in
      if \<not> authdone (s_authstate s) \<and> type > MAX_UNAUTH_PACKET_TYPE
      then Inl (Dropbear_exit ''Received message before userauth'') else
      (case find_handler packettypes type of
         Some handler \<Rightarrow> rbind (handler c) (out type)
       | None \<Rightarrow> rbind (on_ses recv_unimplemented c) (out type))))"

section \<open>The decision\<close>

datatype action = Close | Refuse_unexpected | Refuse_unauth | Drop | Skip_once | Reply_unimplemented | Handle

text \<open>
  What is to be done with a packet of a type: the first key exchange under strict kex
  accepts the required packet only; a required packet is waited for, transport-layer
  messages other than a service or a new key exchange being answered; after that the
  guessed packet is skipped, and no packet of a higher protocol layer is looked at before
  the user is authenticated.
\<close>

definition packet_action :: "sshsession \<Rightarrow> byte \<Rightarrow> action" where
  "packet_action s type =
     (let strict = strict_kex (s_kexstate s) \<and> \<not> recvfirstnewkeys (s_kexstate s);
          expected = (s_requirenext s = 0 \<or> s_requirenext s = type) in
      if type = 1 then Close
      else if type \<in> {2, 3, 4} \<and> \<not> strict then Drop
      else if \<not> expected then
        (if strict \<or> type \<notin> {1..49} \<or> type \<in> {5, 6, 20} then Refuse_unexpected else Reply_unimplemented)
      else if s_ignorenext s then Skip_once
      else if \<not> authdone (s_authstate s) \<and> 60 < type then Refuse_unauth
      else Handle)"

text \<open>The session as the handler finds it: the time stamps set and the requirement met.\<close>

definition at_dispatch :: "byte \<Rightarrow> sshsession \<Rightarrow> sshsession" where
  "at_dispatch type s =
     (let (now, s) = monotonic_now s; s = s\<lparr>s_last_packet_time_keepalive_recv := now\<rparr> in
      if type \<in> {80, 82, 100} then s else s\<lparr>s_last_packet_time_idle := now\<rparr>)"

definition meet_requirement :: "sshsession \<Rightarrow> sshsession" where
  "meet_requirement s = s\<lparr>s_requirenext := 0\<rparr>"

definition keepalive_seen :: "sshsession \<Rightarrow> sshsession" where
  "keepalive_seen s = (let (now, s) = monotonic_now s in s\<lparr>s_last_packet_time_keepalive_recv := now\<rparr>)"

definition perform :: "'t packettypes \<Rightarrow> byte \<Rightarrow> 't conn \<Rightarrow> 't conn res" where
  "perform tbl type c =
     (let s = cn_ses c; put = (\<lambda>s. c\<lparr>cn_ses := s\<rparr>); finish = (\<lambda>c. Inr (packet_out type c));
          unimplemented = (\<lambda>c. rbind (on_ses recv_unimplemented c) finish) in
      case packet_action s type of
        Close \<Rightarrow> Inl (Dropbear_close ''Disconnect received'')
      | Drop \<Rightarrow> finish (put (keepalive_seen s))
      | Refuse_unexpected \<Rightarrow> Inl (Dropbear_exit ''Unexpected packet type'')
      | Reply_unimplemented \<Rightarrow> unimplemented (put (at_dispatch type s))
      | Skip_once \<Rightarrow> finish (put ((at_dispatch type s)\<lparr>s_ignorenext := False\<rparr>))
      | Refuse_unauth \<Rightarrow> Inl (Dropbear_exit ''Received message before userauth'')
      | Handle \<Rightarrow> (case find_handler tbl type of
            Some h \<Rightarrow> rbind (h (put (meet_requirement (at_dispatch type s)))) finish
          | None \<Rightarrow> unimplemented (put (meet_requirement (at_dispatch type s)))))"

lemma monotonic_now_same [simp]:
  "s_kexstate (snd (monotonic_now s)) = s_kexstate s" "s_requirenext (snd (monotonic_now s)) = s_requirenext s"
  "s_ignorenext (snd (monotonic_now s)) = s_ignorenext s" "s_authstate (snd (monotonic_now s)) = s_authstate s"
  by (simp_all add: monotonic_now_def)

lemma process_packet_perform:
  assumes "on_ses_get (on_payload buf_getbyte) c = Inr (type, c')"
  shows "process_packet tbl c = perform tbl type c'"
proof -
  have k: "s_kexstate (cn_ses c) = s_kexstate (cn_ses c')"
    using assms by (auto simp: on_ses_get_def on_payload_def rbind_eq_Inr)
  obtain now s where m: "monotonic_now (cn_ses c') = (now, s)" by force
  have s: "s_kexstate s = s_kexstate (cn_ses c')" "s_requirenext s = s_requirenext (cn_ses c')"
    "s_ignorenext s = s_ignorenext (cn_ses c')" "s_authstate s = s_authstate (cn_ses c')"
    using monotonic_now_same [of "cn_ses c'"] m by simp_all
  have req: "s\<lparr>s_requirenext := 0\<rparr> = s" if "s_requirenext s = 0" for s
    using that by simp
  have ty: "type \<in> {1..49} \<longleftrightarrow> 1 \<le> type \<and> type \<le> 49" by simp
  let ?k = "s_kexstate (cn_ses c')" and ?r = "s_requirenext (cn_ses c')"
  note defs = process_packet_def perform_def packet_action_def at_dispatch_def meet_requirement_def keepalive_seen_def
  consider "type = 1" | "type = 2" | "type = 3" | "type = 4" | "type \<notin> {1, 2, 3, 4}" by blast
  then show ?thesis
    unfolding defs Let_def assms m rbind_simps prod.case
    by cases (cases "strict_kex ?k"; cases "recvfirstnewkeys ?k"; cases "?r = 0"; cases "?r = type";
        simp add: s k ty req split: option.splits)+
qed

section \<open>Properties\<close>

lemma process_packet_decides:
  "process_packet tbl c = rbind (on_ses_get (on_payload buf_getbyte) c) (\<lambda>(type, c). perform tbl type c)"
proof (cases "on_ses_get (on_payload buf_getbyte) c")
  case (Inl e)
  then show ?thesis by (simp add: process_packet_def Let_def)
next
  case (Inr p)
  then show ?thesis using process_packet_perform [of c "fst p" "snd p" tbl] by (simp add: case_prod_beta)
qed

lemma find_handler_filter:
  assumes "P type" and "P 0"
  shows "find_handler (filter (\<lambda>(t, h). P t) tbl) type = find_handler tbl type"
  using assms by (induction tbl type rule: find_handler.induct) auto

lemma perform_preauth:
  assumes "\<not> authdone (s_authstate (cn_ses c))"
  shows "perform (filter (\<lambda>(t, h). t \<le> 60) tbl) type c = perform tbl type c"
proof (cases "type \<le> 60")
  case True
  have f: "find_handler (filter (\<lambda>(t, h). t \<le> 60) tbl) type = find_handler tbl type"
    by (rule find_handler_filter) (use True in simp_all)
  show ?thesis unfolding perform_def Let_def f ..
next
  case False
  then have "packet_action (cn_ses c) type \<noteq> Handle"
    using assms by (auto simp: packet_action_def Let_def not_le)
  then show ?thesis by (simp add: perform_def Let_def split: action.splits)
qed

lemma get_type_same:
  "on_ses_get (on_payload buf_getbyte) c = Inr (type, c') \<Longrightarrow>
     s_authstate (cn_ses c') = s_authstate (cn_ses c) \<and> s_kexstate (cn_ses c') = s_kexstate (cn_ses c)
     \<and> s_requirenext (cn_ses c') = s_requirenext (cn_ses c)"
  by (auto simp: on_ses_get_def on_payload_def rbind_eq_Inr)

text \<open>
  Property C2. Before the user is authenticated no handler of the connection layer can run:
  whatever the table of handlers holds for message types above 60, and whatever packet
  arrives in whatever state, the outcome is that of the table without those handlers.
\<close>

theorem preauth_isolation:
  assumes "\<not> authdone (s_authstate (cn_ses c))"
  shows "process_packet tbl c = process_packet (filter (\<lambda>(t, h). t \<le> 60) tbl) c"
proof -
  have "perform tbl type c' = perform (filter (\<lambda>(t, h). t \<le> 60) tbl) type c'"
    if "on_ses_get (on_payload buf_getbyte) c = Inr (type, c')" for type c'
    using get_type_same [OF that] assms by (intro perform_preauth [symmetric]) simp
  then show ?thesis
    unfolding process_packet_decides by (auto intro!: rbind_cong)
qed

definition example_conn :: "bytes \<Rightarrow> unit conn" where
  "example_conn bs = plain_conn (plain_session\<lparr>s_payload := Some (payload_of bs), s_requirenext := 0\<rparr>)"

definition example_strict :: "bytes \<Rightarrow> unit conn" where
  "example_strict bs = plain_conn (plain_session\<lparr>s_payload := Some (payload_of bs), s_requirenext := 20,
     s_kexstate := zero_KEXState\<lparr>strict_kex := True\<rparr>\<rparr>)"

theorem preauth_isolation_witness:
  "\<not> authdone (s_authstate (cn_ses (example_conn [94]))) \<and>
   process_packet [(94, Inr), (50, Inr)] (example_conn [94]) = process_packet [(50, Inr)] (example_conn [94])"
proof -
  have a: "\<not> authdone (s_authstate (cn_ses (example_conn [94])))" by code_simp
  show ?thesis using a preauth_isolation [OF a, of "[(94, Inr), (50, Inr)]"] by simp
qed

text \<open>
  Property C25. While a packet is required, a packet of another type never reaches a handler: it
  ends the connection, or it is one of the transport-layer messages that are dropped or
  answered with "unimplemented", so that the result does not depend on the table. Under strict
  key exchange, until the first NEWKEYS, it always ends the connection.
\<close>

theorem required_packet_only:
  assumes "on_ses_get (on_payload buf_getbyte) c = Inr (type, c')"
    and "s_requirenext (cn_ses c) \<noteq> 0" and "type \<noteq> s_requirenext (cn_ses c)"
  shows "process_packet tbl c = process_packet [] c \<and>
    (strict_kex (s_kexstate (cn_ses c)) \<and> \<not> recvfirstnewkeys (s_kexstate (cn_ses c)) \<longrightarrow>
     process_packet tbl c \<in> {Inl (Dropbear_close ''Disconnect received''), Inl (Dropbear_exit ''Unexpected packet type'')})"
proof -
  have s: "s_requirenext (cn_ses c') = s_requirenext (cn_ses c)" "s_kexstate (cn_ses c') = s_kexstate (cn_ses c)"
    using get_type_same [OF assms(1)] by simp_all
  have "packet_action (cn_ses c') type \<noteq> Handle"
    using assms s by (simp add: packet_action_def Let_def)
  then have "perform tbl type c' = perform [] type c'"
    by (simp add: perform_def Let_def split: action.splits)
  then show ?thesis
    using assms s by (auto simp: process_packet_decides perform_def packet_action_def Let_def)
qed

theorem required_packet_only_witness:
  "process_packet [(2, Inr)] (example_strict [2]) = process_packet [] (example_strict [2]) \<and>
   process_packet [(2, Inr)] (example_strict [2])
     \<in> {Inl (Dropbear_close ''Disconnect received''), Inl (Dropbear_exit ''Unexpected packet type'')}"
proof -
  let ?c = "example_strict [2]"
  have "\<exists>c'. on_ses_get (on_payload buf_getbyte) ?c = Inr (2, c')"
    by (simp add: example_strict_def plain_conn_def on_ses_get_def on_payload_def payload_of_def buf_getbyte_def)
  then obtain c' where c': "on_ses_get (on_payload buf_getbyte) ?c = Inr (2, c')" ..
  have k: "s_requirenext (cn_ses ?c) = 20" "strict_kex (s_kexstate (cn_ses ?c))" "\<not> recvfirstnewkeys (s_kexstate (cn_ses ?c))"
    by code_simp+
  show ?thesis using required_packet_only [OF c', of "[(2, Inr)]"] k by auto
qed

end
