(* ===== verification/Kex.thy ===== *)
theory Kex
  imports Connection
begin

text \<open>
  Key exchange (\<^verbatim>\<open>common-kex.c\<close>): sending and reading KEXINIT, choosing the algorithms,
  deriving the keys and switching to them in the two directions. The tables of algorithms
  are an argument; \<^verbatim>\<open>ses.keys\<close> is set by \<^verbatim>\<open>common_session_init\<close> and never null; a server has no
  first guess to send (\<^verbatim>\<open>send_kex_first_guess\<close> is null).
\<close>

section \<open>Model\<close>

definition comp_algo :: "string \<Rightarrow> int \<Rightarrow> unit algo_type" where
  "comp_algo n v = \<lparr>a_name = cstr n, a_val = v, a_data = None, a_usable = True, a_mode = None\<rparr>"

definition ssh_compress :: "unit algo_type list" where
  "ssh_compress = [comp_algo ''zlib@openssh.com'' 2, comp_algo ''zlib'' 1, comp_algo ''none'' 0]"

definition ssh_nocompress :: "unit algo_type list" where
  "ssh_nocompress = [comp_algo ''none'' 0]"

definition comp_of :: "int \<Rightarrow> comp" where
  "comp_of v = (if v = 1 then COMP_ZLIB else if v = 2 then COMP_ZLIB_DELAY else COMP_NONE)"

text \<open>\<^verbatim>\<open>kex_setup_compress\<close>: the lists for the two directions, from the option.\<close>

definition kex_setup_compress :: "sshsession \<Rightarrow> unit algo_type list \<times> unit algo_type list" where
  "kex_setup_compress s =
     (if \<not> s_compression s then (ssh_nocompress, ssh_nocompress) else (ssh_nocompress, ssh_compress))"

abbreviation (input) "upd_kex f s \<equiv> s\<lparr>s_kexstate := f (s_kexstate s)\<rparr>"
abbreviation (input) "LOCAL_IDENT \<equiv> cstr ''SSH-2.0-dropbear_2026.91''"
abbreviation (input) "KEXHASHBUF_MAX_INTS \<equiv> 3012 :: u32"

definition send_msg_kexinit :: "algo_tables \<Rightarrow> sshsession \<Rightarrow> sshsession res" where
  "send_msg_kexinit T s =
     (let (compress_algos_c2s, compress_algos_s2c) = kex_setup_compress s in
      rbind (buf_putbyte (s_writepayload s) SSH_MSG_KEXINIT) (\<lambda>b.
      let (cookie, s) = genrandom s 16 in
      rbind (buf_putbytes b cookie 16) (\<lambda>b.
      rbind (buf_put_algolist b (sshkex T)) (\<lambda>b.
      rbind (buf_put_algolist b (sigalgs T)) (\<lambda>b.
      rbind (buf_put_algolist b (sshciphers T)) (\<lambda>b.
      rbind (buf_put_algolist b (sshciphers T)) (\<lambda>b.
      rbind (buf_put_algolist b (sshhashes T)) (\<lambda>b.
      rbind (buf_put_algolist b (sshhashes T)) (\<lambda>b.
      rbind (buf_put_algolist b compress_algos_c2s) (\<lambda>b.
      rbind (buf_put_algolist b compress_algos_s2c) (\<lambda>b.
      rbind (put_fields b [FString [], FString [], FByte 0, FInt 0]) (\<lambda>b.
      rbind (buf_newcopy b) (\<lambda>copy.
      let s = s\<lparr>s_writepayload := b, s_transkexinit := Some copy\<rparr> in
      rbind (encrypt_packet s) (\<lambda>s.
      Inr (upd_kex (sentkexinit_update (\<lambda>_. True)) (s\<lparr>s_dataallowed := False, s_newkeys := Some zero_key_context\<rparr>))))))))))))))))"

definition kexinitialise :: "sshsession \<Rightarrow> sshsession" where
  "kexinitialise s =
     (let (now, s) = monotonic_now s in
      upd_kex (\<lambda>k. k\<lparr>sentkexinit := False, recvkexinit := False, recvnewkeys := False, sentnewkeys := False,
        them_firstfollows := False, datatrans := 0, datarecv := 0, our_first_follows_matches := False, lastkextime := now\<rparr>) s)"

text \<open>\<^verbatim>\<open>kexfirstinitialise\<close>; the compression lists are a function of the options.\<close>

definition kexfirstinitialise :: "sshsession \<Rightarrow> sshsession" where
  "kexfirstinitialise s = kexinitialise s"

text \<open>The expansion of a key in \<^verbatim>\<open>hashkeys\<close>: one digest is appended per round.\<close>

function hashkeys_extend :: "hash_desc \<Rightarrow> bytes \<Rightarrow> nat \<Rightarrow> bytes \<Rightarrow> bytes res" where
  "hashkeys_extend desc hs outlen out =
     (let n = unat (hd_hashsize desc) in
      if length out < outlen then
        (if n = 0 then Inl Diverge
         else let tmpout = hd_hash desc (hs @ out) in
           if length tmpout > 64 \<or> length tmpout < min (outlen - length out) n then Inl Fault
           else hashkeys_extend desc hs outlen (out @ take (min (outlen - length out) n) tmpout))
      else Inr out)"
  by pat_completeness auto
termination
  by (relation "measure (\<lambda>(desc, hs, outlen, out). outlen - length out)") auto

declare hashkeys_extend.simps [simp del]

definition hashkeys :: "hash_desc \<Rightarrow> bytes \<Rightarrow> bytes \<Rightarrow> nat \<Rightarrow> byte \<Rightarrow> bytes res" where
  "hashkeys desc hs session_id outlen X =
     (let n = unat (hd_hashsize desc); tmpout = hd_hash desc (hs @ [X] @ session_id) in
      if length tmpout > 64 \<or> length tmpout < min n outlen then Inl Fault
      else hashkeys_extend desc hs outlen (take (min n outlen) tmpout))"

text \<open>Starting the cipher of one direction.\<close>

definition start_cipher :: "libs \<Rightarrow> key_dir \<Rightarrow> bytes \<Rightarrow> bytes \<Rightarrow> key_dir res" where
  "start_cipher lib kd IV key =
     rbind (deref (kd_algo_crypt kd)) (\<lambda>ac.
     case cp_cipherdesc ac of
       None \<Rightarrow> Inr kd
     | Some name \<Rightarrow>
         let cipher = (case name of None \<Rightarrow> -1 | Some nm \<Rightarrow> l_find_cipher lib nm) in
         if name \<noteq> None \<and> cipher < 0 then Inl (Dropbear_exit ''Crypto error'') else
         rbind (deref (kd_crypt_mode kd)) (\<lambda>cm.
         case cm_start cm cipher IV key (cp_keysize ac) of
           None \<Rightarrow> Inl (Dropbear_exit ''Crypto error'')
         | Some st \<Rightarrow> Inr (kd\<lparr>kd_cipher_state := st\<rparr>)))"

definition start_mac :: "libs \<Rightarrow> key_dir \<Rightarrow> (nat \<Rightarrow> bytes res) \<Rightarrow> key_dir res" where
  "start_mac lib kd derive =
     rbind (deref (kd_algo_mac kd)) (\<lambda>am.
     case ch_hash_desc am of
       None \<Rightarrow> Inr kd
     | Some name \<Rightarrow>
         rbind (derive (unat (ch_keysize am))) (\<lambda>out.
         rbind (mem_write (kd_mackey kd) 0 out) (\<lambda>mk.
         Inr (kd\<lparr>kd_mackey := mk, kd_hash_index := l_find_hash lib name\<rparr>))))"

text \<open>The start of every hash: the shared secret and the exchange hash.\<close>

definition kex_prefix :: "sshsession \<Rightarrow> bytes res" where
  "kex_prefix s =
     rbind (case s_dh_K s of None \<Rightarrow> Inr []
            | Some mp \<Rightarrow> rbind (buf_new 532) (\<lambda>b. rbind (buf_putmpint b mp) (\<lambda>b. Inr (buf_contents b)))) (\<lambda>k1.
     rbind (case s_dh_K_bytes s of None \<Rightarrow> Inr [] | Some b \<Rightarrow> Inr (buf_contents b)) (\<lambda>k2.
     rbind (deref (s_hash s)) (\<lambda>h. Inr (k1 @ k2 @ buf_contents h))))"

definition gen_new_keys :: "sshsession \<Rightarrow> sshsession res" where
  "gen_new_keys s =
     rbind (deref (s_newkeys s)) (\<lambda>nk.
     rbind (deref (k_algo_kex nk)) (\<lambda>kx.
     let desc = kx_hash_desc kx; lib = s_libs s in
     rbind (kex_prefix s) (\<lambda>hs.
     let s = s\<lparr>s_dh_K := None, s_dh_K_bytes := None, s_hash := None\<rparr> in
     rbind (deref (s_session_id s)) (\<lambda>sid.
     let derive = (\<lambda>X n. hashkeys desc hs (buf_contents sid) n X) in
     rbind (derive 65 20) (\<lambda>C2S_IV.
     rbind (derive 66 20) (\<lambda>S2C_IV.
     rbind (derive 67 64) (\<lambda>C2S_key.
     rbind (derive 68 64) (\<lambda>S2C_key.
     rbind (start_cipher lib (k_recv nk) C2S_IV C2S_key) (\<lambda>recv.
     rbind (start_cipher lib (k_trans nk) S2C_IV S2C_key) (\<lambda>trans.
     rbind (start_mac lib trans (derive 70)) (\<lambda>trans.
     rbind (start_mac lib recv (derive 69)) (\<lambda>recv.
     Inr (s\<lparr>s_newkeys := Some (nk\<lparr>k_trans := trans\<lparr>kd_valid := True\<rparr>, k_recv := recv\<lparr>kd_valid := True\<rparr>\<rparr>)\<rparr>)))))))))))))"

definition gen_new_zstream_recv :: "libs \<Rightarrow> key_dir \<Rightarrow> key_dir \<Rightarrow> key_dir res" where
  "gen_new_zstream_recv lib newk oldk =
     rbind (if kd_algo_comp newk = COMP_ZLIB \<or> kd_algo_comp newk = COMP_ZLIB_DELAY then
              (case l_inflateInit lib of None \<Rightarrow> Inl (Dropbear_exit ''zlib error'') | Some z \<Rightarrow> Inr (newk\<lparr>kd_zstream := Some z\<rparr>))
            else Inr (newk\<lparr>kd_zstream := None\<rparr>)) (\<lambda>newk.
     case kd_zstream oldk of
       None \<Rightarrow> Inr newk
     | Some z \<Rightarrow> if \<not> l_inflateEnd lib z then Inl (Dropbear_exit ''Crypto error'') else Inr newk)"

definition gen_new_zstream_trans :: "libs \<Rightarrow> key_dir \<Rightarrow> key_dir \<Rightarrow> key_dir res" where
  "gen_new_zstream_trans lib newk oldk =
     rbind (if kd_algo_comp newk = COMP_ZLIB \<or> kd_algo_comp newk = COMP_ZLIB_DELAY then
              (case l_deflateInit2 lib of None \<Rightarrow> Inl (Dropbear_exit ''zlib error'') | Some z \<Rightarrow> Inr (newk\<lparr>kd_zstream := Some z\<rparr>))
            else Inr (newk\<lparr>kd_zstream := None\<rparr>)) (\<lambda>newk.
     case kd_zstream oldk of
       None \<Rightarrow> Inr newk
     | Some z \<Rightarrow> if \<not> l_deflateEnd lib z then Inl (Dropbear_exit ''Crypto error'') else Inr newk)"

definition switch_keys :: "sshsession \<Rightarrow> sshsession res" where
  "switch_keys s =
     (let k = s_kexstate s in
      if \<not> (sentkexinit k \<and> recvkexinit k) then Inl (Dropbear_exit ''Unexpected newkeys message'') else
      rbind (deref (s_newkeys s)) (\<lambda>nk.
      rbind (if recvnewkeys k \<and> kd_valid (k_recv nk) then
               rbind (gen_new_zstream_recv (s_libs s) (k_recv nk) (k_recv (s_keys s))) (\<lambda>r.
               Inr (s\<lparr>s_keys := (s_keys s)\<lparr>k_recv := r\<rparr>\<rparr>, nk\<lparr>k_recv := zero_key_dir\<rparr>))
             else Inr (s, nk)) (\<lambda>(s, nk).
      rbind (if sentnewkeys k \<and> kd_valid (k_trans nk) then
               rbind (gen_new_zstream_trans (s_libs s) (k_trans nk) (k_trans (s_keys s))) (\<lambda>t.
               Inr (s\<lparr>s_keys := (s_keys s)\<lparr>k_trans := t\<rparr>\<rparr>, nk\<lparr>k_trans := zero_key_dir\<rparr>))
             else Inr (s, nk)) (\<lambda>(s, nk).
      if sentnewkeys k \<and> recvnewkeys k then
        Inr (kexinitialise (s\<lparr>s_keys := (s_keys s)\<lparr>k_algo_kex := k_algo_kex nk, k_algo_hostkey := k_algo_hostkey nk,
          k_algo_signature := k_algo_signature nk\<rparr>, s_newkeys := None\<rparr>))
      else Inr (s\<lparr>s_newkeys := Some nk\<rparr>)))))"

definition send_msg_newkeys :: "sshsession \<Rightarrow> sshsession res" where
  "send_msg_newkeys s =
     rbind (send_fields [FByte SSH_MSG_NEWKEYS] s) (\<lambda>s.
     let s = upd_kex (\<lambda>k. k\<lparr>sentnewkeys := True, donesecondkex := (donefirstkex k \<or> donesecondkex k), donefirstkex := True\<rparr>) s;
         s = s\<lparr>s_dataallowed := True\<rparr> in
     rbind (gen_new_keys s) (\<lambda>s.
     rbind (switch_keys s) (\<lambda>s.
     Inr (if strict_kex (s_kexstate s) then s\<lparr>s_transseq := 0\<rparr> else s))))"

definition recv_msg_newkeys :: "sshsession \<Rightarrow> sshsession res" where
  "recv_msg_newkeys s =
     rbind (switch_keys (upd_kex (recvnewkeys_update (\<lambda>_. True)) s)) (\<lambda>s.
     let s = (if strict_kex (s_kexstate s) then s\<lparr>s_recvseq := 0\<rparr> else s)
     in Inr (upd_kex (recvfirstnewkeys_update (\<lambda>_. True)) s))"

definition signkey_type_from_signature :: "int \<Rightarrow> int res" where
  "signkey_type_from_signature sigtype =
     (if sigtype = 101 then Inr 0 else rbind (dassert (sigtype < 7) ''sigtype'') (\<lambda>_. Inr sigtype))"

text \<open>One \<^verbatim>\<open>buf_match_algo\<close> on the payload, and the \<^verbatim>\<open>goto error\<close> when nothing matches.\<close>

definition match_payload :: "'d algo_type list \<Rightarrow> bool \<Rightarrow> sshsession \<Rightarrow> (('d algo_type option \<times> bool) \<times> sshsession) res" where
  "match_payload algos kexguess2 =
     on_payload (\<lambda>b. rbind (buf_match_algo b algos kexguess2) (\<lambda>(a, g, b). Inr ((a, g), b)))"

definition need_algo :: "'d algo_type list \<Rightarrow> bool \<Rightarrow> sshsession \<Rightarrow> (('d algo_type \<times> bool) \<times> sshsession) res" where
  "need_algo algos kexguess2 s =
     rbind (match_payload algos kexguess2 s) (\<lambda>((a, g), s).
     case a of None \<Rightarrow> Inl (Dropbear_exit ''No matching algo'') | Some a \<Rightarrow> Inr ((a, g), s))"

text \<open>The MAC algorithm of a direction: implicit with an AEAD cipher, which must have a mode.\<close>

definition mac_algo :: "algo_tables \<Rightarrow> cipher algo_type \<Rightarrow> sshsession \<Rightarrow> (cipher_hash option \<times> sshsession) res" where
  "mac_algo T cipher_algo s =
     rbind (match_payload (sshhashes T) False s) (\<lambda>((a, _), s).
     rbind (deref (a_mode cipher_algo)) (\<lambda>cm.
     if cm_aead_crypt cm \<noteq> None then Inr (cm_aead_mac cm, s)
     else case a of None \<Rightarrow> Inl (Dropbear_exit ''No matching algo'') | Some a \<Rightarrow> Inr (a_data a, s)))"

definition has_algo :: "string \<Rightarrow> sshsession \<Rightarrow> (bool \<times> sshsession) res" where
  "has_algo n = on_payload (\<lambda>b. buf_has_algo b (cstr n))"

definition read_kex_algos :: "algo_tables \<Rightarrow> sshsession \<Rightarrow> sshsession res" where
  "read_kex_algos T s =
     rbind (on_payload (\<lambda>b. rbind (buf_incrpos b 16) (\<lambda>b. Inr ((), b))) s) (\<lambda>(_, s).
     rbind (deref (s_newkeys s)) (\<lambda>_.
     let nk = zero_key_context in
     rbind (has_algo ''kexguess2@matt.ucc.asn.au'' s) (\<lambda>(kexguess2, s).
     rbind (if \<not> donefirstkex (s_kexstate s) then has_algo ''ext-info-c'' s else Inr (False, s)) (\<lambda>(ext, s).
     let s = (if ext then s\<lparr>s_allow_ext_info := True\<rparr> else s) in
     rbind (if \<not> donefirstkex (s_kexstate s) then has_algo ''kex-strict-c-v00@openssh.com'' s else Inr (False, s)) (\<lambda>(strict, s).
     let s = (if strict then upd_kex (strict_kex_update (\<lambda>_. True)) s else s) in
     rbind (need_algo (sshkex T) kexguess2 s) (\<lambda>((algo, goodguess1), s).
     if a_data algo = None then Inl (Dropbear_exit ''No matching algo'') else
     let nk = nk\<lparr>k_algo_kex := a_data algo\<rparr> in
     rbind (need_algo (sigalgs T) kexguess2 s) (\<lambda>((algo, goodguess2), s).
     rbind (signkey_type_from_signature (a_val algo)) (\<lambda>hostkey.
     let nk = nk\<lparr>k_algo_signature := a_val algo, k_algo_hostkey := hostkey\<rparr>; allgood = (goodguess1 \<and> goodguess2) in
     rbind (need_algo (sshciphers T) False s) (\<lambda>((c2s_cipher_algo, _), s).
     rbind (need_algo (sshciphers T) False s) (\<lambda>((s2c_cipher_algo, _), s).
     rbind (mac_algo T c2s_cipher_algo s) (\<lambda>(c2s_mac, s).
     rbind (mac_algo T s2c_cipher_algo s) (\<lambda>(s2c_mac, s).
     rbind (need_algo (fst (kex_setup_compress s)) False s) (\<lambda>((c2s_comp_algo, _), s).
     rbind (need_algo (snd (kex_setup_compress s)) False s) (\<lambda>((s2c_comp_algo, _), s).
     rbind (on_payload (\<lambda>b. rbind (buf_eatstring b) (\<lambda>b. Inr ((), b))) s) (\<lambda>(_, s).
     rbind (on_payload (\<lambda>b. rbind (buf_eatstring b) (\<lambda>b. Inr ((), b))) s) (\<lambda>(_, s).
     rbind (on_payload buf_getbool s) (\<lambda>(follows, s).
     let s = (if follows then
                let s = upd_kex (them_firstfollows_update (\<lambda>_. True)) s
                in if \<not> allgood then s\<lparr>s_ignorenext := True\<rparr> else s
              else s);
         nk = nk\<lparr>k_recv := (k_recv nk)\<lparr>kd_algo_crypt := a_data c2s_cipher_algo, kd_crypt_mode := a_mode c2s_cipher_algo,
                    kd_algo_mac := c2s_mac, kd_algo_comp := comp_of (a_val c2s_comp_algo)\<rparr>,
                  k_trans := (k_trans nk)\<lparr>kd_algo_crypt := a_data s2c_cipher_algo, kd_crypt_mode := a_mode s2c_cipher_algo,
                    kd_algo_mac := s2c_mac, kd_algo_comp := comp_of (a_val s2c_comp_algo)\<rparr>\<rparr> in
     rbind (on_payload buf_getint s) (\<lambda>(_, s).
     Inr (s\<lparr>s_newkeys := Some nk\<rparr>)))))))))))))))))))"

text \<open>\<^verbatim>\<open>recv_msg_kexinit\<close> of the server, with \<^verbatim>\<open>LOCAL_IDENT\<close> of this version.\<close>

definition recv_msg_kexinit :: "algo_tables \<Rightarrow> sshsession \<Rightarrow> sshsession res" where
  "recv_msg_kexinit T s =
     rbind (if \<not> sentkexinit (s_kexstate s) then send_msg_kexinit T s else Inr s) (\<lambda>s.
     if recvkexinit (s_kexstate s) then Inl (Dropbear_exit ''Unexpected KEXINIT'') else
     rbind (deref (s_remoteident s)) (\<lambda>remoteident.
     rbind (deref (s_transkexinit s)) (\<lambda>transkexinit.
     rbind (deref (s_payload s)) (\<lambda>pl.
     rbind (buf_new (of_nat (length LOCAL_IDENT) + of_nat (length remoteident) + b_len transkexinit + b_len pl
              + KEXHASHBUF_MAX_INTS)) (\<lambda>khb.
     rbind (read_kex_algos T s) (\<lambda>s.
     rbind (deref (s_payload s)) (\<lambda>pl.
     rbind (buf_putstring khb remoteident (of_nat (length remoteident))) (\<lambda>khb.
     rbind (buf_putstring khb LOCAL_IDENT (of_nat (length LOCAL_IDENT))) (\<lambda>khb.
     rbind (buf_setpos pl (s_payload_beginning s)) (\<lambda>pl.
     rbind (buf_peek pl (b_len pl - b_pos pl)) (\<lambda>I_C.
     rbind (buf_putstring khb I_C (b_len pl - b_pos pl)) (\<lambda>khb.
     rbind (buf_putstring khb (b_data transkexinit) (b_len transkexinit)) (\<lambda>khb.
     let s = s\<lparr>s_payload := Some pl, s_kexhashbuf := Some khb, s_requirenext := SSH_MSG_KEXDH_INIT, s_transkexinit := None\<rparr>;
         s = upd_kex (recvkexinit_update (\<lambda>_. True)) s in
     if strict_kex (s_kexstate s) \<and> \<not> donefirstkex (s_kexstate s) \<and> s_recvseq s \<noteq> 1
     then Inl (Dropbear_exit ''First packet wasn't kexinit'') else Inr s)))))))))))))"

definition finish_kexhashbuf :: "sshsession \<Rightarrow> sshsession res" where
  "finish_kexhashbuf s =
     rbind (deref (s_newkeys s)) (\<lambda>nk.
     rbind (deref (k_algo_kex nk)) (\<lambda>kx.
     rbind (deref (s_kexhashbuf s)) (\<lambda>khb.
     rbind (buf_setpos khb 0) (\<lambda>khb.
     rbind (buf_peek khb (b_len khb)) (\<lambda>contents.
     rbind (buf_new (hd_hashsize (kx_hash_desc kx))) (\<lambda>hash.
     rbind (buf_getwriteptr hash (hd_hashsize (kx_hash_desc kx))) (\<lambda>p.
     rbind (mem_write (b_data hash) p (hd_hash (kx_hash_desc kx) contents)) (\<lambda>d.
     rbind (buf_setlen (hash\<lparr>b_data := d\<rparr>) (hd_hashsize (kx_hash_desc kx))) (\<lambda>hash.
     let s = s\<lparr>s_hash := Some hash, s_kexhashbuf := None\<rparr> in
     case s_session_id s of
       None \<Rightarrow> rbind (buf_newcopy hash) (\<lambda>sid. Inr (s\<lparr>s_session_id := Some sid\<rparr>))
     | Some _ \<Rightarrow> Inr s)))))))))"

end
