(* ===== verification/Kex_Props.thy ===== *)
theory Kex_Props
  imports Kex
begin

text \<open>
  Properties of the key exchange: the derivation of keys agrees with RFC 4253 section 7.2,
  the two directions switch to the new keys independently and exactly once, and the frames
  of the handlers that the dispatch properties use.
\<close>

section \<open>Deriving keys\<close>

text \<open>RFC 4253, 7.2: \<open>K1 = HASH(K || H || X || session_id)\<close>, \<open>K(n+1) = HASH(K || H || K1 || ... || Kn)\<close>.\<close>

fun key_blocks :: "(bytes \<Rightarrow> bytes) \<Rightarrow> bytes \<Rightarrow> bytes \<Rightarrow> nat \<Rightarrow> bytes" where
  "key_blocks H hs k1 0 = k1"
| "key_blocks H hs k1 (Suc m) = key_blocks H hs k1 m @ H (hs @ key_blocks H hs k1 m)"

definition digest_ok :: "hash_desc \<Rightarrow> bool" where
  "digest_ok desc \<longleftrightarrow> 0 < hd_hashsize desc \<and> hd_hashsize desc \<le> 64 \<and> (\<forall>x. length (hd_hash desc x) = unat (hd_hashsize desc))"

lemma key_blocks_mono:
  assumes "m \<le> j" "l \<le> length (key_blocks H hs k1 m)"
  shows "take l (key_blocks H hs k1 j) = take l (key_blocks H hs k1 m)"
  using assms
proof (induction j rule: dec_induct)
  case (step j)
  have "length (key_blocks H hs k1 m) \<le> length (key_blocks H hs k1 j)"
    using step(1) by (induction j rule: dec_induct) auto
  then show ?case using step by simp
qed simp

lemma length_key_blocks:
  "(\<And>x. length (H x) = n) \<Longrightarrow> length k1 = n \<Longrightarrow> length (key_blocks H hs k1 m) = n * Suc m"
  by (induction m) (auto simp: algebra_simps)

lemma hashkeys_extend_blocks:
  assumes d: "digest_ok desc" and k1: "length k1 = unat (hd_hashsize desc)"
  shows "m \<le> j \<Longrightarrow> outlen \<le> unat (hd_hashsize desc) * Suc j \<Longrightarrow>
    hashkeys_extend desc hs outlen (take outlen (key_blocks (hd_hash desc) hs k1 m)) =
      Inr (take outlen (key_blocks (hd_hash desc) hs k1 j))"
proof (induction "j - m" arbitrary: m)
  case 0
  let ?n = "unat (hd_hashsize desc)" and ?B = "key_blocks (hd_hash desc) hs k1"
  have l: "length (?B m) = ?n * Suc m" using d k1 by (intro length_key_blocks) (auto simp: digest_ok_def)
  have "outlen \<le> length (?B m)" "j = m" using 0 l by auto
  then show ?case by (simp add: hashkeys_extend.simps)
next
  case (Suc i)
  let ?n = "unat (hd_hashsize desc)" and ?B = "key_blocks (hd_hash desc) hs k1"
  have n: "0 < ?n" "?n \<le> 64" "\<And>x. length (hd_hash desc x) = ?n"
    using d by (auto simp: digest_ok_def u32_order unat_eq_0)
  have l: "length (?B m) = ?n * Suc m" using n k1 by (intro length_key_blocks) auto
  show ?case
  proof (cases "outlen \<le> length (?B m)")
    case True
    then show ?thesis using key_blocks_mono [of m j outlen] Suc.prems by (simp add: hashkeys_extend.simps)
  next
    case False
    have "m < j" using Suc.hyps(2) by simp
    then have IH: "hashkeys_extend desc hs outlen (take outlen (?B (Suc m))) = Inr (take outlen (?B j))"
      using Suc.hyps(1) [of "Suc m"] Suc.hyps(2) Suc.prems by simp
    have "take outlen (?B m) @ take (min (outlen - length (?B m)) ?n) (hd_hash desc (hs @ ?B m)) = take outlen (?B (Suc m))"
      using False n(3) [of "hs @ ?B m"] by (simp add: min_def)
    then show ?thesis
      using False n IH by (subst hashkeys_extend.simps) (simp add: Let_def)
  qed
qed

lemma hashkeys_blocks:
  assumes d: "digest_ok desc" and j: "outlen \<le> unat (hd_hashsize desc) * Suc j"
  shows "hashkeys desc hs sid outlen X =
    Inr (take outlen (key_blocks (hd_hash desc) hs (hd_hash desc (hs @ [X] @ sid)) j))"
proof -
  let ?n = "unat (hd_hashsize desc)" and ?k = "hd_hash desc (hs @ [X] @ sid)"
  have n: "?n \<le> 64" "\<And>x. length (hd_hash desc x) = ?n" using d by (auto simp: digest_ok_def u32_order)
  have "take (min ?n outlen) ?k = take outlen ?k" using n(2) by (simp add: min_def)
  then show ?thesis
    using hashkeys_extend_blocks [OF d, of ?k 0 j outlen hs] n j by (simp add: hashkeys_def Let_def)
qed

text \<open>
  Property C17. Key derivation is that of RFC 4253 section 7.2 for every digest, letter and key
  length: the result is the first \<open>outlen\<close> bytes of the concatenated blocks K1, K2, ..., however
  many blocks are needed, the expansion loop ends, and nothing is read or written outside the
  arrays.
\<close>

theorem hashkeys_rfc4253:
  assumes "digest_ok desc" and "outlen \<le> unat (hd_hashsize desc) * Suc j"
  shows "hashkeys desc hs sid outlen X =
    Inr (take outlen (key_blocks (hd_hash desc) hs (hd_hash desc (hs @ [X] @ sid)) j))"
  using assms by (rule hashkeys_blocks)

definition example_digest :: hash_desc where
  "example_digest = \<lparr>hd_hashsize = 4, hd_hash = (\<lambda>x. store32h (of_nat (length x)))\<rparr>"

theorem hashkeys_rfc4253_witness:
  "hashkeys example_digest [1, 2] [9] 10 65 =
    Inr (take 10 (key_blocks (hd_hash example_digest) [1, 2] (hd_hash example_digest ([1, 2] @ [65] @ [9])) 2))"
  by (rule hashkeys_rfc4253) (simp_all add: digest_ok_def example_digest_def)

section \<open>Switching keys\<close>

lemma kexinitialise_same [simp]:
  "s_keys (kexinitialise s) = s_keys s" "s_newkeys (kexinitialise s) = s_newkeys s"
  "s_recvseq (kexinitialise s) = s_recvseq s" "s_transseq (kexinitialise s) = s_transseq s"
  "s_requirenext (kexinitialise s) = s_requirenext s" "s_dataallowed (kexinitialise s) = s_dataallowed s"
  "strict_kex (s_kexstate (kexinitialise s)) = strict_kex (s_kexstate s)"
  "donefirstkex (s_kexstate (kexinitialise s)) = donefirstkex (s_kexstate s)"
  "recvfirstnewkeys (s_kexstate (kexinitialise s)) = recvfirstnewkeys (s_kexstate s)"
  "sentkexinit (s_kexstate (kexinitialise s)) = False" "recvkexinit (s_kexstate (kexinitialise s)) = False"
  "sentnewkeys (s_kexstate (kexinitialise s)) = False" "recvnewkeys (s_kexstate (kexinitialise s)) = False"
  "s_libs (kexinitialise s) = s_libs s" "s_authstate (kexinitialise s) = s_authstate s"
  "s_ignorenext (kexinitialise s) = s_ignorenext s" "s_session_id (kexinitialise s) = s_session_id s"
  by (simp_all add: kexinitialise_def monotonic_now_def)

text \<open>The new keys with a compression stream of their own, if compression was negotiated.\<close>

definition with_zstream :: "bytes option \<Rightarrow> key_dir \<Rightarrow> key_dir" where
  "with_zstream init kd = kd\<lparr>kd_zstream := if kd_algo_comp kd = COMP_ZLIB \<or> kd_algo_comp kd = COMP_ZLIB_DELAY then init else None\<rparr>"

lemma gen_new_zstream_eq:
  "gen_new_zstream_recv lib n q = Inr r \<Longrightarrow> r = with_zstream (l_inflateInit lib) n"
  "gen_new_zstream_trans lib n q = Inr r \<Longrightarrow> r = with_zstream (l_deflateInit2 lib) n"
  unfolding gen_new_zstream_recv_def gen_new_zstream_trans_def
  by (auto simp: rbind_eq_Inr with_zstream_def split: if_splits option.splits)

lemma switch_keys_kexinit: "switch_keys s = Inr s' \<Longrightarrow> sentkexinit (s_kexstate s) \<and> recvkexinit (s_kexstate s)"
  by (simp add: switch_keys_def Let_def split: if_splits)

lemma switch_keys_trans:
  assumes "switch_keys s = Inr s'" "\<not> recvnewkeys (s_kexstate s)" "sentnewkeys (s_kexstate s)"
    "s_newkeys s = Some nk" "kd_valid (k_trans nk)"
  shows "s' = s\<lparr>s_keys := (s_keys s)\<lparr>k_trans := with_zstream (l_deflateInit2 (s_libs s)) (k_trans nk)\<rparr>, s_newkeys := Some (nk\<lparr>k_trans := zero_key_dir\<rparr>)\<rparr>"
proof -
  obtain t where t: "gen_new_zstream_trans (s_libs s) (k_trans nk) (k_trans (s_keys s)) = Inr t"
      and s': "s' = s\<lparr>s_keys := (s_keys s)\<lparr>k_trans := t\<rparr>, s_newkeys := Some (nk\<lparr>k_trans := zero_key_dir\<rparr>)\<rparr>"
    using assms switch_keys_kexinit [OF assms(1)] by (auto simp: switch_keys_def Let_def rbind_eq_Inr)
  show ?thesis using gen_new_zstream_eq(2) [OF t] s' by simp
qed

lemma switch_keys_recv:
  assumes "switch_keys s = Inr s'" "recvnewkeys (s_kexstate s)" "sentnewkeys (s_kexstate s)"
    "s_newkeys s = Some nk" "kd_valid (k_recv nk)" "\<not> kd_valid (k_trans nk)"
  shows "s' = kexinitialise (s\<lparr>s_keys := (s_keys s)\<lparr>k_recv := with_zstream (l_inflateInit (s_libs s)) (k_recv nk),
     k_algo_kex := k_algo_kex nk, k_algo_hostkey := k_algo_hostkey nk, k_algo_signature := k_algo_signature nk\<rparr>, s_newkeys := None\<rparr>)"
proof -
  obtain r where r: "gen_new_zstream_recv (s_libs s) (k_recv nk) (k_recv (s_keys s)) = Inr r"
      and s': "s' = kexinitialise (s\<lparr>s_keys := (s_keys s)\<lparr>k_recv := r,
     k_algo_kex := k_algo_kex nk, k_algo_hostkey := k_algo_hostkey nk, k_algo_signature := k_algo_signature nk\<rparr>, s_newkeys := None\<rparr>)"
    using assms switch_keys_kexinit [OF assms(1)] by (auto simp: switch_keys_def Let_def rbind_eq_Inr)
  show ?thesis using gen_new_zstream_eq(1) [OF r] s' by simp
qed

text \<open>What starting a cipher or a MAC leaves of the algorithms chosen for a direction.\<close>

definition same_algos :: "key_dir \<Rightarrow> key_dir \<Rightarrow> bool" where
  "same_algos a b \<longleftrightarrow> kd_algo_crypt a = kd_algo_crypt b \<and> kd_crypt_mode a = kd_crypt_mode b \<and> kd_algo_mac a = kd_algo_mac b
     \<and> kd_algo_comp a = kd_algo_comp b"

lemma same_algos_refl [simp]: "same_algos a a"
  by (simp add: same_algos_def)

lemma same_algos_trans: "same_algos a b \<Longrightarrow> same_algos b c \<Longrightarrow> same_algos a c"
  by (simp add: same_algos_def)

text \<open>
  RFC 4253, 7.2: the key for a letter, from the shared secret and the exchange hash \<open>hs\<close>; and the keys of a direction with
  the letters of its initial value, cipher key and MAC key. A direction without a cipher or MAC keeps what is stored.
\<close>

definition rfc_key :: "hash_desc \<Rightarrow> bytes \<Rightarrow> bytes \<Rightarrow> byte \<Rightarrow> nat \<Rightarrow> bytes" where
  "rfc_key desc hs sid X n = take n (key_blocks (hd_hash desc) hs (hd_hash desc (hs @ [X] @ sid)) n)"

definition rfc_dir :: "libs \<Rightarrow> (byte \<Rightarrow> nat \<Rightarrow> bytes) \<Rightarrow> byte \<times> byte \<times> byte \<Rightarrow> key_dir \<Rightarrow> key_dir \<Rightarrow> bool" where
  "rfc_dir lib K letters kd kd' \<longleftrightarrow> (case letters of (iv, key, mac) \<Rightarrow>
     same_algos kd' kd \<and>
     (\<forall>ac name. kd_algo_crypt kd = Some ac \<and> cp_cipherdesc ac = Some name \<longrightarrow>
        (\<exists>cm. kd_crypt_mode kd = Some cm \<and>
           cm_start cm (case name of None \<Rightarrow> -1 | Some nm \<Rightarrow> l_find_cipher lib nm) (K iv 20) (K key 64) (cp_keysize ac) = Some (kd_cipher_state kd'))) \<and>
     (\<forall>am name. kd_algo_mac kd = Some am \<and> ch_hash_desc am = Some name \<longrightarrow>
        take (unat (ch_keysize am)) (kd_mackey kd') = K mac (unat (ch_keysize am)) \<and> kd_hash_index kd' = l_find_hash lib name))"

lemma hashkeys_rfc: "digest_ok desc \<Longrightarrow> hashkeys desc hs sid n X = Inr (rfc_key desc hs sid X n)"
proof -
  assume d: "digest_ok desc"
  then have "1 \<le> unat (hd_hashsize desc)" by (simp add: digest_ok_def word_less_nat_alt Suc_le_eq)
  then have "n \<le> unat (hd_hashsize desc) * Suc n" using mult_le_mono [of 1 "unat (hd_hashsize desc)" n "Suc n"] by simp
  then show ?thesis unfolding rfc_key_def by (rule hashkeys_blocks [OF d])
qed

lemma length_rfc_key: "digest_ok desc \<Longrightarrow> length (rfc_key desc hs sid X n) = n"
proof -
  assume d: "digest_ok desc"
  then have l: "length (key_blocks (hd_hash desc) hs (hd_hash desc (hs @ [X] @ sid)) n) = unat (hd_hashsize desc) * Suc n"
    by (intro length_key_blocks) (simp_all add: digest_ok_def)
  have "1 \<le> unat (hd_hashsize desc)" using d by (simp add: digest_ok_def word_less_nat_alt Suc_le_eq)
  then have "n \<le> unat (hd_hashsize desc) * Suc n" using mult_le_mono [of 1 "unat (hd_hashsize desc)" n "Suc n"] by simp
  then show ?thesis unfolding rfc_key_def using l by simp
qed

lemma start_cipher_eq:
  assumes "start_cipher lib kd IV key = Inr kd'"
  shows "same_algos kd' kd" "kd_mackey kd' = kd_mackey kd" "kd_hash_index kd' = kd_hash_index kd"
    "\<And>ac name. kd_algo_crypt kd = Some ac \<Longrightarrow> cp_cipherdesc ac = Some name \<Longrightarrow>
       \<exists>cm. kd_crypt_mode kd = Some cm \<and> cm_start cm (case name of None \<Rightarrow> -1 | Some nm \<Rightarrow> l_find_cipher lib nm) IV key (cp_keysize ac) = Some (kd_cipher_state kd')"
proof -
  obtain a where a: "kd_algo_crypt kd = Some a" using assms by (auto simp: start_cipher_def res_elims deref_eq_Inr)
  have "(\<exists>st. kd' = kd\<lparr>kd_cipher_state := st\<rparr>) \<and> (\<forall>name. cp_cipherdesc a = Some name \<longrightarrow>
       (\<exists>cm. kd_crypt_mode kd = Some cm \<and> cm_start cm (case name of None \<Rightarrow> -1 | Some nm \<Rightarrow> l_find_cipher lib nm) IV key (cp_keysize a) = Some (kd_cipher_state kd')))"
  proof (cases "cp_cipherdesc a")
    case None
    then show ?thesis using assms a by (simp add: start_cipher_def deref_def) (intro exI [of _ "kd_cipher_state kd"], simp)
  next
    case (Some name)
    then show ?thesis using assms a by (auto simp: start_cipher_def deref_def Let_def split: option.splits if_splits)
  qed
  then show "same_algos kd' kd" "kd_mackey kd' = kd_mackey kd" "kd_hash_index kd' = kd_hash_index kd"
    "\<And>ac name. kd_algo_crypt kd = Some ac \<Longrightarrow> cp_cipherdesc ac = Some name \<Longrightarrow>
       \<exists>cm. kd_crypt_mode kd = Some cm \<and> cm_start cm (case name of None \<Rightarrow> -1 | Some nm \<Rightarrow> l_find_cipher lib nm) IV key (cp_keysize ac) = Some (kd_cipher_state kd')"
    using a by (auto simp: same_algos_def)
qed

lemma start_mac_eq:
  assumes "start_mac lib kd d = Inr kd'" "\<And>n. d n = Inr (k n)" "\<And>n. length (k n) = n"
  shows "same_algos kd' kd" "kd_cipher_state kd' = kd_cipher_state kd"
    "\<And>am name. kd_algo_mac kd = Some am \<Longrightarrow> ch_hash_desc am = Some name \<Longrightarrow>
       take (unat (ch_keysize am)) (kd_mackey kd') = k (unat (ch_keysize am)) \<and> kd_hash_index kd' = l_find_hash lib name"
  using assms by (auto simp: start_mac_def same_algos_def res_elims deref_eq_Inr split: option.splits)

lemma start_dir:
  assumes "start_cipher lib kd (K iv 20) (K key 64) = Inr c" "start_mac lib c d = Inr kd'"
    and "\<And>n. d n = Inr (K mac n)" "\<And>X n. length (K X n) = n"
  shows "rfc_dir lib K (iv, key, mac) kd (kd'\<lparr>kd_valid := True\<rparr>)"
proof -
  note c = start_cipher_eq [OF assms(1)]
  note m = start_mac_eq [OF assms(2), of "K mac", OF assms(3,4)]
  have "same_algos kd' kd" by (rule same_algos_trans [OF m(1) c(1)])
  then have "same_algos (kd'\<lparr>kd_valid := True\<rparr>) kd" by (simp add: same_algos_def)
  moreover have "kd_algo_mac c = kd_algo_mac kd" using c(1) by (simp add: same_algos_def)
  ultimately show ?thesis unfolding rfc_dir_def using c(4) m(2,3) by simp
qed

text \<open>
  What \<^verbatim>\<open>gen_new_keys\<close> does when the exchange is over: with the letters of the server, keys are derived for both directions and
  made valid, and the secrets they came from are dropped.
\<close>

definition keys_derived :: "(byte \<Rightarrow> nat \<Rightarrow> bytes) \<Rightarrow> key_context \<Rightarrow> sshsession \<Rightarrow> sshsession \<Rightarrow> bool" where
  "keys_derived K nk s s' \<longleftrightarrow> (\<exists>nk'. s' = s\<lparr>s_dh_K := None, s_dh_K_bytes := None, s_hash := None, s_newkeys := Some nk'\<rparr> \<and>
     kd_valid (k_recv nk') \<and> kd_valid (k_trans nk') \<and>
     rfc_dir (s_libs s) K (65, 67, 69) (k_recv nk) (k_recv nk') \<and> rfc_dir (s_libs s) K (66, 68, 70) (k_trans nk) (k_trans nk'))"

lemma gen_new_keys_derived:
  assumes "gen_new_keys s = Inr s'" "s_newkeys s = Some nk" "k_algo_kex nk = Some kx" "kex_prefix s = Inr hs" "s_session_id s = Some sid"
    and d: "digest_ok (kx_hash_desc kx)"
  shows "keys_derived (rfc_key (kx_hash_desc kx) hs (buf_contents sid)) nk s s'"
proof -
  let ?K = "rfc_key (kx_hash_desc kx) hs (buf_contents sid)"
  obtain r0 t0 t r where g: "start_cipher (s_libs s) (k_recv nk) (?K 65 20) (?K 67 64) = Inr r0" "start_cipher (s_libs s) (k_trans nk) (?K 66 20) (?K 68 64) = Inr t0"
      "start_mac (s_libs s) t0 (\<lambda>n. hashkeys (kx_hash_desc kx) hs (buf_contents sid) n 70) = Inr t"
      "start_mac (s_libs s) r0 (\<lambda>n. hashkeys (kx_hash_desc kx) hs (buf_contents sid) n 69) = Inr r"
    and s': "s' = s\<lparr>s_dh_K := None, s_dh_K_bytes := None, s_hash := None,
        s_newkeys := Some (nk\<lparr>k_trans := t\<lparr>kd_valid := True\<rparr>, k_recv := r\<lparr>kd_valid := True\<rparr>\<rparr>)\<rparr>"
    using assms by (auto simp: gen_new_keys_def res_elims deref_eq_Inr Let_def hashkeys_rfc [OF d])
  note K = hashkeys_rfc [OF d] length_rfc_key [OF d]
  have "rfc_dir (s_libs s) ?K (65, 67, 69) (k_recv nk) (r\<lparr>kd_valid := True\<rparr>)" by (rule start_dir [OF g(1,4) K])
  moreover have "rfc_dir (s_libs s) ?K (66, 68, 70) (k_trans nk) (t\<lparr>kd_valid := True\<rparr>)" by (rule start_dir [OF g(2,3) K])
  ultimately show ?thesis unfolding keys_derived_def s'
    by (intro exI [of _ "nk\<lparr>k_trans := t\<lparr>kd_valid := True\<rparr>, k_recv := r\<lparr>kd_valid := True\<rparr>\<rparr>"]) simp
qed

text \<open>Its frame, whatever the digest is.\<close>

lemma gen_new_keys_frame:
  "res_post (\<lambda>s'. \<exists>nk'. s' = s\<lparr>s_dh_K := None, s_dh_K_bytes := None, s_hash := None, s_newkeys := Some nk'\<rparr>) (gen_new_keys s)"
  unfolding gen_new_keys_def by (intro res_post_rbind res_post_let) auto

lemma rfc_dir_zstream: "rfc_dir lib K l kd (with_zstream z kd') = rfc_dir lib K l kd kd'"
  by (simp add: rfc_dir_def with_zstream_def same_algos_def split: prod.split)

text \<open>
  The start of every hash in the RFC: the shared secret as an \<^verbatim>\<open>mpint\<close>, or as the string that the post-quantum exchanges
  keep, and the exchange hash.
\<close>

definition rfc_secret :: "sshsession \<Rightarrow> bytes" where
  "rfc_secret s = (case s_dh_K s of None \<Rightarrow> [] | Some K \<Rightarrow> store32h (of_nat (length (enc_mpint (nat K)))) @ enc_mpint (nat K)) @
     (case s_dh_K_bytes s of None \<Rightarrow> [] | Some b \<Rightarrow> buf_contents b) @ (case s_hash s of None \<Rightarrow> [] | Some h \<Rightarrow> buf_contents h)"

definition secret_fits :: "sshsession \<Rightarrow> bool" where
  "secret_fits s \<longleftrightarrow> (case s_dh_K s of None \<Rightarrow> True | Some K \<Rightarrow> 0 \<le> K \<and> length (enc_mpint (nat K)) \<le> 528)"

lemma put_secret:
  assumes "0 \<le> K" "length (enc_mpint (nat K)) \<le> 528"
  shows "rbind (buf_new 532) (\<lambda>b. rbind (buf_putmpint b K) (\<lambda>b. Inr (buf_contents b))) =
    Inr (store32h (of_nat (length (enc_mpint (nat K)))) @ enc_mpint (nat K))"
proof -
  obtain b where b: "buf_new 532 = Inr b" "buf_end b 532" "buf_contents b = []"
    by (simp add: buf_new_eq buf_end_def buf_wf_nat buf_contents_def)
  have "count_bits (nat K) < 8240"
  proof (cases "nat K = 0")
    case False
    then have "count_bits (nat K) div 8 + 1 \<le> 528" using assms(2) length_enc_mpint [of "nat K"] by simp
    then show ?thesis by simp
  qed (simp add: count_bits.simps)
  moreover have e: "buf_end b (4 + length (enc_mpint (nat K)))" using b(2) assms(2) by (auto intro: buf_end_mono)
  ultimately have "buf_putmpint b K = Inr (b_append b (store32h (of_nat (length (enc_mpint (nat K)))) @ enc_mpint (nat K)))"
    using buf_putmpint_append [OF e] assms(1) by simp
  then show ?thesis using b e by (simp add: buf_contents_append)
qed

lemma kex_prefix_secret: "kex_prefix s = Inr hs \<Longrightarrow> secret_fits s \<Longrightarrow> hs = rfc_secret s"
  by (auto simp: kex_prefix_def rfc_secret_def secret_fits_def put_secret res_elims deref_eq_Inr split: option.splits)

lemma gen_new_keys_needs: "gen_new_keys s = Inr s' \<Longrightarrow> \<exists>hs sid. kex_prefix s = Inr hs \<and> s_session_id s = Some sid"
  by (auto simp: gen_new_keys_def res_elims deref_eq_Inr Let_def)

text \<open>
  Property C27. Sending NEWKEYS during an exchange in which the peer's NEWKEYS is still to come
  switches the outgoing direction only: the outgoing cipher is started with the initial value and the key of
  RFC 4253 for the letters B and D and the outgoing MAC key is that of F, derived from the shared secret, the exchange hash and the
  session identifier; the incoming keys in use are untouched, and the incoming keys derived with A, C and E
  stay pending; the secrets are dropped, other packets may be sent again, and under strict key exchange the
  outgoing sequence number restarts at zero.
\<close>

theorem send_newkeys_switches:
  assumes "send_msg_newkeys s = Inr s'" and nk: "s_newkeys s = Some nk" and r: "\<not> recvnewkeys (s_kexstate s)"
    and kx: "k_algo_kex nk = Some kx" "digest_ok (kx_hash_desc kx)" and fits: "secret_fits s" and sid: "s_session_id s = Some sid"
  defines "K \<equiv> rfc_key (kx_hash_desc kx) (rfc_secret s) (buf_contents sid)"
  shows "rfc_dir (s_libs s) K (66, 68, 70) (k_trans nk) (k_trans (s_keys s')) \<and> kd_valid (k_trans (s_keys s')) \<and>
     k_recv (s_keys s') = k_recv (s_keys s) \<and>
     (\<exists>nk'. s_newkeys s' = Some nk' \<and> kd_valid (k_recv nk') \<and> rfc_dir (s_libs s) K (65, 67, 69) (k_recv nk) (k_recv nk') \<and> \<not> kd_valid (k_trans nk')) \<and>
     s_dataallowed s' \<and> sentnewkeys (s_kexstate s') \<and> s_hash s' = None \<and> s_dh_K s' = None \<and> s_dh_K_bytes s' = None \<and>
     (strict_kex (s_kexstate s) \<longrightarrow> s_transseq s' = 0)"
proof -
  obtain s1 s2 s3 where 1: "send_fields [FByte 21] s = Inr s1"
    and 2: "gen_new_keys (s1\<lparr>s_kexstate := (s_kexstate s1)\<lparr>sentnewkeys := True, donesecondkex := donefirstkex (s_kexstate s1) \<or> donesecondkex (s_kexstate s1),
        donefirstkex := True\<rparr>, s_dataallowed := True\<rparr>) = Inr s2" (is "gen_new_keys ?s1 = _")
    and 3: "switch_keys s2 = Inr s3" and s': "s' = (if strict_kex (s_kexstate s3) then s3\<lparr>s_transseq := 0\<rparr> else s3)"
    using assms(1) by (auto simp: send_msg_newkeys_def rbind_eq_Inr Let_def)
  note sent = sends_same [OF send_fields_sends [OF 1]]
  have same: "s_newkeys ?s1 = Some nk" "k_recv (s_keys s1) = k_recv (s_keys s)" "\<not> recvnewkeys (s_kexstate s1)"
      "strict_kex (s_kexstate s1) = strict_kex (s_kexstate s)" "s_session_id ?s1 = Some sid" "s_libs ?s1 = s_libs s"
    using sent nk r sid by simp_all
  obtain hs where hs: "kex_prefix ?s1 = Inr hs" using gen_new_keys_needs [OF 2] by blast
  have "rfc_secret ?s1 = rfc_secret s" "secret_fits ?s1" using sent fits by (simp_all add: rfc_secret_def secret_fits_def)
  then have "kex_prefix ?s1 = Inr (rfc_secret s)" using kex_prefix_secret [OF hs] hs by simp
  then have "keys_derived K nk ?s1 s2" unfolding K_def by (rule gen_new_keys_derived [OF 2 same(1) kx(1) _ same(5) kx(2)])
  then obtain nk' where s2: "s2 = ?s1\<lparr>s_dh_K := None, s_dh_K_bytes := None, s_hash := None, s_newkeys := Some nk'\<rparr>"
    and nk': "kd_valid (k_recv nk')" "kd_valid (k_trans nk')" "rfc_dir (s_libs s) K (65, 67, 69) (k_recv nk) (k_recv nk')"
      "rfc_dir (s_libs s) K (66, 68, 70) (k_trans nk) (k_trans nk')"
    unfolding keys_derived_def same(6) by blast
  have s3: "s3 = s2\<lparr>s_keys := (s_keys s2)\<lparr>k_trans := with_zstream (l_deflateInit2 (s_libs s2)) (k_trans nk')\<rparr>, s_newkeys := Some (nk'\<lparr>k_trans := zero_key_dir\<rparr>)\<rparr>"
    by (rule switch_keys_trans [OF 3]) (use same(3) nk' in \<open>simp_all add: s2\<close>)
  have "rfc_dir (s_libs s) K (66, 68, 70) (k_trans nk) (k_trans (s_keys s'))"
    using nk'(4) by (simp add: s' s3 rfc_dir_zstream)
  then show ?thesis
    using nk' same by (auto simp: s' s3 s2 with_zstream_def zero_key_dir_def)
qed

definition example_kex_keys :: key_context where
  "example_kex_keys = (let d = zero_key_dir\<lparr>kd_algo_crypt := Some dropbear_nocipher, kd_crypt_mode := Some dropbear_mode_none,
       kd_algo_mac := Some dropbear_nohash\<rparr> in
     \<lparr>k_recv = d, k_trans = d, k_algo_kex = Some \<lparr>kx_mode = KEX_CURVE25519, kx_dh_p_bytes = [], kx_curve = None, kx_kem = None,
       kx_hash_desc = example_digest\<rparr>, k_algo_hostkey = 5, k_algo_signature = 5\<rparr>)"

definition example_kex :: sshsession where
  "example_kex = small_session\<lparr>s_writepayload := mk_buf [] [0, 0, 0, 0] 0, s_newkeys := Some example_kex_keys, s_hash := Some (payload_of [1, 2, 3, 4]),
     s_session_id := Some (payload_of [1, 2, 3, 4]), s_dh_K := Some 77,
     s_kexstate := zero_KEXState\<lparr>sentkexinit := True, recvkexinit := True, strict_kex := True\<rparr>\<rparr>"

text \<open>The same with a cipher whose state is its initial value and key, and a MAC with a key of four bytes.\<close>

definition example_cipher_dir :: key_dir where
  "example_cipher_dir = zero_key_dir\<lparr>kd_algo_crypt := Some \<lparr>cp_cipherdesc = Some None, cp_keysize = 4, cp_blocksize = 8\<rparr>,
     kd_crypt_mode := Some (dropbear_mode_none\<lparr>cm_start := \<lambda>cipher IV key n. Some (take 4 IV @ take (unat n) key)\<rparr>),
     kd_algo_mac := Some \<lparr>ch_hash_desc = Some [1], ch_keysize = 4, ch_hashsize = 4\<rparr>\<rparr>"

definition example_cipher_kex :: sshsession where
  "example_cipher_kex = example_kex\<lparr>s_newkeys := Some (example_kex_keys\<lparr>k_recv := example_cipher_dir, k_trans := example_cipher_dir\<rparr>)\<rparr>"

lemma example_cipher_secret: "rfc_secret example_cipher_kex = [0, 0, 0, 1, 77, 1, 2, 3, 4]" "secret_fits example_cipher_kex"
  by code_simp+

theorem send_newkeys_switches_witness:
  "let K = rfc_key example_digest [0, 0, 0, 1, 77, 1, 2, 3, 4] [1, 2, 3, 4] in
   \<exists>s'. send_msg_newkeys example_cipher_kex = Inr s' \<and> s_transseq s' = 0 \<and>
     kd_cipher_state (k_trans (s_keys s')) = take 4 (K 66 20) @ take 4 (K 68 64) \<and> take 4 (kd_mackey (k_trans (s_keys s'))) = K 70 4 \<and>
     k_recv (s_keys s') = k_recv (s_keys example_cipher_kex)"
proof -
  have "returns (send_msg_newkeys example_cipher_kex)" by code_simp
  then obtain s' where s': "send_msg_newkeys example_cipher_kex = Inr s'" unfolding returns_ex ..
  let ?nk = "example_kex_keys\<lparr>k_recv := example_cipher_dir, k_trans := example_cipher_dir\<rparr>"
  let ?K = "rfc_key example_digest [0, 0, 0, 1, 77, 1, 2, 3, 4] [1, 2, 3, 4]"
  obtain kx where kx: "k_algo_kex ?nk = Some kx" "kx_hash_desc kx = example_digest" by (simp add: example_kex_keys_def Let_def)
  have d: "digest_ok (kx_hash_desc kx)" by (simp add: kx(2) digest_ok_def example_digest_def)
  have sid: "s_session_id example_cipher_kex = Some (payload_of [1, 2, 3, 4])" "buf_contents (payload_of [1, 2, 3, 4]) = [1, 2, 3, 4]"
    by (simp_all add: example_cipher_kex_def example_kex_def payload_of_def buf_contents_def)
  have "rfc_dir (s_libs example_cipher_kex) ?K (66, 68, 70) (k_trans ?nk) (k_trans (s_keys s')) \<and> s_transseq s' = 0 \<and>
      k_recv (s_keys s') = k_recv (s_keys example_cipher_kex)"
    using send_newkeys_switches [OF s' _ _ kx(1) d example_cipher_secret(2) sid(1)] kx(2) sid(2) example_cipher_secret(1)
    by (simp add: example_cipher_kex_def example_kex_def zero_KEXState_def)
  then show ?thesis using s' by (simp add: rfc_dir_def example_cipher_dir_def)
qed

text \<open>
  Property C28. Receiving NEWKEYS after ours was sent completes the exchange: the incoming keys
  become exactly the pending derived ones, cipher state and MAC key included, with a fresh stream if compression was negotiated;
  the outgoing keys stay as they are, the algorithms of the exchange are taken over, nothing is pending any
  more, the exchange flags are reset for the next one, and under strict key exchange the
  incoming sequence number restarts at zero.
\<close>

theorem recv_newkeys_switches:
  assumes "recv_msg_newkeys s = Inr s'" and nk: "s_newkeys s = Some nk" and v: "kd_valid (k_recv nk)" "\<not> kd_valid (k_trans nk)"
    and sn: "sentnewkeys (s_kexstate s)"
  shows "k_recv (s_keys s') = with_zstream (l_inflateInit (s_libs s)) (k_recv nk) \<and> kd_valid (k_recv (s_keys s')) \<and>
     k_trans (s_keys s') = k_trans (s_keys s) \<and> s_newkeys s' = None \<and>
     k_algo_kex (s_keys s') = k_algo_kex nk \<and> k_algo_hostkey (s_keys s') = k_algo_hostkey nk \<and> k_algo_signature (s_keys s') = k_algo_signature nk \<and>
     \<not> sentkexinit (s_kexstate s') \<and> \<not> recvkexinit (s_kexstate s') \<and> \<not> sentnewkeys (s_kexstate s') \<and> \<not> recvnewkeys (s_kexstate s') \<and>
     recvfirstnewkeys (s_kexstate s') \<and> (strict_kex (s_kexstate s) \<longrightarrow> s_recvseq s' = 0)"
proof -
  obtain s1 where 1: "switch_keys (s\<lparr>s_kexstate := (s_kexstate s)\<lparr>recvnewkeys := True\<rparr>\<rparr>) = Inr s1"
    and s': "s' = (let s = (if strict_kex (s_kexstate s1) then s1\<lparr>s_recvseq := 0\<rparr> else s1)
       in s\<lparr>s_kexstate := (s_kexstate s)\<lparr>recvfirstnewkeys := True\<rparr>\<rparr>)"
    using assms(1) by (auto simp: recv_msg_newkeys_def rbind_eq_Inr Let_def)
  show ?thesis
    using switch_keys_recv [OF 1, of nk] nk v sn by (auto simp: s' Let_def with_zstream_def)
qed

theorem recv_newkeys_switches_witness:
  "\<exists>s s'. send_msg_newkeys example_kex = Inr s \<and> recv_msg_newkeys s = Inr s' \<and> s_recvseq s' = 0 \<and>
     kd_valid (k_recv (s_keys s')) \<and> s_newkeys s' = None"
proof -
  let ?m = "rbind (send_msg_newkeys example_kex) (\<lambda>s. rbind (recv_msg_newkeys s) (\<lambda>s'.
     if strict_kex (s_kexstate s) \<and> sentnewkeys (s_kexstate s) then
       (case s_newkeys s of None \<Rightarrow> Inl Fault
        | Some nk \<Rightarrow> if kd_valid (k_recv nk) \<and> \<not> kd_valid (k_trans nk) then Inr () else Inl Fault) else Inl Fault))"
  have "returns ?m" by code_simp
  then obtain s s' nk where s: "send_msg_newkeys example_kex = Inr s" and s': "recv_msg_newkeys s = Inr s'"
      and k: "strict_kex (s_kexstate s)" "sentnewkeys (s_kexstate s)" "s_newkeys s = Some nk" "kd_valid (k_recv nk)" "\<not> kd_valid (k_trans nk)"
    by (auto simp: returns_ex rbind_eq_Inr split: if_splits option.splits)
  show ?thesis using s s' recv_newkeys_switches [OF s' k(3-5,2)] k by blast
qed

end
