(* ===== verification/Svr_Kex.thy ===== *)
theory Svr_Kex
  imports Kex_Props
begin

text \<open>
  The server's part of the key exchange (\<^verbatim>\<open>svr-kex.c\<close>) with the four ways to agree on a secret
  (\<^verbatim>\<open>kex-dh.c\<close>, \<^verbatim>\<open>kex-x25519.c\<close>, \<^verbatim>\<open>kex-ecdh.c\<close>, \<^verbatim>\<open>kex-pqhybrid.c\<close>) and the random integers of
  \<^verbatim>\<open>dbrandom.c\<close>. Writing the host key and the signature and the scalar multiplication of
  curve25519 are arguments (\<open>kex_crypto\<close>); multi-precision integers are integers. Loading a
  missing host key from its file (\<^verbatim>\<open>svr_ensure_hostkey\<close>) comes before and is part of writing it.
\<close>

section \<open>Model\<close>

record kex_crypto =
  kc_put_pub_key :: "int \<Rightarrow> buffer \<Rightarrow> buffer res"
  kc_put_sign :: "int \<Rightarrow> bytes \<Rightarrow> buffer \<Rightarrow> buffer res"
  kc_scalarmult :: "bytes \<Rightarrow> bytes \<Rightarrow> bytes"

abbreviation (input) "CURVE25519_LEN \<equiv> 32 :: nat"

definition on_kexhashbuf :: "(buffer \<Rightarrow> buffer res) \<Rightarrow> sshsession \<Rightarrow> sshsession res" where
  "on_kexhashbuf f s = rbind (deref (s_kexhashbuf s)) (\<lambda>b. rbind (f b) (\<lambda>b. Inr (s\<lparr>s_kexhashbuf := Some b\<rparr>)))"

definition on_writepayload :: "(buffer \<Rightarrow> buffer res) \<Rightarrow> sshsession \<Rightarrow> sshsession res" where
  "on_writepayload f s = rbind (f (s_writepayload s)) (\<lambda>b. Inr (s\<lparr>s_writepayload := b\<rparr>))"

definition newkeys_of :: "sshsession \<Rightarrow> (key_context \<times> kex_alg) res" where
  "newkeys_of s = rbind (deref (s_newkeys s)) (\<lambda>nk. rbind (deref (k_algo_kex nk)) (\<lambda>kx. Inr (nk, kx)))"

text \<open>
  \<^verbatim>\<open>gen_random_mpint\<close>: an integer between 0 and \<open>mx\<close>, drawn until it fits. Each round masks the
  first byte to the number of bits; the rounds are bounded by fuel.
\<close>

definition mask_bits :: "nat \<Rightarrow> byte" where
  "mask_bits r = [255, 1, 3, 7, 15, 31, 63, 127] ! r"

fun gen_random_mpint :: "nat \<Rightarrow> int \<Rightarrow> sshsession \<Rightarrow> (int \<times> sshsession) res" where
  "gen_random_mpint 0 mx s = Inl Diverge"
| "gen_random_mpint (Suc fuel) mx s =
     (let size_bits = count_bits (nat mx); len = (size_bits + 7) div 8;
          (randbuf, s) = genrandom s len in
      case randbuf of
        [] \<Rightarrow> Inl Fault
      | b # bs \<Rightarrow>
          let rand = int (from_ubin ((b AND mask_bits (size_bits mod 8)) # bs)) in
          if rand < mx \<and> rand > 0 then Inr (rand, s) else gen_random_mpint fuel mx s)"

text \<open>Diffie-Hellman; the generator is 2. Libtommath errors cannot arise on these integers.\<close>

definition gen_kexdh_param :: "nat \<Rightarrow> sshsession \<Rightarrow> ((int \<times> int) \<times> sshsession) res" where
  "gen_kexdh_param fuel s =
     rbind (newkeys_of s) (\<lambda>(nk, kx).
     let dh_p = int (from_ubin (kx_dh_p_bytes kx)); dh_q = (dh_p - 1) div 2 in
     rbind (gen_random_mpint fuel dh_q s) (\<lambda>(priv, s).
     Inr ((priv, 2 ^ nat priv mod dh_p), s)))"

definition kexdh_comb_key :: "kex_crypto \<Rightarrow> int \<times> int \<Rightarrow> int \<Rightarrow> sshsession \<Rightarrow> sshsession res" where
  "kexdh_comb_key kc param dh_pub_them s =
     rbind (newkeys_of s) (\<lambda>(nk, kx).
     let dh_p = int (from_ubin (kx_dh_p_bytes kx)) in
     if \<not> (dh_pub_them < dh_p - 1) \<or> \<not> (dh_pub_them > 1) then Inl (Dropbear_exit ''Diffie-Hellman error'') else
     let K = dh_pub_them ^ nat (fst param) mod dh_p; s = s\<lparr>s_dh_K := Some K\<rparr> in
     rbind (on_kexhashbuf (kc_put_pub_key kc (k_algo_hostkey nk)) s) (\<lambda>s.
     rbind (on_kexhashbuf (\<lambda>b. buf_putmpint b dh_pub_them) s) (\<lambda>s.
     rbind (on_kexhashbuf (\<lambda>b. buf_putmpint b (snd param)) s) (\<lambda>s.
     rbind (on_kexhashbuf (\<lambda>b. buf_putmpint b K) s) (\<lambda>s.
     finish_kexhashbuf s)))))"

definition gen_kexcurve25519_param :: "kex_crypto \<Rightarrow> sshsession \<Rightarrow> (bytes \<times> bytes) \<times> sshsession" where
  "gen_kexcurve25519_param kc s =
     (let (priv, s) = genrandom s CURVE25519_LEN
      in ((priv, kc_scalarmult kc priv (9 # replicate 31 0)), s))"

definition kexcurve25519_derive :: "kex_crypto \<Rightarrow> bytes \<times> bytes \<Rightarrow> buffer \<Rightarrow> bytes res" where
  "kexcurve25519_derive kc param buf_pub_them =
     (if b_len buf_pub_them \<noteq> 32 then Inl (Dropbear_exit ''Bad curve25519'') else
      rbind (mem_read (b_data buf_pub_them) 0 CURVE25519_LEN) (\<lambda>them.
      let out = kc_scalarmult kc (fst param) them in
      rbind (constant_time_memcmp (replicate CURVE25519_LEN 0) out CURVE25519_LEN) (\<lambda>c.
      if c = 0 then Inl (Dropbear_exit ''Bad curve25519'') else Inr out)))"

definition kexcurve25519_comb_key :: "kex_crypto \<Rightarrow> bytes \<times> bytes \<Rightarrow> buffer \<Rightarrow> sshsession \<Rightarrow> sshsession res" where
  "kexcurve25519_comb_key kc param buf_pub_them s =
     rbind (kexcurve25519_derive kc param buf_pub_them) (\<lambda>out.
     let K = int (from_ubin (take CURVE25519_LEN out)); s = s\<lparr>s_dh_K := Some K\<rparr> in
     rbind (newkeys_of s) (\<lambda>(nk, kx).
     rbind (on_kexhashbuf (kc_put_pub_key kc (k_algo_hostkey nk)) s) (\<lambda>s.
     rbind (on_kexhashbuf (\<lambda>b. buf_putstring b (b_data buf_pub_them) 32) s) (\<lambda>s.
     rbind (on_kexhashbuf (\<lambda>b. buf_putstring b (snd param) 32) s) (\<lambda>s.
     rbind (on_kexhashbuf (\<lambda>b. buf_putmpint b K) s) (\<lambda>s.
     finish_kexhashbuf s))))))"

definition put_bytes_string :: "bytes \<Rightarrow> buffer \<Rightarrow> buffer res" where
  "put_bytes_string bs b = buf_putstring b bs (of_nat (length bs))"

definition gen_kexecdh_param :: "sshsession \<Rightarrow> ((bytes \<times> bytes) \<times> sshsession) res" where
  "gen_kexecdh_param s =
     rbind (newkeys_of s) (\<lambda>(nk, kx).
     rbind (deref (kx_curve kx)) (\<lambda>curve.
     let (made, s) = draw_random (ecc_make_key curve) s in
     case made of
       None \<Rightarrow> Inl (Dropbear_exit ''ECC error'')
     | Some key \<Rightarrow> Inr (key, s)))"

definition kexecdh_comb_key :: "kex_crypto \<Rightarrow> bytes \<times> bytes \<Rightarrow> buffer \<Rightarrow> sshsession \<Rightarrow> sshsession res" where
  "kexecdh_comb_key kc key pub_them s =
     rbind (newkeys_of s) (\<lambda>(nk, kx).
     rbind (deref (kx_curve kx)) (\<lambda>curve.
     case ecc_raw_pubkey curve (buf_contents pub_them) of
       None \<Rightarrow> Inl (Dropbear_exit ''ECC error'')
     | Some Q_them \<Rightarrow>
         let K = ecc_shared_secret curve Q_them (snd key); s = s\<lparr>s_dh_K := Some K\<rparr> in
         rbind (on_kexhashbuf (kc_put_pub_key kc (k_algo_hostkey nk)) s) (\<lambda>s.
         rbind (on_kexhashbuf (put_bytes_string Q_them) s) (\<lambda>s.
         rbind (on_kexhashbuf (put_bytes_string (fst key)) s) (\<lambda>s.
         rbind (on_kexhashbuf (\<lambda>b. buf_putmpint b K) s) (\<lambda>s.
         finish_kexhashbuf s))))))"

text \<open>
  The hybrid of a KEM and curve25519. The first part of the client's value is its KEM public
  key; \<open>kem_enc\<close> fills the cipher text and the first part of the secret.
\<close>

definition kexpqhybrid_comb_key :: "kex_crypto \<Rightarrow> bytes \<times> bytes \<Rightarrow> buffer \<Rightarrow> sshsession \<Rightarrow> (buffer \<times> sshsession) res" where
  "kexpqhybrid_comb_key kc param buf_pub s =
     rbind (newkeys_of s) (\<lambda>(nk, kx).
     rbind (deref (kx_kem kx)) (\<lambda>kem.
     let desc = kx_hash_desc kx in
     rbind (buf_peek buf_pub (kem_public_len kem)) (\<lambda>remote_pub_kem.
     rbind (buf_incrpos buf_pub (kem_public_len kem)) (\<lambda>buf_pub.
     rbind (buf_getptrcopy buf_pub 32) (\<lambda>pub_25519.
     rbind (buf_incrpos buf_pub 32) (\<lambda>buf_pub.
     if b_pos buf_pub \<noteq> b_len buf_pub then Inl (Dropbear_exit ''Bad sntrup'') else
     let ((ct, k_pq), s) = draw_random (kem_enc kem remote_pub_kem) s in
     rbind (buf_new (kem_output_len kem + 32)) (\<lambda>k_out.
     rbind (buf_new (kem_ciphertext_len kem + 32)) (\<lambda>concat_public.
     rbind (buf_putbytes concat_public ct (kem_ciphertext_len kem)) (\<lambda>concat_public.
     rbind (buf_putbytes concat_public (snd param) 32) (\<lambda>concat_public.
     rbind (buf_putbytes k_out k_pq (kem_output_len kem)) (\<lambda>k_out.
     rbind (kexcurve25519_derive kc param pub_25519) (\<lambda>k_cl.
     rbind (buf_putbytes k_out k_cl 32) (\<lambda>k_out.
     rbind (buf_new (4 + hd_hashsize desc)) (\<lambda>dh_K_bytes.
     rbind (buf_putint dh_K_bytes (hd_hashsize desc)) (\<lambda>dh_K_bytes.
     rbind (buf_putbytes dh_K_bytes (hd_hash desc (buf_contents k_out)) (hd_hashsize desc)) (\<lambda>dh_K_bytes.
     let s = s\<lparr>s_dh_K_bytes := Some dh_K_bytes\<rparr> in
     rbind (on_kexhashbuf (kc_put_pub_key kc (k_algo_hostkey nk)) s) (\<lambda>s.
     rbind (on_kexhashbuf (\<lambda>b. buf_putbufstring b buf_pub) s) (\<lambda>s.
     rbind (on_kexhashbuf (\<lambda>b. buf_putbufstring b concat_public) s) (\<lambda>s.
     rbind (on_kexhashbuf (\<lambda>b. buf_putbytes b (b_data dh_K_bytes) (b_len dh_K_bytes)) s) (\<lambda>s.
     rbind (finish_kexhashbuf s) (\<lambda>s. Inr (concat_public, s))))))))))))))))))))))"

abbreviation (input) "SSH_MSG_KEXDH_REPLY \<equiv> 31 :: byte"
abbreviation (input) "SSH_MSG_EXT_INFO \<equiv> 7 :: byte"

text \<open>
  \<^verbatim>\<open>send_msg_kexdh_reply\<close>; \<open>dh_e\<close> is the client's integer or \<open>q_c\<close> its string, by the mode. The switch
  over the modes is \<open>kexdh_secret\<close>.
\<close>

definition kexdh_secret :: "kex_crypto \<Rightarrow> nat \<Rightarrow> kex_mode \<Rightarrow> int \<Rightarrow> buffer option \<Rightarrow> sshsession \<Rightarrow> sshsession res" where
  "kexdh_secret kc fuel mode dh_e q_c s =
     (case mode of
        KEX_NORMAL_DH \<Rightarrow>
          rbind (gen_kexdh_param fuel s) (\<lambda>(param, s).
          rbind (kexdh_comb_key kc param dh_e s) (\<lambda>s.
          on_writepayload (\<lambda>b. buf_putmpint b (snd param)) s))
      | KEX_ECDH \<Rightarrow>
          rbind (gen_kexecdh_param s) (\<lambda>(key, s).
          rbind (deref q_c) (\<lambda>q.
          rbind (kexecdh_comb_key kc key q s) (\<lambda>s.
          on_writepayload (put_bytes_string (fst key)) s)))
      | KEX_CURVE25519 \<Rightarrow>
          let (param, s) = gen_kexcurve25519_param kc s in
          rbind (deref q_c) (\<lambda>q.
          rbind (kexcurve25519_comb_key kc param q s) (\<lambda>s.
          on_writepayload (\<lambda>b. buf_putstring b (snd param) 32) s))
      | KEX_PQHYBRID \<Rightarrow>
          let (param, s) = gen_kexcurve25519_param kc s in
          rbind (deref q_c) (\<lambda>q.
          rbind (kexpqhybrid_comb_key kc param q s) (\<lambda>(concat_public, s).
          on_writepayload (\<lambda>b. buf_putbufstring b concat_public) s)))"

definition send_msg_kexdh_reply :: "kex_crypto \<Rightarrow> nat \<Rightarrow> int \<Rightarrow> buffer option \<Rightarrow> sshsession \<Rightarrow> sshsession res" where
  "send_msg_kexdh_reply kc fuel dh_e q_c s =
     rbind (on_writepayload (\<lambda>b. buf_putbyte b SSH_MSG_KEXDH_REPLY) s) (\<lambda>s.
     rbind (newkeys_of s) (\<lambda>(nk, kx).
     rbind (on_writepayload (kc_put_pub_key kc (k_algo_hostkey nk)) s) (\<lambda>s.
     rbind (kexdh_secret kc fuel (kx_mode kx) dh_e q_c s) (\<lambda>s.
     rbind (deref (s_hash s)) (\<lambda>hash.
     rbind (on_writepayload (kc_put_sign kc (k_algo_signature nk) (buf_contents hash)) s) (\<lambda>s.
     encrypt_packet s))))))"

definition send_msg_ext_info :: "algo_tables \<Rightarrow> sshsession \<Rightarrow> sshsession res" where
  "send_msg_ext_info T s =
     rbind (put_payload [FByte SSH_MSG_EXT_INFO, FInt 1, FString (cstr ''server-sig-algs'')] s) (\<lambda>s.
     rbind (on_writepayload (\<lambda>b. buf_put_algolist_all b (sigalgs T) True) s) (\<lambda>s.
     encrypt_packet s))"

definition disable_sig_except :: "int \<Rightarrow> algo_tables \<Rightarrow> algo_tables" where
  "disable_sig_except allow_type T =
     T\<lparr>sigalgs := map (\<lambda>a. if a_val a \<noteq> allow_type then a\<lparr>a_usable := False\<rparr> else a) (sigalgs T)\<rparr>"

definition recv_msg_kexdh_init :: "kex_crypto \<Rightarrow> nat \<Rightarrow> algo_tables \<Rightarrow> sshsession \<Rightarrow> (algo_tables \<times> sshsession) res" where
  "recv_msg_kexdh_init kc fuel T s =
     (if \<not> recvkexinit (s_kexstate s) then Inl (Dropbear_exit ''Premature kexdh_init message received'') else
      rbind (newkeys_of s) (\<lambda>(nk, kx).
      rbind (case kx_mode kx of
               KEX_NORMAL_DH \<Rightarrow>
                 rbind (on_payload buf_getmpint s) (\<lambda>(e, s).
                 case e of None \<Rightarrow> Inl (Dropbear_exit ''Bad kex value'') | Some dh_e \<Rightarrow> Inr ((dh_e, None), s))
             | _ \<Rightarrow> rbind (on_payload buf_getstringbuf s) (\<lambda>(q, s). Inr ((0, Some q), s))) (\<lambda>((dh_e, q_c), s).
      rbind (deref (s_payload s)) (\<lambda>pl.
      if b_pos pl \<noteq> b_len pl then Inl (Dropbear_exit ''Bad kex value'') else
      rbind (send_msg_kexdh_reply kc fuel dh_e q_c s) (\<lambda>s.
      rbind (send_msg_newkeys s) (\<lambda>s.
      rbind (if \<not> donesecondkex (s_kexstate s) \<and> s_allow_ext_info s then send_msg_ext_info T s else Inr s) (\<lambda>s.
      rbind (if \<not> donesecondkex (s_kexstate s)
             then rbind (deref (s_newkeys s)) (\<lambda>nk. Inr (disable_sig_except (k_algo_signature nk) T))
             else Inr T) (\<lambda>T.
      Inr (T, s\<lparr>s_requirenext := SSH_MSG_NEWKEYS\<rparr>)))))))))"

section \<open>What the exchange of secrets leaves alone\<close>

text \<open>
  The sequence number of received packets, the strict mode, the flags of an ignored packet and of
  the first NEWKEYS and the authentication state; and a session identifier, once there is one.
\<close>

definition kx_frame :: "sshsession \<Rightarrow> sshsession \<Rightarrow> bool" where
  "kx_frame a s \<longleftrightarrow> s_recvseq s = s_recvseq a \<and> strict_kex (s_kexstate s) = strict_kex (s_kexstate a) \<and>
     recvfirstnewkeys (s_kexstate s) = recvfirstnewkeys (s_kexstate a) \<and> s_authstate s = s_authstate a \<and>
     s_ignorenext s = s_ignorenext a \<and> (\<forall>h. s_session_id a = Some h \<longrightarrow> s_session_id s = Some h)"

lemma kx_frame_refl [simp]: "kx_frame s s"
  by (simp add: kx_frame_def)

lemma kx_frame_trans: "kx_frame a b \<Longrightarrow> kx_frame b c \<Longrightarrow> kx_frame a c"
  by (simp add: kx_frame_def)

lemma kx_frame_sends: "sends s s' \<Longrightarrow> kx_frame a s' \<longleftrightarrow> kx_frame a s"
  by (simp add: kx_frame_def sends_same)

lemma kx_frame_upd [simp]:
  "kx_frame a (s\<lparr>s_writepayload := b\<rparr>) = kx_frame a s" "kx_frame a (s\<lparr>s_kexhashbuf := k\<rparr>) = kx_frame a s"
  "kx_frame a (s\<lparr>s_dh_K := d\<rparr>) = kx_frame a s" "kx_frame a (s\<lparr>s_dh_K_bytes := db\<rparr>) = kx_frame a s"
  "kx_frame a (s\<lparr>s_hash := h\<rparr>) = kx_frame a s" "kx_frame a (s\<lparr>s_payload := p\<rparr>) = kx_frame a s"
  "kx_frame a (s\<lparr>s_requirenext := r\<rparr>) = kx_frame a s" "kx_frame a (s\<lparr>s_newkeys := n\<rparr>) = kx_frame a s"
  "kx_frame a (s\<lparr>s_keys := ks\<rparr>) = kx_frame a s" "kx_frame a (s\<lparr>s_dataallowed := da\<rparr>) = kx_frame a s"
  "kx_frame a (s\<lparr>s_transseq := ts\<rparr>) = kx_frame a s" "kx_frame a (s\<lparr>s_transkexinit := tk\<rparr>) = kx_frame a s"
  "kx_frame a (s\<lparr>s_allow_ext_info := ae\<rparr>) = kx_frame a s"
  "kx_frame a (s\<lparr>s_kexstate := (s_kexstate s)\<lparr>sentnewkeys := b1, donesecondkex := b2, donefirstkex := b3\<rparr>\<rparr>) = kx_frame a s"
  "kx_frame a (kexinitialise s) = kx_frame a s"
  by (simp_all add: kx_frame_def)

lemma kx_frame_random: "genrandom s n = (v, s') \<Longrightarrow> kx_frame a s' = kx_frame a s"
  by (auto simp: kx_frame_def genrandom_def)

lemma kx_frame_draw: "draw_random f s = (v, s') \<Longrightarrow> kx_frame a s' = kx_frame a s"
  by (auto simp: kx_frame_def draw_random_def Let_def split: prod.splits)

lemma kx_post_encrypt: "kx_frame a s \<Longrightarrow> res_post (kx_frame a) (encrypt_packet s)"
  using kx_frame_sends [OF encrypt_packet_sends] by (auto simp: res_post_def)

lemma kx_post_fields: "kx_frame a s \<Longrightarrow> res_post (kx_frame a) (send_fields fs s)"
  using kx_frame_sends [OF send_fields_sends] by (auto simp: res_post_def)

lemma kx_post_put: "kx_frame a s \<Longrightarrow> res_post (kx_frame a) (put_payload fs s)"
  unfolding put_payload_def by (intro res_post_intros) simp

lemma kx_post_hashbuf: "kx_frame a s \<Longrightarrow> res_post (kx_frame a) (on_kexhashbuf f s)"
  unfolding on_kexhashbuf_def by (intro res_post_intros) simp

lemma kx_post_writepayload: "kx_frame a s \<Longrightarrow> res_post (kx_frame a) (on_writepayload f s)"
  unfolding on_writepayload_def by (intro res_post_intros) simp

lemma kx_post_payload: "kx_frame a s \<Longrightarrow> res_post (\<lambda>(x, s). kx_frame a s) (on_payload f s)"
  unfolding on_payload_def by (intro res_post_intros) simp

lemma kx_post_finish: "kx_frame a s \<Longrightarrow> res_post (kx_frame a) (finish_kexhashbuf s)"
  unfolding finish_kexhashbuf_def by (intro res_post_intros) (auto simp: kx_frame_def)

lemma kx_post_gen_keys: "kx_frame a s \<Longrightarrow> res_post (kx_frame a) (gen_new_keys s)"
  using gen_new_keys_frame [of s] by (auto simp: res_post_def)

lemma kx_post_switch: "kx_frame a s \<Longrightarrow> res_post (kx_frame a) (switch_keys s)"
  unfolding switch_keys_def
  by (rule res_post_call [where Q = "\<lambda>(s, nk). kx_frame a s"] res_post_intros | simp; fail)+

lemma kx_post_newkeys: "kx_frame a s \<Longrightarrow> res_post (kx_frame a) (send_msg_newkeys s)"
  unfolding send_msg_newkeys_def
  by (rule res_post_call [OF kx_post_fields] res_post_call [OF kx_post_gen_keys] res_post_call [OF kx_post_switch] res_post_intros
    | assumption | simp; fail)+

lemma kx_post_random: "kx_frame a s \<Longrightarrow> res_post (\<lambda>(x, s). kx_frame a s) (gen_random_mpint fuel mx s)"
  by (induction fuel mx s rule: gen_random_mpint.induct)
    (auto simp: Let_def kx_frame_random split: prod.split list.split)

lemmas kx_posts = kx_post_encrypt kx_post_hashbuf kx_post_writepayload kx_post_finish kx_post_newkeys kx_post_put
lemmas kx_calls = kx_posts [THEN res_post_call]

lemma kx_post_dh: "kx_frame a s \<Longrightarrow> res_post (kx_frame a) (kexdh_comb_key kc p e s)"
  unfolding kexdh_comb_key_def by (rule kx_calls kx_posts res_post_intros | assumption | simp; fail)+

lemma kx_post_25519: "kx_frame a s \<Longrightarrow> res_post (kx_frame a) (kexcurve25519_comb_key kc p q s)"
  unfolding kexcurve25519_comb_key_def by (rule kx_calls kx_posts res_post_intros | assumption | simp; fail)+

lemma kx_post_ecdh: "kx_frame a s \<Longrightarrow> res_post (kx_frame a) (kexecdh_comb_key kc p q s)"
  unfolding kexecdh_comb_key_def by (rule kx_calls kx_posts res_post_intros | assumption | simp; fail)+

lemma kx_post_pq: "kx_frame a s \<Longrightarrow> res_post (\<lambda>(b, s). kx_frame a s) (kexpqhybrid_comb_key kc p q s)"
  unfolding kexpqhybrid_comb_key_def by (rule kx_calls kx_posts res_post_intros | assumption | simp add: kx_frame_draw; fail)+

lemma kx_post_gen_ecdh: "kx_frame a s \<Longrightarrow> res_post (\<lambda>(p, s). kx_frame a s) (gen_kexecdh_param s)"
  unfolding gen_kexecdh_param_def by (rule res_post_intros | simp add: kx_frame_draw; fail)+

lemma kx_post_gen_dh: "kx_frame a s \<Longrightarrow> res_post (\<lambda>(p, s). kx_frame a s) (gen_kexdh_param fuel s)"
  unfolding gen_kexdh_param_def
  by (rule res_post_call [OF kx_post_random] res_post_intros | assumption | simp; fail)+

lemma kx_gen_25519: "gen_kexcurve25519_param kc s = (p, s') \<Longrightarrow> kx_frame a s' = kx_frame a s"
  by (auto simp: gen_kexcurve25519_param_def Let_def kx_frame_random split: prod.splits)

lemmas kx_secret_calls = kx_post_gen_dh kx_post_gen_ecdh kx_post_dh kx_post_ecdh kx_post_25519 kx_post_pq

lemma kx_post_secret: "kx_frame a s \<Longrightarrow> res_post (kx_frame a) (kexdh_secret kc fuel mode e q s)"
  unfolding kexdh_secret_def
  by (cases mode; simp only: kex_mode.case)
    (rule kx_post_writepayload kx_secret_calls [THEN res_post_call] res_post_intros | assumption | simp add: kx_gen_25519; fail)+

lemma kx_post_reply: "kx_frame a s \<Longrightarrow> res_post (kx_frame a) (send_msg_kexdh_reply kc fuel e q s)"
  unfolding send_msg_kexdh_reply_def
  by (rule kx_posts kx_calls res_post_call [OF kx_post_secret] res_post_intros | assumption | simp; fail)+

lemma kx_post_ext_info: "kx_frame a s \<Longrightarrow> res_post (kx_frame a) (send_msg_ext_info T s)"
  unfolding send_msg_ext_info_def by (rule kx_posts kx_calls res_post_intros | assumption | simp; fail)+

lemma kexdh_init_post:
  "kx_frame a s \<Longrightarrow> res_post (\<lambda>(T, s). kx_frame a s \<and> s_requirenext s = 21) (recv_msg_kexdh_init kc fuel T s)"
  unfolding recv_msg_kexdh_init_def
  apply (rule res_post_if, simp)
  apply (rule res_post_rbind, rule res_post_prod)
  apply (rule res_post_call [where Q = "\<lambda>(p, s). kx_frame a s"])
  subgoal for p nk kx
    by (cases "kx_mode kx"; simp only: kex_mode.case)
      (rule res_post_call [OF kx_post_payload] res_post_intros | assumption | simp; fail)+
  by (rule res_post_call [OF kx_post_reply] kx_calls
      res_post_call [where m = "if c then send_msg_ext_info T s' else Inr s'" and Q = "kx_frame a" for c s'] kx_post_ext_info res_post_intros
    | assumption | simp; fail)+

section \<open>What reading the client's KEXINIT leaves alone\<close>

definition kxi_frame :: "sshsession \<Rightarrow> sshsession \<Rightarrow> bool" where
  "kxi_frame a s \<longleftrightarrow> s_recvseq s = s_recvseq a \<and> recvfirstnewkeys (s_kexstate s) = recvfirstnewkeys (s_kexstate a) \<and>
     donefirstkex (s_kexstate s) = donefirstkex (s_kexstate a) \<and> s_authstate s = s_authstate a \<and>
     s_session_id s = s_session_id a \<and> (strict_kex (s_kexstate a) \<longrightarrow> strict_kex (s_kexstate s)) \<and>
     (donefirstkex (s_kexstate a) \<longrightarrow> strict_kex (s_kexstate s) = strict_kex (s_kexstate a))"

lemma kxi_frame_refl [simp]: "kxi_frame s s"
  by (simp add: kxi_frame_def)

lemma kxi_payload: "kxi_frame a s \<Longrightarrow> res_post (\<lambda>(x, s). kxi_frame a s) (on_payload f s)"
  unfolding on_payload_def by (intro res_post_intros) (simp add: kxi_frame_def)

lemma kxi_sends: "sends s s' \<Longrightarrow> kxi_frame a s' \<longleftrightarrow> kxi_frame a s"
  by (simp add: kxi_frame_def sends_same)

lemma kxi_encrypt: "kxi_frame a s \<Longrightarrow> res_post (kxi_frame a) (encrypt_packet s)"
  using kxi_sends [OF encrypt_packet_sends] by (auto simp: res_post_def)

lemma kxi_send_kexinit: "kxi_frame a s \<Longrightarrow> res_post (kxi_frame a) (send_msg_kexinit T s)"
  unfolding send_msg_kexinit_def
  by (rule res_post_call [OF kxi_encrypt] res_post_intros | simp add: kxi_frame_def genrandom_def; fail | auto simp: kxi_frame_def genrandom_def; fail)+

lemma kxi_has_algo: "kxi_frame a s \<Longrightarrow> res_post (\<lambda>(x, s). kxi_frame a s) (has_algo n s)"
  unfolding has_algo_def by (rule kxi_payload)

lemma kxi_match: "kxi_frame a s \<Longrightarrow> res_post (\<lambda>(x, s). kxi_frame a s) (match_payload algos k s)"
  unfolding match_payload_def by (rule kxi_payload)

lemma kxi_need: "kxi_frame a s \<Longrightarrow> res_post (\<lambda>(x, s). kxi_frame a s) (need_algo algos k s)"
  unfolding need_algo_def by (rule res_post_call [OF kxi_match] res_post_intros | assumption | simp; fail)+

lemma kxi_mac: "kxi_frame a s \<Longrightarrow> res_post (\<lambda>(x, s). kxi_frame a s) (mac_algo T c s)"
  unfolding mac_algo_def by (rule res_post_call [OF kxi_match] res_post_intros | assumption | simp; fail)+

lemma kxi_if_has:
  "kxi_frame a s \<Longrightarrow> res_post (\<lambda>(x, s). kxi_frame a s \<and> (x \<longrightarrow> \<not> donefirstkex (s_kexstate s)))
     (if \<not> donefirstkex (s_kexstate s) then has_algo n s else Inr (False, s))"
  using kxi_has_algo [of a s n] by (auto simp: res_post_def kxi_frame_def)

lemma kxi_upd [simp]:
  "kxi_frame a (s\<lparr>s_allow_ext_info := b\<rparr>) = kxi_frame a s" "kxi_frame a (s\<lparr>s_ignorenext := b\<rparr>) = kxi_frame a s"
  "kxi_frame a (s\<lparr>s_newkeys := nk\<rparr>) = kxi_frame a s"
  "kxi_frame a (s\<lparr>s_kexstate := (s_kexstate s)\<lparr>them_firstfollows := b\<rparr>\<rparr>) = kxi_frame a s"
  by (simp_all add: kxi_frame_def)

lemma kxi_strict:
  "kxi_frame a s \<Longrightarrow> \<not> donefirstkex (s_kexstate s) \<Longrightarrow> kxi_frame a (s\<lparr>s_kexstate := (s_kexstate s)\<lparr>strict_kex := True\<rparr>\<rparr>)"
  by (simp add: kxi_frame_def)

lemma kxi_read: "kxi_frame a s \<Longrightarrow> res_post (kxi_frame a) (read_kex_algos T s)"
proof -
  note calls = kxi_if_has [of a] kxi_has_algo [of a] kxi_need [of a] kxi_mac [of a] kxi_payload [of a]
  note calls = calls [THEN res_post_call]
  show "kxi_frame a s \<Longrightarrow> ?thesis"
    unfolding read_kex_algos_def
    by (rule calls res_post_intros | assumption | simp add: kxi_strict; fail | simp add: kxi_frame_def Let_def; fail)+
qed

lemma kexinit_post:
  "res_post (\<lambda>s'. kxi_frame s s' \<and> s_requirenext s' = 30 \<and> recvkexinit (s_kexstate s') \<and>
     (strict_kex (s_kexstate s') \<and> \<not> donefirstkex (s_kexstate s') \<longrightarrow> s_recvseq s' = 1)) (recv_msg_kexinit T s)"
proof -
  have start: "res_post (kxi_frame s) (if \<not> sentkexinit (s_kexstate s) then send_msg_kexinit T s else Inr s)"
    using kxi_send_kexinit [of s s T] by simp
  show ?thesis
    unfolding recv_msg_kexinit_def
    by (rule res_post_call [OF start] res_post_call [OF kxi_read [of s]] res_post_intros | assumption | simp; fail
      | auto simp: kxi_frame_def; fail)+
qed

section \<open>Properties\<close>

lemma on_kexhashbuf_K: "res_post (\<lambda>s'. s_dh_K s' = s_dh_K s) (on_kexhashbuf f s)"
  unfolding on_kexhashbuf_def by (intro res_post_intros) simp

lemma finish_K: "res_post (\<lambda>s'. s_dh_K s' = s_dh_K s) (finish_kexhashbuf s)"
  unfolding finish_kexhashbuf_def by (intro res_post_intros) simp_all

lemma kexdh_comb_key_K:
  "kexdh_comb_key kc param e s = Inr s' \<Longrightarrow> newkeys_of s = Inr (nk, kx) \<Longrightarrow>
     1 < e \<and> e < int (from_ubin (kx_dh_p_bytes kx)) - 1 \<and> s_dh_K s' = Some (e ^ nat (fst param) mod int (from_ubin (kx_dh_p_bytes kx)))"
  by (auto simp: kexdh_comb_key_def rbind_eq_Inr Let_def not_less split: if_splits
      dest!: res_postD [OF on_kexhashbuf_K] res_postD [OF finish_K])

text \<open>
  Property C19. Diffie-Hellman agreement: when the server accepts the client's value, that value
  lies strictly between 1 and p - 1, and if the client computed it from its secret \<open>x\<close>, then the
  shared secret the server stores is the one the client computes from the value the server
  sends.
\<close>

theorem dh_agreement:
  assumes "newkeys_of s = Inr (nk, kx)" and p: "p = int (from_ubin (kx_dh_p_bytes kx))"
    and "gen_kexdh_param fuel s = Inr ((y, f), s1)" and "kexdh_comb_key kc (y, f) e s1 = Inr s'"
  shows "1 < e \<and> e < p - 1 \<and> s_dh_K s' = Some (e ^ nat y mod p) \<and>
    (\<forall>x. e = 2 ^ x mod p \<longrightarrow> s_dh_K s' = Some (f ^ x mod p))"
proof -
  have same: "res_post (\<lambda>(r, s'). newkeys_of s' = newkeys_of s) (gen_random_mpint fuel mx s)" for mx s
    by (induction fuel mx s rule: gen_random_mpint.induct)
      (auto simp: Let_def newkeys_of_def genrandom_def split: list.split)
  have f: "f = 2 ^ nat y mod p" and s1: "newkeys_of s1 = Inr (nk, kx)"
    using assms same [where mx = "(p - 1) div 2" and s = s] by (auto simp: gen_kexdh_param_def rbind_eq_Inr Let_def res_post_def)
  note K = kexdh_comb_key_K [OF assms(4) s1]
  have "(2 ^ x mod p) ^ nat y mod p = (2 ^ nat y mod p) ^ x mod p" for x
    by (simp add: power_mod flip: power_mult) (simp add: mult.commute)
  then show ?thesis using K p f by auto
qed

definition example_crypto :: kex_crypto where
  "example_crypto = \<lparr>kc_put_pub_key = (\<lambda>t b. Inr b), kc_put_sign = (\<lambda>t h b. buf_putbytes b h (of_nat (length h))),
     kc_scalarmult = (\<lambda>k p. map2 (XOR) k p)\<rparr>"

definition example_dh :: sshsession where
  "example_dh = example_kex\<lparr>s_newkeys := Some (example_kex_keys\<lparr>k_algo_kex := Some \<lparr>kx_mode = KEX_NORMAL_DH, kx_dh_p_bytes = [23],
       kx_curve = None, kx_kem = None, kx_hash_desc = example_digest\<rparr>\<rparr>), s_kexhashbuf := Some (mk_buf [] (replicate 20 0) 0),
     s_payload := Some (mk_buf [30, 0, 0, 0, 1, 9] [] 1), s_writepayload := mk_buf [] (replicate 20 0) 0, s_hash := None, s_dh_K := None\<rparr>"

theorem dh_agreement_witness:
  "\<exists>s1 s'. gen_kexdh_param 3 example_dh = Inr ((1, 2), s1) \<and> kexdh_comb_key example_crypto (1, 2) 9 s1 = Inr s' \<and>
     s_dh_K s' = Some (2 ^ 5 mod 23)"
proof -
  let ?m = "rbind (gen_kexdh_param 3 example_dh) (\<lambda>(p, s1). rbind (kexdh_comb_key example_crypto (1, 2) 9 s1) (\<lambda>s'.
     if p = (1, 2) then Inr () else Inl Fault))"
  have "returns ?m" by code_simp
  then obtain s1 s' where 1: "gen_kexdh_param 3 example_dh = Inr ((1, 2), s1)" and 2: "kexdh_comb_key example_crypto (1, 2) 9 s1 = Inr s'"
    by (auto simp: returns_ex rbind_eq_Inr split: if_splits)
  obtain nk kx where n: "newkeys_of example_dh = Inr (nk, kx)" and p: "int (from_ubin (kx_dh_p_bytes kx)) = 23"
    by (simp add: newkeys_of_def example_dh_def example_kex_def from_ubin_def)
  have "s_dh_K s' = Some (2 ^ 5 mod 23)"
    using dh_agreement [OF n p [symmetric] 1 2] by (auto dest: spec [of _ 5])
  then show ?thesis using 1 2 by blast
qed

text \<open>
  Property C29. The session identifier is fixed by the first key exchange: once set, no later
  exchange changes it. The same handler demands NEWKEYS as the next packet, and leaves the
  strict mode, the received sequence number and the authentication state alone.
\<close>

theorem kexdh_init_frame:
  assumes "recv_msg_kexdh_init kc fuel T s = Inr (T', s')"
  shows "(\<forall>h. s_session_id s = Some h \<longrightarrow> s_session_id s' = Some h) \<and> s_requirenext s' = 21 \<and>
    strict_kex (s_kexstate s') = strict_kex (s_kexstate s) \<and> s_recvseq s' = s_recvseq s \<and> s_authstate s' = s_authstate s"
  using res_postD [OF kexdh_init_post [OF kx_frame_refl] assms] by (simp add: kx_frame_def)


theorem kexdh_init_frame_witness:
  "\<exists>T' s'. recv_msg_kexdh_init example_crypto 3 \<lparr>sshkex = [], sigalgs = [], sshciphers = [], sshhashes = []\<rparr> example_dh = Inr (T', s') \<and>
     s_session_id s' = s_session_id example_dh \<and> s_requirenext s' = 21"
proof -
  let ?T = "\<lparr>sshkex = [], sigalgs = [], sshciphers = [], sshhashes = []\<rparr>"
  have "returns (recv_msg_kexdh_init example_crypto 3 ?T example_dh)" by code_simp
  then obtain T' s' where s': "recv_msg_kexdh_init example_crypto 3 ?T example_dh = Inr (T', s')" by (auto simp: returns_ex)
  obtain h where "s_session_id example_dh = Some h" by (simp add: example_dh_def example_kex_def)
  then show ?thesis using s' kexdh_init_frame [OF s'] by auto
qed

end
