(* ===== verification/Kex_Hash.thy ===== *)
theory Kex_Hash
  imports Svr_Kex
begin

text \<open>
  The exchange hash of the key exchange: what \<^verbatim>\<open>recv_msg_kexinit\<close> collects for it.
\<close>

section \<open>Reading the proposal keeps the payload\<close>

definition at_start :: "buffer \<Rightarrow> buffer" where
  "at_start b = b\<lparr>b_pos := 0\<rparr>"

lemma at_start_eq: "at_start b = at_start b' \<longleftrightarrow> b_data b = b_data b' \<and> b_len b = b_len b' \<and> b_size b = b_size b'"
  by (cases b; cases b') (simp add: at_start_def)

definition rd_frame :: "sshsession \<Rightarrow> sshsession \<Rightarrow> bool" where
  "rd_frame a s \<longleftrightarrow> s_remoteident s = s_remoteident a \<and> s_transkexinit s = s_transkexinit a \<and>
     s_payload_beginning s = s_payload_beginning a \<and> recvkexinit (s_kexstate s) = recvkexinit (s_kexstate a) \<and>
     map_option at_start (s_payload s) = map_option at_start (s_payload a)"

lemma at_start_pos [simp]: "at_start (b\<lparr>b_pos := p\<rparr>) = at_start b"
  by (simp add: at_start_def)

lemma incrpos_reads: "buf_incrpos b n = Inr b' \<Longrightarrow> at_start b' = at_start b"
  by (auto simp: buf_incrpos_def split: if_splits)

lemma getint_reads: "buf_getint b = Inr (v, b') \<Longrightarrow> at_start b' = at_start b"
  by (auto simp: buf_getint_def rbind_eq_Inr dest!: incrpos_reads)

lemma getstring_reads: "buf_getstring b = Inr (v, b') \<Longrightarrow> at_start b' = at_start b"
  by (auto simp: buf_getstring_def rbind_eq_Inr dest!: incrpos_reads getint_reads split: if_splits)

lemma has_algo_reads: "buf_has_algo b n = Inr (v, b') \<Longrightarrow> at_start b' = at_start b"
  by (auto simp: buf_has_algo_def rbind_eq_Inr Let_def buf_setpos_def dest!: getstring_reads split: if_splits)

lemma match_algo_reads: "buf_match_algo b l k = Inr (v, g, b') \<Longrightarrow> at_start b' = at_start b"
  by (auto simp: buf_match_algo_def rbind_eq_Inr Let_def dest!: getstring_reads split: if_splits prod.splits)

lemma getbyte_reads: "buf_getbyte b = Inr (v, b') \<Longrightarrow> at_start b' = at_start b"
  by (auto simp: buf_getbyte_def rbind_eq_Inr split: if_splits)

lemma rd_payload:
  assumes "rd_frame a s" "\<And>b v b'. f b = Inr (v, b') \<Longrightarrow> at_start b' = at_start b"
  shows "res_post (\<lambda>(_, s'). rd_frame a s') (on_payload f s)"
proof -
  have "rd_frame a s'" if "on_payload f s = Inr (v, s')" for v s'
    using that assms by (auto simp: on_payload_def rbind_eq_Inr rd_frame_def deref_def split: option.splits)
  then show ?thesis by (auto simp: res_post_def split: sum.split)
qed

lemma rd_upd [simp]:
  "rd_frame a (s\<lparr>s_allow_ext_info := b\<rparr>) = rd_frame a s" "rd_frame a (s\<lparr>s_ignorenext := b\<rparr>) = rd_frame a s"
  "rd_frame a (s\<lparr>s_newkeys := nk\<rparr>) = rd_frame a s"
  "rd_frame a (s\<lparr>s_kexstate := (s_kexstate s)\<lparr>them_firstfollows := b\<rparr>\<rparr>) = rd_frame a s"
  "rd_frame a (s\<lparr>s_kexstate := (s_kexstate s)\<lparr>strict_kex := b\<rparr>\<rparr>) = rd_frame a s"
  by (simp_all add: rd_frame_def)

lemma rd_has_algo: "rd_frame a s \<Longrightarrow> res_post (\<lambda>(x, s). rd_frame a s) (has_algo n s)"
  unfolding has_algo_def by (rule rd_payload) (auto dest: has_algo_reads)

lemma rd_match: "rd_frame a s \<Longrightarrow> res_post (\<lambda>(x, s). rd_frame a s) (match_payload algos k s)"
  unfolding match_payload_def by (rule rd_payload) (auto simp: rbind_eq_Inr dest: match_algo_reads)

lemma rd_need: "rd_frame a s \<Longrightarrow> res_post (\<lambda>(x, s). rd_frame a s) (need_algo algos k s)"
  unfolding need_algo_def by (rule res_post_call [OF rd_match] res_post_intros | assumption | simp; fail)+

lemma rd_mac: "rd_frame a s \<Longrightarrow> res_post (\<lambda>(x, s). rd_frame a s) (mac_algo T c s)"
  unfolding mac_algo_def by (rule res_post_call [OF rd_match] res_post_intros | assumption | simp; fail)+

lemma rd_read: "rd_frame a s \<Longrightarrow> res_post (rd_frame a) (read_kex_algos T s)"
proof -
  have ifhas: "rd_frame a s \<Longrightarrow> res_post (\<lambda>(x, s). rd_frame a s) (if b then has_algo n s else Inr (False, s))" for b n s
    using rd_has_algo [of a s n] by simp
  have skip16: "rd_frame a s \<Longrightarrow> res_post (\<lambda>(x, s). rd_frame a s) (on_payload (\<lambda>b. rbind (buf_incrpos b n) (\<lambda>b. Inr ((), b))) s)" for n s
    by (rule rd_payload) (auto simp: rbind_eq_Inr dest: incrpos_reads)
  have eat: "rd_frame a s \<Longrightarrow> res_post (\<lambda>(x, s). rd_frame a s) (on_payload (\<lambda>b. rbind (buf_eatstring b) (\<lambda>b. Inr ((), b))) s)" for s
    by (rule rd_payload) (auto simp: rbind_eq_Inr buf_eatstring_def dest!: incrpos_reads getint_reads)
  have getbool: "rd_frame a s \<Longrightarrow> res_post (\<lambda>(x, s). rd_frame a s) (on_payload buf_getbool s)" for s
    by (rule rd_payload) (auto simp: rbind_eq_Inr buf_getbool_def dest!: getbyte_reads)
  have getint: "rd_frame a s \<Longrightarrow> res_post (\<lambda>(x, s). rd_frame a s) (on_payload buf_getint s)" for s
    by (rule rd_payload) (auto dest: getint_reads)
  note calls = ifhas rd_has_algo [of a] rd_need [of a] rd_mac [of a] skip16 eat getbool getint
  note calls = calls [THEN res_post_call]
  show "rd_frame a s \<Longrightarrow> ?thesis"
    unfolding read_kex_algos_def by (rule calls res_post_intros | assumption | simp add: Let_def; fail)+
qed

section \<open>The transcript\<close>

definition ssh_string :: "bytes \<Rightarrow> bytes" where
  "ssh_string bs = store32h (of_nat (length bs)) @ bs"

definition transcript :: "bytes \<Rightarrow> bytes \<Rightarrow> bytes \<Rightarrow> bytes" where
  "transcript V_C I_C I_S = ssh_string V_C @ ssh_string LOCAL_IDENT @ ssh_string I_C @ ssh_string I_S"

lemma put_ssh_string:
  assumes "buf_end b (4 + length s + k)"
  shows "\<exists>b'. buf_putstring b s (of_nat (length s)) = Inr b' \<and> buf_end b' k \<and> buf_contents b' = buf_contents b @ ssh_string s"
proof -
  have "buf_end b (4 + length s)" using assms by (rule buf_end_mono) simp
  then show ?thesis
    using assms buf_putstring_append [of b s] buf_end_append [of b "ssh_string s" k] buf_contents_append [of b "ssh_string s"]
    by (simp add: ssh_string_def add.assoc)
qed

lemma put_transcript:
  assumes "unat n \<le> 1000000000" "length vc + length ic + length is + 40 + k \<le> unat n"
  shows "\<exists>b0 b1 b2 b3 b4. buf_new n = Inr b0 \<and> buf_putstring b0 vc (of_nat (length vc)) = Inr b1 \<and>
    buf_putstring b1 LOCAL_IDENT (of_nat (length LOCAL_IDENT)) = Inr b2 \<and> buf_putstring b2 ic (of_nat (length ic)) = Inr b3 \<and>
    buf_putstring b3 is (of_nat (length is)) = Inr b4 \<and> buf_contents b4 = transcript vc ic is \<and> buf_end b4 k"
proof -
  define b0 where "b0 = \<lparr>b_data = replicate (unat n) 0, b_len = 0, b_pos = 0, b_size = n\<rparr>"
  let ?l = "length LOCAL_IDENT"
  have l: "?l = 24" by (simp add: cstr_def)
  have new: "buf_new n = Inr b0" using assms(1) by (simp add: buf_new_eq b0_def)
  have e0: "buf_end b0 (4 + length vc + (4 + ?l + (4 + length ic + (4 + length is + k))))"
    using assms by (simp add: b0_def buf_end_def buf_wf_nat l)
  obtain b1 where 1: "buf_putstring b0 vc (of_nat (length vc)) = Inr b1" "buf_end b1 (4 + ?l + (4 + length ic + (4 + length is + k)))"
    "buf_contents b1 = buf_contents b0 @ ssh_string vc" using put_ssh_string [OF e0] by blast
  obtain b2 where 2: "buf_putstring b1 LOCAL_IDENT (of_nat ?l) = Inr b2" "buf_end b2 (4 + length ic + (4 + length is + k))"
    "buf_contents b2 = buf_contents b1 @ ssh_string LOCAL_IDENT" using put_ssh_string [OF 1(2)] by blast
  obtain b3 where 3: "buf_putstring b2 ic (of_nat (length ic)) = Inr b3" "buf_end b3 (4 + length is + k)"
    "buf_contents b3 = buf_contents b2 @ ssh_string ic" using put_ssh_string [OF 2(2)] by blast
  obtain b4 where 4: "buf_putstring b3 is (of_nat (length is)) = Inr b4" "buf_end b4 k"
    "buf_contents b4 = buf_contents b3 @ ssh_string is" using put_ssh_string [OF 3(2)] by blast
  have "buf_contents b0 = []" by (simp add: b0_def buf_contents_def)
  then show ?thesis using new 1 2 3 4 by (auto simp: transcript_def)
qed

lemma buf_poke_take: "unat n \<le> length bs \<Longrightarrow> buf_poke b n (take (unat n) bs) = buf_poke b n bs"
  by (simp add: buf_poke_def)

lemma buf_putstring_take: "unat n \<le> length bs \<Longrightarrow> buf_putstring b (take (unat n) bs) n = buf_putstring b bs n"
  by (simp add: buf_putstring_def buf_putbytes_def buf_poke_take)

text \<open>
  The handler on a session that is ready for a KEXINIT: the buffer allocated for the transcript
  is always large enough, with room for the rest of the exchange.
\<close>

lemma kexinit_transcript_ready:
  assumes s: "sentkexinit (s_kexstate s)" "\<not> recvkexinit (s_kexstate s)" "s_remoteident s = Some vc" "length vc \<le> 255"
    "s_transkexinit s = Some isb" "buf_wf isb" "s_payload s = Some pl" "buf_wf pl" "s_payload_beginning s \<le> b_len pl"
    and len: "unat (b_len isb) + unat (b_len pl) \<le> 999990000" and s1: "read_kex_algos T s = Inr s1"
  shows "\<exists>khb pl'. buf_contents khb = transcript vc (drop (unat (s_payload_beginning s)) (buf_contents pl)) (buf_contents isb) \<and>
    buf_end khb 2900 \<and> recv_msg_kexinit T s =
     (let s2 = s1\<lparr>s_payload := Some pl', s_kexhashbuf := Some khb, s_requirenext := 30, s_transkexinit := None,
          s_kexstate := (s_kexstate s1)\<lparr>recvkexinit := True\<rparr>\<rparr> in
      if strict_kex (s_kexstate s2) \<and> \<not> donefirstkex (s_kexstate s2) \<and> s_recvseq s2 \<noteq> 1
      then Inl (Dropbear_exit ''First packet wasn't kexinit'') else Inr s2)"
proof -
  have rd: "rd_frame s s1" using res_postD [OF rd_read s1] by (simp add: rd_frame_def)
  then obtain pl1 where pl1: "s_payload s1 = Some pl1" "at_start pl1 = at_start pl" and
      b1: "s_payload_beginning s1 = s_payload_beginning s" "s_transkexinit s1 = Some isb"
    using s by (auto simp: rd_frame_def)
  define pl' where "pl' = pl1\<lparr>b_pos := s_payload_beginning s\<rparr>"
  have same: "b_data pl' = b_data pl" "b_len pl' = b_len pl" "b_size pl' = b_size pl" "b_pos pl' = s_payload_beginning s"
    using pl1(2) by (simp_all add: pl'_def at_start_eq)
  have wf: "buf_wf pl'" using s by (auto simp: same buf_wf_nat u32_order)
  have setpos: "buf_setpos pl1 (s_payload_beginning s1) = Inr pl'"
    using s(9) pl1(2) by (simp add: buf_setpos_def b1 pl'_def at_start_eq u32_order)
  define ic where "ic = drop (unat (s_payload_beginning s)) (buf_contents pl)"
  have pos: "unat (s_payload_beginning s) \<le> unat (b_len pl)" using s(9) by (simp add: u32_order)
  have ic: "length ic = unat (b_len pl) - unat (s_payload_beginning s)" "b_len pl' - b_pos pl' = of_nat (length ic)"
    using s(8) pos by (simp_all add: ic_def buf_contents_def buf_wf_nat same u32_simps unat_of_nat_u32) 
  have peek: "buf_peek pl' (b_len pl' - b_pos pl') = Inr ic"
    using wf pos unat_sub [OF s(9)] by (simp add: buf_peek_eq) (simp add: same ic_def buf_contents_def drop_take)
  let ?n = "of_nat (length LOCAL_IDENT) + of_nat (length vc) + b_len isb + b_len pl + KEXHASHBUF_MAX_INTS"
  have n: "unat ?n = 24 + length vc + unat (b_len isb) + unat (b_len pl) + 3012"
    using s(4) len by (simp add: cstr_def u32_simps)
  define is' where "is' = buf_contents isb"
  have is': "length is' = unat (b_len isb)" "of_nat (length is') = b_len isb"
    using s(6) by (simp_all add: is'_def buf_contents_def buf_wf_nat)
  have put_is: "buf_putstring b (b_data isb) (b_len isb) = buf_putstring b is' (of_nat (length is'))" for b
    using s(6) buf_putstring_take [of "b_len isb" "b_data isb" b] unfolding is'(2) by (simp add: is'_def buf_contents_def buf_wf_nat)
  have fits: "unat ?n \<le> 1000000000" "length vc + length ic + length is' + 40 + 2900 \<le> unat ?n"
    using n len s(4) ic(1) is'(1) by linarith+
  obtain k0 k1 k2 k3 k4 where k: "buf_new ?n = Inr k0" "buf_putstring k0 vc (of_nat (length vc)) = Inr k1"
    "buf_putstring k1 LOCAL_IDENT (of_nat (length LOCAL_IDENT)) = Inr k2" "buf_putstring k2 ic (of_nat (length ic)) = Inr k3"
    "buf_putstring k3 is' (of_nat (length is')) = Inr k4" "buf_contents k4 = transcript vc ic is'" "buf_end k4 2900"
    using put_transcript [OF fits] by blast
  have "recv_msg_kexinit T s =
     (let s2 = s1\<lparr>s_payload := Some pl', s_kexhashbuf := Some k4, s_requirenext := 30, s_transkexinit := None,
          s_kexstate := (s_kexstate s1)\<lparr>recvkexinit := True\<rparr>\<rparr> in
      if strict_kex (s_kexstate s2) \<and> \<not> donefirstkex (s_kexstate s2) \<and> s_recvseq s2 \<noteq> 1
      then Inl (Dropbear_exit ''First packet wasn't kexinit'') else Inr s2)"
    unfolding recv_msg_kexinit_def using s(1-3,5,7) pl1(1) k(1-5) ic(2) peek put_is setpos s1
    by (simp add: Let_def del: of_nat_Suc length_cstr)
  then show ?thesis using k(6,7) unfolding ic_def is'_def by blast
qed

text \<open>The server's own proposal, when the client was first to ask for an exchange.\<close>

lemma own_proposal:
  "res_post (\<lambda>s0. sentkexinit (s_kexstate s0) \<and> s_remoteident s0 = s_remoteident s \<and> s_payload s0 = s_payload s \<and>
     s_payload_beginning s0 = s_payload_beginning s) (send_msg_kexinit T s)"
  unfolding send_msg_kexinit_def
  by (intro res_post_intros) (auto dest!: encrypt_packet_sends dest: sends_same(1,3,4) simp: genrandom_def Let_def)

lemma recv_kexinit_after: "send_msg_kexinit T s = Inr s0 \<Longrightarrow> \<not> sentkexinit (s_kexstate s) \<Longrightarrow> recv_msg_kexinit T s = recv_msg_kexinit T s0"
  using res_postD [OF own_proposal] by (simp add: recv_msg_kexinit_def)

text \<open>
  Property C20. The transcript of the exchange: a handled KEXINIT leaves in the hash buffer the
  client's and the server's identification, then the client's and the server's KEXINIT payload,
  each as a string, in the order RFC 4253 prescribes, whatever was negotiated; the client's
  payload is taken whole from its type byte on. The server's payload is the one it had sent or, if the client is
  the first to ask for an exchange, the one it sends in answer. There is room for the rest of the exchange.
\<close>

theorem kexinit_transcript:
  assumes "recv_msg_kexinit T s = Inr s'" and "(if sentkexinit (s_kexstate s) then Inr s else send_msg_kexinit T s) = Inr s0"
    and "s_remoteident s = Some V_C" "length V_C \<le> 255"
    and "s_transkexinit s0 = Some I_S" "buf_wf I_S" and "s_payload s = Some pl" "buf_wf pl"
    and "unat (b_len I_S) + unat (b_len pl) \<le> 999990000"
  shows "\<exists>khb. s_kexhashbuf s' = Some khb \<and> buf_end khb 2900 \<and>
    buf_contents khb = transcript V_C (drop (unat (s_payload_beginning s)) (buf_contents pl)) (buf_contents I_S)"
proof -
  have run: "recv_msg_kexinit T s0 = Inr s'" using assms(1,2) recv_kexinit_after by (auto split: if_splits)
  have s0: "sentkexinit (s_kexstate s0)" "s_remoteident s0 = s_remoteident s" "s_payload s0 = s_payload s"
      "s_payload_beginning s0 = s_payload_beginning s"
    using assms(2) res_postD [OF own_proposal] by (auto split: if_splits)
  have nr: "\<not> recvkexinit (s_kexstate s0)" using run s0(1) by (auto simp: recv_msg_kexinit_def)
  obtain s1 where s1: "read_kex_algos T s0 = Inr s1" and "\<exists>p. s_payload s1 = Some p \<and> s_payload_beginning s1 \<le> b_len p"
    using run s0(1) by (auto simp: recv_msg_kexinit_def rbind_eq_Inr deref_eq_Inr buf_setpos_def u32_order split: if_splits)
  moreover have "rd_frame s0 s1" using res_postD [OF rd_read s1] by (simp add: rd_frame_def)
  ultimately have "s_payload_beginning s0 \<le> b_len pl"
    using assms(7) s0(3) by (auto simp: rd_frame_def at_start_eq)
  from kexinit_transcript_ready [OF s0(1) nr _ assms(4-6) _ assms(8) this assms(9) s1] show ?thesis
    using run assms(3,7) s0(2-4) by (auto simp: Let_def split: if_splits)
qed

text \<open>A client that offers one algorithm of each kind and asks for strict key exchange.\<close>

definition name_list :: "string \<Rightarrow> bytes" where
  "name_list n = store32h (of_nat (length n)) @ cstr n"

definition example_kexinit :: bytes where
  "example_kexinit = 20 # replicate 16 0 @ name_list ''k,kex-strict-c-v00@openssh.com'' @ name_list ''s'' @ name_list ''none'' @
     name_list ''none'' @ name_list ''none'' @ name_list ''none'' @ name_list ''none'' @ name_list ''none'' @ name_list [] @
     name_list [] @ [0, 0, 0, 0, 0]"

definition example_tables :: algo_tables where
  "example_tables = \<lparr>
     sshkex = [\<lparr>a_name = cstr ''k'', a_val = 0, a_data = Some \<lparr>kx_mode = KEX_NORMAL_DH, kx_dh_p_bytes = [23], kx_curve = None,
       kx_kem = None, kx_hash_desc = example_digest\<rparr>, a_usable = True, a_mode = None\<rparr>],
     sigalgs = [\<lparr>a_name = cstr ''s'', a_val = 5, a_data = None, a_usable = True, a_mode = None\<rparr>],
     sshciphers = [\<lparr>a_name = cstr ''none'', a_val = 0, a_data = Some dropbear_nocipher, a_usable = True, a_mode = Some dropbear_mode_none\<rparr>],
     sshhashes = [\<lparr>a_name = cstr ''none'', a_val = 0, a_data = Some dropbear_nohash, a_usable = True, a_mode = None\<rparr>]\<rparr>"

definition example_proposal :: sshsession where
  "example_proposal = small_session\<lparr>s_remoteident := Some [83], s_newkeys := Some zero_key_context,
     s_transkexinit := Some (payload_of [20]), s_kexstate := zero_KEXState\<lparr>sentkexinit := True\<rparr>,
     s_payload := Some (mk_buf example_kexinit [] 1), s_recvseq := 1, s_requirenext := 0, s_world := plain_world\<lparr>w_ticks := 2\<rparr>,
     s_last_packet_time_keepalive_recv := 1, s_last_packet_time_idle := 1\<rparr>"

lemma example_read: "case read_kex_algos example_tables example_proposal of Inl e \<Rightarrow> False
   | Inr s \<Rightarrow> strict_kex (s_kexstate s) \<and> \<not> donefirstkex (s_kexstate s) \<and> \<not> s_ignorenext s \<and> s_recvseq s = 1 \<and> \<not> recvfirstnewkeys (s_kexstate s)"
  by code_simp

lemma length_example_kexinit: "length example_kexinit = 117"
  by (simp add: example_kexinit_def name_list_def)

lemma example_proposal_ok:
  "sentkexinit (s_kexstate example_proposal)" "\<not> recvkexinit (s_kexstate example_proposal)"
  "s_remoteident example_proposal = Some [83]" "length [83 :: byte] \<le> 255"
  "s_transkexinit example_proposal = Some (payload_of [20])" "buf_wf (payload_of [20])"
  "s_payload example_proposal = Some (mk_buf example_kexinit [] 1)" "buf_wf (mk_buf example_kexinit [] 1)"
  "s_payload_beginning example_proposal \<le> b_len (mk_buf example_kexinit [] 1)"
  "unat (b_len (payload_of [20])) + unat (b_len (mk_buf example_kexinit [] 1)) \<le> 999990000"
  by (simp_all add: example_proposal_def small_session_def initial_session_def zero_KEXState_def length_example_kexinit payload_of_def mk_buf_def buf_wf_nat
      u32_order Let_def)

lemma example_kexinit_returns:
  "\<exists>s'. recv_msg_kexinit example_tables example_proposal = Inr s' \<and>
     s_recvseq s' = 1 \<and> s_requirenext s' = 30 \<and> \<not> s_ignorenext s' \<and> strict_kex (s_kexstate s') \<and>
     \<not> donefirstkex (s_kexstate s') \<and> \<not> recvfirstnewkeys (s_kexstate s')"
proof -
  obtain s1 where s1: "read_kex_algos example_tables example_proposal = Inr s1" and st: "strict_kex (s_kexstate s1)"
    "\<not> donefirstkex (s_kexstate s1)" "\<not> s_ignorenext s1" "s_recvseq s1 = 1" "\<not> recvfirstnewkeys (s_kexstate s1)"
    using example_read by (auto split: sum.splits)
  from kexinit_transcript_ready [OF example_proposal_ok s1] st show ?thesis by (auto simp: Let_def)
qed

theorem kexinit_transcript_witness:
  "\<exists>s' khb. recv_msg_kexinit example_tables example_proposal = Inr s' \<and> s_kexhashbuf s' = Some khb \<and>
     buf_contents khb = transcript [83] (drop (unat (s_payload_beginning example_proposal))
       (buf_contents (mk_buf example_kexinit [] 1))) (buf_contents (payload_of [20]))"
proof -
  obtain s' where s': "recv_msg_kexinit example_tables example_proposal = Inr s'" using example_kexinit_returns by blast
  have "(if sentkexinit (s_kexstate example_proposal) then Inr example_proposal else send_msg_kexinit example_tables example_proposal) = Inr example_proposal"
    using example_proposal_ok(1) by simp
  from kexinit_transcript [OF s' this example_proposal_ok(3-8,10)] s' show ?thesis by blast
qed

end
