(* ===== verification/Handshake.thy ===== *)
theory Handshake
  imports Process_Packet Kex_Hash
begin

text \<open>
  Dispatch and key exchange together: what a client can send before its first NEWKEYS takes
  effect. The handlers are those the server's table has for KEXINIT, KEXDH_INIT and NEWKEYS;
  the rest of the table is arbitrary. A run interleaves received packets with any other
  activity of the session (timers, output, channels) that does not touch the state of the
  handshake.
\<close>

section \<open>Model\<close>

definition kexinit_handler :: "'t handler" where
  "kexinit_handler c = on_ses (recv_msg_kexinit (cn_algos c)) c"

definition kexdh_handler :: "kex_crypto \<Rightarrow> nat \<Rightarrow> 't handler" where
  "kexdh_handler kc fuel c =
     rbind (recv_msg_kexdh_init kc fuel (cn_algos c) (cn_ses c)) (\<lambda>(T, s). Inr (c\<lparr>cn_algos := T, cn_ses := s\<rparr>))"

definition newkeys_handler :: "'t handler" where
  "newkeys_handler c = on_ses recv_msg_newkeys c"

definition transport_table :: "kex_crypto \<Rightarrow> nat \<Rightarrow> 't packettypes \<Rightarrow> bool" where
  "transport_table kc fuel tbl \<longleftrightarrow> find_handler tbl 20 = Some kexinit_handler \<and>
     find_handler tbl 30 = Some (kexdh_handler kc fuel) \<and> find_handler tbl 21 = Some newkeys_handler"

text \<open>A decrypted packet as \<open>decrypt_packet\<close> leaves it: the payload in place and the sequence number moved.\<close>

definition deliver :: "buffer \<Rightarrow> 't conn \<Rightarrow> 't conn" where
  "deliver p c = c\<lparr>cn_ses := (cn_ses c)\<lparr>s_payload := Some p, s_recvseq := s_recvseq (cn_ses c) + 1\<rparr>\<rparr>"

text \<open>The part of the session the handshake rules read.\<close>

definition hs_of :: "sshsession \<Rightarrow> u32 \<times> byte \<times> bool \<times> bool \<times> bool \<times> bool" where
  "hs_of s = (s_recvseq s, s_requirenext s, s_ignorenext s, strict_kex (s_kexstate s), donefirstkex (s_kexstate s),
     recvfirstnewkeys (s_kexstate s))"

abbreviation (input) "handshake_state c \<equiv> hs_of (cn_ses c)"

text \<open>
  \<open>handshake tbl c ts c'\<close>: from \<open>c\<close> the packets of the types \<open>ts\<close> were processed, in that order,
  up to \<open>c'\<close>, and none after the first NEWKEYS took effect.
\<close>

inductive handshake :: "'t packettypes \<Rightarrow> 't conn \<Rightarrow> byte list \<Rightarrow> 't conn \<Rightarrow> bool" for tbl c where
  start: "handshake tbl c [] c"
| packet: "handshake tbl c ts c1 \<Longrightarrow> \<not> recvfirstnewkeys (s_kexstate (cn_ses c1)) \<Longrightarrow> buf_getbyte p = Inr (t, p') \<Longrightarrow> process_packet tbl (deliver p c1) = Inr c2 \<Longrightarrow>
     handshake tbl c (ts @ [t]) c2"
| other: "handshake tbl c ts c1 \<Longrightarrow> handshake_state c2 = handshake_state c1 \<Longrightarrow> handshake tbl c ts c2"

lemma handshake_next:
  assumes "handshake tbl c ts c1" "\<not> recvfirstnewkeys (s_kexstate (cn_ses c1))" "\<exists>p'. buf_getbyte p = Inr (t, p')"
    "process_packet tbl (deliver p c1) = Inr c2" "handshake_state c2 = handshake_state c3"
  shows "handshake tbl c (ts @ [t]) c3"
  using assms handshake.packet handshake.other by metis

section \<open>The invariant of the first exchange\<close>

definition first_kex :: "'t conn \<Rightarrow> byte list \<Rightarrow> bool" where
  "first_kex c ts \<longleftrightarrow> (case handshake_state c of (recvseq, requirenext, ign, strict, donefirst, first) \<Rightarrow>
     \<not> first \<and> recvseq = of_nat (length ts) \<and>
     (requirenext = 20 \<and> \<not> strict \<and> \<not> donefirst \<and> \<not> ign \<or>
      requirenext = 30 \<and> (strict \<longrightarrow> ts = [20] \<or> ts = [20, 30] \<and> \<not> ign) \<or>
      requirenext = 21 \<and> (strict \<longrightarrow> \<not> ign \<and> (ts = [20, 30] \<or> ts = [20, 30, 30]))))"

lemma hs_of_same [simp]:
  "hs_of (at_dispatch t s) = hs_of s" "hs_of (keepalive_seen s) = hs_of s" "hs_of (cn_ses (packet_out t c)) = handshake_state c"
  by (simp_all add: hs_of_def at_dispatch_def keepalive_seen_def packet_out_def monotonic_now_def Let_def)

lemma hs_of_sends: "sends s s' \<Longrightarrow> hs_of s' = hs_of s"
  by (simp add: hs_of_def sends_same)

lemma unimplemented_state: "on_ses recv_unimplemented c = Inr c' \<Longrightarrow> handshake_state c' = handshake_state c"
  by (auto simp: on_ses_def rbind_eq_Inr recv_unimplemented_def dest!: send_fields_sends hs_of_sends)

text \<open>A packet that is not handed to a handler changes at most the flag of an ignored packet.\<close>

lemma perform_no_handler:
  assumes "perform tbl t c = Inr c'" and "packet_action (cn_ses c) t \<noteq> Handle"
  shows "(packet_action (cn_ses c) t \<noteq> Skip_once \<and> handshake_state c' = handshake_state c) \<or>
    (packet_action (cn_ses c) t = Skip_once \<and> handshake_state c' = hs_of ((cn_ses c)\<lparr>s_ignorenext := False\<rparr>))"
proof (cases "packet_action (cn_ses c) t")
  case Skip_once
  have "hs_of ((at_dispatch t s)\<lparr>s_ignorenext := False\<rparr>) = hs_of (s\<lparr>s_ignorenext := False\<rparr>)" for s
    by (simp add: hs_of_def at_dispatch_def monotonic_now_def Let_def)
  then show ?thesis using assms Skip_once by (auto simp: perform_def Let_def)
next
  case Reply_unimplemented
  then show ?thesis using assms by (auto simp: perform_def Let_def rbind_eq_Inr dest!: unimplemented_state)
qed (use assms in \<open>auto simp: perform_def Let_def\<close>)

text \<open>What the three handlers do to the state of the handshake.\<close>

lemma kexinit_state:
  assumes "recv_msg_kexinit T s = Inr s'"
  shows "s_recvseq s' = s_recvseq s \<and> s_requirenext s' = 30 \<and> donefirstkex (s_kexstate s') = donefirstkex (s_kexstate s) \<and>
    recvfirstnewkeys (s_kexstate s') = recvfirstnewkeys (s_kexstate s) \<and>
    (strict_kex (s_kexstate s') \<longrightarrow> donefirstkex (s_kexstate s) \<or> s_recvseq s = 1)"
  using res_postD [OF kexinit_post assms] by (auto simp: kxi_frame_def)

lemma kexdh_state:
  assumes "kexdh_handler kc fuel c = Inr c'"
  shows "s_recvseq (cn_ses c') = s_recvseq (cn_ses c) \<and> s_requirenext (cn_ses c') = 21 \<and>
    strict_kex (s_kexstate (cn_ses c')) = strict_kex (s_kexstate (cn_ses c)) \<and> s_ignorenext (cn_ses c') = s_ignorenext (cn_ses c) \<and>
    recvfirstnewkeys (s_kexstate (cn_ses c')) = recvfirstnewkeys (s_kexstate (cn_ses c))"
  using assms res_postD [OF kexdh_init_post [OF kx_frame_refl]]
  by (auto simp: kexdh_handler_def rbind_eq_Inr kx_frame_def)

lemma newkeys_state:
  assumes "recv_msg_newkeys s = Inr s'"
  shows "recvfirstnewkeys (s_kexstate s') \<and> strict_kex (s_kexstate s') = strict_kex (s_kexstate s)"
proof -
  obtain s1 where s1: "switch_keys (s\<lparr>s_kexstate := (s_kexstate s)\<lparr>recvnewkeys := True\<rparr>\<rparr>) = Inr s1"
    and s': "s' = (let s = (if strict_kex (s_kexstate s1) then s1\<lparr>s_recvseq := 0\<rparr> else s1)
       in s\<lparr>s_kexstate := (s_kexstate s)\<lparr>recvfirstnewkeys := True\<rparr>\<rparr>)"
    using assms by (auto simp: recv_msg_newkeys_def rbind_eq_Inr Let_def)
  have "kx_frame (s\<lparr>s_kexstate := (s_kexstate s)\<lparr>recvnewkeys := True\<rparr>\<rparr>) s1"
    using res_postD [OF kx_post_switch [OF kx_frame_refl] s1] .
  then show ?thesis by (simp add: s' Let_def kx_frame_def)
qed

lemma deliver_type:
  assumes "buf_getbyte p = Inr (t, p')"
  shows "\<exists>c1. on_ses_get (on_payload buf_getbyte) (deliver p c) = Inr (t, c1) \<and>
    cn_ses c1 = (cn_ses c)\<lparr>s_payload := Some p', s_recvseq := s_recvseq (cn_ses c) + 1\<rparr>"
  using assms by (simp add: deliver_def on_ses_get_def on_payload_def)

lemma strict_action:
  assumes "perform tbl t c = Inr c'" "strict_kex (s_kexstate (cn_ses c))" "\<not> recvfirstnewkeys (s_kexstate (cn_ses c))"
    "s_requirenext (cn_ses c) \<noteq> 0"
  shows "t = s_requirenext (cn_ses c) \<and> packet_action (cn_ses c) t = (if s_ignorenext (cn_ses c) then Skip_once else Handle)"
proof -
  have "packet_action (cn_ses c) t \<notin> {Close, Refuse_unexpected, Refuse_unauth}"
    using assms(1) by (auto simp: perform_def Let_def)
  then show ?thesis using assms by (auto simp: packet_action_def Let_def split: if_splits)
qed

text \<open>The state in which a handler runs.\<close>

lemma dispatch_state:
  assumes "packet_action (cn_ses c) t = Handle"
  shows "hs_of (meet_requirement (at_dispatch t (cn_ses c))) =
    (s_recvseq (cn_ses c), 0, False, strict_kex (s_kexstate (cn_ses c)), donefirstkex (s_kexstate (cn_ses c)),
     recvfirstnewkeys (s_kexstate (cn_ses c)))"
  using assms
  by (auto simp: packet_action_def Let_def hs_of_def meet_requirement_def at_dispatch_def monotonic_now_def split: if_splits)

lemma of_nat_Suc_1: "of_nat (Suc n) = (1 :: u32) \<Longrightarrow> Suc n < 4294967296 \<Longrightarrow> n = 0"
proof -
  assume h: "of_nat (Suc n) = (1 :: u32)" "Suc n < 4294967296"
  have "unat (of_nat (Suc n) :: u32) = Suc n" by (rule unat_of_nat_u32) (use h in simp)
  then show "n = 0" unfolding h(1) by simp
qed

lemma first_kex_handled:
  assumes I: "first_kex c ts" and tbl: "transport_table kc fuel tbl" and len: "Suc (length ts) < 4294967296"
    and c1: "cn_ses c1 = (cn_ses c)\<lparr>s_payload := Some p', s_recvseq := s_recvseq (cn_ses c) + 1\<rparr>"
    and run: "perform tbl t c1 = Inr c2" and act: "packet_action (cn_ses c1) t = Handle"
  shows "first_kex c2 (ts @ [t]) \<or> (t = 21 \<and> recvfirstnewkeys (s_kexstate (cn_ses c2)) \<and>
    (strict_kex (s_kexstate (cn_ses c2)) \<longrightarrow> ts = [20, 30] \<or> ts = [20, 30, 30]))"
proof -
  let ?d = "c1\<lparr>cn_ses := meet_requirement (at_dispatch t (cn_ses c1))\<rparr>" and ?s = "cn_ses c"
  have req: "s_requirenext ?s \<in> {20, 30, 21}" using I by (auto simp: first_kex_def hs_of_def)
  have t: "t = s_requirenext ?s"
    using act req c1 by (auto simp: packet_action_def Let_def split: if_splits)
  have hs: "hs_of (cn_ses ?d) = (s_recvseq ?s + 1, 0, False, strict_kex (s_kexstate ?s), donefirstkex (s_kexstate ?s), recvfirstnewkeys (s_kexstate ?s))"
    using dispatch_state [OF act] c1 by simp
  have run': "\<exists>c3. h ?d = Inr c3 \<and> handshake_state c2 = handshake_state c3" if h: "find_handler tbl t = Some h" for h
  proof -
    obtain c3 where "h ?d = Inr c3" "c2 = packet_out t c3"
      using run h act by (auto simp: perform_def Let_def rbind_eq_Inr)
    then show ?thesis by auto
  qed
  consider "t = 20" | "t = 30" | "t = 21" using req t by auto
  then show ?thesis
  proof cases
    case 1
    obtain c3 where c3: "kexinit_handler ?d = Inr c3" "handshake_state c2 = handshake_state c3"
      using run' tbl 1 by (auto simp: transport_table_def)
    then have "recv_msg_kexinit (cn_algos c1) (cn_ses ?d) = Inr (cn_ses c3)"
      by (auto simp: kexinit_handler_def on_ses_def rbind_eq_Inr)
    note k = kexinit_state [OF this]
    have early: "\<not> donefirstkex (s_kexstate ?s)" "s_recvseq ?s + 1 = of_nat (Suc (length ts))" "\<not> recvfirstnewkeys (s_kexstate ?s)"
      using I t 1 by (auto simp: first_kex_def hs_of_def)
    have "ts = []" if "strict_kex (s_kexstate (cn_ses c3))"
    proof -
      have "s_recvseq ?s + 1 = 1" using k that hs early(1) by (simp add: hs_of_def)
      then show ?thesis using early(2) len of_nat_Suc_1 [of "length ts"] by simp
    qed
    then show ?thesis using k hs early 1 c3(2) by (simp add: first_kex_def hs_of_def)
  next
    case 2
    obtain c3 where c3: "kexdh_handler kc fuel ?d = Inr c3" "handshake_state c2 = handshake_state c3"
      using run' tbl 2 by (auto simp: transport_table_def)
    show ?thesis using kexdh_state [OF c3(1)] hs I t 2 c3(2) by (auto simp: first_kex_def hs_of_def)
  next
    case 3
    obtain c3 where c3: "newkeys_handler ?d = Inr c3" "handshake_state c2 = handshake_state c3"
      using run' tbl 3 by (auto simp: transport_table_def)
    then have "recv_msg_newkeys (cn_ses ?d) = Inr (cn_ses c3)"
      by (auto simp: newkeys_handler_def on_ses_def rbind_eq_Inr)
    note k = newkeys_state [OF this]
    show ?thesis using k hs I t 3 c3(2) by (auto simp: first_kex_def hs_of_def)
  qed
qed

lemma first_kex_unhandled:
  assumes I: "first_kex c ts"
    and c1: "cn_ses c1 = (cn_ses c)\<lparr>s_payload := Some p', s_recvseq := s_recvseq (cn_ses c) + 1\<rparr>"
    and pf: "perform tbl t c1 = Inr c2" and act: "packet_action (cn_ses c1) t \<noteq> Handle"
  shows "first_kex c2 (ts @ [t])"
proof -
  obtain q r g st d f where h: "handshake_state c = (q, r, g, st, d, f)" by (cases "handshake_state c") auto
  have h1: "handshake_state c1 = (q + 1, r, g, st, d, f)" using h by (simp add: hs_of_def c1)
  have r: "r \<noteq> 0" "\<not> f" using I by (auto simp: first_kex_def h)
  have fields: "s_requirenext (cn_ses c1) = r" "s_ignorenext (cn_ses c1) = g" "strict_kex (s_kexstate (cn_ses c1)) = st"
      "recvfirstnewkeys (s_kexstate (cn_ses c1)) = f"
    using h1 by (simp_all add: hs_of_def)
  have skipped: "hs_of ((cn_ses c1)\<lparr>s_ignorenext := False\<rparr>) = (q + 1, r, False, st, d, f)"
    using h1 by (simp add: hs_of_def)
  have sk: "t = r" "packet_action (cn_ses c1) t = Skip_once" if st
    using strict_action [OF pf] act that r fields by (auto split: if_splits)
  obtain g' where c2: "handshake_state c2 = (q + 1, r, g', st, d, f)" and g': "g' \<longrightarrow> g" "st \<longrightarrow> \<not> g' \<and> g"
    using perform_no_handler [OF pf act] h1 skipped sk strict_action [OF pf] fields r by (auto split: if_splits)
  have "t = r" if st using sk that by simp
  then show ?thesis using I g' by (auto simp: first_kex_def h c2)
qed

lemma first_kex_step:
  assumes I: "first_kex c ts" and tbl: "transport_table kc fuel tbl" and len: "Suc (length ts) < 4294967296"
    and p: "buf_getbyte p = Inr (t, p')" and run: "process_packet tbl (deliver p c) = Inr c2"
  shows "first_kex c2 (ts @ [t]) \<or> (t = 21 \<and> recvfirstnewkeys (s_kexstate (cn_ses c2)) \<and>
    (strict_kex (s_kexstate (cn_ses c2)) \<longrightarrow> ts = [20, 30] \<or> ts = [20, 30, 30]))"
proof -
  obtain c1 where g: "on_ses_get (on_payload buf_getbyte) (deliver p c) = Inr (t, c1)"
      and c1: "cn_ses c1 = (cn_ses c)\<lparr>s_payload := Some p', s_recvseq := s_recvseq (cn_ses c) + 1\<rparr>"
    using deliver_type [OF p] by blast
  have pf: "perform tbl t c1 = Inr c2" using run g by (simp add: process_packet_decides)
  show ?thesis
  proof (cases "packet_action (cn_ses c1) t = Handle")
    case True
    then show ?thesis using first_kex_handled [OF I tbl len c1 pf] by simp
  next
    case False
    have "first_kex c2 (ts @ [t])" by (rule first_kex_unhandled [OF I c1 pf False])
    then show ?thesis ..
  qed
qed

lemma handshake_inv:
  assumes "handshake tbl c0 ts c" and tbl: "transport_table kc fuel tbl"
    and c0: "handshake_state c0 = (0, 20, False, False, False, False)" and "length ts < 4294967296"
  shows "first_kex c ts \<or> recvfirstnewkeys (s_kexstate (cn_ses c)) \<and>
    (strict_kex (s_kexstate (cn_ses c)) \<longrightarrow> ts \<in> {[20, 30, 21], [20, 30, 30, 21]})"
  using assms(1,4)
proof (induction rule: handshake.induct)
  case start
  then show ?case by (simp add: first_kex_def c0)
next
  case (packet ts c1 p t p' c2)
  then have "first_kex c1 ts" by auto
  from first_kex_step [OF this tbl _ packet.hyps(3,4)] packet.prems show ?case by auto
next
  case (other ts c1 c2)
  have "first_kex c2 ts = first_kex c1 ts" using other.hyps by (simp add: first_kex_def)
  moreover have "recvfirstnewkeys (s_kexstate (cn_ses c2)) = recvfirstnewkeys (s_kexstate (cn_ses c1))"
      "strict_kex (s_kexstate (cn_ses c2)) = strict_kex (s_kexstate (cn_ses c1))"
    using other.hyps by (simp_all add: hs_of_def)
  ultimately show ?case using other by simp
qed

text \<open>
  Property C3. Strict key exchange admits exactly one conversation: starting from a new session,
  if the first NEWKEYS takes effect with strict key exchange agreed, then the peer sent a
  KEXINIT, a KEXDH_INIT (and before it one wrongly guessed KEXDH_INIT that is skipped) and
  NEWKEYS, and nothing else: no IGNORE, DEBUG or unknown packet can have been inserted by an
  attacker to shift the sequence numbers (the Terrapin attack). Fewer than 2^32 packets are
  considered, the span of the sequence number.
\<close>

theorem strict_kex_sequence:
  assumes "common_session_init lib w z = Inr s0" and "hs_of (cn_ses c0) = hs_of s0" and "transport_table kc fuel tbl"
    and "handshake tbl c0 ts c" and "length ts < 4294967296"
    and "recvfirstnewkeys (s_kexstate (cn_ses c))" and "strict_kex (s_kexstate (cn_ses c))"
  shows "ts = [20, 30, 21] \<or> ts = [20, 30, 30, 21]"
proof -
  have "hs_of s0 = (0, 20, False, False, False, False)"
    using assms(1) by (auto simp: common_session_init_def initial_session_def rbind_eq_Inr Let_def hs_of_def zero_KEXState_def)
  then have "handshake_state c0 = (0, 20, False, False, False, False)" using assms(2) by simp
  from handshake_inv [OF assms(4,3) this assms(5)] show ?thesis
    using assms(6,7) by (auto simp: first_kex_def hs_of_def)
qed


text \<open>The shortest conversation, with the example's algorithms.\<close>

definition example_start :: "unit conn" where
  "example_start = (plain_conn (example_proposal\<lparr>s_payload := None, s_recvseq := 0, s_requirenext := 20,
     s_world := plain_world\<lparr>w_ticks := 1\<rparr>\<rparr>))\<lparr>cn_algos := example_tables\<rparr>"

definition example_table :: "unit packettypes" where
  "example_table = [(20, kexinit_handler), (30, kexdh_handler example_crypto 3), (21, newkeys_handler)]"

definition example_dh_next :: "unit conn" where
  "example_dh_next = (plain_conn (example_dh\<lparr>s_payload := None, s_recvseq := 1, s_requirenext := 30\<rparr>))\<lparr>cn_algos := example_tables\<rparr>"

definition example_newkeys_next :: "bool \<Rightarrow> unit conn" where
  "example_newkeys_next d = plain_conn (example_kex\<lparr>s_recvseq := 2, s_requirenext := 21, s_kexstate := (s_kexstate example_kex)\<lparr>donefirstkex := d\<rparr>\<rparr>)"

lemma example_table_ok: "transport_table example_crypto 3 example_table"
  by (simp add: transport_table_def example_table_def)

lemma example_kexinit_step:
  "\<exists>c. process_packet example_table (deliver (payload_of example_kexinit) example_start) = Inr c \<and>
     handshake_state c = handshake_state example_dh_next"
proof -
  obtain s' where s': "recv_msg_kexinit example_tables example_proposal = Inr s'" "s_recvseq s' = 1" "s_requirenext s' = 30"
      "\<not> s_ignorenext s'" "strict_kex (s_kexstate s')" "\<not> donefirstkex (s_kexstate s')" "\<not> recvfirstnewkeys (s_kexstate s')"
    using example_kexinit_returns by blast
  let ?c = "deliver (payload_of example_kexinit) example_start"
  have g: "buf_getbyte (payload_of example_kexinit) = Inr (20, mk_buf example_kexinit [] 1)"
    by (simp add: buf_getbyte_def payload_of_def mk_buf_def length_example_kexinit mem_read_def)
      (simp add: example_kexinit_def)
  have d: "on_ses_get (on_payload buf_getbyte) ?c =
      Inr (20, example_start\<lparr>cn_ses := (cn_ses example_start)\<lparr>s_payload := Some (mk_buf example_kexinit [] 1), s_recvseq := 1\<rparr>\<rparr>)"
    using g by (simp add: deliver_def on_ses_get_def on_payload_def example_start_def plain_conn_def)
  have "meet_requirement (at_dispatch 20 ((cn_ses example_start)\<lparr>s_payload := Some (mk_buf example_kexinit [] 1), s_recvseq := 1\<rparr>)) = example_proposal"
    by (simp add: meet_requirement_def at_dispatch_def monotonic_now_def example_start_def plain_conn_def example_proposal_def
        small_session_def initial_session_def plain_world_def Let_def)
  then have "perform example_table 20 (example_start\<lparr>cn_ses := (cn_ses example_start)\<lparr>s_payload := Some (mk_buf example_kexinit [] 1), s_recvseq := 1\<rparr>\<rparr>)
      = Inr (packet_out 20 (example_start\<lparr>cn_ses := s'\<rparr>))"
    using s'(1) by (simp add: perform_def Let_def packet_action_def example_table_def kexinit_handler_def on_ses_def
      example_start_def plain_conn_def example_proposal_def small_session_def initial_session_def zero_KEXState_def Let_def)
  then show ?thesis using s' d
    by (auto simp: process_packet_decides hs_of_def packet_out_def example_dh_next_def plain_conn_def example_dh_def example_kex_def
      small_session_def initial_session_def zero_KEXState_def Let_def)
qed

lemma example_dh_step:
  "case process_packet example_table (deliver (payload_of [30, 0, 0, 0, 1, 9]) example_dh_next) of Inl e \<Rightarrow> False
   | Inr c \<Rightarrow> (case hs_of (cn_ses c) of (q, r, g, st, d, f) \<Rightarrow> q = 2 \<and> r = 21 \<and> \<not> g \<and> st \<and> \<not> f)"
  by code_simp

lemma example_newkeys_step:
  "case process_packet example_table (deliver (payload_of [21]) (example_newkeys_next d)) of Inl e \<Rightarrow> False
   | Inr c \<Rightarrow> recvfirstnewkeys (s_kexstate (cn_ses c)) \<and> strict_kex (s_kexstate (cn_ses c))"
  by code_simp

lemma example_getbytes:
  "\<exists>p. buf_getbyte (payload_of example_kexinit) = Inr (20, p)" "\<exists>p. buf_getbyte (payload_of [30, 0, 0, 0, 1, 9]) = Inr (30, p)"
  "\<exists>p. buf_getbyte (payload_of [21]) = Inr (21, p)"
  by (simp_all add: buf_getbyte_def payload_of_def length_example_kexinit mem_read_def) (simp add: example_kexinit_def)

lemma example_handshake:
  "\<exists>c. handshake example_table example_start [20, 30, 21] c \<and> recvfirstnewkeys (s_kexstate (cn_ses c)) \<and> strict_kex (s_kexstate (cn_ses c))"
proof -
  let ?h = "handshake example_table example_start"
  have not_first: "\<not> recvfirstnewkeys (s_kexstate (cn_ses example_start))" "\<not> recvfirstnewkeys (s_kexstate (cn_ses example_dh_next))"
      "\<not> recvfirstnewkeys (s_kexstate (cn_ses (example_newkeys_next d)))" for d
    by (simp_all add: example_start_def example_dh_next_def example_newkeys_next_def plain_conn_def example_proposal_def
        example_dh_def example_kex_def zero_KEXState_def)
  obtain c1 where c1: "process_packet example_table (deliver (payload_of example_kexinit) example_start) = Inr c1"
      "handshake_state c1 = handshake_state example_dh_next" using example_kexinit_step by blast
  have 1: "?h [20] example_dh_next"
    using handshake_next [OF handshake.start not_first(1) example_getbytes(1) c1] by simp
  obtain c2 where c2: "process_packet example_table (deliver (payload_of [30, 0, 0, 0, 1, 9]) example_dh_next) = Inr c2"
      "case handshake_state c2 of (q, r, g, st, d, f) \<Rightarrow> q = 2 \<and> r = 21 \<and> \<not> g \<and> st \<and> \<not> f"
    using example_dh_step by (auto split: sum.splits)
  then obtain d where "handshake_state c2 = handshake_state (example_newkeys_next d)"
    by (cases "handshake_state c2")
      (auto simp: example_newkeys_next_def hs_of_def plain_conn_def example_kex_def zero_KEXState_def small_session_def initial_session_def Let_def)
  then have 2: "?h [20, 30] (example_newkeys_next d)"
    using handshake_next [OF 1 not_first(2) example_getbytes(2) c2(1)] by simp
  obtain c3 where c3: "process_packet example_table (deliver (payload_of [21]) (example_newkeys_next d)) = Inr c3"
      "recvfirstnewkeys (s_kexstate (cn_ses c3))" "strict_kex (s_kexstate (cn_ses c3))"
    using example_newkeys_step [of d] by (auto split: sum.splits)
  then show ?thesis
    using handshake_next [OF 2 not_first(3) example_getbytes(3) c3(1) refl] by auto
qed

theorem strict_kex_sequence_witness:
  "\<exists>c ts. handshake example_table example_start ts c \<and> recvfirstnewkeys (s_kexstate (cn_ses c)) \<and>
     strict_kex (s_kexstate (cn_ses c)) \<and> (ts = [20, 30, 21] \<or> ts = [20, 30, 30, 21])"
proof -
  obtain c where c: "handshake example_table example_start [20, 30, 21] c" "recvfirstnewkeys (s_kexstate (cn_ses c))"
    "strict_kex (s_kexstate (cn_ses c))" using example_handshake by blast
  obtain s0 where s0: "common_session_init plain_libs plain_world False = Inr s0"
    by (simp add: common_session_init_def buf_new_eq)
  then have "hs_of (cn_ses example_start) = hs_of s0"
    by (auto simp: common_session_init_def rbind_eq_Inr hs_of_def example_start_def plain_conn_def example_proposal_def
        small_session_def initial_session_def zero_KEXState_def Let_def)
  from strict_kex_sequence [OF s0 this example_table_ok c(1) _ c(2,3)] c show ?thesis by auto
qed

end
