(* ===== verification/Ikofi.thy ===== *)
theory Ikofi
  imports Connection
begin

unbundle bit_operations_syntax

text \<open>
  The application's side of the server, \<^verbatim>\<open>jni-dropbear.c\<close>: configuration files, the redirection of
  commands to the bundled executables, the environment, single-use passwords, the password file and
  the hooks that Dropbear's authentication calls. C strings are byte lists without a zero; a string
  formatted into an allocation is checked against its size. Of the log, the lines that carry the
  single-use password are kept. Starting the process from Java is not modelled.
\<close>

section \<open>C strings\<close>

text \<open>The string at the start of some memory: up to the first zero byte.\<close>

definition c_string :: "bytes \<Rightarrow> bytes" where
  "c_string bs = takeWhile (\<lambda>b. b \<noteq> 0) bs"

text \<open>\<^verbatim>\<open>sprintf\<close> into an allocation of \<open>n\<close> bytes: the characters and a final zero have to fit.\<close>

definition sprintf_alloc :: "nat \<Rightarrow> bytes \<Rightarrow> bytes res" where
  "sprintf_alloc n bs = (if length bs + 1 \<le> n then Inr bs else Inl Fault)"

text \<open>\<^verbatim>\<open>strtok_r\<close> with one delimiter: the token, if any, and where to go on.\<close>

definition strtok :: "byte \<Rightarrow> bytes \<Rightarrow> bytes option \<times> bytes" where
  "strtok d s =
     (let s = dropWhile (\<lambda>b. b = d) s in
      if s = [] then (None, [])
      else (Some (takeWhile (\<lambda>b. b \<noteq> d) s), drop 1 (dropWhile (\<lambda>b. b \<noteq> d) s)))"

text \<open>\<^verbatim>\<open>strncmp(s, p, strlen(p)) == 0\<close>.\<close>

definition has_prefix :: "bytes \<Rightarrow> bytes \<Rightarrow> bool" where
  "has_prefix p s \<longleftrightarrow> take (length p) s = p"

section \<open>Configuration files\<close>

abbreviation (input) "AUTHORIZED_USERS_FILE \<equiv> cstr ''master_password''"
abbreviation (input) "AUTHORIZED_KEYS_FILE \<equiv> cstr ''authorized_keys''"

definition ikofi_conf_file :: "ikofi \<Rightarrow> bytes \<Rightarrow> bytes res" where
  "ikofi_conf_file k fn = sprintf_alloc (length (conf_path k) + length fn + 1 + 1) (conf_path k @ cstr ''/'' @ fn)"

definition config_file_exists :: "ikofi \<Rightarrow> bytes \<Rightarrow> nat \<Rightarrow> bool res" where
  "config_file_exists k filename min_chars =
     rbind (ikofi_conf_file k filename) (\<lambda>fn.
     Inr (case ik_files k fn of None \<Rightarrow> False | Some content \<Rightarrow> min_chars \<le> length content))"

section \<open>Executable redirection\<close>

definition ikofi_exe_to_lib :: "ikofi \<Rightarrow> bytes option \<Rightarrow> bytes option res" where
  "ikofi_exe_to_lib k cmd =
     (case cmd of
        None \<Rightarrow> Inr None
      | Some c \<Rightarrow>
          if has_prefix (cstr ''scp '') c then
            rbind (sprintf_alloc (length (lib_path k) + 11 + length c + 1) (lib_path k @ cstr ''/libscp.so '' @ drop 4 c))
              (\<lambda>t. Inr (Some t))
          else if has_prefix (cstr ''rsync '') c then
            rbind (sprintf_alloc (length (lib_path k) + 13 + length c - 6 + 1) (lib_path k @ cstr ''/librsync.so '' @ drop 6 c))
              (\<lambda>t. Inr (Some t))
          else if has_prefix (cstr ''sftp-server'') c then
            rbind (sprintf_alloc (length (lib_path k) + 18 + 1) (lib_path k @ cstr ''/libsftp-server.so''))
              (\<lambda>t. Inr (Some t))
          else Inr (Some c))"

section \<open>Environment\<close>

abbreviation (input) "CR \<equiv> 13 :: byte"
abbreviation (input) "LF \<equiv> 10 :: byte"
abbreviation (input) "EQUALS \<equiv> 61 :: byte"

text \<open>The loop of \<^verbatim>\<open>ikofi_set_env\<close>; the result lists the calls of \<^verbatim>\<open>setenv\<close>.\<close>

function set_env_loop :: "bytes \<Rightarrow> (bytes \<times> bytes) list" where
  "set_env_loop s =
     (if s = [] then [] else
      let name = takeWhile (\<lambda>b. b \<noteq> EQUALS \<and> b \<noteq> CR \<and> b \<noteq> LF) s;
          s1 = dropWhile (\<lambda>b. b \<noteq> EQUALS \<and> b \<noteq> CR \<and> b \<noteq> LF) s;
          (val, s2) = (if s1 \<noteq> [] \<and> hd s1 = EQUALS
                       then (takeWhile (\<lambda>b. b \<noteq> CR \<and> b \<noteq> LF) (tl s1), dropWhile (\<lambda>b. b \<noteq> CR \<and> b \<noteq> LF) (tl s1))
                       else ([], s1));
          s3 = dropWhile (\<lambda>b. b = CR \<or> b = LF) s2 in
      (if name \<noteq> [] then [(name, val)] else []) @ set_env_loop s3)"
  by auto

lemma length_dropWhile_less: "xs \<noteq> [] \<Longrightarrow> P (hd xs) \<Longrightarrow> length (dropWhile P xs) < length xs"
  using length_dropWhile_le [of P "tl xs"] by (cases xs) (auto simp: less_Suc_eq_le)

termination set_env_loop
proof (relation "measure length")
  fix s name s1 s2 s3 val and p :: "bytes \<times> bytes"
  assume h: "s \<noteq> []" "name = takeWhile (\<lambda>b. b \<noteq> EQUALS \<and> b \<noteq> CR \<and> b \<noteq> LF) s"
    "s1 = dropWhile (\<lambda>b. b \<noteq> EQUALS \<and> b \<noteq> CR \<and> b \<noteq> LF) s"
    "p = (if s1 \<noteq> [] \<and> hd s1 = EQUALS
          then (takeWhile (\<lambda>b. b \<noteq> CR \<and> b \<noteq> LF) (tl s1), dropWhile (\<lambda>b. b \<noteq> CR \<and> b \<noteq> LF) (tl s1)) else ([], s1))"
    "(val, s2) = p" "s3 = dropWhile (\<lambda>b. b = CR \<or> b = LF) s2"
  have 1: "length s1 \<le> length s" unfolding h(3) by (rule length_dropWhile_le)
  have 3: "length s3 \<le> length s2" unfolding h(6) by (rule length_dropWhile_le)
  have "length s3 < length s"
  proof (cases "s1 \<noteq> [] \<and> hd s1 = EQUALS")
    case True
    then have "length s2 < length s1"
      using h(4,5) length_dropWhile_le [of "\<lambda>b. b \<noteq> CR \<and> b \<noteq> LF" "tl s1"] by (cases s1) auto
    then show ?thesis using 1 3 by simp
  next
    case False
    then have s2: "s2 = s1" using h(4,5) by auto
    show ?thesis
    proof (cases "s1 = []")
      case True
      then show ?thesis using h(1) 3 s2 by simp
    next
      case ne: False
      have "hd s1 = CR \<or> hd s1 = LF" using hd_dropWhile ne False unfolding h(3) by fast
      then show ?thesis using length_dropWhile_less [OF ne, of "\<lambda>b. b = CR \<or> b = LF"] 1 by (simp add: h(6) s2)
    qed
  qed
  then show "(s3, s) \<in> measure length" by simp
qed simp

declare set_env_loop.simps [simp del]

abbreviation (input) "IKOFI_CONF_DIR \<equiv> cstr ''IKOFI_CONF_DIR''"

definition ikofi_set_env :: "ikofi \<Rightarrow> (bytes \<times> bytes) list" where
  "ikofi_set_env k =
     (case env_var_list k of
        None \<Rightarrow> []
      | Some s \<Rightarrow> set_env_loop s @ [(IKOFI_CONF_DIR, conf_path k)])"

section \<open>Passwords\<close>

definition tab64 :: bytes where
  "tab64 = cstr ''abcdefghijk!mnopqrstuvwxyzABCDEFGH@JKLMN#PQRSTUVWXYZ$%23456789^&''"

definition ikofi_generate_single_use_password :: "'t conn \<Rightarrow> bytes \<times> 't conn" where
  "ikofi_generate_single_use_password c =
     (let (r, s) = genrandom (cn_ses c) 8; pw = map (\<lambda>b. tab64 ! unat (b AND 63)) r
      in (pw, emit (Ev_log pw) (c\<lparr>cn_ses := s\<rparr>)))"

definition getline :: "bytes \<Rightarrow> bytes" where
  "getline content = takeWhile (\<lambda>b. b \<noteq> LF) content @ take 1 (dropWhile (\<lambda>b. b \<noteq> LF) content)"

abbreviation (input) "COLON \<equiv> 58 :: byte"

text \<open>The result, and what is left in \<^verbatim>\<open>*user\<close> and \<^verbatim>\<open>*password\<close>, which start as null.\<close>

definition ikofi_get_user_password :: "ikofi \<Rightarrow> (bool \<times> bytes option \<times> bytes option) res" where
  "ikofi_get_user_password k =
     rbind (ikofi_conf_file k AUTHORIZED_USERS_FILE) (\<lambda>fn.
     case ik_files k fn of
       None \<Rightarrow> Inr (False, None, None)
     | Some content \<Rightarrow>
         let line = getline content in
         if length line > 0 \<and> COLON \<in> set (c_string line) then
           let (user, rest) = strtok COLON (c_string line); (password, rest) = strtok COLON rest
           in Inr (True, user, password)
         else Inr (False, None, None))"

definition upd_auth :: "(AuthState \<Rightarrow> AuthState) \<Rightarrow> 't conn \<Rightarrow> 't conn" where
  "upd_auth f c = c\<lparr>cn_ses := (cn_ses c)\<lparr>s_authstate := f (s_authstate (cn_ses c))\<rparr>\<rparr>"

text \<open>The condition of the branch for the password file, with its reads through the pointers.\<close>

definition matches_file_user :: "bool \<Rightarrow> bytes option \<Rightarrow> bytes option \<Rightarrow> AuthState \<Rightarrow> bool res" where
  "matches_file_user has_password_file user password a =
     (if \<not> has_password_file then Inr False else
      rbind (deref user) (\<lambda>u. if u = [] then Inr False else
      rbind (deref password) (\<lambda>p. if p = [] then Inr False else
      rbind (deref (a_username a)) (\<lambda>n. Inr (u = n)))))"

text \<open>The two strings the caller compares: \<^verbatim>\<open>passwdcrypt\<close> and \<^verbatim>\<open>testcrypt\<close>.\<close>

definition ikofi_svr_auth_password :: "bytes \<Rightarrow> 't conn \<Rightarrow> ((bytes option \<times> bytes option) \<times> 't conn) res" where
  "ikofi_svr_auth_password password c =
     rbind (ikofi_get_user_password (cn_ikofi c)) (\<lambda>(has_password_file, user, pass).
     rbind (matches_file_user has_password_file user pass (s_authstate (cn_ses c))) (\<lambda>matches.
     let strlen_ok = (length password = length (c_string password)) in
     if matches then
       let c = upd_auth (\<lambda>a. a\<lparr>pw_passwd := pass\<rparr>) c; k = cn_ikofi c in
       Inr ((pw_passwd (s_authstate (cn_ses c)),
             if strlen_ok then Some (c_string (ik_base64 k (ik_sha512 k password))) else None), c)
     else
       Inr ((pw_passwd (s_authstate (cn_ses c)), if strlen_ok then Some (c_string password) else None), c)))"

abbreviation (input) "AUTH_TYPE_PUBKEY \<equiv> 2 :: byte"
abbreviation (input) "AUTH_TYPE_PASSWORD \<equiv> 4 :: byte"

definition ikofi_enable_public_key_auth :: "ikofi \<Rightarrow> bool res" where
  "ikofi_enable_public_key_auth k =
     (if enable_public_key_auth k then config_file_exists k AUTHORIZED_KEYS_FILE 10 else Inr False)"

definition ikofi_enable_password_file :: "ikofi \<Rightarrow> bool res" where
  "ikofi_enable_password_file k = config_file_exists k AUTHORIZED_USERS_FILE 3"

definition ikofi_svr_authinitialise :: "'t conn \<Rightarrow> 't conn res" where
  "ikofi_svr_authinitialise c =
     rbind (ikofi_enable_public_key_auth (cn_ikofi c)) (\<lambda>pk.
     let c = upd_auth (\<lambda>a. a\<lparr>authtypes := (if pk then authtypes a OR AUTH_TYPE_PUBKEY else authtypes a AND NOT AUTH_TYPE_PUBKEY)\<rparr>) c in
     rbind (ikofi_enable_password_file (cn_ikofi c)) (\<lambda>pf.
     let c = (if pf then upd_auth (\<lambda>a. a\<lparr>authtypes := authtypes a OR AUTH_TYPE_PASSWORD\<rparr>) c else c) in
     Inr (if enable_single_use_passwords (cn_ikofi c) then
            let (gen_pass, c) = ikofi_generate_single_use_password c
            in upd_auth (\<lambda>a. a\<lparr>authtypes := authtypes a OR AUTH_TYPE_PASSWORD, pw_passwd := Some gen_pass\<rparr>) c
          else c)))"

section \<open>Properties\<close>

lemma sprintf_alloc_ok [simp]: "length bs < n \<Longrightarrow> sprintf_alloc n bs = Inr bs"
  by (simp add: sprintf_alloc_def)

lemma ikofi_conf_file_eq [simp]: "ikofi_conf_file k fn = Inr (conf_path k @ cstr ''/'' @ fn)"
  by (simp add: ikofi_conf_file_def)

lemma config_file_exists_eq [simp]:
  "config_file_exists k fn n = Inr (\<exists>content. ik_files k (conf_path k @ cstr ''/'' @ fn) = Some content \<and> n \<le> length content)"
  by (simp add: config_file_exists_def split: option.split)

lemma has_prefix_append [simp]: "has_prefix p (p @ s)"
  by (simp add: has_prefix_def)

lemma has_prefixE: "has_prefix p s \<Longrightarrow> (\<And>t. s = p @ t \<Longrightarrow> thesis) \<Longrightarrow> thesis"
  by (metis append_take_drop_id has_prefix_def)

lemma exe_to_lib_cases:
  "ikofi_exe_to_lib k (Some (cstr ''scp '' @ t)) = Inr (Some (lib_path k @ cstr ''/libscp.so '' @ t))"
  "ikofi_exe_to_lib k (Some (cstr ''rsync '' @ t)) = Inr (Some (lib_path k @ cstr ''/librsync.so '' @ t))"
  "ikofi_exe_to_lib k (Some (cstr ''sftp-server'' @ t)) = Inr (Some (lib_path k @ cstr ''/libsftp-server.so''))"
  by (simp_all add: ikofi_exe_to_lib_def has_prefix_def)

text \<open>
  Property C37. Executable redirection is total: no command line makes it write past one of its
  allocations. A command of \<open>scp\<close> or \<open>rsync\<close> is replaced by the path of the bundled executable and
  keeps its arguments, one that starts with \<open>sftp-server\<close> becomes that executable without arguments,
  and every other command is passed through.
\<close>

theorem exe_to_lib_redirects:
  "(\<exists>r. ikofi_exe_to_lib k cmd = Inr r) \<and>
   ikofi_exe_to_lib k (Some (cstr ''scp '' @ args)) = Inr (Some (lib_path k @ cstr ''/libscp.so '' @ args)) \<and>
   ikofi_exe_to_lib k (Some (cstr ''rsync '' @ args)) = Inr (Some (lib_path k @ cstr ''/librsync.so '' @ args)) \<and>
   ikofi_exe_to_lib k (Some (cstr ''sftp-server'' @ args)) = Inr (Some (lib_path k @ cstr ''/libsftp-server.so'')) \<and>
   ((\<exists>c. cmd = Some c \<and> (has_prefix (cstr ''scp '') c \<or> has_prefix (cstr ''rsync '') c \<or> has_prefix (cstr ''sftp-server'') c)) \<or>
    ikofi_exe_to_lib k cmd = Inr cmd)"
proof -
  have "(\<exists>c. cmd = Some c \<and> (has_prefix (cstr ''scp '') c \<or> has_prefix (cstr ''rsync '') c \<or> has_prefix (cstr ''sftp-server'') c)) \<or>
    ikofi_exe_to_lib k cmd = Inr cmd"
    by (auto simp: ikofi_exe_to_lib_def split: option.splits)
  moreover from this have "\<exists>r. ikofi_exe_to_lib k cmd = Inr r"
    using exe_to_lib_cases [where k = k] has_prefixE by metis
  ultimately show ?thesis using exe_to_lib_cases [where k = k and t = args] by simp
qed

text \<open>The environment as a list of lines: a line is a name, and a value after its first equals sign.\<close>

definition eol :: "byte \<Rightarrow> bool" where
  "eol b \<longleftrightarrow> b = CR \<or> b = LF"

fun lines_of :: "bytes \<Rightarrow> bytes list" where
  "lines_of [] = [[]]"
| "lines_of (b # bs) = (if eol b then [] # lines_of bs else (b # hd (lines_of bs)) # tl (lines_of bs))"

definition env_entry :: "bytes \<Rightarrow> (bytes \<times> bytes) list" where
  "env_entry l = (let name = takeWhile (\<lambda>b. b \<noteq> EQUALS) l
     in if name = [] then [] else [(name, tl (dropWhile (\<lambda>b. b \<noteq> EQUALS) l))])"

lemma lines_of_line: "lines_of s = takeWhile (\<lambda>b. \<not> eol b) s #
    (case dropWhile (\<lambda>b. \<not> eol b) s of [] \<Rightarrow> [] | _ # t \<Rightarrow> lines_of t)"
  by (induction s) auto

lemma lines_of_eols: "concat (map env_entry (lines_of (dropWhile eol s))) = concat (map env_entry (lines_of s))"
  by (induction s) (auto simp: env_entry_def)

lemma lines_of_next:
  "concat (map env_entry (lines_of s)) = env_entry (takeWhile (\<lambda>b. \<not> eol b) s) @
     concat (map env_entry (lines_of (dropWhile eol (dropWhile (\<lambda>b. \<not> eol b) s))))"
proof (cases "dropWhile (\<lambda>b. \<not> eol b) s")
  case Nil
  show ?thesis unfolding lines_of_line [of s] Nil by (simp add: env_entry_def)
next
  case (Cons b t)
  then have "eol b" using hd_dropWhile [of "\<lambda>b. \<not> eol b" s] by auto
  then show ?thesis unfolding lines_of_line [of s] Cons by (simp add: lines_of_eols)
qed

text \<open>One round of the loop reads one line.\<close>

lemma set_env_round:
  assumes "s \<noteq> []"
  shows "set_env_loop s = env_entry (takeWhile (\<lambda>b. \<not> eol b) s) @ set_env_loop (dropWhile eol (dropWhile (\<lambda>b. \<not> eol b) s))"
proof -
  let ?P = "\<lambda>b. b \<noteq> EQUALS \<and> \<not> eol b"
  have name: "takeWhile ?P s = takeWhile (\<lambda>b. b \<noteq> EQUALS) (takeWhile (\<lambda>b. \<not> eol b) s)" for s
    by (induction s) auto
  have eq: "(if dropWhile ?P s \<noteq> [] \<and> hd (dropWhile ?P s) = EQUALS
       then (takeWhile (\<lambda>b. \<not> eol b) (tl (dropWhile ?P s)), dropWhile (\<lambda>b. \<not> eol b) (tl (dropWhile ?P s)))
       else ([], dropWhile ?P s)) = (tl (dropWhile (\<lambda>b. b \<noteq> EQUALS) (takeWhile (\<lambda>b. \<not> eol b) s)), dropWhile (\<lambda>b. \<not> eol b) s)" for s
  proof (induction s)
    case (Cons b s)
    consider "?P b" | "b = EQUALS" | "eol b" "b \<noteq> EQUALS" by blast
    then show ?case
    proof cases
      case 1
      then show ?thesis using Cons.IH by (simp only: dropWhile.simps takeWhile.simps if_True simp_thms)
    next
      case 2
      then have "\<not> eol b" by (simp add: eol_def)
      with 2 show ?thesis by simp
    next
      case 3
      then show ?thesis by simp
    qed
  qed simp
  have preds: "(b \<noteq> CR \<and> b \<noteq> LF) = (\<not> eol b)" "(b = CR \<or> b = LF) = eol b" for b by (simp_all add: eol_def)
  show ?thesis
    using assms by (subst set_env_loop.simps) (simp only: preds Let_def eq name env_entry_def if_False prod.case if_not_P split: if_split, blast)
qed

text \<open>
  Property C38. The loop that exports the configured environment terminates on every string and
  sets, in order, exactly the variables of the lines that have a nonempty name, whatever the line
  ends are; the configuration directory is exported last and cannot be overridden.
\<close>

theorem set_env_lines:
  "ikofi_set_env k = (case env_var_list k of None \<Rightarrow> []
     | Some s \<Rightarrow> concat (map env_entry (lines_of s)) @ [(cstr ''IKOFI_CONF_DIR'', conf_path k)])"
proof -
  have "set_env_loop s = concat (map env_entry (lines_of s))" for s
  proof (induction "length s" arbitrary: s rule: less_induct)
    case less
    show ?case
    proof (cases "s = []")
      case True
      then show ?thesis by (subst set_env_loop.simps) (simp add: env_entry_def)
    next
      case False
      let ?t = "dropWhile eol (dropWhile (\<lambda>b. \<not> eol b) s)"
      have "length ?t < length s"
      proof (cases "eol (hd s)")
        case True
        then show ?thesis using length_dropWhile_less [OF False, of eol] by (cases s) auto
      next
        case f: False
        then show ?thesis
          using length_dropWhile_less [OF False, of "\<lambda>b. \<not> eol b"] length_dropWhile_le [of eol "dropWhile (\<lambda>b. \<not> eol b) s"] by simp
      qed
      then show ?thesis using set_env_round [OF False] less lines_of_next [of s] by simp
    qed
  qed
  then show ?thesis by (simp add: ikofi_set_env_def split: option.split)
qed

lemma and_63: "unat (b AND 63 :: byte) = unat b mod 64"
proof -
  have "b AND 63 = take_bit 6 b" by (simp add: take_bit_eq_mask mask_eq_exp_minus_1)
  then show ?thesis by (simp only: unsigned_take_bit_eq) (simp add: take_bit_eq_mod)
qed

lemma card_residues:
  assumes "i < (64 :: nat)"
  shows "card {b :: byte. unat b mod 64 = i} = 4"
proof -
  have "{b :: byte. unat b mod 64 = i} = of_nat ` (\<lambda>j. i + 64 * j) ` {..<4}"
  proof (intro subset_antisym subsetI)
    fix b :: byte assume "b \<in> {b. unat b mod 64 = i}"
    then have "unat b = i + 64 * (unat b div 64)" "unat b div 64 < 4"
      using unat_byte_lt [of b] by (auto simp: div_less_iff_less_mult)
    moreover have "of_nat (unat b) = b" by simp
    ultimately show "b \<in> of_nat ` (\<lambda>j. i + 64 * j) ` {..<4}" by (metis imageI lessThan_iff)
  next
    fix b :: byte assume "b \<in> of_nat ` (\<lambda>j. i + 64 * j) ` {..<4}"
    then obtain j where "b = of_nat (i + 64 * j)" "j < 4" by auto
    then show "b \<in> {b. unat b mod 64 = i}" using assms by (simp add: unat_of_nat del: of_nat_add of_nat_mult)
  qed
  moreover have "inj_on (of_nat :: nat \<Rightarrow> byte) ((\<lambda>j. i + 64 * j) ` {..<4})"
    using assms by (auto simp: inj_on_def word_of_nat_eq_iff take_bit_eq_mod simp del: of_nat_add of_nat_mult)
  moreover have "card ((\<lambda>j. i + 64 * j) ` {..<4}) = 4" by (subst card_image) (auto simp: inj_on_def)
  ultimately show ?thesis by (simp add: card_image)
qed

lemma card_map_eq:
  assumes "\<And>y. y \<in> set ys \<Longrightarrow> card {x :: 'a :: finite. f x = y} = k"
  shows "card {xs. length xs = length ys \<and> map f xs = ys} = k ^ length ys"
  using assms
proof (induction ys)
  case (Cons y ys)
  have "{xs. length xs = length (y # ys) \<and> map f xs = y # ys} = (\<lambda>(x, xs). x # xs) ` ({x. f x = y} \<times> {xs. length xs = length ys \<and> map f xs = ys})"
    by (auto simp: image_iff length_Suc_conv)
  moreover have "inj_on (\<lambda>(x, xs). x # xs) ({x. f x = y} \<times> {xs. length xs = length ys \<and> map f xs = ys})"
    by (auto simp: inj_on_def)
  ultimately show ?case using Cons by (simp add: card_image card_cartesian_product)
qed simp

text \<open>A connection whose next random bytes are \<open>r\<close>.\<close>

definition with_random :: "bytes \<Rightarrow> 't conn \<Rightarrow> 't conn" where
  "with_random r c = (let w = s_world (cn_ses c) in
     c\<lparr>cn_ses := (cn_ses c)\<lparr>s_world := w\<lparr>w_rand := \<lambda>i. r ! (i - w_rand_pos w)\<rparr>\<rparr>\<rparr>)"

lemma genrandom_with_random: "length r = n \<Longrightarrow> fst (genrandom (cn_ses (with_random r c)) n) = r"
  by (intro nth_equalityI) (simp_all add: genrandom_def with_random_def Let_def)

lemma generated_password:
  "fst (ikofi_generate_single_use_password c) = map (\<lambda>b. tab64 ! unat (b AND 63)) (fst (genrandom (cn_ses c) 8))"
  "cn_trace (snd (ikofi_generate_single_use_password c)) = cn_trace c @ [Ev_log (fst (ikofi_generate_single_use_password c))]"
  by (simp_all add: ikofi_generate_single_use_password_def Let_def emit_def split: prod.split)

text \<open>
  Property C39. Single-use passwords are uniform: every password of eight characters of an alphabet of 64 different
  characters, which has none of \<open>I\<close>, \<open>l\<close>, \<open>1\<close>, \<open>O\<close>, \<open>0\<close> and no zero byte, is generated from exactly the same number of sequences of
  eight random bytes, 65536 of the \<open>256 ^ 8\<close>, and no other password is generated; what is logged is the password.
\<close>

theorem single_use_password:
  "length tab64 = 64 \<and> distinct tab64 \<and> set tab64 \<inter> set (0 # cstr ''Il1O0'') = {} \<and>
   (\<forall>pw. card {r. length r = 8 \<and> fst (ikofi_generate_single_use_password (with_random r c)) = pw} =
      (if length pw = 8 \<and> set pw \<subseteq> set tab64 then 4 ^ 8 else 0)) \<and>
   cn_trace (snd (ikofi_generate_single_use_password c)) = cn_trace c @ [Ev_log (fst (ikofi_generate_single_use_password c))]"
proof -
  let ?f = "\<lambda>b :: byte. tab64 ! unat (b AND 63)"
  have len: "length tab64 = 64" and alphabet: "set tab64 \<inter> set (0 # cstr ''Il1O0'') = {}" and d: "distinct tab64"
    by code_simp+
  have idx: "unat (b AND 63) < 64" for b :: byte
    using word_and_le1 [of b 63] by (simp add: word_le_nat_alt)
  have cnt: "card {b. ?f b = x} = 4" if x: "x \<in> set tab64" for x
  proof -
    obtain i where i: "i < 64" "x = tab64 ! i" using x len by (metis in_set_conv_nth)
    have "(?f b = x) = (unat b mod 64 = i)" for b :: byte
      using d i idx [of b] len by (simp add: nth_eq_iff_index_eq and_63)
    then show ?thesis using card_residues [OF i(1)] by simp
  qed
  have gen: "{r. length r = 8 \<and> fst (ikofi_generate_single_use_password (with_random r c)) = pw} = {r. length r = 8 \<and> map ?f r = pw}" for pw
    by (auto simp: generated_password genrandom_with_random)
  have "card {r. length r = 8 \<and> map ?f r = pw} = (if length pw = 8 \<and> set pw \<subseteq> set tab64 then 4 ^ 8 else 0)" for pw
  proof (cases "length pw = 8 \<and> set pw \<subseteq> set tab64")
    case True
    then show ?thesis using card_map_eq [of pw ?f 4] cnt by (simp add: subset_iff)
  next
    case False
    then have e: "{r. length r = 8 \<and> map ?f r = pw} = {}" using idx len by (auto intro!: nth_mem)
    show ?thesis unfolding if_not_P [OF False] e by simp
  qed
  then show ?thesis using len alphabet d generated_password(2) [of c] by (simp add: gen)
qed

end
