(* ===== verification/Pubkey_Options.thy ===== *)
theory Pubkey_Options
  imports Ikofi
begin

text \<open>
  The options of an authorized key (\<^verbatim>\<open>svr-authpubkeyoptions.c\<close>) with the string helpers they use
  (\<^verbatim>\<open>split_address_port\<close>, \<^verbatim>\<open>m_str_to_uint\<close>). The buffer of the options is only read forward: the
  model keeps the bytes from its position on. Log lines are left out; \<^verbatim>\<open>unsigned long\<close> has 64 bits.
\<close>

section \<open>String helpers\<close>

definition to_lower :: "byte \<Rightarrow> byte" where
  "to_lower b = (if 65 \<le> b \<and> b \<le> 90 then b + 32 else b)"

definition split_address_port :: "bytes \<Rightarrow> (bytes option \<times> bytes option) option" where
  "split_address_port spec =
     (let nonempty = (\<lambda>a. if a = [] then None else Some a) in
      if take 1 spec = cstr ''['' then
        let addr = drop 1 spec in
        if 93 \<notin> set addr then None else
        let a = takeWhile (\<lambda>b. b \<noteq> 93) addr; colon = drop 1 (dropWhile (\<lambda>b. b \<noteq> 93) addr) in
        if colon = [] then Some (nonempty a, None)
        else if take 1 colon \<noteq> cstr '':'' then None
        else Some (nonempty a, Some (drop 1 colon))
      else if 58 \<in> set spec then
        let port = rev (takeWhile (\<lambda>b. b \<noteq> 58) (rev spec))
        in Some (nonempty (take (length spec - length port - 1) spec), Some port)
      else Some (nonempty spec, None))"

definition is_space :: "byte \<Rightarrow> bool" where
  "is_space b \<longleftrightarrow> b = 32 \<or> (9 \<le> b \<and> b \<le> 13)"

definition is_digit :: "byte \<Rightarrow> bool" where
  "is_digit b \<longleftrightarrow> 48 \<le> b \<and> b \<le> 57"

fun digits_val :: "nat \<Rightarrow> bytes \<Rightarrow> nat" where
  "digits_val acc [] = acc"
| "digits_val acc (d # ds) = digits_val (10 * acc + (unat d - 48)) ds"

text \<open>\<^verbatim>\<open>strtoul(str, &endp, 10)\<close>: the value and the rest of the string, which is all of it when there is no number.\<close>

definition strtoul :: "bytes \<Rightarrow> nat \<times> bytes" where
  "strtoul str =
     (let s = dropWhile is_space str;
          neg = (take 1 s = cstr ''-'');
          s = (if neg \<or> take 1 s = cstr ''+'' then drop 1 s else s);
          ds = takeWhile is_digit s; v = digits_val 0 ds in
      if ds = [] then (0, str)
      else if v \<ge> 2 ^ 64 then (2 ^ 64 - 1, dropWhile is_digit s)
      else (if neg then (2 ^ 64 - v) mod 2 ^ 64 else v, dropWhile is_digit s))"

text \<open>\<open>einval\<close> tells whether \<^verbatim>\<open>errno\<close> is \<^verbatim>\<open>EINVAL\<close> after the call, which may be left from an earlier one.\<close>

definition m_str_to_uint :: "bool \<Rightarrow> bytes \<Rightarrow> u32 option" where
  "m_str_to_uint einval str =
     (let (l, endp) = strtoul str in
      if length endp = length str \<or> endp \<noteq> [] then None
      else if (l = 0 \<and> einval) \<or> l > 4294967295 then None
      else Some (of_nat l))"

section \<open>Parsing\<close>

definition match_option :: "bytes \<Rightarrow> string \<Rightarrow> bytes option" where
  "match_option options opt_name =
     (let len = length opt_name in
      if length options < len then None
      else if map to_lower (take len options) = map to_lower (cstr opt_name) then Some (drop len options) else None)"

text \<open>The loop over the value of \<^verbatim>\<open>command="..."\<close>: up to the first unescaped quote.\<close>

fun scan_command :: "bool \<Rightarrow> bytes \<Rightarrow> (bytes \<times> bytes) option" where
  "scan_command escaped [] = None"
| "scan_command escaped (c # cs) =
     (if \<not> escaped \<and> c = 34 then Some ([], cs)
      else map_option (\<lambda>(v, rest). (c # v, rest)) (scan_command (\<not> escaped \<and> c = 92) cs))"

definition quoted_value :: "bytes \<Rightarrow> (bytes \<times> bytes) option" where
  "quoted_value options =
     (if 34 \<in> set options then Some (takeWhile (\<lambda>c. c \<noteq> 34) options, drop 1 (dropWhile (\<lambda>c. c \<noteq> 34) options)) else None)"

abbreviation (input) "PUBKEY_OPTIONS_ANY_PORT \<equiv> 4294967295 :: u32"

definition permitopen_entry :: "bool \<Rightarrow> bytes \<Rightarrow> PermitTCPFwdEntry option" where
  "permitopen_entry einval spec =
     (case split_address_port (c_string spec) of
        Some (Some host, Some portstring) \<Rightarrow>
          if portstring = cstr ''*'' then Some \<lparr>fwd_host = Some host, fwd_port = PUBKEY_OPTIONS_ANY_PORT\<rparr>
          else map_option (\<lambda>p. \<lparr>fwd_host = Some host, fwd_port = p\<rparr>) (m_str_to_uint einval portstring)
      | _ \<Rightarrow> None)"

definition permitlisten_entry :: "bool \<Rightarrow> bytes \<Rightarrow> PermitTCPFwdEntry option" where
  "permitlisten_entry einval spec = map_option (\<lambda>p. \<lparr>fwd_host = None, fwd_port = p\<rparr>) (m_str_to_uint einval (c_string spec))"

definition add_entry :: "PermitTCPFwdEntry \<Rightarrow> PermitTCPFwdEntry list option \<Rightarrow> PermitTCPFwdEntry list option" where
  "add_entry e l = Some (case l of None \<Rightarrow> [e] | Some es \<Rightarrow> es @ [e])"

text \<open>
  One round of the loop up to \<^verbatim>\<open>next_option\<close>: \<open>None\<close> is \<^verbatim>\<open>bad_option\<close>. Agent and X11 forwarding are not
  compiled in, so that their options are accepted without effect.
\<close>

definition on_option :: "bytes \<Rightarrow> string \<Rightarrow> (bytes \<Rightarrow> 'a) \<Rightarrow> 'a \<Rightarrow> 'a" where
  "on_option options opt_name matched otherwise =
     (case match_option options opt_name of Some r \<Rightarrow> matched r | None \<Rightarrow> otherwise)"

definition command_option :: "bytes \<Rightarrow> PubKeyOptions \<Rightarrow> (bytes \<times> PubKeyOptions) option" where
  "command_option r po =
     (if forced_command po \<noteq> None then None
      else map_option (\<lambda>(v, r). (r, po\<lparr>forced_command := Some (c_string v)\<rparr>)) (scan_command False r))"

definition entry_option :: "(bytes \<Rightarrow> PermitTCPFwdEntry option) \<Rightarrow> (PermitTCPFwdEntry \<Rightarrow> PubKeyOptions) \<Rightarrow> bytes \<Rightarrow> (bytes \<times> PubKeyOptions) option" where
  "entry_option entry upd r =
     Option.bind (quoted_value r) (\<lambda>(spec, r). map_option (\<lambda>e. (r, upd e)) (entry spec))"

definition parse_option :: "bool \<Rightarrow> bytes \<Rightarrow> PubKeyOptions \<Rightarrow> (bytes \<times> PubKeyOptions) option" where
  "parse_option einval options po =
     on_option options ''no-port-forwarding'' (\<lambda>r. Some (r, po\<lparr>no_port_forwarding_flag := True\<rparr>))
     (on_option options ''no-agent-forwarding'' (\<lambda>r. Some (r, po))
     (on_option options ''no-X11-forwarding'' (\<lambda>r. Some (r, po))
     (on_option options ''no-pty'' (\<lambda>r. Some (r, po\<lparr>no_pty_flag := True\<rparr>))
     (on_option options ''restrict'' (\<lambda>r. Some (r, po\<lparr>no_port_forwarding_flag := True, no_pty_flag := True\<rparr>))
     (on_option options (''command='' @ [CHR 0x22]) (\<lambda>r. command_option r po)
     (on_option options (''permitopen='' @ [CHR 0x22])
        (entry_option (permitopen_entry einval) (\<lambda>e. po\<lparr>permit_open_destinations := add_entry e (permit_open_destinations po)\<rparr>))
     (on_option options (''permitlisten='' @ [CHR 0x22])
        (entry_option (permitlisten_entry einval) (\<lambda>e. po\<lparr>permit_listens := add_entry e (permit_listens po)\<rparr>))
     (on_option options ''no-touch-required'' (\<lambda>r. Some (r, po\<lparr>no_touch_required_flag := True\<rparr>))
     (on_option options ''verify-required'' (\<lambda>r. Some (r, po\<lparr>verify_required_flag := True\<rparr>))
     (Some (options, po)))))))))))"

lemma match_option_le: "match_option o' n = Some r \<Longrightarrow> length r \<le> length o'"
  by (auto simp: match_option_def Let_def split: if_splits)

lemma scan_command_le: "scan_command e r = Some (v, r') \<Longrightarrow> length r' < length r"
  by (induction e r arbitrary: v r' rule: scan_command.induct) (auto split: if_splits)

lemma quoted_value_le: "quoted_value r = Some (v, r') \<Longrightarrow> length r' \<le> length r"
  using length_dropWhile_le [of "\<lambda>c. c \<noteq> 34" r] by (auto simp: quoted_value_def split: if_splits)

lemma on_option_le:
  assumes "on_option options n f d = Some (r, po')"
    and "\<And>o' r po'. f o' = Some (r, po') \<Longrightarrow> length r \<le> length o'" and "d = Some (r, po') \<Longrightarrow> length r \<le> length options"
  shows "length r \<le> length options"
  using assms(1,3) assms(2) match_option_le [of options n] unfolding on_option_def
  by (auto split: option.splits dest!: assms(2))

lemma command_option_le: "command_option o' po = Some (r, po') \<Longrightarrow> length r \<le> length o'"
  by (auto simp: command_option_def dest!: scan_command_le split: if_splits)

lemma entry_option_le: "entry_option f u o' = Some (r, po') \<Longrightarrow> length r \<le> length o'"
  by (auto simp: entry_option_def Option.bind_eq_Some_conv dest!: quoted_value_le)

lemma parse_option_le: "parse_option einval options po = Some (r, po') \<Longrightarrow> length r \<le> length options"
  unfolding parse_option_def by (erule on_option_le | erule command_option_le entry_option_le | simp)+

function parse_options :: "bool \<Rightarrow> bytes \<Rightarrow> PubKeyOptions \<Rightarrow> PubKeyOptions option" where
  "parse_options einval options po =
     (if options = [] then Some po else
      case parse_option einval options po of
        None \<Rightarrow> None
      | Some (r, po) \<Rightarrow> if r \<noteq> [] \<and> hd r \<noteq> 44 then None else parse_options einval (drop 1 r) po)"
  by auto
termination
proof (relation "measure (\<lambda>(_, options, _). length options)")
  fix einval options po x2 r po'
  assume "options \<noteq> []" "parse_option einval options po = Some x2" "(r, po') = x2"
  then have "length r \<le> length options" "0 < length options" by (auto dest!: parse_option_le)
  then have "length r - 1 < length options" by linarith
  then show "((einval, drop 1 r, po'), (einval, options, po)) \<in> measure (\<lambda>(_, options, _). length options)" by simp
qed simp

declare parse_options.simps [simp del]

definition empty_options :: PubKeyOptions where
  "empty_options = \<lparr>no_port_forwarding_flag = False, no_agent_forwarding_flag = False, no_x11_forwarding_flag = False,
     no_pty_flag = False, forced_command = None, permit_open_destinations = None, permit_listens = None,
     no_touch_required_flag = False, verify_required_flag = False, info_env = None\<rparr>"

definition svr_parse_pubkey_options :: "bool \<Rightarrow> bytes option \<Rightarrow> PubKeyOptions option" where
  "svr_parse_pubkey_options einval options_buf =
     (case options_buf of None \<Rightarrow> Some empty_options | Some options \<Rightarrow> parse_options einval options empty_options)"

section \<open>What a key allows\<close>

definition svr_pubkey_allows_tcpfwd :: "AuthState \<Rightarrow> bool" where
  "svr_pubkey_allows_tcpfwd a = (case pubkey_options a of Some po \<Rightarrow> \<not> no_port_forwarding_flag po | None \<Rightarrow> True)"

definition svr_pubkey_allows_agentfwd :: "AuthState \<Rightarrow> bool" where
  "svr_pubkey_allows_agentfwd a = (case pubkey_options a of Some po \<Rightarrow> \<not> no_agent_forwarding_flag po | None \<Rightarrow> True)"

definition svr_pubkey_has_forced_command :: "AuthState \<Rightarrow> bool" where
  "svr_pubkey_has_forced_command a = (case pubkey_options a of Some po \<Rightarrow> forced_command po \<noteq> None | None \<Rightarrow> False)"

definition svr_pubkey_allows_x11fwd :: "AuthState \<Rightarrow> bool" where
  "svr_pubkey_allows_x11fwd a = (case pubkey_options a of Some po \<Rightarrow> \<not> no_x11_forwarding_flag po | None \<Rightarrow> True)"

definition svr_pubkey_allows_pty :: "AuthState \<Rightarrow> bool" where
  "svr_pubkey_allows_pty a = (case pubkey_options a of Some po \<Rightarrow> \<not> no_pty_flag po | None \<Rightarrow> True)"

fun allows_open :: "PermitTCPFwdEntry list \<Rightarrow> bytes \<Rightarrow> u32 \<Rightarrow> bool res" where
  "allows_open [] host port = Inr False"
| "allows_open (e # es) host port =
     rbind (deref (fwd_host e)) (\<lambda>h.
     if h = host \<and> (fwd_port e = PUBKEY_OPTIONS_ANY_PORT \<or> fwd_port e = port) then Inr True else allows_open es host port)"

definition svr_pubkey_allows_local_tcpfwd :: "AuthState \<Rightarrow> bytes \<Rightarrow> u32 \<Rightarrow> bool res" where
  "svr_pubkey_allows_local_tcpfwd a host port =
     (case pubkey_options a of
        None \<Rightarrow> Inr True
      | Some po \<Rightarrow> case permit_open_destinations po of None \<Rightarrow> Inr True | Some es \<Rightarrow> allows_open es host port)"

definition svr_pubkey_allows_remote_tcpfwd :: "AuthState \<Rightarrow> bytes \<Rightarrow> u32 \<Rightarrow> bool" where
  "svr_pubkey_allows_remote_tcpfwd a host port =
     (case pubkey_options a of
        None \<Rightarrow> True
      | Some po \<Rightarrow> case permit_listens po of None \<Rightarrow> True | Some es \<Rightarrow> list_ex (\<lambda>e. fwd_port e = port) es)"

section \<open>Printing options\<close>

text \<open>The options as an administrator means them, and how they are written in a line.\<close>

datatype key_option =
    No_port_forwarding | No_agent_forwarding | No_X11_forwarding | No_pty | Restrict | Command bytes
  | Permit_open bytes bytes u32 | Permit_listen bytes u32 | No_touch_required | Verify_required

fun print_option :: "key_option \<Rightarrow> bytes" where
  "print_option No_port_forwarding = cstr ''no-port-forwarding''"
| "print_option No_agent_forwarding = cstr ''no-agent-forwarding''"
| "print_option No_X11_forwarding = cstr ''no-X11-forwarding''"
| "print_option No_pty = cstr ''no-pty''"
| "print_option Restrict = cstr ''restrict''"
| "print_option (Command c) = cstr ''command='' @ [34] @ c @ [34]"
| "print_option (Permit_open host port p) = cstr ''permitopen='' @ [34] @ host @ cstr '':'' @ port @ [34]"
| "print_option (Permit_listen port p) = cstr ''permitlisten='' @ [34] @ port @ [34]"
| "print_option No_touch_required = cstr ''no-touch-required''"
| "print_option Verify_required = cstr ''verify-required''"

fun apply_option :: "key_option \<Rightarrow> PubKeyOptions \<Rightarrow> PubKeyOptions" where
  "apply_option No_port_forwarding po = po\<lparr>no_port_forwarding_flag := True\<rparr>"
| "apply_option No_agent_forwarding po = po"
| "apply_option No_X11_forwarding po = po"
| "apply_option No_pty po = po\<lparr>no_pty_flag := True\<rparr>"
| "apply_option Restrict po = po\<lparr>no_port_forwarding_flag := True, no_pty_flag := True\<rparr>"
| "apply_option (Command c) po = po\<lparr>forced_command := Some c\<rparr>"
| "apply_option (Permit_open host port p) po =
     po\<lparr>permit_open_destinations := add_entry \<lparr>fwd_host = Some host, fwd_port = p\<rparr> (permit_open_destinations po)\<rparr>"
| "apply_option (Permit_listen port p) po = po\<lparr>permit_listens := add_entry \<lparr>fwd_host = None, fwd_port = p\<rparr> (permit_listens po)\<rparr>"
| "apply_option No_touch_required po = po\<lparr>no_touch_required_flag := True\<rparr>"
| "apply_option Verify_required po = po\<lparr>verify_required_flag := True\<rparr>"

text \<open>
  The text of a command as it stands between the quotes: a sequence of characters other than a quote and a backslash, and of
  pairs of a backslash and any character.
\<close>

fun well_quoted :: "bytes \<Rightarrow> bool" where
  "well_quoted [] = True"
| "well_quoted [c] = (c \<noteq> 34 \<and> c \<noteq> 92)"
| "well_quoted (c # d # cs) = (if c = 92 then well_quoted cs else c \<noteq> 34 \<and> well_quoted (d # cs))"

text \<open>A decimal number, without sign or space, of at most 32 bits.\<close>

definition is_port :: "bytes \<Rightarrow> u32 \<Rightarrow> bool" where
  "is_port port p \<longleftrightarrow> port \<noteq> [] \<and> list_all is_digit port \<and> digits_val 0 port = unat p"

definition option_ok :: "bool \<Rightarrow> key_option \<Rightarrow> bool" where
  "option_ok einval opt = (case opt of
     Command c \<Rightarrow> well_quoted c \<and> 0 \<notin> set c
   | Permit_open host port p \<Rightarrow> host \<noteq> [] \<and> 0 \<notin> set host \<and> 34 \<notin> set host \<and> 58 \<notin> set host \<and> hd host \<noteq> 91 \<and>
       (port = cstr ''*'' \<and> p = PUBKEY_OPTIONS_ANY_PORT \<or> is_port port p \<and> (p = 0 \<longrightarrow> \<not> einval))
   | Permit_listen port p \<Rightarrow> is_port port p \<and> (p = 0 \<longrightarrow> \<not> einval)
   | _ \<Rightarrow> True)"

fun is_command :: "key_option \<Rightarrow> bool" where
  "is_command (Command c) = True"
| "is_command _ = False"

fun print_key_options :: "key_option list \<Rightarrow> bytes" where
  "print_key_options [] = []"
| "print_key_options [opt] = print_option opt"
| "print_key_options (opt # opts) = print_option opt @ 44 # print_key_options opts"

section \<open>Lemmas\<close>

fun match_name :: "bytes \<Rightarrow> bytes \<Rightarrow> bytes option" where
  "match_name [] cs = Some cs"
| "match_name (n # ns) [] = None"
| "match_name (n # ns) (c # cs) = (if to_lower c = to_lower n then match_name ns cs else None)"

lemma match_name_take:
  "match_name ns cs = (if length cs < length ns then None
     else if map to_lower (take (length ns) cs) = map to_lower ns then Some (drop (length ns) cs) else None)"
  by (induction ns cs rule: match_name.induct) auto

lemma match_option_name: "match_option options n = match_name (cstr n) options"
  by (simp add: match_name_take match_option_def Let_def)

lemma takeWhile_until: "x \<notin> set v \<Longrightarrow> takeWhile (\<lambda>b. b \<noteq> x) (v @ x # r) = v"
  by (induction v) auto

lemma dropWhile_until: "x \<notin> set v \<Longrightarrow> dropWhile (\<lambda>b. b \<noteq> x) (v @ x # r) = x # r"
  by (induction v) auto

lemma scan_well_quoted: "well_quoted c \<Longrightarrow> scan_command False (c @ 34 # r) = Some (c, r)"
  by (induction c rule: well_quoted.induct) (auto split: if_splits)

lemma c_string_no_nul: "0 \<notin> set v \<Longrightarrow> c_string v = v"
  by (auto simp: c_string_def takeWhile_eq_all_conv)

lemma digit_not: "is_digit d \<Longrightarrow> d \<noteq> 0 \<and> d \<noteq> 34 \<and> d \<noteq> 58 \<and> \<not> is_space d \<and> d \<noteq> 45 \<and> d \<noteq> 43"
  by (auto simp: is_digit_def is_space_def word_le_nat_alt)

lemma port_value:
  assumes "is_port port p" "p = 0 \<longrightarrow> \<not> einval"
  shows "m_str_to_uint einval port = Some p"
proof -
  obtain d ds where port: "port = d # ds" "is_digit d" "list_all is_digit ds" using assms(1) by (cases port) (auto simp: is_port_def)
  have all: "takeWhile is_digit port = port" "dropWhile is_digit port = []" using assms(1) by (auto simp: is_port_def list_all_iff)
  have ds: "takeWhile is_digit ds = ds" using port(3) by (simp add: list_all_iff)
  have "unat p < 4294967296" by simp
  then have np: "\<not> 18446744073709551616 \<le> unat p" "\<not> 4294967295 < unat p" by linarith+
  have "strtoul port = (unat p, [])"
    using all port digit_not [OF port(2)] assms(1) np(1) by (simp add: strtoul_def Let_def is_port_def ds)
  then show ?thesis using assms port(1) np by (auto simp: m_str_to_uint_def unat_eq_0)
qed

lemma quoted_value_append: "34 \<notin> set v \<Longrightarrow> quoted_value (v @ 34 # r) = Some (v, r)"
  by (simp add: quoted_value_def takeWhile_until dropWhile_until)

lemma port_chars: "is_port port p \<Longrightarrow> 0 \<notin> set port \<and> 34 \<notin> set port \<and> 58 \<notin> set port \<and> port \<noteq> cstr ''*''"
  by (auto simp: is_port_def list_all_iff dest: digit_not) (simp add: is_digit_def)

lemma split_host_port:
  assumes "host \<noteq> []" "58 \<notin> set host" "hd host \<noteq> 91" "58 \<notin> set port"
  shows "split_address_port (host @ cstr '':'' @ port) = Some (Some host, Some port)"
proof -
  have "takeWhile (\<lambda>b. b \<noteq> 58) (rev (host @ cstr '':'' @ port)) = rev port"
    using assms(4) takeWhile_until [of 58 "rev port"] by simp
  moreover have "take 1 (host @ cstr '':'' @ port) \<noteq> cstr ''[''" using assms(1,3) by (cases host) simp_all
  ultimately show ?thesis using assms(1) unfolding split_address_port_def by (simp add: Let_def)
qed

lemma on_option_matched: "match_name (cstr n) options = Some r \<Longrightarrow> on_option options n f d = f r"
  by (simp add: on_option_def match_option_name)

lemma on_option_other: "match_name (cstr n) options = None \<Longrightarrow> on_option options n f d = d"
  by (simp add: on_option_def match_option_name)

lemma parse_printed_option:
  assumes "option_ok einval opt" and "is_command opt \<longrightarrow> forced_command po = None"
  shows "parse_option einval (print_option opt @ r) po = Some (r, apply_option opt po)"
proof (cases opt)
  case (Permit_open host port p)
  have "permitopen_entry einval (host @ cstr '':'' @ port) = Some \<lparr>fwd_host = Some host, fwd_port = p\<rparr>"
    using assms(1) split_host_port [of host port] port_value [of port p einval] port_chars [of port p]
    by (auto simp: permitopen_entry_def option_ok_def Permit_open c_string_no_nul)
  moreover have "quoted_value (host @ cstr '':'' @ port @ 34 # r) = Some (host @ cstr '':'' @ port, r)"
    using quoted_value_append [of "host @ cstr '':'' @ port" r] assms(1) port_chars [of port p]
    by (auto simp: option_ok_def Permit_open)
  ultimately show ?thesis
    by (simp add: Permit_open parse_option_def on_option_matched on_option_other to_lower_def entry_option_def)
next
  case (Permit_listen port p)
  have "quoted_value (port @ 34 # r) = Some (port, r)" "permitlisten_entry einval port = Some \<lparr>fwd_host = None, fwd_port = p\<rparr>"
    using assms(1) quoted_value_append [of port r] port_chars [of port p] port_value [of port p einval]
    by (auto simp: option_ok_def Permit_listen permitlisten_entry_def c_string_no_nul)
  then show ?thesis
    by (simp add: Permit_listen parse_option_def on_option_matched on_option_other to_lower_def entry_option_def)
next
  case (Command c)
  then show ?thesis using assms
    by (simp add: parse_option_def on_option_matched on_option_other to_lower_def command_option_def option_ok_def scan_well_quoted c_string_no_nul)
qed (simp_all add: parse_option_def on_option_matched on_option_other to_lower_def)

lemma parse_printed:
  assumes "list_all (option_ok einval) opts" and "length (filter is_command opts) \<le> 1"
    and "forced_command po \<noteq> None \<longrightarrow> filter is_command opts = []"
  shows "parse_options einval (print_key_options opts) po = Some (fold apply_option opts po)"
  using assms
proof (induction opts arbitrary: po rule: print_key_options.induct)
  case 1
  then show ?case by (simp add: parse_options.simps)
next
  case (2 opt)
  have "parse_option einval (print_option opt) po = Some ([], apply_option opt po)"
    using parse_printed_option [of einval opt po "[]"] 2 by (auto split: if_splits)
  moreover have "print_option opt \<noteq> []" by (cases opt) simp_all
  ultimately show ?case by (simp add: parse_options.simps)
next
  case (3 opt opt' opts)
  let ?rest = "print_key_options (opt' # opts)"
  have keeps: "\<not> is_command opt \<Longrightarrow> forced_command (apply_option opt po) = forced_command po" by (cases opt) simp_all
  have 1: "parse_option einval (print_option opt @ 44 # ?rest) po = Some (44 # ?rest, apply_option opt po)"
    using parse_printed_option [of einval opt po "44 # ?rest"] 3 by (auto split: if_splits)
  have ne: "print_option opt @ 44 # ?rest \<noteq> []" by simp
  have "parse_options einval ?rest (apply_option opt po) = Some (fold apply_option (opt' # opts) (apply_option opt po))"
    using 3 keeps by (intro "3.IH") (auto split: if_splits)
  then show ?case unfolding print_key_options.simps by (subst parse_options.simps) (simp add: 1)
qed

section \<open>Properties\<close>

text \<open>
  Property C35. Printing and parsing key options: a list of options with well-formed values (in a command, quotes and backslashes
  are escaped) and at most one forced command, printed with commas between them, is parsed to exactly the restrictions
  it states, applied in order; a command ends at its first quote that is not escaped and keeps its escapes.
\<close>

theorem options_roundtrip:
  assumes "list_all (option_ok einval) opts" and "length (filter is_command opts) \<le> 1"
  shows "svr_parse_pubkey_options einval (Some (print_key_options opts)) = Some (fold apply_option opts empty_options)"
  using assms parse_printed [of einval opts empty_options] by (simp add: svr_parse_pubkey_options_def empty_options_def)

text \<open>A command with an escaped quote, which is kept as it is written.\<close>

definition example_options :: "key_option list" where
  "example_options = [Restrict, Command (cstr ''echo '' @ [92, 34] @ cstr ''a,b'' @ [92, 34]), Permit_open (cstr ''host'') (cstr ''80'') 80]"

theorem options_roundtrip_witness:
  "svr_parse_pubkey_options False (Some (print_key_options example_options)) = Some (fold apply_option example_options empty_options)"
  by (rule options_roundtrip) (simp_all add: example_options_def option_ok_def is_port_def is_digit_def)

text \<open>The hosts of the parsed destinations are never null.\<close>

definition open_hosts :: "PubKeyOptions \<Rightarrow> bool" where
  "open_hosts po \<longleftrightarrow> (\<forall>es. permit_open_destinations po = Some es \<longrightarrow> (\<forall>e \<in> set es. fwd_host e \<noteq> None))"

lemma on_option_post:
  assumes "on_option options n f d = Some (r, po')" and "\<And>r'. f r' = Some (r, po') \<Longrightarrow> P po'" and "d = Some (r, po') \<Longrightarrow> P po'"
  shows "P po'"
  using assms by (auto simp: on_option_def split: option.splits)

lemma permitopen_host: "permitopen_entry einval spec = Some e \<Longrightarrow> fwd_host e \<noteq> None"
  by (auto simp: permitopen_entry_def split: option.splits prod.splits if_splits)

lemma open_hosts_upd [simp]:
  "open_hosts (po\<lparr>no_port_forwarding_flag := b\<rparr>) = open_hosts po" "open_hosts (po\<lparr>no_pty_flag := b\<rparr>) = open_hosts po"
  "open_hosts (po\<lparr>forced_command := c\<rparr>) = open_hosts po" "open_hosts (po\<lparr>permit_listens := l\<rparr>) = open_hosts po"
  "open_hosts (po\<lparr>no_touch_required_flag := b\<rparr>) = open_hosts po" "open_hosts (po\<lparr>verify_required_flag := b\<rparr>) = open_hosts po"
  by (simp_all add: open_hosts_def)

lemma open_hosts_add:
  "open_hosts po \<Longrightarrow> fwd_host e \<noteq> None \<Longrightarrow> open_hosts (po\<lparr>permit_open_destinations := add_entry e (permit_open_destinations po)\<rparr>)"
  by (auto simp: open_hosts_def add_entry_def split: option.splits)

lemma parse_option_hosts:
  assumes "parse_option einval options po = Some (r, po')" and "open_hosts po"
  shows "open_hosts po'"
proof -
  have 1: "open_hosts po'" if "entry_option (permitopen_entry einval)
      (\<lambda>e. po\<lparr>permit_open_destinations := add_entry e (permit_open_destinations po)\<rparr>) r' = Some (r, po')" for r'
    using that assms(2) by (auto simp: entry_option_def Option.bind_eq_Some_conv dest!: permitopen_host intro!: open_hosts_add)
  have 2: "open_hosts po'" if "entry_option f (\<lambda>e. po\<lparr>permit_listens := g e\<rparr>) r' = Some (r, po')" for f g r'
    using that assms(2) by (auto simp: entry_option_def Option.bind_eq_Some_conv)
  have 3: "open_hosts po'" if "command_option r' po = Some (r, po')" for r'
    using that assms(2) by (auto simp: command_option_def split: if_splits)
  show ?thesis
    using assms(1) unfolding parse_option_def
    by (elim on_option_post) (insert assms(2), auto intro: 1 2 3)
qed

lemma parse_options_hosts: "parse_options einval options po = Some po' \<Longrightarrow> open_hosts po \<Longrightarrow> open_hosts po'"
proof (induction einval options po arbitrary: po' rule: parse_options.induct)
  case (1 einval options po)
  then show ?case
    by (subst (asm) parse_options.simps) (auto split: option.splits if_splits dest: parse_option_hosts)
qed

lemma allows_open_eq:
  "\<forall>e \<in> set es. fwd_host e \<noteq> None \<Longrightarrow> allows_open es host port =
     Inr (\<exists>e \<in> set es. fwd_host e = Some host \<and> (fwd_port e = PUBKEY_OPTIONS_ANY_PORT \<or> fwd_port e = port))"
  by (induction es) auto

text \<open>
  Property C36. A key's \<open>permitopen\<close> restrictions are enforced and the check cannot crash: with options
  that come from a line of the authorized keys, a forwarding to a host and port is allowed exactly
  when no destinations are listed or one of them names that host with that port or any port.
\<close>

theorem permitopen_enforced:
  assumes "svr_parse_pubkey_options einval options_buf = Some po" and "pubkey_options a = Some (po\<lparr>info_env := info\<rparr>)"
  shows "svr_pubkey_allows_local_tcpfwd a host port = Inr (case permit_open_destinations po of None \<Rightarrow> True
     | Some es \<Rightarrow> \<exists>e \<in> set es. fwd_host e = Some host \<and> (fwd_port e = PUBKEY_OPTIONS_ANY_PORT \<or> fwd_port e = port))"
proof -
  have "open_hosts po"
    using assms(1) parse_options_hosts [of einval _ empty_options po]
    by (auto simp: svr_parse_pubkey_options_def open_hosts_def empty_options_def split: option.splits)
  then show ?thesis using assms(2)
    by (simp add: svr_pubkey_allows_local_tcpfwd_def open_hosts_def allows_open_eq split: option.split)
qed

theorem permitopen_enforced_witness:
  "svr_pubkey_allows_local_tcpfwd (zero_AuthState\<lparr>pubkey_options :=
      Some (apply_option (Permit_open (cstr ''h'') (cstr ''22'') 22) empty_options)\<rparr>) (cstr ''h'') 22 = Inr True \<and>
   svr_pubkey_allows_local_tcpfwd (zero_AuthState\<lparr>pubkey_options :=
      Some (apply_option (Permit_open (cstr ''h'') (cstr ''22'') 22) empty_options)\<rparr>) (cstr ''h'') 23 = Inr False"
proof -
  let ?po = "apply_option (Permit_open (cstr ''h'') (cstr ''22'') 22) empty_options"
  have p: "svr_parse_pubkey_options False (Some (print_key_options [Permit_open (cstr ''h'') (cstr ''22'') 22])) = Some ?po"
    using parse_printed [of False "[Permit_open (cstr ''h'') (cstr ''22'') 22]" empty_options]
    by (simp add: svr_parse_pubkey_options_def option_ok_def is_port_def is_digit_def empty_options_def)
  have a: "pubkey_options (zero_AuthState\<lparr>pubkey_options := Some ?po\<rparr>) = Some (?po\<lparr>info_env := None\<rparr>)"
    by (simp add: empty_options_def)
  show ?thesis using permitopen_enforced [OF p a] by (simp add: empty_options_def add_entry_def)
qed

end
