(* ===== verification/Svr_Auth.thy ===== *)
theory Svr_Auth
  imports Pubkey_Options Kex Process_Packet
begin

unbundle bit_operations_syntax

text \<open>
  User authentication of the server: the service request (\<^verbatim>\<open>svr-service.c\<close>), the requests and replies
  (\<^verbatim>\<open>svr-auth.c\<close>), passwords (\<^verbatim>\<open>svr-authpasswd.c\<close>) and public keys (\<^verbatim>\<open>svr-authpubkey.c\<close> with
  \<^verbatim>\<open>buf_getline\<close> of \<^verbatim>\<open>dbutil.c\<close> and \<^verbatim>\<open>cmp_base64_key\<close> of \<^verbatim>\<open>signkey.c\<close>), as compiled with the
  application's authentication. Reading a key from the payload, verifying a signature and decoding
  base64 are arguments (\<open>pk_crypto\<close>); the permission checks of \<^verbatim>\<open>checkpubkeyperms\<close> and the user database
  are not compiled in. A line of the authorized keys is only read forward: the model keeps the
  bytes from its position on.
\<close>

section \<open>Services\<close>

abbreviation (input) "SSH_SERVICE_USERAUTH \<equiv> cstr ''ssh-userauth''"
abbreviation (input) "SSH_SERVICE_CONNECTION \<equiv> cstr ''ssh-connection''"

definition send_msg_service_accept :: "bytes \<Rightarrow> 't conn \<Rightarrow> 't conn res" where
  "send_msg_service_accept name = on_ses (send_fields [FByte 6, FString name])"

definition recv_msg_service_request :: "'t handler" where
  "recv_msg_service_request c =
     rbind (on_ses_get (on_payload buf_getstring) c) (\<lambda>(name, c).
     if name = SSH_SERVICE_USERAUTH then send_msg_service_accept name c
     else if name = SSH_SERVICE_CONNECTION then
       (if \<not> authdone (s_authstate (cn_ses c)) then Inl (Dropbear_exit ''Request for connection before auth'')
        else send_msg_service_accept name c)
     else Inl (Dropbear_exit ''Unrecognised SSH_MSG_SERVICE_REQUEST''))"

section \<open>Replies\<close>

definition svr_authinitialise :: "'t conn \<Rightarrow> 't conn res" where
  "svr_authinitialise c = ikofi_svr_authinitialise (upd_auth (\<lambda>_. zero_AuthState\<lparr>authtypes := AUTH_TYPE_PUBKEY\<rparr>) c)"

definition send_msg_userauth_banner :: "buffer \<Rightarrow> 't conn \<Rightarrow> 't conn res" where
  "send_msg_userauth_banner bn =
     on_ses (\<lambda>s.
       rbind (put_payload [FByte 53] s) (\<lambda>s.
       rbind (buf_putbufstring (s_writepayload s) bn) (\<lambda>wp.
       send_fields [FString (cstr ''en'')] (s\<lparr>s_writepayload := wp\<rparr>))))"

definition load32l :: "bytes \<Rightarrow> u32" where
  "load32l bs = of_nat (unat (bs ! 0) + 256 * (unat (bs ! 1) + 256 * (unat (bs ! 2) + 256 * unat (bs ! 3))))"

definition auth_types :: "byte \<Rightarrow> bytes" where
  "auth_types types =
     (if types AND AUTH_TYPE_PUBKEY \<noteq> 0
      then cstr ''publickey'' @ (if types AND AUTH_TYPE_PASSWORD \<noteq> 0 then cstr '','' else []) else []) @
     (if types AND AUTH_TYPE_PASSWORD \<noteq> 0 then cstr ''password'' else [])"

text \<open>The delay before a counted failure is reported, in nanoseconds.\<close>

definition failure_delay :: "'t conn \<Rightarrow> int \<times> 't conn" where
  "failure_delay c =
     (let (now, s) = gettime_wrapper (cn_ses c); start = auth_starttime (s_authstate s);
          sec = tv_sec now - tv_sec start; nsec = tv_nsec now - tv_nsec start;
          (sec, nsec) = (if nsec < 0 then (sec - 1, nsec + 1000000000) else (sec, nsec));
          (r, s) = genrandom s 4; rand_delay = 250000000 + int (unat (load32l r) mod 100000000)
      in (if sec = 0 \<and> nsec \<le> rand_delay then rand_delay - nsec else rand_delay, c\<lparr>cn_ses := s\<rparr>))"

definition send_msg_userauth_failure :: "bool \<Rightarrow> bool \<Rightarrow> 't conn \<Rightarrow> 't conn res" where
  "send_msg_userauth_failure partial incrfail c =
     rbind (on_ses (send_fields [FByte 51, FString (auth_types (authtypes (s_authstate (cn_ses c)))), FByte (if partial then 1 else 0)]) c) (\<lambda>c.
     let c = (if incrfail then
                let (delay, c) = failure_delay c
                in upd_auth (\<lambda>a. a\<lparr>failcount := failcount a + 1\<rparr>) (emit (Ev_sleep delay) c)
              else c) in
     if failcount (s_authstate (cn_ses c)) > maxauthtries (cn_svr_opts c)
     then Inl (Dropbear_exit ''Max auth tries reached'') else Inr c)"

definition send_msg_userauth_success :: "'t conn \<Rightarrow> 't conn res" where
  "send_msg_userauth_success c =
     rbind (on_ses (send_fields [FByte 52]) c) (\<lambda>c.
     let c = upd_auth (\<lambda>a. a\<lparr>authdone := True\<rparr>) c;
         c = (if pw_uid (s_authstate (cn_ses c)) = 0 then c\<lparr>cn_ses := (cn_ses c)\<lparr>s_allowprivport := True\<rparr>\<rparr> else c)
     in Inr (emit (Ev_close (cn_childpipe c)) c))"

section \<open>User names\<close>

definition fill_passwd :: "bytes \<Rightarrow> 't conn \<Rightarrow> 't conn" where
  "fill_passwd username c =
     upd_auth (\<lambda>a. a\<lparr>pw_uid := 0, pw_gid := 0, pw_name := Some username, pw_dir := Some (ikofi_home_path (cn_ikofi c)),
       pw_shell := Some (ikofi_shell_exe (cn_ikofi c)),
       pw_passwd := (case pw_passwd a of None \<Rightarrow> Some (cstr ''!!'') | Some p \<Rightarrow> Some p)\<rparr>) c"

abbreviation (input) "MAX_USERNAME_LEN \<equiv> 100 :: nat"

definition checkusername :: "bytes \<Rightarrow> 't conn \<Rightarrow> (bool \<times> 't conn) res" where
  "checkusername username c =
     (if length username > MAX_USERNAME_LEN then Inr (False, c) else
      if length (c_string username) \<noteq> length username then Inl (Dropbear_exit ''Attempted username with a null byte'') else
      rbind (case a_username (s_authstate (cn_ses c)) of
               None \<Rightarrow> Inr (upd_auth (\<lambda>a. a\<lparr>a_username := Some username\<rparr>) (fill_passwd username c))
             | Some u \<Rightarrow> if username \<noteq> u then Inl (Dropbear_exit ''Client trying multiple usernames'') else Inr c) (\<lambda>c.
      if checkusername_failed (s_authstate (cn_ses c)) then Inr (False, c)
      else if pw_name (s_authstate (cn_ses c)) = None
      then Inr (False, upd_auth (\<lambda>a. a\<lparr>checkusername_failed := True\<rparr>) c)
      else Inr (True, c)))"

section \<open>Passwords\<close>

definition constant_time_strcmp :: "bytes \<Rightarrow> bytes \<Rightarrow> byte res" where
  "constant_time_strcmp a b = (if length a \<noteq> length b then Inr 1 else constant_time_memcmp a b (length a))"

abbreviation (input) "DROPBEAR_MAX_PASSWORD_LEN \<equiv> 100 :: nat"

definition svr_auth_password :: "bool \<Rightarrow> 't conn \<Rightarrow> 't conn res" where
  "svr_auth_password valid_user c =
     rbind (on_ses_get (on_payload buf_getbool) c) (\<lambda>(changepw, c).
     if changepw then send_msg_userauth_failure False True c else
     rbind (on_ses_get (on_payload buf_getstring) c) (\<lambda>(password, c).
     rbind (if valid_user \<and> length password \<le> DROPBEAR_MAX_PASSWORD_LEN then ikofi_svr_auth_password password c
            else Inr ((None, None), c)) (\<lambda>((passwdcrypt, testcrypt), c).
     if \<not> valid_user then send_msg_userauth_failure False True c
     else if length password > DROPBEAR_MAX_PASSWORD_LEN then send_msg_userauth_failure False True c
     else case testcrypt of None \<Rightarrow> send_msg_userauth_failure False True c
     | Some test \<Rightarrow>
       rbind (deref passwdcrypt) (\<lambda>pass.
       if pass = [] then send_msg_userauth_failure False True c else
       rbind (constant_time_strcmp test pass) (\<lambda>cmp.
       if cmp = 0 then
         (if multiauthmethod (cn_svr_opts c) \<and> authtypes (s_authstate (cn_ses c)) AND NOT AUTH_TYPE_PASSWORD \<noteq> 0
          then send_msg_userauth_failure True False
                 (upd_auth (\<lambda>a. a\<lparr>authtypes := authtypes a AND NOT AUTH_TYPE_PASSWORD\<rparr>) c)
          else send_msg_userauth_success c)
       else send_msg_userauth_failure False True c)))))"

section \<open>Authorized keys\<close>

abbreviation (input) "MIN_AUTHKEYS_LINE \<equiv> 10 :: nat"
abbreviation (input) "MAX_AUTHKEYS_LINE \<equiv> 4200 :: nat"

text \<open>
  \<^verbatim>\<open>buf_getline\<close> into a buffer of \<^verbatim>\<open>MAX_AUTHKEYS_LINE\<close> bytes: the line and the rest of the file. A
  longer line is cut: the buffer is emptied and what follows is left in the file.
\<close>

definition buf_getline :: "bytes \<Rightarrow> (bytes \<times> bytes) option" where
  "buf_getline file =
     (let l = takeWhile (\<lambda>c. c \<noteq> LF \<and> c \<noteq> CR) file; rest = dropWhile (\<lambda>c. c \<noteq> LF \<and> c \<noteq> CR) file in
      if length l \<ge> MAX_AUTHKEYS_LINE then Some ([], drop MAX_AUTHKEYS_LINE file)
      else if rest = [] \<and> l = [] then None
      else Some (l, drop 1 rest))"

text \<open>Keys and signatures: the key is opaque, with the mask of required flags of hardware keys.\<close>

record 'k pk_crypto =
  pk_base64_decode :: "bytes \<Rightarrow> bytes option"
  pk_get_pub_key :: "buffer \<Rightarrow> int \<Rightarrow> ('k option \<times> buffer) res"
  pk_verify :: "buffer \<Rightarrow> 'k \<Rightarrow> byte \<Rightarrow> int \<Rightarrow> bytes \<Rightarrow> (bool \<times> buffer) res"

definition line_ptr :: "bytes \<Rightarrow> nat \<Rightarrow> bytes res" where
  "line_ptr rest n = (if n \<le> length rest then Inr (take n rest) else Inl (Dropbear_exit ''Bad buf_getptr''))"

definition cmp_base64_key :: "'k pk_crypto \<Rightarrow> bytes \<Rightarrow> bytes \<Rightarrow> bytes \<Rightarrow> bool res" where
  "cmp_base64_key pk keyblob algoname line =
     (if line = [] then Inr False else
      case pk_base64_decode pk line of
        None \<Rightarrow> Inr False
      | Some decodekey \<Rightarrow>
          if decodekey \<noteq> keyblob then Inr False else
          rbind (line_ptr decodekey 4) (\<lambda>n.
          rbind (line_ptr (drop 4 decodekey) (unat (load32h n))) (\<lambda>filealgo.
          Inr (filealgo = algoname))))"

definition is_blank :: "byte \<Rightarrow> bool" where
  "is_blank c \<longleftrightarrow> c = 32 \<or> c = 9"

text \<open>The loop that finds the end of the options: the options and what follows the blank after them.\<close>

fun scan_options :: "bool \<Rightarrow> bool \<Rightarrow> bytes \<Rightarrow> bytes \<times> bytes" where
  "scan_options quoted escape [] = ([], [])"
| "scan_options quoted escape (c # cs) =
     (if \<not> quoted \<and> is_blank c then ([], cs) else
      let escape = (\<not> escape \<and> c = 92);
          quoted = (if \<not> escape \<and> c = 34 then \<not> quoted else quoted);
          (opts, rest) = scan_options quoted escape cs
      in (c # opts, rest))"

definition info_char :: "byte \<Rightarrow> bool" where
  "info_char c \<longleftrightarrow> (48 \<le> c \<and> c \<le> 57) \<or> (65 \<le> c \<and> c \<le> 90) \<or> (97 \<le> c \<and> c \<le> 122) \<or> c \<in> set (cstr ''.,_-+@'')"

text \<open>The part of a line from the algorithm on, after its options have been taken off.\<close>

definition check_key_fields :: "bool \<Rightarrow> 'k pk_crypto \<Rightarrow> bytes \<Rightarrow> bytes \<Rightarrow> bytes option \<Rightarrow> bytes \<Rightarrow> PubKeyOptions option res" where
  "check_key_fields einval pk algo keyblob options_buf rest =
     (let rest = drop (length algo) rest in
      if hd rest \<noteq> 32 then Inr None else
      let rest = tl rest;
          key = takeWhile (\<lambda>c. c \<noteq> 32) rest;
          info = takeWhile (\<lambda>c. c \<noteq> 32) (drop 1 (dropWhile (\<lambda>c. c \<noteq> 32) rest));
          info = (if list_all info_char info then info else []) in
      rbind (cmp_base64_key pk keyblob algo key) (\<lambda>ok.
      if \<not> ok then Inr None else
      Inr (map_option (\<lambda>po. po\<lparr>info_env := (if info = [] then None else Some info)\<rparr>)
             (svr_parse_pubkey_options einval options_buf))))"

text \<open>The options of the line that holds the key: \<open>None\<close> is \<^verbatim>\<open>DROPBEAR_FAILURE\<close>.\<close>

definition checkpubkey_line :: "bool \<Rightarrow> 'k pk_crypto \<Rightarrow> bytes \<Rightarrow> bytes \<Rightarrow> bytes \<Rightarrow> PubKeyOptions option res" where
  "checkpubkey_line einval pk algo keyblob line =
     (if length line < MIN_AUTHKEYS_LINE \<or> length line > MAX_AUTHKEYS_LINE then Inr None else
      if 0 \<in> set line then Inr None else
      if length algo + 3 > length line then Inr None else
      if take (length algo) line = algo then check_key_fields einval pk algo keyblob None line else
      let rest = dropWhile is_blank line in
      if rest \<noteq> [] \<and> hd rest = 35 then Inr None else
      rbind (line_ptr rest 1) (\<lambda>_.
      let (options, rest) = scan_options False False rest in
      if length algo + 3 > length rest then Inr None else
      if take (length algo) rest \<noteq> algo then Inr None
      else check_key_fields einval pk algo keyblob (Some options) rest))"

lemma buf_getline_less: "buf_getline file = Some (l, rest) \<Longrightarrow> length rest < length file"
proof -
  assume h: "buf_getline file = Some (l, rest)"
  let ?P = "\<lambda>c. c \<noteq> LF \<and> c \<noteq> CR"
  have len: "length (takeWhile ?P file) + length (dropWhile ?P file) = length file"
    by (metis length_append takeWhile_dropWhile_id)
  show ?thesis
  proof (cases "length (takeWhile ?P file) \<ge> MAX_AUTHKEYS_LINE")
    case True
    then show ?thesis using h len by (auto simp: buf_getline_def Let_def)
  next
    case False
    then show ?thesis using h len
      by (cases "dropWhile ?P file"; cases "takeWhile ?P file") (auto simp: buf_getline_def Let_def split: if_splits)
  qed
qed

function check_lines :: "bool \<Rightarrow> 'k pk_crypto \<Rightarrow> bytes \<Rightarrow> bytes \<Rightarrow> bytes \<Rightarrow> PubKeyOptions option res" where
  "check_lines einval pk algo keyblob file =
     (case buf_getline file of
        None \<Rightarrow> Inr None
      | Some (line, rest) \<Rightarrow>
          rbind (checkpubkey_line einval pk algo keyblob line) (\<lambda>r.
          case r of Some po \<Rightarrow> Inr (Some po) | None \<Rightarrow> check_lines einval pk algo keyblob rest))"
  by auto
termination
  by (relation "measure (\<lambda>(_, _, _, _, file). length file)") (auto dest: buf_getline_less)

declare check_lines.simps [simp del]

definition checkpubkey :: "bool \<Rightarrow> 'k pk_crypto \<Rightarrow> bytes \<Rightarrow> bytes \<Rightarrow> 't conn \<Rightarrow> PubKeyOptions option res" where
  "checkpubkey einval pk keyalgo keyblob c =
     rbind (ikofi_conf_file (cn_ikofi c) AUTHORIZED_KEYS_FILE) (\<lambda>filename.
     case ik_files (cn_ikofi c) filename of
       None \<Rightarrow> Inr None
     | Some file \<Rightarrow> check_lines einval pk keyalgo keyblob file)"

section \<open>Public keys\<close>

definition signkey_names :: "bytes list" where
  "signkey_names = [cstr ''ssh-rsa'', cstr ''ecdsa-sha2-nistp256'', cstr ''ecdsa-sha2-nistp384'', cstr ''ecdsa-sha2-nistp521'',
     cstr ''sk-ecdsa-sha2-nistp256@openssh.com'', cstr ''ssh-ed25519'', cstr ''sk-ssh-ed25519@openssh.com'']"

abbreviation (input) "DROPBEAR_SIGNKEY_NONE \<equiv> 90 :: int"

fun name_index :: "bytes list \<Rightarrow> int \<Rightarrow> bytes \<Rightarrow> int" where
  "name_index [] i name = DROPBEAR_SIGNKEY_NONE"
| "name_index (n # ns) i name = (if n = name then i else name_index ns (i + 1) name)"

definition signkey_type_from_name :: "bytes \<Rightarrow> int" where
  "signkey_type_from_name name = name_index signkey_names 0 name"

definition signature_type_from_name :: "bytes \<Rightarrow> int" where
  "signature_type_from_name name = (if name = cstr ''rsa-sha2-256'' then 101 else signkey_type_from_name name)"

definition signkey_name_from_type :: "int \<Rightarrow> bytes res" where
  "signkey_name_from_type t = (if 0 \<le> t \<and> t < 7 then Inr (signkey_names ! nat t) else Inl (Dropbear_exit ''Bad key type''))"

definition send_msg_userauth_pk_ok :: "bytes \<Rightarrow> bytes \<Rightarrow> 't conn \<Rightarrow> 't conn res" where
  "send_msg_userauth_pk_ok sigalgo keyblob = on_ses (send_fields [FByte 60, FString sigalgo, FString keyblob])"

abbreviation (input) "SSH_SK_USER_PRESENCE_REQD \<equiv> 1 :: byte"
abbreviation (input) "SSH_SK_USER_VERIFICATION_REQD \<equiv> 4 :: byte"

definition sk_flags_mask :: "PubKeyOptions \<Rightarrow> byte" where
  "sk_flags_mask po =
     (let m = (if no_touch_required_flag po then SSH_SK_USER_PRESENCE_REQD AND NOT SSH_SK_USER_PRESENCE_REQD else SSH_SK_USER_PRESENCE_REQD)
      in if verify_required_flag po then m OR SSH_SK_USER_VERIFICATION_REQD else m)"

text \<open>The data that has been signed: the session identifier and the payload up to the signature.\<close>

definition signed_data :: "sshsession \<Rightarrow> (bytes \<times> sshsession) res" where
  "signed_data s =
     rbind (deref (s_payload s)) (\<lambda>pl.
     rbind (dassert (s_payload_beginning s \<le> b_pos pl) ''payload_beginning'') (\<lambda>_.
     let sign_payload_length = b_pos pl - s_payload_beginning s in
     rbind (deref (s_session_id s)) (\<lambda>sid.
     rbind (buf_new (b_pos pl + 4 + b_len sid)) (\<lambda>signbuf.
     rbind (buf_putbufstring signbuf sid) (\<lambda>signbuf.
     rbind (buf_setpos pl (s_payload_beginning s)) (\<lambda>pl.
     rbind (buf_peek pl sign_payload_length) (\<lambda>prior.
     rbind (buf_putbytes signbuf prior sign_payload_length) (\<lambda>signbuf.
     rbind (buf_incrpos pl sign_payload_length) (\<lambda>pl.
     rbind (buf_setpos signbuf 0) (\<lambda>signbuf.
     Inr (buf_contents signbuf, s\<lparr>s_payload := Some pl\<rparr>)))))))))))"

definition pubkey_verified :: "PubKeyOptions \<Rightarrow> 't conn \<Rightarrow> 't conn res" where
  "pubkey_verified po c =
     (let c = (if pubkey_options (s_authstate (cn_ses c)) = None then upd_auth (\<lambda>a. a\<lparr>pubkey_options := Some po\<rparr>) c else c) in
      if multiauthmethod (cn_svr_opts c) \<and> authtypes (s_authstate (cn_ses c)) AND NOT AUTH_TYPE_PUBKEY \<noteq> 0
      then send_msg_userauth_failure True False (upd_auth (\<lambda>a. a\<lparr>authtypes := authtypes a AND NOT AUTH_TYPE_PUBKEY\<rparr>) c)
      else send_msg_userauth_success c)"

definition verify_pubkey :: "'k pk_crypto \<Rightarrow> int \<Rightarrow> int \<Rightarrow> PubKeyOptions \<Rightarrow> 't conn \<Rightarrow> 't conn res" where
  "verify_pubkey pk sigtype keytype po c =
     rbind (on_ses_get (on_payload (\<lambda>b. pk_get_pub_key pk b keytype)) c) (\<lambda>(key, c).
     case key of None \<Rightarrow> send_msg_userauth_failure False True c
     | Some key \<Rightarrow>
       rbind (on_ses_get signed_data c) (\<lambda>(signbuf, c).
       rbind (on_ses_get (on_payload (\<lambda>b. pk_verify pk b key (sk_flags_mask po) sigtype signbuf)) c) (\<lambda>(ok, c).
       if ok then pubkey_verified po c else send_msg_userauth_failure False True c)))"

definition svr_auth_pubkey :: "bool \<Rightarrow> 'k pk_crypto \<Rightarrow> bool \<Rightarrow> 't conn \<Rightarrow> 't conn res" where
  "svr_auth_pubkey einval pk valid_user c =
     rbind (on_ses_get (on_payload buf_getbool) c) (\<lambda>(attempt, c).
     rbind (on_ses_get (on_payload buf_getstring) c) (\<lambda>(sigalgo, c).
     rbind (on_ses_get (on_payload buf_getint) c) (\<lambda>(keybloblen, c).
     rbind (on_ses_get (on_payload (\<lambda>b. rbind (buf_peek b keybloblen) (\<lambda>kb. Inr (kb, b)))) c) (\<lambda>(keyblob, c).
     if \<not> valid_user then send_msg_userauth_failure False False c else
     let sigtype = signature_type_from_name sigalgo in
     if sigtype = DROPBEAR_SIGNKEY_NONE then send_msg_userauth_failure False False c else
     rbind (signkey_type_from_signature sigtype) (\<lambda>keytype.
     rbind (signkey_name_from_type keytype) (\<lambda>keyalgo.
     rbind (checkpubkey einval pk keyalgo keyblob c) (\<lambda>r.
     case r of
       None \<Rightarrow>
         rbind (send_msg_userauth_failure False (serv_pubkey_query_count (s_authstate (cn_ses c)) > 0) c) (\<lambda>c.
         Inr (upd_auth (\<lambda>a. a\<lparr>serv_pubkey_query_count := serv_pubkey_query_count a + 1\<rparr>) c))
     | Some po \<Rightarrow>
         if \<not> attempt then send_msg_userauth_pk_ok sigalgo keyblob c
         else verify_pubkey pk sigtype keytype po c)))))))"

section \<open>Requests\<close>

definition method_none_ok :: "bool \<Rightarrow> 't conn \<Rightarrow> bool res" where
  "method_none_ok valid_user c =
     (let o' = cn_svr_opts c; a = s_authstate (cn_ses c) in
      if valid_user \<and> allowblankpass o' \<and> \<not> noauthpass o' \<and> \<not> (norootpass o' \<and> pw_uid a = 0)
      then rbind (deref (pw_passwd a)) (\<lambda>p. Inr (p = [])) else Inr False)"

definition userauth_method :: "bool \<Rightarrow> 'k pk_crypto \<Rightarrow> bytes \<Rightarrow> bool \<Rightarrow> 't handler" where
  "userauth_method einval pk methodname valid_user c =
     (if methodname = cstr ''none'' then
        rbind (method_none_ok valid_user c) (\<lambda>ok.
        if ok then send_msg_userauth_success c else send_msg_userauth_failure False False c)
      else if authtypes (s_authstate (cn_ses c)) AND AUTH_TYPE_PUBKEY \<noteq> 0 \<and> methodname = cstr ''publickey''
      then svr_auth_pubkey einval pk valid_user c
      else if authtypes (s_authstate (cn_ses c)) AND AUTH_TYPE_PASSWORD \<noteq> 0 \<and> methodname = cstr ''password''
      then svr_auth_password True c
      else send_msg_userauth_failure False True c)"

definition send_banner :: "'t handler" where
  "send_banner c =
     (case banner (cn_svr_opts c) of
        None \<Rightarrow> Inr c
      | Some bn \<Rightarrow> rbind (send_msg_userauth_banner bn c) (\<lambda>c. Inr (c\<lparr>cn_svr_opts := (cn_svr_opts c)\<lparr>banner := None\<rparr>\<rparr>)))"

definition recv_msg_userauth_request :: "bool \<Rightarrow> 'k pk_crypto \<Rightarrow> 't handler" where
  "recv_msg_userauth_request einval pk c =
     (let (now, s) = gettime_wrapper (cn_ses c);
          c = upd_auth (\<lambda>a. a\<lparr>auth_starttime := now\<rparr>) (c\<lparr>cn_ses := s\<rparr>) in
      if authdone (s_authstate (cn_ses c)) then Inr c else
      rbind (send_banner c) (\<lambda>c.
      rbind (on_ses_get (on_payload buf_getstring) c) (\<lambda>(username, c).
      rbind (on_ses_get (on_payload buf_getstring) c) (\<lambda>(servicename, c).
      rbind (on_ses_get (on_payload buf_getstring) c) (\<lambda>(methodname, c).
      if servicename \<noteq> SSH_SERVICE_CONNECTION then Inl (Dropbear_exit ''unknown service in auth'') else
      rbind (checkusername username c) (\<lambda>(valid_user, c).
      userauth_method einval pk methodname valid_user c))))))"

end
