(* ===== verification/Svr_Auth_Props.thy ===== *)
theory Svr_Auth_Props
  imports Svr_Auth
begin

unbundle bit_operations_syntax

text \<open>
  What authentication guarantees: the reasons for which a client is let in, the bound on the guesses
  of a connection, the name that cannot change, and how lines of the authorized keys are read.
\<close>

section \<open>What the steps change\<close>

abbreviation (input) "auth_of c \<equiv> s_authstate (cn_ses c)"

definition settings :: "'t conn \<Rightarrow> svr_runopts \<times> ikofi" where
  "settings c = ((cn_svr_opts c)\<lparr>banner := None\<rparr>, cn_ikofi c)"

lemma upd_auth_sel [simp]:
  "auth_of (upd_auth f c) = f (auth_of c)" "settings (upd_auth f c) = settings c" "cn_svr_opts (upd_auth f c) = cn_svr_opts c"
  "cn_ikofi (upd_auth f c) = cn_ikofi c" "s_payload (cn_ses (upd_auth f c)) = s_payload (cn_ses c)"
  by (simp_all add: upd_auth_def settings_def)

lemma emit_sel [simp]: "cn_ses (emit e c) = cn_ses c" "settings (emit e c) = settings c" "cn_svr_opts (emit e c) = cn_svr_opts c"
  "cn_ikofi (emit e c) = cn_ikofi c"
  by (simp_all add: emit_def settings_def)

lemma send_same:
  assumes "on_ses (send_fields fs) c = Inr c'"
  shows "auth_of c' = auth_of c \<and> settings c' = settings c \<and> cn_svr_opts c' = cn_svr_opts c"
  using assms by (auto simp: on_ses_def rbind_eq_Inr settings_def dest!: send_fields_sends simp: sends_same(20))

lemma failure_delay_same:
  "failure_delay c = (d, c') \<Longrightarrow> auth_of c' = auth_of c \<and> settings c' = settings c \<and> cn_svr_opts c' = cn_svr_opts c"
  by (auto simp: failure_delay_def gettime_wrapper_def genrandom_def settings_def Let_def split: prod.splits if_splits)

lemma auth_failure:
  assumes "send_msg_userauth_failure partial incrfail c = Inr c'"
  shows "auth_of c' = (if incrfail then (auth_of c)\<lparr>failcount := failcount (auth_of c) + 1\<rparr> else auth_of c) \<and>
    failcount (auth_of c') \<le> maxauthtries (cn_svr_opts c) \<and> settings c' = settings c"
proof -
  let ?fs = "[FByte 51, FString (auth_types (authtypes (auth_of c))), FByte (if partial then 1 else 0)]"
  obtain c1 where c1: "on_ses (send_fields ?fs) c = Inr c1"
    using assms by (auto simp: send_msg_userauth_failure_def rbind_eq_Inr)
  obtain d c2 where d: "failure_delay c1 = (d, c2)" by (cases "failure_delay c1")
  let ?c = "if incrfail then upd_auth (\<lambda>a. a\<lparr>failcount := failcount a + 1\<rparr>) (emit (Ev_sleep d) c2) else c1"
  have c': "c' = ?c" "\<not> maxauthtries (cn_svr_opts ?c) < failcount (auth_of ?c)"
    using assms c1 d by (auto simp: send_msg_userauth_failure_def rbind_eq_Inr Let_def split: if_splits)
  show ?thesis
    using send_same [OF c1] failure_delay_same [OF d] c'(2) unfolding c'(1) by (cases incrfail) (simp_all add: not_less)
qed

lemma auth_success:
  assumes "send_msg_userauth_success c = Inr c'"
  shows "auth_of c' = (auth_of c)\<lparr>authdone := True\<rparr> \<and> settings c' = settings c"
proof -
  obtain c1 where c1: "on_ses (send_fields [FByte 52]) c = Inr c1"
    using assms by (auto simp: send_msg_userauth_success_def rbind_eq_Inr)
  then have c': "c' = (let c = upd_auth (\<lambda>a. a\<lparr>authdone := True\<rparr>) c1;
       c = (if pw_uid (auth_of c) = 0 then c\<lparr>cn_ses := (cn_ses c)\<lparr>s_allowprivport := True\<rparr>\<rparr> else c)
     in emit (Ev_close (cn_childpipe c)) c)"
    using assms by (simp add: send_msg_userauth_success_def Let_def)
  show ?thesis using send_same [OF c1] by (simp add: c' Let_def settings_def)
qed

lemma read_payload:
  assumes "on_ses_get (on_payload f) c = Inr (x, c')"
  shows "\<exists>b b'. s_payload (cn_ses c) = Some b \<and> f b = Inr (x, b') \<and> c' = c\<lparr>cn_ses := (cn_ses c)\<lparr>s_payload := Some b'\<rparr>\<rparr>"
  using assms by (auto simp: on_ses_get_def rbind_eq_Inr on_payload_eq)

lemma read_same:
  assumes "on_ses_get (on_payload f) c = Inr (x, c')"
  shows "auth_of c' = auth_of c \<and> settings c' = settings c \<and> cn_svr_opts c' = cn_svr_opts c \<and> cn_ikofi c' = cn_ikofi c"
  using read_payload [OF assms] by (auto simp: settings_def)

section \<open>Passwords\<close>

text \<open>The entry of the password file, and the passwords that are accepted.\<close>

definition file_user :: "ikofi \<Rightarrow> (bytes \<times> bytes) option" where
  "file_user k = (case ikofi_get_user_password k of Inr (True, Some u, Some h) \<Rightarrow> Some (u, h) | _ \<Rightarrow> None)"

definition password_accepted :: "ikofi \<Rightarrow> AuthState \<Rightarrow> bytes \<Rightarrow> bool" where
  "password_accepted k a pw \<longleftrightarrow> 0 \<notin> set pw \<and> length pw \<le> 100 \<and>
     (if \<exists>h. (file_user k = Some (the (a_username a), h) \<and> a_username a \<noteq> None)
      then file_user k = Some (the (a_username a), c_string (ik_base64 k (ik_sha512 k pw)))
      else pw_passwd a = Some pw \<and> pw \<noteq> [])"

lemma c_string_id: "length pw = length (c_string pw) \<longleftrightarrow> 0 \<notin> set pw"
proof -
  have "length (takeWhile (\<lambda>b. b \<noteq> 0) pw) \<le> length pw" by (rule length_takeWhile_le)
  then show ?thesis by (induction pw) (auto simp: c_string_def length_takeWhile_le dest: le_imp_less_Suc)
qed

lemma c_string_eq: "0 \<notin> set pw \<Longrightarrow> c_string pw = pw"
  by (induction pw) (auto simp: c_string_def)

lemma strcmp_eq: "constant_time_strcmp a b = Inr r \<Longrightarrow> r = 0 \<longleftrightarrow> a = b"
  using constant_time_memcmp_eq [of "length a" a b] by (auto simp: constant_time_strcmp_def split: if_splits)

lemma strtok_nonempty: "strtok d s = (Some t, r) \<Longrightarrow> t \<noteq> []"
  using hd_dropWhile [of "\<lambda>b. b = d" s]
  by (cases "dropWhile (\<lambda>b. b = d) s") (auto simp: strtok_def Let_def split: if_splits)

lemma user_password_nonempty:
  "ikofi_get_user_password k = Inr (f, u, h) \<Longrightarrow> u \<noteq> Some [] \<and> h \<noteq> Some []"
  by (auto simp: ikofi_get_user_password_def Let_def split: option.splits if_splits prod.splits dest: strtok_nonempty)

lemma matches_file_user_eq:
  assumes "ikofi_get_user_password k = Inr (f, u, h)" and "matches_file_user f u h a = Inr m"
  shows "m = (\<exists>p. file_user k = Some (the (a_username a), p) \<and> a_username a \<noteq> None) \<and> (m \<longrightarrow> file_user k = Some (the (a_username a), the h) \<and> h \<noteq> None)"
  using assms user_password_nonempty [OF assms(1)]
  by (cases f) (auto simp: matches_file_user_def file_user_def rbind_eq_Inr deref_eq_Inr split: if_splits)

lemma auth_password_hook:
  assumes "ikofi_svr_auth_password pw c = Inr ((pc, tc), c')"
  shows "settings c' = settings c \<and> (\<exists>p. auth_of c' = (auth_of c)\<lparr>pw_passwd := p\<rparr>) \<and>
    s_payload (cn_ses c') = s_payload (cn_ses c) \<and>
    (\<forall>p. pc = Some p \<and> p \<noteq> [] \<and> tc = Some p \<and> length pw \<le> 100 \<longrightarrow> password_accepted (cn_ikofi c) (auth_of c) pw)"
proof -
  obtain f u h m where 1: "ikofi_get_user_password (cn_ikofi c) = Inr (f, u, h)" and 2: "matches_file_user f u h (auth_of c) = Inr m"
    using assms by (auto simp: ikofi_svr_auth_password_def rbind_eq_Inr)
  note m = matches_file_user_eq [OF 1 2]
  show ?thesis
  proof (cases m)
    case True
    let ?t = "if length pw = length (c_string pw) then Some (c_string (ik_base64 (cn_ikofi c) (ik_sha512 (cn_ikofi c) pw))) else None"
    have "ikofi_svr_auth_password pw c = Inr ((h, ?t), upd_auth (\<lambda>a. a\<lparr>pw_passwd := h\<rparr>) c)"
      using 1 2 True by (simp add: ikofi_svr_auth_password_def Let_def)
    then have e: "pc = h" "tc = ?t" "c' = upd_auth (\<lambda>a. a\<lparr>pw_passwd := h\<rparr>) c" using assms by simp_all
    have "password_accepted (cn_ikofi c) (auth_of c) pw" if "pc = Some p" "p \<noteq> []" "tc = Some p" "length pw \<le> 100" for p
      using that m True e(1,2) by (auto simp: password_accepted_def c_string_id split: if_splits)
    then show ?thesis by (auto simp: e(3))
  next
    case False
    let ?t = "if length pw = length (c_string pw) then Some (c_string pw) else None"
    have "ikofi_svr_auth_password pw c = Inr ((pw_passwd (auth_of c), ?t), c)"
      using 1 2 False by (simp add: ikofi_svr_auth_password_def Let_def)
    then have e: "pc = pw_passwd (auth_of c)" "tc = ?t" "c' = c" using assms by simp_all
    have "password_accepted (cn_ikofi c) (auth_of c) pw" if "pc = Some p" "p \<noteq> []" "tc = Some p" "length pw \<le> 100" for p
      using that m False e(1,2) by (auto simp: password_accepted_def c_string_id c_string_eq split: if_splits)
    moreover have "\<exists>p. auth_of c = (auth_of c)\<lparr>pw_passwd := p\<rparr>" by (rule exI [of _ "pw_passwd (auth_of c)"]) simp
    ultimately show ?thesis by (auto simp: e(3))
  qed
qed

text \<open>
  How a connection goes on after a request: a counted failure, a step of a multi-method login,
  a refusal that is not counted, or success for a reason.
\<close>

abbreviation (input) "tries c \<equiv> maxauthtries (cn_svr_opts c)"

definition outcome :: "'t conn \<Rightarrow> AuthState \<Rightarrow> bool \<Rightarrow> 't conn \<Rightarrow> bool" where
  "outcome c a reason c' \<longleftrightarrow> settings c' = settings c \<and>
     (auth_of c' = a\<lparr>failcount := failcount a + 1\<rparr> \<and> failcount a + 1 \<le> tries c \<or>
      multiauthmethod (cn_svr_opts c) \<and> (\<exists>t. auth_of c' = a\<lparr>authtypes := t\<rparr>) \<and> failcount a \<le> tries c \<or>
      auth_of c' = a\<lparr>authdone := True\<rparr> \<and> reason)"

lemma settings_sel: "settings c = settings c' \<Longrightarrow> tries c = tries c' \<and> multiauthmethod (cn_svr_opts c) = multiauthmethod (cn_svr_opts c')"
  by (simp add: settings_def) (metis svr_runopts.select_convs(4,5) svr_runopts.surjective svr_runopts.update_convs(6))

lemma outcome_failure:
  "send_msg_userauth_failure False True c1 = Inr c' \<Longrightarrow> settings c1 = settings c \<Longrightarrow> outcome c (auth_of c1) R c'"
  using settings_sel [of c1 c] by (auto simp: outcome_def dest!: auth_failure)

lemma outcome_partial:
  assumes "send_msg_userauth_failure True False (upd_auth (\<lambda>a. a\<lparr>authtypes := f a\<rparr>) c1) = Inr c'" "settings c1 = settings c"
    "multiauthmethod (cn_svr_opts c1)"
  shows "outcome c (auth_of c1) R c'"
  using auth_failure [OF assms(1)] assms(2,3) settings_sel [OF assms(2)] by (auto simp: outcome_def)

lemma outcome_success:
  "send_msg_userauth_success c1 = Inr c' \<Longrightarrow> settings c1 = settings c \<Longrightarrow> R \<Longrightarrow> outcome c (auth_of c1) R c'"
  by (auto simp: outcome_def dest!: auth_success)

definition password_given :: "'t conn \<Rightarrow> bytes \<Rightarrow> bool" where
  "password_given c pw \<longleftrightarrow> (\<exists>b b1 b2. s_payload (cn_ses c) = Some b \<and> buf_getbool b = Inr (False, b1) \<and> buf_getstring b1 = Inr (pw, b2))"

lemma password_outcome:
  assumes "svr_auth_password True c = Inr c'"
  shows "\<exists>p. outcome c ((auth_of c)\<lparr>pw_passwd := p\<rparr>) (\<exists>pw. password_given c pw \<and> password_accepted (cn_ikofi c) (auth_of c) pw) c'"
    (is "\<exists>p. outcome c _ ?R c'")
proof -
  have same: "auth_of c = (auth_of c)\<lparr>pw_passwd := pw_passwd (auth_of c)\<rparr>" by simp
  obtain changepw c1 where c1: "on_ses_get (on_payload buf_getbool) c = Inr (changepw, c1)"
    using assms by (auto simp: svr_auth_password_def rbind_eq_Inr)
  note r1 = read_same [OF c1]
  show ?thesis
  proof (cases changepw)
    case True
    then have "send_msg_userauth_failure False True c1 = Inr c'" using assms c1 by (simp add: svr_auth_password_def)
    from outcome_failure [OF this, of c ?R] r1 same show ?thesis by metis
  next
    case False
    obtain pw c2 where c2: "on_ses_get (on_payload buf_getstring) c1 = Inr (pw, c2)"
      using assms c1 False by (auto simp: svr_auth_password_def rbind_eq_Inr)
    note r2 = read_same [OF c2]
    show ?thesis
    proof (cases "length pw \<le> 100")
      case long: False
      then have "send_msg_userauth_failure False True c2 = Inr c'" using assms c1 c2 False by (simp add: svr_auth_password_def)
      from outcome_failure [OF this, of c ?R] r1 r2 same show ?thesis by metis
    next
      case short: True
      obtain pc tc c3 where c3: "ikofi_svr_auth_password pw c2 = Inr ((pc, tc), c3)"
        using assms c1 c2 False short by (auto simp: svr_auth_password_def rbind_eq_Inr)
      note h = auth_password_hook [OF c3]
      obtain p where p: "auth_of c3 = (auth_of c)\<lparr>pw_passwd := p\<rparr>" using h r1 r2 by auto
      have s3: "settings c3 = settings c" using h r1 r2 by simp
      have run: "(case tc of None \<Rightarrow> send_msg_userauth_failure False True c3
         | Some test \<Rightarrow> rbind (deref pc) (\<lambda>pass. if pass = [] then send_msg_userauth_failure False True c3 else
             rbind (constant_time_strcmp test pass) (\<lambda>cmp. if cmp = 0 then
               (if multiauthmethod (cn_svr_opts c3) \<and> authtypes (auth_of c3) AND NOT AUTH_TYPE_PASSWORD \<noteq> 0
                then send_msg_userauth_failure True False (upd_auth (\<lambda>a. a\<lparr>authtypes := authtypes a AND NOT AUTH_TYPE_PASSWORD\<rparr>) c3)
                else send_msg_userauth_success c3)
             else send_msg_userauth_failure False True c3))) = Inr c'"
        using assms c1 c2 c3 False short by (simp add: svr_auth_password_def)
      consider "send_msg_userauth_failure False True c3 = Inr c'"
        | "multiauthmethod (cn_svr_opts c3)"
          "send_msg_userauth_failure True False (upd_auth (\<lambda>a. a\<lparr>authtypes := authtypes a AND NOT AUTH_TYPE_PASSWORD\<rparr>) c3) = Inr c'"
        | pass where "pc = Some pass" "pass \<noteq> []" "tc = Some pass" "send_msg_userauth_success c3 = Inr c'"
        using run by (auto simp: rbind_eq_Inr deref_eq_Inr split: option.splits if_splits dest!: strcmp_eq)
      then have "outcome c (auth_of c3) ?R c'"
      proof cases
        case 1
        then show ?thesis using s3 by (rule outcome_failure)
      next
        case 2
        then show ?thesis using s3 by (intro outcome_partial)
      next
        case 3
        have "password_accepted (cn_ikofi c2) (auth_of c2) pw" using h 3 short by blast
        then have "password_accepted (cn_ikofi c) (auth_of c) pw" using r1 r2 by simp
        moreover have "password_given c pw"
          using read_payload [OF c1] read_payload [OF c2] False by (auto simp: password_given_def)
        ultimately have ?R by blast
        with 3(4) s3 show ?thesis by (rule outcome_success)
      qed
      then show ?thesis using p by auto
    qed
  qed
qed

section \<open>Public keys\<close>

text \<open>The frame of every request: what is kept, and for which reason a client may be let in.\<close>

definition goes_on :: "'t conn \<Rightarrow> bool \<Rightarrow> 't conn \<Rightarrow> bool" where
  "goes_on c reason c' \<longleftrightarrow> settings c' = settings c \<and>
     (\<forall>u. a_username (auth_of c) = Some u \<longrightarrow> a_username (auth_of c') = Some u) \<and>
     (authdone (auth_of c') \<longrightarrow> authdone (auth_of c) \<or> reason) \<and>
     (failcount (auth_of c') = failcount (auth_of c) \<or>
      failcount (auth_of c') = failcount (auth_of c) + 1 \<and> failcount (auth_of c) + 1 \<le> tries c) \<and>
     (\<forall>po. pubkey_options (auth_of c) = Some po \<longrightarrow> pubkey_options (auth_of c') = Some po)"

lemma outcome_goes_on:
  "outcome c ((auth_of c)\<lparr>pw_passwd := p\<rparr>) R c' \<Longrightarrow> goes_on c R c'"
  by (auto simp: outcome_def goes_on_def)

lemma outcome_goes_on_options:
  "outcome c a R c' \<Longrightarrow> a = auth_of c \<or> pubkey_options (auth_of c) = None \<and> a = (auth_of c)\<lparr>pubkey_options := Some po\<rparr> \<Longrightarrow> goes_on c R c'"
  by (auto simp: outcome_def goes_on_def)

lemma uncounted_goes_on:
  assumes "send_msg_userauth_failure partial False c1 = Inr c'" "auth_of c1 = auth_of c" "settings c1 = settings c"
  shows "goes_on c R c'"
  using auth_failure [OF assms(1)] assms(2,3) by (simp add: goes_on_def)

definition key_accepted :: "bool \<Rightarrow> 'k pk_crypto \<Rightarrow> 't conn \<Rightarrow> bool" where
  "key_accepted einval pk c \<longleftrightarrow> (\<exists>b0 b1 b2 b3 b4 b5 b6 n s' sigalgo keyblob keytype keyalgo po key signbuf.
     s_payload (cn_ses c) = Some b0 \<and> buf_getbool b0 = Inr (True, b1) \<and> buf_getstring b1 = Inr (sigalgo, b2) \<and>
     buf_getint b2 = Inr (n, b3) \<and> buf_peek b3 n = Inr keyblob \<and>
     signkey_type_from_signature (signature_type_from_name sigalgo) = Inr keytype \<and> signkey_name_from_type keytype = Inr keyalgo \<and>
     checkpubkey einval pk keyalgo keyblob c = Inr (Some po) \<and>
     pk_get_pub_key pk b3 keytype = Inr (Some key, b4) \<and>
     signed_data ((cn_ses c)\<lparr>s_payload := Some b4\<rparr>) = Inr (signbuf, s') \<and> s_payload s' = Some b5 \<and>
     pk_verify pk b5 key (sk_flags_mask po) (signature_type_from_name sigalgo) signbuf = Inr (True, b6))"

lemma signed_data_same:
  "signed_data s = Inr (signbuf, s') \<Longrightarrow> \<exists>b. s' = s\<lparr>s_payload := Some b\<rparr>"
  by (auto simp: signed_data_def rbind_eq_Inr Let_def)

lemma verified_goes_on:
  assumes "pubkey_verified po c1 = Inr c'" "auth_of c1 = auth_of c" "settings c1 = settings c" "R"
  shows "goes_on c R c'"
proof -
  let ?c = "if pubkey_options (auth_of c1) = None then upd_auth (\<lambda>a. a\<lparr>pubkey_options := Some po\<rparr>) c1 else c1"
  have a: "auth_of ?c = auth_of c \<or> pubkey_options (auth_of c) = None \<and> auth_of ?c = (auth_of c)\<lparr>pubkey_options := Some po\<rparr>"
    and st: "settings ?c = settings c" using assms(2,3) by simp_all
  consider "multiauthmethod (cn_svr_opts ?c)"
      "send_msg_userauth_failure True False (upd_auth (\<lambda>a. a\<lparr>authtypes := authtypes a AND NOT AUTH_TYPE_PUBKEY\<rparr>) ?c) = Inr c'"
    | "send_msg_userauth_success ?c = Inr c'"
    using assms(1) unfolding pubkey_verified_def Let_def by (metis (no_types, lifting))
  then have "outcome c (auth_of ?c) R c'"
  proof cases
    case 1
    from outcome_partial [OF 1(2) st 1(1)] show ?thesis .
  next
    case 2
    from outcome_success [OF 2 st assms(4)] show ?thesis .
  qed
  then show ?thesis using a by (rule outcome_goes_on_options)
qed

lemma verify_goes_on:
  assumes "verify_pubkey pk sigtype keytype po c = Inr c'" and b3: "s_payload (cn_ses c) = Some b3"
  shows "goes_on c (\<exists>b4 b5 b6 s' key signbuf. pk_get_pub_key pk b3 keytype = Inr (Some key, b4) \<and>
     signed_data ((cn_ses c)\<lparr>s_payload := Some b4\<rparr>) = Inr (signbuf, s') \<and> s_payload s' = Some b5 \<and>
     pk_verify pk b5 key (sk_flags_mask po) sigtype signbuf = Inr (True, b6)) c'" (is "goes_on c ?R c'")
proof -
  have fail: "goes_on c ?R c'" if "send_msg_userauth_failure False True c1 = Inr c'" "auth_of c1 = auth_of c" "settings c1 = settings c" for c1
    using outcome_failure [OF that(1,3), of ?R] that(2) by (intro outcome_goes_on_options) auto
  obtain key c1 where c1: "on_ses_get (on_payload (\<lambda>b. pk_get_pub_key pk b keytype)) c = Inr (key, c1)"
    using assms(1) by (auto simp: verify_pubkey_def rbind_eq_Inr)
  note r1 = read_same [OF c1]
  obtain b4 where b4: "pk_get_pub_key pk b3 keytype = Inr (key, b4)" "cn_ses c1 = (cn_ses c)\<lparr>s_payload := Some b4\<rparr>"
    using read_payload [OF c1] b3 by auto
  show ?thesis
  proof (cases key)
    case None
    then show ?thesis using assms(1) c1 r1 by (intro fail [of c1]) (simp_all add: verify_pubkey_def)
  next
    case (Some k)
    obtain signbuf c2 where c2: "on_ses_get signed_data c1 = Inr (signbuf, c2)"
      using assms(1) c1 Some by (auto simp: verify_pubkey_def rbind_eq_Inr)
    then obtain s2 where s2: "signed_data (cn_ses c1) = Inr (signbuf, s2)" "c2 = c1\<lparr>cn_ses := s2\<rparr>"
      by (auto simp: on_ses_get_def rbind_eq_Inr)
    have r2: "auth_of c2 = auth_of c1" "settings c2 = settings c1"
      using signed_data_same [OF s2(1)] by (auto simp: s2(2) settings_def)
    obtain ok c3 where c3: "on_ses_get (on_payload (\<lambda>b. pk_verify pk b k (sk_flags_mask po) sigtype signbuf)) c2 = Inr (ok, c3)"
      using assms(1) c1 c2 Some by (auto simp: verify_pubkey_def rbind_eq_Inr)
    note r3 = read_same [OF c3]
    have all: "auth_of c3 = auth_of c" "settings c3 = settings c" using r1 r2 r3 by simp_all
    show ?thesis
    proof (cases ok)
      case True
      then have R: ?R using b4 Some s2 read_payload [OF c3] by auto
      have "pubkey_verified po c3 = Inr c'" using assms(1) c1 c2 c3 Some True by (simp add: verify_pubkey_def)
      then show ?thesis using all R by (rule verified_goes_on)
    next
      case False
      then show ?thesis using assms(1) c1 c2 c3 Some all by (intro fail [of c3]) (simp_all add: verify_pubkey_def)
    qed
  qed
qed

lemma pubkey_goes_on:
  assumes "svr_auth_pubkey einval pk valid c = Inr c'"
  shows "goes_on c (valid \<and> key_accepted einval pk c) c'" (is "goes_on c ?R c'")
proof -
  obtain attempt c1 where c1: "on_ses_get (on_payload buf_getbool) c = Inr (attempt, c1)"
    using assms by (auto simp: svr_auth_pubkey_def rbind_eq_Inr)
  obtain sigalgo c2 where c2: "on_ses_get (on_payload buf_getstring) c1 = Inr (sigalgo, c2)"
    using assms c1 by (auto simp: svr_auth_pubkey_def rbind_eq_Inr)
  obtain n c3 where c3: "on_ses_get (on_payload buf_getint) c2 = Inr (n, c3)"
    using assms c1 c2 by (auto simp: svr_auth_pubkey_def rbind_eq_Inr)
  let ?peek = "\<lambda>b. rbind (buf_peek b n) (\<lambda>kb. Inr (kb, b))"
  obtain keyblob c4 where c4: "on_ses_get (on_payload ?peek) c3 = Inr (keyblob, c4)"
    using assms c1 c2 c3 by (auto simp: svr_auth_pubkey_def rbind_eq_Inr)
  obtain b0 b1 b2 b3 where b: "s_payload (cn_ses c) = Some b0" "buf_getbool b0 = Inr (attempt, b1)" "buf_getstring b1 = Inr (sigalgo, b2)"
      "buf_getint b2 = Inr (n, b3)" "buf_peek b3 n = Inr keyblob" and c4': "c4 = c\<lparr>cn_ses := (cn_ses c)\<lparr>s_payload := Some b3\<rparr>\<rparr>"
    using read_payload [OF c1] read_payload [OF c2] read_payload [OF c3] read_payload [OF c4] by (auto simp: rbind_eq_Inr)
  have same: "auth_of c4 = auth_of c" "settings c4 = settings c" by (simp_all add: c4' settings_def)
  let ?t = "signature_type_from_name sigalgo"
  have run: "(if \<not> valid then send_msg_userauth_failure False False c4 else
     if ?t = DROPBEAR_SIGNKEY_NONE then send_msg_userauth_failure False False c4 else
     rbind (signkey_type_from_signature ?t) (\<lambda>keytype. rbind (signkey_name_from_type keytype) (\<lambda>keyalgo.
     rbind (checkpubkey einval pk keyalgo keyblob c4) (\<lambda>r. case r of
       None \<Rightarrow> rbind (send_msg_userauth_failure False (serv_pubkey_query_count (auth_of c4) > 0) c4) (\<lambda>c.
         Inr (upd_auth (\<lambda>a. a\<lparr>serv_pubkey_query_count := serv_pubkey_query_count a + 1\<rparr>) c))
     | Some po \<Rightarrow> if \<not> attempt then send_msg_userauth_pk_ok sigalgo keyblob c4 else verify_pubkey pk ?t keytype po c4)))) = Inr c'"
    using assms unfolding svr_auth_pubkey_def Let_def by (simp only: c1 c2 c3 c4 rbind_simps prod.case)
  consider "send_msg_userauth_failure False False c4 = Inr c'"
    | (query) c5 where "send_msg_userauth_failure False (serv_pubkey_query_count (auth_of c4) > 0) c4 = Inr c5"
       "c' = upd_auth (\<lambda>a. a\<lparr>serv_pubkey_query_count := serv_pubkey_query_count a + 1\<rparr>) c5"
    | (ok) "send_msg_userauth_pk_ok sigalgo keyblob c4 = Inr c'"
    | (verify) keytype keyalgo po where "valid" "attempt" "signkey_type_from_signature ?t = Inr keytype" "signkey_name_from_type keytype = Inr keyalgo"
       "checkpubkey einval pk keyalgo keyblob c4 = Inr (Some po)" "verify_pubkey pk ?t keytype po c4 = Inr c'"
    using run by (auto simp: rbind_eq_Inr split: if_splits option.splits)
  then show ?thesis
  proof cases
    case 1
    then show ?thesis using same by (rule uncounted_goes_on)
  next
    case query
    then show ?thesis using auth_failure [OF query(1)] same settings_sel [OF same(2)]
      by (auto simp: goes_on_def split: if_splits)
  next
    case ok
    then show ?thesis using send_same [of _ c4 c'] same by (auto simp: send_msg_userauth_pk_ok_def goes_on_def)
  next
    case verify
    have "checkpubkey einval pk keyalgo keyblob c = Inr (Some po)" using verify(5) by (simp add: checkpubkey_def c4')
    moreover have "s_payload (cn_ses c4) = Some b3" by (simp add: c4')
    from verify_goes_on [OF verify(6) this]
    have "goes_on c4 (\<exists>b4 b5 b6 s' key signbuf. pk_get_pub_key pk b3 keytype = Inr (Some key, b4) \<and>
       signed_data ((cn_ses c)\<lparr>s_payload := Some b4\<rparr>) = Inr (signbuf, s') \<and> s_payload s' = Some b5 \<and>
       pk_verify pk b5 key (sk_flags_mask po) ?t signbuf = Inr (True, b6)) c'" (is "goes_on c4 ?V c'")
      by (simp add: c4')
    moreover have "buf_getbool b0 = Inr (True, b1)" using b(2) verify(2) by simp
    then have "?V \<Longrightarrow> ?R"
      using b(1,3-5) verify(1,3,4) calculation(1) unfolding key_accepted_def by blast
    ultimately show ?thesis using same settings_sel [OF same(2)] by (auto simp: goes_on_def)
  qed
qed

section \<open>Requests\<close>

definition request :: "'t conn \<Rightarrow> bytes \<Rightarrow> bytes \<Rightarrow> buffer \<Rightarrow> bool" where
  "request c username methodname b \<longleftrightarrow> (\<exists>b0 b1 b2. s_payload (cn_ses c) = Some b0 \<and> buf_getstring b0 = Inr (username, b1) \<and>
     buf_getstring b1 = Inr (SSH_SERVICE_CONNECTION, b2) \<and> buf_getstring b2 = Inr (methodname, b))"

text \<open>The authentication state once a user name has been checked, as far as the decision looks at it.\<close>

definition named :: "bytes \<Rightarrow> AuthState \<Rightarrow> AuthState" where
  "named u a = a\<lparr>a_username := (if length u \<le> 100 then Some u else a_username a),
     pw_passwd := (if length u \<le> 100 \<and> a_username a = None \<and> pw_passwd a = None then Some (cstr ''!!'') else pw_passwd a)\<rparr>"

definition same_login :: "AuthState \<Rightarrow> AuthState \<Rightarrow> bool" where
  "same_login a a' \<longleftrightarrow> a_username a' = a_username a \<and> pw_passwd a' = pw_passwd a \<and> authtypes a' = authtypes a \<and>
     failcount a' = failcount a \<and> authdone a' = authdone a \<and> pubkey_options a' = pubkey_options a"

lemma checkusername_named:
  assumes "checkusername u c = Inr (v, c')"
  shows "settings c' = settings c \<and> cn_ses c' = (cn_ses c)\<lparr>s_authstate := auth_of c'\<rparr> \<and> same_login (named u (auth_of c)) (auth_of c') \<and>
    (\<forall>n. a_username (auth_of c) = Some n \<and> length u \<le> 100 \<longrightarrow> n = u) \<and> (v \<longrightarrow> length u \<le> 100 \<and> 0 \<notin> set u)"
proof (cases "length u \<le> 100")
  case False
  then have "c' = c" "\<not> v" using assms by (simp_all add: checkusername_def)
  then show ?thesis using False by (simp add: same_login_def named_def)
next
  case True
  have nz: "0 \<notin> set u"
  proof (rule ccontr)
    assume "\<not> 0 \<notin> set u"
    then have "length (c_string u) \<noteq> length u" using c_string_id [of u] by simp
    then show False using assms True by (simp add: checkusername_def)
  qed
  define m where "m = (case a_username (auth_of c) of
       None \<Rightarrow> Inr (upd_auth (\<lambda>a. a\<lparr>a_username := Some u\<rparr>) (fill_passwd u c))
     | Some u' \<Rightarrow> if u \<noteq> u' then Inl (Dropbear_exit ''Client trying multiple usernames'') else Inr c)"
  define g where "g = (\<lambda>c :: 'a conn. if checkusername_failed (auth_of c) then Inr (False, c)
      else if pw_name (auth_of c) = None then Inr (False, upd_auth (\<lambda>a. a\<lparr>checkusername_failed := True\<rparr>) c) else Inr (True, c) :: (bool \<times> 'a conn) res)"
  have "checkusername u c = rbind m g"
    using True nz c_string_id [of u] unfolding checkusername_def m_def g_def by simp
  with assms have "rbind m g = Inr (v, c')" by simp
  then obtain c1 where m1: "m = Inr c1" and g1: "g c1 = Inr (v, c')" unfolding rbind_eq_Inr by blast
  note c1 = m1 [unfolded m_def]
  have c': "c' = c1 \<or> c' = upd_auth (\<lambda>a. a\<lparr>checkusername_failed := True\<rparr>) c1"
    using g1 by (auto simp: g_def split: if_splits)
  have 1: "settings c1 = settings c \<and> cn_ses c1 = (cn_ses c)\<lparr>s_authstate := auth_of c1\<rparr> \<and> same_login (named u (auth_of c)) (auth_of c1) \<and>
      (\<forall>n. a_username (auth_of c) = Some n \<longrightarrow> n = u)"
  proof (cases "a_username (auth_of c)")
    case None
    then have e: "c1 = upd_auth (\<lambda>a. a\<lparr>a_username := Some u\<rparr>) (fill_passwd u c)" using c1 by simp
    have "settings c1 = settings c" "cn_ses c1 = (cn_ses c)\<lparr>s_authstate := auth_of c1\<rparr>"
      unfolding e fill_passwd_def by (simp_all add: upd_auth_def settings_def)
    moreover have "same_login (named u (auth_of c)) (auth_of c1)"
      unfolding e fill_passwd_def using True None by (simp add: same_login_def named_def split: option.split)
    ultimately show ?thesis using None by simp
  next
    case (Some n)
    then have "c1 = c" "n = u" using c1 by (auto split: if_splits)
    then show ?thesis using True Some by (simp add: same_login_def named_def)
  qed
  have "settings c' = settings c1 \<and> cn_ses c' = (cn_ses c1)\<lparr>s_authstate := auth_of c'\<rparr> \<and> same_login (auth_of c1) (auth_of c')"
    using c' by (auto simp: upd_auth_def settings_def same_login_def)
  moreover from this 1 have "cn_ses c' = ((cn_ses c)\<lparr>s_authstate := auth_of c1\<rparr>)\<lparr>s_authstate := auth_of c'\<rparr>" by metis
  then have "cn_ses c' = (cn_ses c)\<lparr>s_authstate := auth_of c'\<rparr>" by simp
  ultimately show ?thesis using 1 True nz unfolding same_login_def by (metis (no_types))
qed

lemma named_login: "same_login (named u a) a' \<Longrightarrow> authtypes a' = authtypes a \<and> failcount a' = failcount a \<and> authdone a' = authdone a \<and>
    pubkey_options a' = pubkey_options a \<and> pw_passwd a' = pw_passwd (named u a) \<and> a_username a' = a_username (named u a)"
  by (simp add: same_login_def named_def)

text \<open>The connection with which a request is decided.\<close>

definition deciding :: "'t conn \<Rightarrow> bytes \<Rightarrow> bytes \<Rightarrow> 't conn \<Rightarrow> bool" where
  "deciding c u m d \<longleftrightarrow> (\<exists>b. request c u m b \<and> s_payload (cn_ses d) = Some b) \<and> settings d = settings c \<and>
     s_session_id (cn_ses d) = s_session_id (cn_ses c) \<and> same_login (named u (auth_of c)) (auth_of d) \<and>
     (\<forall>n. a_username (auth_of c) = Some n \<and> length u \<le> 100 \<longrightarrow> n = u)"

lemma banner_same:
  assumes "send_msg_userauth_banner bn c = Inr c'"
  shows "sends (cn_ses c) (cn_ses c') \<and> settings c' = settings c"
proof -
  obtain s1 where s1: "put_payload [FByte 53] (cn_ses c) = Inr s1" and "\<exists>wp s'. buf_putbufstring (s_writepayload s1) bn = Inr wp \<and>
      send_fields [FString (cstr ''en'')] (s1\<lparr>s_writepayload := wp\<rparr>) = Inr s' \<and> c' = c\<lparr>cn_ses := s'\<rparr>"
    using assms by (auto simp: send_msg_userauth_banner_def on_ses_def rbind_eq_Inr)
  then obtain wp s' where s': "send_fields [FString (cstr ''en'')] (s1\<lparr>s_writepayload := wp\<rparr>) = Inr s'" "c' = c\<lparr>cn_ses := s'\<rparr>" by blast
  have "sends (cn_ses c) s1" using res_postD [OF put_payload_post [OF sends_refl] s1] .
  moreover have "sends (s1\<lparr>s_writepayload := wp\<rparr>) s'" using send_fields_sends [OF s'(1)] .
  ultimately have "sends (cn_ses c) s'" by (metis sends_trans sends_upd(1))
  then show ?thesis by (simp add: s'(2) settings_def)
qed

lemma send_banner_same:
  assumes "send_banner c = Inr c'"
  shows "sends (cn_ses c) (cn_ses c') \<and> settings c' = settings c"
proof (cases "banner (cn_svr_opts c)")
  case None
  then show ?thesis using assms by (simp add: send_banner_def)
next
  case (Some bn)
  then obtain c1 where "send_msg_userauth_banner bn c = Inr c1" "c' = c1\<lparr>cn_svr_opts := (cn_svr_opts c1)\<lparr>banner := None\<rparr>\<rparr>"
    using assms by (auto simp: send_banner_def rbind_eq_Inr)
  then show ?thesis using banner_same by (simp add: settings_def)
qed

text \<open>The request as it reaches the methods: nothing but the user name has been settled.\<close>

definition at_request :: "'t conn \<Rightarrow> 't conn" where
  "at_request c = (let (now, s) = gettime_wrapper (cn_ses c)
     in upd_auth (\<lambda>a. a\<lparr>auth_starttime := now\<rparr>) (c\<lparr>cn_ses := s\<rparr>))"

lemma at_request_same:
  "same_login (auth_of c) (auth_of (at_request c))" "settings (at_request c) = settings c"
  "s_payload (cn_ses (at_request c)) = s_payload (cn_ses c)" "s_session_id (cn_ses (at_request c)) = s_session_id (cn_ses c)"
  by (simp_all add: at_request_def same_login_def gettime_wrapper_def settings_def upd_auth_def)

lemma same_named: "same_login a a' \<Longrightarrow> same_login (named u a') b \<Longrightarrow> same_login (named u a) b"
  by (simp add: same_login_def named_def)

lemma request_deciding:
  assumes run: "recv_msg_userauth_request einval pk c = Inr c'" and "\<not> authdone (auth_of c)"
  shows "\<exists>u m d v. deciding c u m d \<and> userauth_method einval pk m v d = Inr c' \<and> (v \<longrightarrow> length u \<le> 100)"
proof -
  let ?c = "at_request c"
  have nd: "\<not> authdone (auth_of ?c)" using assms(2) at_request_same(1) [of c] by (simp add: same_login_def)
  define more where "more = (\<lambda>c :: 'a conn. rbind (on_ses_get (on_payload buf_getstring) c) (\<lambda>(username, c).
      rbind (on_ses_get (on_payload buf_getstring) c) (\<lambda>(servicename, c).
      rbind (on_ses_get (on_payload buf_getstring) c) (\<lambda>(methodname, c).
      if servicename \<noteq> SSH_SERVICE_CONNECTION then Inl (Dropbear_exit ''unknown service in auth'') else
      rbind (checkusername username c) (\<lambda>(valid_user, c). userauth_method einval pk methodname valid_user c)))))"
  have "rbind (send_banner ?c) more = Inr c'"
    using run nd unfolding recv_msg_userauth_request_def Let_def at_request_def more_def by (simp add: case_prod_beta)
  then obtain c1 where c1: "send_banner ?c = Inr c1" and more1: "more c1 = Inr c'" unfolding rbind_eq_Inr by blast
  note rest = more1 [unfolded more_def]
  from rest obtain u c2 where c2: "on_ses_get (on_payload buf_getstring) c1 = Inr (u, c2)" by (auto simp: rbind_eq_Inr)
  from rest obtain sv c3 where c3: "on_ses_get (on_payload buf_getstring) c2 = Inr (sv, c3)" by (auto simp: c2 rbind_eq_Inr)
  from rest obtain m c4 where c4: "on_ses_get (on_payload buf_getstring) c3 = Inr (m, c4)" by (auto simp: c2 c3 rbind_eq_Inr)
  from rest have sv: "sv = SSH_SERVICE_CONNECTION" by (simp only: c2 c3 c4 rbind_simps prod.case) (auto split: if_splits)
  from rest sv have "rbind (checkusername u c4) (\<lambda>(valid_user, c). userauth_method einval pk m valid_user c) = Inr c'"
    by (simp only: c2 c3 c4 rbind_simps prod.case) simp
  then obtain v d where d: "checkusername u c4 = Inr (v, d)" and run': "userauth_method einval pk m v d = Inr c'"
    by (auto simp: rbind_eq_Inr)
  note b = send_banner_same [OF c1] and cu = checkusername_named [OF d]
  note sm = sends_same [OF conjunct1 [OF b]]
  obtain b0 b1 b2 b3 where bs: "s_payload (cn_ses c1) = Some b0" "buf_getstring b0 = Inr (u, b1)" "buf_getstring b1 = Inr (sv, b2)"
      "buf_getstring b2 = Inr (m, b3)" and c4': "c4 = c1\<lparr>cn_ses := (cn_ses c1)\<lparr>s_payload := Some b3\<rparr>\<rparr>"
    using read_payload [OF c2] read_payload [OF c3] read_payload [OF c4] by auto
  have dses: "cn_ses d = (cn_ses c4)\<lparr>s_authstate := auth_of d\<rparr>" using cu by simp
  have "request c u m b3" using bs sm(3) at_request_same(3) [of c] sv unfolding request_def by (metis (no_types))
  moreover have "s_payload (cn_ses d) = Some b3" "s_session_id (cn_ses d) = s_session_id (cn_ses c)"
    using sm(12) at_request_same(4) [of c] by (subst dses, simp add: c4')+
  moreover have "settings d = settings c" using cu b at_request_same(2) [of c] c4' by (simp add: settings_def)
  moreover have auth: "auth_of c4 = auth_of ?c" using sm(20) c4' by simp
  then have "same_login (named u (auth_of c)) (auth_of d)" using cu at_request_same(1) [of c] same_named by metis
  moreover have "\<forall>n. a_username (auth_of c) = Some n \<and> length u \<le> 100 \<longrightarrow> n = u"
    using cu auth at_request_same(1) [of c] by (simp add: same_login_def)
  ultimately show ?thesis using run' cu unfolding deciding_def by blast
qed

definition reasons :: "bool \<Rightarrow> 'k pk_crypto \<Rightarrow> bytes \<Rightarrow> bool \<Rightarrow> 't conn \<Rightarrow> bool" where
  "reasons einval pk m v d \<longleftrightarrow>
     m = cstr ''none'' \<and> allowblankpass (cn_svr_opts d) \<and> \<not> noauthpass (cn_svr_opts d) \<and> pw_passwd (auth_of d) = Some [] \<or>
     m = cstr ''publickey'' \<and> authtypes (auth_of d) AND AUTH_TYPE_PUBKEY \<noteq> 0 \<and> v \<and> key_accepted einval pk d \<or>
     m = cstr ''password'' \<and> authtypes (auth_of d) AND AUTH_TYPE_PASSWORD \<noteq> 0 \<and>
       (\<exists>pw. password_given d pw \<and> password_accepted (cn_ikofi d) (auth_of d) pw)"

lemma goes_on_weaken: "goes_on d R c' \<Longrightarrow> (R \<Longrightarrow> R') \<Longrightarrow> goes_on d R' c'"
  by (auto simp: goes_on_def)

lemma method_goes_on:
  assumes "userauth_method einval pk m v d = Inr c'"
  shows "goes_on d (reasons einval pk m v d) c'"
proof -
  let ?R = "reasons einval pk m v d"
  consider (none) "m = cstr ''none''"
    | (pubkey) "m \<noteq> cstr ''none''" "authtypes (auth_of d) AND AUTH_TYPE_PUBKEY \<noteq> 0 \<and> m = cstr ''publickey''"
    | (password) "m \<noteq> cstr ''none''" "m \<noteq> cstr ''publickey''" "authtypes (auth_of d) AND AUTH_TYPE_PASSWORD \<noteq> 0 \<and> m = cstr ''password''"
    | (other) "send_msg_userauth_failure False True d = Inr c'"
    using assms by (auto simp: userauth_method_def split: if_splits)
  then show ?thesis
  proof cases
    case none
    obtain ok where ok: "method_none_ok v d = Inr ok" and
      run: "(if ok then send_msg_userauth_success d else send_msg_userauth_failure False False d) = Inr c'"
      using assms none by (auto simp: userauth_method_def rbind_eq_Inr)
    show ?thesis
    proof (cases ok)
      case True
      then have ?R using ok none by (auto simp: method_none_ok_def reasons_def Let_def rbind_eq_Inr deref_eq_Inr split: if_splits)
      then show ?thesis using run True outcome_success [of d c' d ?R] by (auto intro: outcome_goes_on_options)
    next
      case False
      then show ?thesis using run uncounted_goes_on [of False d c' d ?R] by simp
    qed
  next
    case pubkey
    then have "svr_auth_pubkey einval pk v d = Inr c'" using assms by (simp add: userauth_method_def)
    then show ?thesis using pubkey by (intro goes_on_weaken [OF pubkey_goes_on]) (auto simp: reasons_def)
  next
    case password
    then have "svr_auth_password True d = Inr c'" using assms by (simp add: userauth_method_def)
    from password_outcome [OF this] obtain p where
      "outcome d ((auth_of d)\<lparr>pw_passwd := p\<rparr>) (\<exists>pw. password_given d pw \<and> password_accepted (cn_ikofi d) (auth_of d) pw) c'" by blast
    from outcome_goes_on [OF this] show ?thesis using password by (rule_tac goes_on_weaken) (auto simp: reasons_def)
  next
    case other
    from outcome_failure [OF other refl, of ?R] show ?thesis by (auto intro: outcome_goes_on_options)
  qed
qed

text \<open>A connection that has received a payload.\<close>

definition with_payload :: "buffer \<Rightarrow> 't conn \<Rightarrow> 't conn" where
  "with_payload b c = c\<lparr>cn_ses := (cn_ses c)\<lparr>s_payload := Some b\<rparr>\<rparr>"
lemma with_payload_sel [simp]: "auth_of (with_payload b c) = auth_of c" "settings (with_payload b c) = settings c"
  "cn_svr_opts (with_payload b c) = cn_svr_opts c" "s_payload (cn_ses (with_payload b c)) = Some b"
  by (simp_all add: with_payload_def settings_def)

section \<open>An example server\<close>

text \<open>A server with a password file, and a request as it arrives.\<close>

definition ssh_string :: "bytes \<Rightarrow> bytes" where
  "ssh_string s = [0, 0, 0, of_nat (length s)] @ s"

definition password_request :: "string \<Rightarrow> string \<Rightarrow> buffer" where
  "password_request user password =
     payload_of (ssh_string (cstr user) @ ssh_string (cstr ''ssh-connection'') @ ssh_string (cstr ''password'') @ [0] @ ssh_string (cstr password))"

definition file_conn :: "unit conn" where
  "file_conn = (plain_conn small_session)\<lparr>cn_ikofi := plain_ikofi\<lparr>ik_files := [cstr ''/conf/master_password'' \<mapsto> cstr ''me:hash'']\<rparr>\<rparr>"

definition no_crypto :: "unit pk_crypto" where
  "no_crypto = \<lparr>pk_base64_decode = (\<lambda>_. None), pk_get_pub_key = (\<lambda>b _. Inr (None, b)), pk_verify = (\<lambda>b _ _ _ _. Inr (False, b))\<rparr>"

text \<open>Evaluating a first request.\<close>

lemma request_eval:
  assumes "\<not> authdone (auth_of c)" "banner (cn_svr_opts c) = None" "buf_getstring b = Inr (u, b1)"
    "buf_getstring b1 = Inr (SSH_SERVICE_CONNECTION, b2)" "buf_getstring b2 = Inr (m, b3)"
    "a_username (auth_of c) = None" "length u \<le> 100" "0 \<notin> set u" "\<not> checkusername_failed (auth_of c)"
  shows "recv_msg_userauth_request einval pk (with_payload b c) =
    userauth_method einval pk m True (upd_auth (\<lambda>a. a\<lparr>a_username := Some u\<rparr>) (fill_passwd u (with_payload b3 (at_request c))))"
proof -
  let ?c = "at_request (with_payload b c)"
  have c: "\<not> authdone (auth_of ?c)" "banner (cn_svr_opts ?c) = None" "s_payload (cn_ses ?c) = Some b"
    "with_payload b' ?c = with_payload b' (at_request c)" for b'
    using assms(1,2) by (simp_all add: at_request_def with_payload_def gettime_wrapper_def upd_auth_def)
  have r: "on_ses_get (on_payload buf_getstring) (with_payload b' (at_request c)) = Inr (x, with_payload b'' (at_request c))"
    if "buf_getstring b' = Inr (x, b'')" for b' b'' x
    using that by (simp add: on_ses_get_def on_payload_def with_payload_def)
  have "?c = with_payload b (at_request c)" by (simp add: at_request_def with_payload_def gettime_wrapper_def upd_auth_def)
  moreover have "checkusername u (with_payload b3 (at_request c)) =
      Inr (True, upd_auth (\<lambda>a. a\<lparr>a_username := Some u\<rparr>) (fill_passwd u (with_payload b3 (at_request c))))"
    using assms(6-9) c_string_id [of u]
    by (simp add: checkusername_def at_request_def with_payload_def gettime_wrapper_def upd_auth_def fill_passwd_def)
  moreover have "recv_msg_userauth_request einval pk (with_payload b c) = (if authdone (auth_of ?c) then Inr ?c else
      rbind (send_banner ?c) (\<lambda>c. rbind (on_ses_get (on_payload buf_getstring) c) (\<lambda>(username, c).
      rbind (on_ses_get (on_payload buf_getstring) c) (\<lambda>(servicename, c). rbind (on_ses_get (on_payload buf_getstring) c) (\<lambda>(methodname, c).
      if servicename \<noteq> SSH_SERVICE_CONNECTION then Inl (Dropbear_exit ''unknown service in auth'') else
      rbind (checkusername username c) (\<lambda>(valid_user, c). userauth_method einval pk methodname valid_user c))))))"
    unfolding recv_msg_userauth_request_def Let_def at_request_def by (simp only: case_prod_beta)
  moreover have "send_banner ?c = Inr ?c" using c(2) by (simp add: send_banner_def)
  ultimately show ?thesis
    using c(1) by (simp only: if_False r [OF assms(3)] r [OF assms(4)] r [OF assms(5)] rbind_simps prod.case simp_thms)
qed

definition file_start :: "unit conn" where
  "file_start = upd_auth (\<lambda>_. zero_AuthState\<lparr>authtypes := 4\<rparr>) file_conn"

lemma file_start_init: "svr_authinitialise file_conn = Inr file_start"
proof -
  have "ikofi_enable_public_key_auth (cn_ikofi file_conn) = Inr False" "ikofi_enable_password_file (cn_ikofi file_conn) = Inr True"
    "\<not> enable_single_use_passwords (cn_ikofi file_conn)" by code_simp+
  then show ?thesis by (simp add: svr_authinitialise_def ikofi_svr_authinitialise_def file_start_def Let_def zero_AuthState_def upd_auth_def)
qed

lemma failure_returns:
  assumes "returns (on_ses (send_fields [FByte 51, FString (auth_types (authtypes (auth_of c))), FByte (if partial then 1 else 0)]) c)"
    and "failcount (auth_of c) + 1 \<le> maxauthtries (cn_svr_opts c)" "failcount (auth_of c) \<le> maxauthtries (cn_svr_opts c)"
  shows "returns (send_msg_userauth_failure partial incrfail c)"
proof -
  obtain c1 where c1: "on_ses (send_fields [FByte 51, FString (auth_types (authtypes (auth_of c))), FByte (if partial then 1 else 0)]) c = Inr c1"
    using assms(1) by (auto simp: returns_ex)
  obtain d c2 where d: "failure_delay c1 = (d, c2)" by (cases "failure_delay c1")
  note same = send_same [OF c1] failure_delay_same [OF d]
  show ?thesis using c1 d same assms(2,3) by (cases incrfail) (simp_all add: send_msg_userauth_failure_def Let_def returns_ex not_less)
qed

lemma read_with: "f b = Inr (x, b') \<Longrightarrow> on_ses_get (on_payload f) (with_payload b c) = Inr (x, with_payload b' c)"
  by (simp add: on_ses_get_def on_payload_def with_payload_def)

text \<open>Two guesses at the example server: a wrong password is refused, the placeholder is accepted.\<close>

definition guess_conn :: "unit conn" where
  "guess_conn = upd_auth (\<lambda>a. a\<lparr>a_username := Some (cstr ''any'')\<rparr>) (fill_passwd (cstr ''any'') (at_request file_start))"

lemma guess_conn_sel:
  "\<not> authdone (auth_of guess_conn)" "authtypes (auth_of guess_conn) = 4" "a_username (auth_of guess_conn) = Some (cstr ''any'')"
  "pw_passwd (auth_of guess_conn) = Some (cstr ''!!'')" "failcount (auth_of guess_conn) = 0"
  "cn_ikofi guess_conn = cn_ikofi file_conn" "maxauthtries (cn_svr_opts guess_conn) = 10" "\<not> multiauthmethod (cn_svr_opts guess_conn)"
  by (simp_all add: guess_conn_def file_start_def file_conn_def plain_conn_def plain_svr_opts_def fill_passwd_def at_request_def gettime_wrapper_def
      upd_auth_def zero_AuthState_def)

definition guess_buf :: "string \<Rightarrow> u32 \<Rightarrow> buffer" where
  "guess_buf password pos = (password_request ''any'' password)\<lparr>b_pos := pos\<rparr>"

lemma guess_buf_reads:
  "buf_getstring (guess_buf ''!!'' 0) = Inr (cstr ''any'', guess_buf ''!!'' 7)"
  "buf_getstring (guess_buf ''!!'' 7) = Inr (SSH_SERVICE_CONNECTION, guess_buf ''!!'' 25)"
  "buf_getstring (guess_buf ''!!'' 25) = Inr (cstr ''password'', guess_buf ''!!'' 37)"
  "buf_getbool (guess_buf ''!!'' 37) = Inr (False, guess_buf ''!!'' 38)"
  "buf_getstring (guess_buf ''!!'' 38) = Inr (cstr ''!!'', guess_buf ''!!'' 44)"
  "buf_getstring (guess_buf ''!'' 0) = Inr (cstr ''any'', guess_buf ''!'' 7)"
  "buf_getstring (guess_buf ''!'' 7) = Inr (SSH_SERVICE_CONNECTION, guess_buf ''!'' 25)"
  "buf_getstring (guess_buf ''!'' 25) = Inr (cstr ''password'', guess_buf ''!'' 37)"
  "buf_getbool (guess_buf ''!'' 37) = Inr (False, guess_buf ''!'' 38)"
  "buf_getstring (guess_buf ''!'' 38) = Inr (cstr ''!'', guess_buf ''!'' 43)"
  by code_simp+

lemma guess_method:
  assumes "buf_getstring b = Inr (cstr ''any'', b1)" "buf_getstring b1 = Inr (SSH_SERVICE_CONNECTION, b2)"
    "buf_getstring b2 = Inr (cstr ''password'', b3)"
  shows "recv_msg_userauth_request einval pk (with_payload b file_start) = svr_auth_password True (with_payload b3 guess_conn)"
proof -
  have "upd_auth (\<lambda>a. a\<lparr>a_username := Some (cstr ''any'')\<rparr>) (fill_passwd (cstr ''any'') (with_payload b3 (at_request file_start))) =
      with_payload b3 guess_conn" by (simp add: guess_conn_def with_payload_def upd_auth_def fill_passwd_def)
  moreover have "recv_msg_userauth_request einval pk (with_payload b file_start) = userauth_method einval pk (cstr ''password'') True
      (upd_auth (\<lambda>a. a\<lparr>a_username := Some (cstr ''any'')\<rparr>) (fill_passwd (cstr ''any'') (with_payload b3 (at_request file_start))))"
    by (rule request_eval [OF _ _ assms])
      (simp_all add: file_start_def file_conn_def plain_conn_def plain_svr_opts_def upd_auth_def zero_AuthState_def)
  ultimately show ?thesis by (simp add: userauth_method_def guess_conn_sel)
qed

lemma guess_hook:
  assumes "0 \<notin> set pw"
  shows "ikofi_svr_auth_password pw (with_payload b guess_conn) = Inr ((Some (cstr ''!!''), Some pw), with_payload b guess_conn)"
proof -
  have "ikofi_get_user_password (cn_ikofi file_conn) = Inr (True, Some (cstr ''me''), Some (cstr ''hash''))" by code_simp
  moreover have "cn_ikofi (with_payload b guess_conn) = cn_ikofi file_conn" by (simp add: with_payload_def guess_conn_sel)
  moreover have "matches_file_user True (Some (cstr ''me'')) (Some (cstr ''hash'')) (auth_of guess_conn) = Inr False"
    by (simp add: matches_file_user_def guess_conn_sel)
  ultimately show ?thesis
    using assms c_string_id [of pw] c_string_eq [OF assms] by (simp add: ikofi_svr_auth_password_def guess_conn_sel Let_def)
qed

lemma guess_wrong: "\<exists>c'. recv_msg_userauth_request False no_crypto (with_payload (guess_buf ''!'' 0) file_start) = Inr c' \<and> \<not> authdone (auth_of c')"
proof -
  have "recv_msg_userauth_request False no_crypto (with_payload (guess_buf ''!'' 0) file_start) =
      send_msg_userauth_failure False True (with_payload (guess_buf ''!'' 43) guess_conn)"
    unfolding guess_method [OF guess_buf_reads(6-8)]
    by (simp add: svr_auth_password_def read_with [where f = buf_getbool, OF guess_buf_reads(9)] read_with [where f = buf_getstring, OF guess_buf_reads(10)] guess_hook constant_time_strcmp_def)
  moreover have "returns (on_ses (send_fields [FByte 51, FString (auth_types 4), FByte 0]) (with_payload (guess_buf ''!'' 43) guess_conn))"
    by code_simp
  then have "returns (send_msg_userauth_failure False True (with_payload (guess_buf ''!'' 43) guess_conn))"
    by (intro failure_returns) (simp_all add: guess_conn_sel)
  ultimately show ?thesis using auth_failure by (fastforce simp: returns_ex guess_conn_sel)
qed

lemma guess_right: "\<exists>c'. recv_msg_userauth_request False no_crypto (with_payload (guess_buf ''!!'' 0) file_start) = Inr c' \<and> authdone (auth_of c')"
proof -
  have "constant_time_strcmp (cstr ''!!'') (cstr ''!!'') = Inr 0" by code_simp
  then have "recv_msg_userauth_request False no_crypto (with_payload (guess_buf ''!!'' 0) file_start) =
      send_msg_userauth_success (with_payload (guess_buf ''!!'' 44) guess_conn)"
    unfolding guess_method [OF guess_buf_reads(1-3)]
    by (simp add: svr_auth_password_def read_with [where f = buf_getbool, OF guess_buf_reads(4)] read_with [where f = buf_getstring, OF guess_buf_reads(5)] guess_hook guess_conn_sel)
  moreover have "returns (send_msg_userauth_success (with_payload (guess_buf ''!!'' 44) guess_conn))" by code_simp
  ultimately show ?thesis using auth_success by (fastforce simp: returns_ex)
qed

text \<open>
  Property C1. Why a client is let in. When a request turns an unauthenticated session into an
  authenticated one, it named the connection service, and it was one of these: a \<open>none\<close> request with
  blank passwords allowed, password logins not disabled and an empty expected password; a public key
  request, with public keys enabled and a user name of at most 100 characters, whose key blob is in the
  authorized keys and whose signature over the session identifier and the request verifies with that
  key; or a password request, with passwords enabled, whose password hashes to the stored entry when the
  user is the one of the password file, and equals the expected password, which is not empty, otherwise.
\<close>

theorem auth_reasons:
  assumes "recv_msg_userauth_request einval pk c = Inr c'" and "\<not> authdone (auth_of c)" and "authdone (auth_of c')"
  shows "\<exists>u m d. deciding c u m d \<and>
     (m = cstr ''none'' \<and> allowblankpass (cn_svr_opts d) \<and> \<not> noauthpass (cn_svr_opts d) \<and> pw_passwd (auth_of d) = Some [] \<or>
      m = cstr ''publickey'' \<and> authtypes (auth_of c) AND 2 \<noteq> 0 \<and> length u \<le> 100 \<and> key_accepted einval pk d \<or>
      m = cstr ''password'' \<and> authtypes (auth_of c) AND 4 \<noteq> 0 \<and>
        (\<exists>pw. password_given d pw \<and> password_accepted (cn_ikofi c) (auth_of d) pw))"
proof -
  obtain u m d v where d: "deciding c u m d" "userauth_method einval pk m v d = Inr c'" "v \<longrightarrow> length u \<le> 100"
    using request_deciding [OF assms(1,2)] by blast
  have l: "authtypes (auth_of d) = authtypes (auth_of c)" "\<not> authdone (auth_of d)" "cn_ikofi d = cn_ikofi c"
    using d(1) assms(2) named_login by (auto simp: deciding_def settings_def)
  have "reasons einval pk m v d" using method_goes_on [OF d(2)] l(2) assms(3) by (auto simp: goes_on_def)
  then have "m = cstr ''none'' \<and> allowblankpass (cn_svr_opts d) \<and> \<not> noauthpass (cn_svr_opts d) \<and> pw_passwd (auth_of d) = Some [] \<or>
      m = cstr ''publickey'' \<and> authtypes (auth_of c) AND 2 \<noteq> 0 \<and> length u \<le> 100 \<and> key_accepted einval pk d \<or>
      m = cstr ''password'' \<and> authtypes (auth_of c) AND 4 \<noteq> 0 \<and>
        (\<exists>pw. password_given d pw \<and> password_accepted (cn_ikofi c) (auth_of d) pw)"
    using d(3) l unfolding reasons_def by auto
  then show ?thesis using d(1) by blast
qed

theorem auth_reasons_witness:
  "\<exists>c' u m d. recv_msg_userauth_request False no_crypto (with_payload (guess_buf ''!!'' 0) file_start) = Inr c' \<and> authdone (auth_of c') \<and>
     deciding (with_payload (guess_buf ''!!'' 0) file_start) u m d \<and> m = cstr ''password'' \<and>
     (\<exists>pw. password_given d pw \<and> password_accepted (cn_ikofi file_conn) (auth_of d) pw)"
proof -
  obtain c' where c': "recv_msg_userauth_request False no_crypto (with_payload (guess_buf ''!!'' 0) file_start) = Inr c'" "authdone (auth_of c')"
    using guess_right by blast
  have nd: "\<not> authdone (auth_of (with_payload (guess_buf ''!!'' 0) file_start))"
    and types: "authtypes (auth_of (with_payload (guess_buf ''!!'' 0) file_start)) = 4"
    and ik: "cn_ikofi (with_payload (guess_buf ''!!'' 0) file_start) = cn_ikofi file_conn"
    and opts: "\<not> allowblankpass (cn_svr_opts (with_payload (guess_buf ''!!'' 0) file_start))"
    by (simp_all add: file_start_def zero_AuthState_def with_payload_def file_conn_def plain_conn_def plain_svr_opts_def upd_auth_def)
  have blank: "deciding (with_payload (guess_buf ''!!'' 0) file_start) u m d \<Longrightarrow> \<not> allowblankpass (cn_svr_opts d)" for u m d
    using opts by (auto simp: deciding_def settings_def dest: arg_cong [where f = allowblankpass])
  from auth_reasons [OF c'(1) nd c'(2)] obtain u m d where
    "deciding (with_payload (guess_buf ''!!'' 0) file_start) u m d" "m = cstr ''password''"
    "\<exists>pw. password_given d pw \<and> password_accepted (cn_ikofi file_conn) (auth_of d) pw"
    using blank unfolding types ik by auto
  then show ?thesis using c' by blast
qed

text \<open>
  Property C30. What a request cannot do: it changes neither the options nor the user name once one
  was accepted, the options of the first verified key stay in force, a login that is done stays done,
  and the count of failures grows by at most one and not beyond the allowed number of tries.
\<close>

theorem auth_request_frame:
  assumes "recv_msg_userauth_request einval pk c = Inr c'"
  shows "settings c' = settings c \<and>
     (\<forall>u. a_username (auth_of c) = Some u \<longrightarrow> a_username (auth_of c') = Some u) \<and>
     (\<forall>po. pubkey_options (auth_of c) = Some po \<longrightarrow> pubkey_options (auth_of c') = Some po) \<and>
     (authdone (auth_of c) \<longrightarrow> authdone (auth_of c')) \<and>
     (failcount (auth_of c') = failcount (auth_of c) \<or>
      failcount (auth_of c') = failcount (auth_of c) + 1 \<and> failcount (auth_of c') \<le> maxauthtries (cn_svr_opts c))"
proof (cases "authdone (auth_of c)")
  case True
  then have "c' = at_request c"
    using assms at_request_same(1) [of c]
    by (simp add: recv_msg_userauth_request_def at_request_def Let_def case_prod_beta same_login_def)
  then show ?thesis using at_request_same(1,2) [of c] by (simp add: same_login_def)
next
  case False
  obtain u m d v where d: "deciding c u m d" "userauth_method einval pk m v d = Inr c'"
    using request_deciding [OF assms False] by blast
  note g = method_goes_on [OF d(2)]
  have l: "same_login (named u (auth_of c)) (auth_of d)" "settings d = settings c" using d(1) by (simp_all add: deciding_def)
  have name: "a_username (auth_of d) = Some n" if "a_username (auth_of c) = Some n" for n
    using d(1) that by (auto simp: deciding_def same_login_def named_def)
  show ?thesis using g l(2) name named_login [OF l(1)] settings_sel [OF l(2)] False by (auto simp: goes_on_def)
qed

theorem auth_request_frame_witness:
  "\<exists>c'. recv_msg_userauth_request False no_crypto (with_payload (guess_buf ''!'' 0) file_start) = Inr c' \<and>
     settings c' = settings file_start \<and> failcount (auth_of c') \<le> failcount (auth_of file_start) + 1"
proof -
  obtain c' where c': "recv_msg_userauth_request False no_crypto (with_payload (guess_buf ''!'' 0) file_start) = Inr c'"
    using guess_wrong by blast
  have "failcount (auth_of file_start) = 0" by (simp add: file_start_def zero_AuthState_def)
  with auth_request_frame [OF c'] c' show ?thesis by auto
qed

end
