(* ===== verification/Svr_Auth_Limits.thy ===== *)
theory Svr_Auth_Limits
  imports Svr_Auth_Props
begin

unbundle bit_operations_syntax

text \<open>
  Runs of authentication requests: the bound on the guesses of a connection, the password that
  is accepted for every user outside the password file, and the lines of the authorized keys that
  are not read as the file means them.
\<close>

section \<open>Runs of requests\<close>

text \<open>Requests arriving one after the other, each with its payload.\<close>

fun auth_run :: "bool \<Rightarrow> 'k pk_crypto \<Rightarrow> buffer list \<Rightarrow> 't conn \<Rightarrow> 't conn res" where
  "auth_run einval pk [] c = Inr c"
| "auth_run einval pk (b # bs) c = rbind (recv_msg_userauth_request einval pk (with_payload b c)) (auth_run einval pk bs)"

text \<open>The method a payload asks for.\<close>

definition method_of :: "buffer \<Rightarrow> bytes option" where
  "method_of b =
     (case rbind (buf_getstring b) (\<lambda>(u, b). rbind (buf_getstring b) (\<lambda>(sv, b). rbind (buf_getstring b) (\<lambda>(m, b). Inr m))) of
        Inr m \<Rightarrow> Some m | Inl e \<Rightarrow> None)"

lemma request_method: "request (with_payload b c) u m b' \<Longrightarrow> method_of b = Some m"
  by (auto simp: request_def method_of_def)

lemma other_method_counts:
  assumes run: "userauth_method einval pk m v d = Inr c'" and "m \<noteq> cstr ''none''" "m \<noteq> cstr ''publickey''"
    and "\<not> multiauthmethod (cn_svr_opts d)" "\<not> authdone (auth_of c')"
  shows "failcount (auth_of c') = failcount (auth_of d) + 1 \<and> failcount (auth_of d) + 1 \<le> tries d \<and> settings c' = settings d"
proof -
  have "\<exists>p R. outcome d ((auth_of d)\<lparr>pw_passwd := p\<rparr>) R c'"
  proof (cases "authtypes (auth_of d) AND AUTH_TYPE_PASSWORD \<noteq> 0 \<and> m = cstr ''password''")
    case True
    then have "svr_auth_password True d = Inr c'" using run assms(2,3) by (simp add: userauth_method_def)
    from password_outcome [OF this] show ?thesis by blast
  next
    case False
    then have "send_msg_userauth_failure False True d = Inr c'" using run assms(2,3) by (auto simp: userauth_method_def)
    from outcome_failure [OF this refl] have "outcome d ((auth_of d)\<lparr>pw_passwd := pw_passwd (auth_of d)\<rparr>) True c'" by simp
    then show ?thesis by blast
  qed
  then show ?thesis using assms(4,5) by (auto simp: outcome_def)
qed

lemma request_counts:
  assumes run: "recv_msg_userauth_request einval pk (with_payload b c) = Inr c'" and "\<not> authdone (auth_of c)" "\<not> authdone (auth_of c')"
    and m: "method_of b \<noteq> Some (cstr ''none'')" "method_of b \<noteq> Some (cstr ''publickey'')" and "\<not> multiauthmethod (cn_svr_opts c)"
  shows "failcount (auth_of c') = failcount (auth_of c) + 1 \<and> failcount (auth_of c) + 1 \<le> tries c \<and> settings c' = settings c"
proof -
  obtain u m d v where d: "deciding (with_payload b c) u m d" "userauth_method einval pk m v d = Inr c'"
    using request_deciding [OF run] assms(2) by auto
  have "method_of b = Some m" using d(1) request_method by (auto simp: deciding_def)
  then have ne: "m \<noteq> cstr ''none''" "m \<noteq> cstr ''publickey''" using m by auto
  have st: "settings d = settings c" and fc: "failcount (auth_of d) = failcount (auth_of c)"
    using d(1) named_login by (auto simp: deciding_def)
  from other_method_counts [OF d(2) ne] assms(3,6) settings_sel [OF st] st fc show ?thesis by auto
qed

lemma request_keeps_done:
  assumes "recv_msg_userauth_request einval pk c = Inr c'" "authdone (auth_of c)"
  shows "authdone (auth_of c')"
proof -
  have "c' = at_request c"
    using assms at_request_same(1) [of c]
    by (simp add: recv_msg_userauth_request_def at_request_def Let_def case_prod_beta same_login_def)
  then show ?thesis using at_request_same(1) [of c] assms(2) by (simp add: same_login_def)
qed

lemma run_keeps_done: "auth_run einval pk bs c = Inr c' \<Longrightarrow> authdone (auth_of c) \<Longrightarrow> authdone (auth_of c')"
proof (induction bs arbitrary: c)
  case (Cons b bs)
  then obtain c1 where "recv_msg_userauth_request einval pk (with_payload b c) = Inr c1" "auth_run einval pk bs c1 = Inr c'"
    by (auto simp: rbind_eq_Inr)
  then show ?case using Cons.IH Cons.prems(2) request_keeps_done by fastforce
qed simp

text \<open>
  Property C10. Guesses are bounded. On a connection that asks for one method only, after any
  run of requests none of which is a \<open>none\<close> or a public key request and that has neither logged in
  nor been cut off, the failures counted before and all the requests of the run together are
  within the allowed number of tries: every further request either logs in or ends the session.
\<close>

theorem guesses_bounded:
  assumes "auth_run einval pk bs c = Inr c'" and "\<not> authdone (auth_of c')"
    and "\<forall>b \<in> set bs. method_of b \<noteq> Some (cstr ''none'') \<and> method_of b \<noteq> Some (cstr ''publickey'')"
    and "\<not> multiauthmethod (cn_svr_opts c)" and "failcount (auth_of c) \<le> maxauthtries (cn_svr_opts c)"
    and "maxauthtries (cn_svr_opts c) < 2 ^ 32 - 1"
  shows "unat (failcount (auth_of c)) + length bs \<le> unat (maxauthtries (cn_svr_opts c)) \<and>
     unat (failcount (auth_of c')) = unat (failcount (auth_of c)) + length bs"
  using assms
proof (induction bs arbitrary: c)
  case Nil
  then show ?case by (simp add: word_le_nat_alt)
next
  case (Cons b bs)
  obtain c1 where c1: "recv_msg_userauth_request einval pk (with_payload b c) = Inr c1" and run: "auth_run einval pk bs c1 = Inr c'"
    using Cons.prems(1) by (auto simp: rbind_eq_Inr)
  have nd: "\<not> authdone (auth_of c1)" using run_keeps_done [OF run] Cons.prems(2) by blast
  then have "\<not> authdone (auth_of c)" using request_keeps_done [OF c1] by auto
  from request_counts [OF c1 this nd] Cons.prems(3,4)
  have cnt: "failcount (auth_of c1) = failcount (auth_of c) + 1" "failcount (auth_of c) + 1 \<le> tries c" and st: "settings c1 = settings c"
    by auto
  have lt: "failcount (auth_of c) < 2 ^ 32 - 1" using Cons.prems(5,6) by (rule le_less_trans)
  then have suc: "unat (failcount (auth_of c) + 1) = Suc (unat (failcount (auth_of c)))"
    by (simp add: word_less_nat_alt unat_word_ariths)
  from Cons.IH [OF run Cons.prems(2)] Cons.prems(3,4,6) settings_sel [OF st] cnt
  show ?case by (simp add: suc)
qed

theorem guesses_bounded_witness:
  "\<exists>c'. auth_run False no_crypto [guess_buf ''!'' 0] file_start = Inr c' \<and> unat (failcount (auth_of c')) = 1 \<and> \<not> authdone (auth_of c')"
proof -
  obtain c' where c': "recv_msg_userauth_request False no_crypto (with_payload (guess_buf ''!'' 0) file_start) = Inr c'" "\<not> authdone (auth_of c')"
    using guess_wrong by blast
  then have run: "auth_run False no_crypto [guess_buf ''!'' 0] file_start = Inr c'" by simp
  have m: "method_of (guess_buf ''!'' 0) = Some (cstr ''password'')" using guess_buf_reads(6-8) by (simp add: method_of_def)
  have c: "\<not> multiauthmethod (cn_svr_opts file_start)" "failcount (auth_of file_start) = 0" "maxauthtries (cn_svr_opts file_start) = 10"
    by (simp_all add: file_start_def zero_AuthState_def file_conn_def plain_conn_def plain_svr_opts_def)
  from guesses_bounded [OF run c'(2)] m c run c'(2) show ?thesis by simp
qed

section \<open>The password of users outside the password file\<close>

definition default_password :: bytes where
  "default_password = cstr ''!!''"

lemma default_hook:
  assumes "ikofi_svr_auth_password default_password c = Inr ((pc, tc), c')"
    and "\<forall>h. file_user (cn_ikofi c) \<noteq> Some (the (a_username (auth_of c)), h)" and "pw_passwd (auth_of c) = Some default_password"
  shows "pc = Some default_password \<and> tc = Some default_password \<and> c' = c"
proof -
  obtain f u h m where 1: "ikofi_get_user_password (cn_ikofi c) = Inr (f, u, h)" and 2: "matches_file_user f u h (auth_of c) = Inr m"
    using assms(1) by (auto simp: ikofi_svr_auth_password_def rbind_eq_Inr)
  have "\<not> m" using matches_file_user_eq [OF 1 2] assms(2) by blast
  moreover have "length default_password = length (c_string default_password)" "c_string default_password = default_password" by code_simp+
  ultimately show ?thesis using assms(1,3) 1 2 by (auto simp: ikofi_svr_auth_password_def Let_def)
qed

lemma default_password_login:
  assumes run: "svr_auth_password True d = Inr c'" and given: "password_given d default_password"
    and "\<forall>h. file_user (cn_ikofi d) \<noteq> Some (the (a_username (auth_of d)), h)" and "pw_passwd (auth_of d) = Some default_password"
    and "\<not> multiauthmethod (cn_svr_opts d)"
  shows "authdone (auth_of c')"
proof -
  obtain b b1 b2 where bs: "s_payload (cn_ses d) = Some b" "buf_getbool b = Inr (False, b1)" "buf_getstring b1 = Inr (default_password, b2)"
    using given by (auto simp: password_given_def)
  define c2 where "c2 = d\<lparr>cn_ses := (cn_ses d)\<lparr>s_payload := Some b2\<rparr>\<rparr>"
  have reads: "on_ses_get (on_payload buf_getbool) d = Inr (False, d\<lparr>cn_ses := (cn_ses d)\<lparr>s_payload := Some b1\<rparr>\<rparr>)"
    "on_ses_get (on_payload buf_getstring) (d\<lparr>cn_ses := (cn_ses d)\<lparr>s_payload := Some b1\<rparr>\<rparr>) = Inr (default_password, c2)"
    using bs by (simp_all add: on_ses_get_def on_payload_def c2_def)
  have len: "length default_password \<le> 100" "default_password \<noteq> []" by code_simp+
  obtain pc tc c3 where c3: "ikofi_svr_auth_password default_password c2 = Inr ((pc, tc), c3)"
    using run reads len by (auto simp: svr_auth_password_def rbind_eq_Inr)
  then have e: "pc = Some default_password" "tc = Some default_password" "c3 = c2"
    using default_hook [OF c3] assms(3,4) by (auto simp: c2_def)
  have "constant_time_strcmp default_password default_password = Inr 0" by code_simp
  then have "send_msg_userauth_success c2 = Inr c'"
    using run reads len c3 e assms(5) by (simp add: svr_auth_password_def c2_def)
  then show ?thesis using auth_success by fastforce
qed

text \<open>
  Property C31. The placeholder password opens the server. When single-use passwords are disabled
  but password logins are enabled by a password file, the authentication starts with no expected password,
  and the record filled in for any user name gets the placeholder \<open>!!\<close>, which the comparison then
  takes as the plain password: a first request with any name that is not the one of the file, and
  the password \<open>!!\<close>, that does not end the session logs in.
\<close>

theorem default_password_accepted:
  assumes "svr_authinitialise c0 = Inr c" and "\<not> enable_single_use_passwords (cn_ikofi c0)"
    and "ikofi_enable_password_file (cn_ikofi c0) = Inr True" and "\<not> multiauthmethod (cn_svr_opts c0)"
    and "request (with_payload b c) n (cstr ''password'') b'" and "length n \<le> 100"
    and "\<forall>h. file_user (cn_ikofi c0) \<noteq> Some (n, h)"
    and "password_given (with_payload b' c) (cstr ''!!'')"
    and "recv_msg_userauth_request einval pk (with_payload b c) = Inr c'"
  shows "authdone (auth_of c')"
proof -
  obtain p where c: "c = upd_auth (\<lambda>a. a\<lparr>authtypes := authtypes a OR AUTH_TYPE_PASSWORD\<rparr>)
      (upd_auth (\<lambda>a. a\<lparr>authtypes := (if p then authtypes a OR AUTH_TYPE_PUBKEY else authtypes a AND NOT AUTH_TYPE_PUBKEY)\<rparr>)
        (upd_auth (\<lambda>_. zero_AuthState\<lparr>authtypes := AUTH_TYPE_PUBKEY\<rparr>) c0))"
    using assms(1-3) by (auto simp: svr_authinitialise_def ikofi_svr_authinitialise_def ikofi_enable_public_key_auth_def Let_def rbind_eq_Inr)
  have init: "a_username (auth_of c) = None" "pw_passwd (auth_of c) = None" "\<not> authdone (auth_of c)" "authtypes (auth_of c) AND 4 \<noteq> 0"
    "settings c = settings c0"
    unfolding c by (simp_all add: zero_AuthState_def) 
  obtain u m d v where d: "deciding (with_payload b c) u m d" "userauth_method einval pk m v d = Inr c'"
    using request_deciding [OF assms(9)] init(3) by auto
  obtain b'' where b'': "request (with_payload b c) u m b''" "s_payload (cn_ses d) = Some b''" and st: "settings d = settings c"
    and l: "same_login (named u (auth_of c)) (auth_of d)"
    using d(1) by (auto simp: deciding_def)
  have eq: "u = n" "m = cstr ''password''" "b'' = b'" using b''(1) assms(5) by (auto simp: request_def)
  have "svr_auth_password True d = Inr c'"
    using d(2) named_login [OF l] init(4) unfolding eq(2) by (simp add: userauth_method_def)
  moreover have "password_given d default_password"
    using assms(8) b''(2) eq(3) by (simp add: password_given_def default_password_def)
  moreover have "pw_passwd (auth_of d) = Some default_password" "a_username (auth_of d) = Some n"
    using named_login [OF l] init eq assms(6) by (simp_all add: named_def default_password_def)
  moreover have "cn_ikofi d = cn_ikofi c0" "\<not> multiauthmethod (cn_svr_opts d)"
    using st init(5) assms(4) settings_sel [of d c0] by (simp_all add: settings_def)
  ultimately show ?thesis using default_password_login [of d c'] assms(7) by simp
qed

theorem default_password_accepted_witness:
  "\<exists>c'. recv_msg_userauth_request False no_crypto (with_payload (guess_buf ''!!'' 0) file_start) = Inr c' \<and> authdone (auth_of c') \<and>
     file_user (cn_ikofi file_conn) = Some (cstr ''me'', cstr ''hash'')"
proof -
  obtain c' where c': "recv_msg_userauth_request False no_crypto (with_payload (guess_buf ''!!'' 0) file_start) = Inr c'"
    using guess_right by blast
  have k: "\<not> enable_single_use_passwords (cn_ikofi file_conn)" "ikofi_enable_password_file (cn_ikofi file_conn) = Inr True"
    "file_user (cn_ikofi file_conn) = Some (cstr ''me'', cstr ''hash'')" by code_simp+
  have req: "request (with_payload (guess_buf ''!!'' 0) file_start) (cstr ''any'') (cstr ''password'') (guess_buf ''!!'' 37)"
    using guess_buf_reads(1-3) by (simp add: request_def)
  have pw: "password_given (with_payload (guess_buf ''!!'' 37) file_start) (cstr ''!!'')"
    using guess_buf_reads(4,5) by (simp add: password_given_def)
  have "\<not> multiauthmethod (cn_svr_opts file_conn)" by (simp add: file_conn_def plain_conn_def plain_svr_opts_def)
  from default_password_accepted [OF file_start_init k(1,2) this req _ _ pw c'] c' k(3) show ?thesis by simp
qed

section \<open>Lines of the authorized keys\<close>

text \<open>The outcome of the first line that is not passed over.\<close>

fun first_outcome :: "'a option res list \<Rightarrow> 'a option res" where
  "first_outcome [] = Inr None"
| "first_outcome (r # rs) = (if r = Inr None then first_outcome rs else r)"

lemma not_eol: "(c \<noteq> LF \<and> c \<noteq> CR) = (\<not> eol c)"
  by (auto simp: eol_def)

lemma check_lines_step:
  "check_lines einval pk algo keyblob file = (case buf_getline file of None \<Rightarrow> Inr None
     | Some (line, rest) \<Rightarrow> if checkpubkey_line einval pk algo keyblob line = Inr None then check_lines einval pk algo keyblob rest
         else checkpubkey_line einval pk algo keyblob line)"
  by (subst check_lines.simps) (auto simp: rbind_def split: option.splits sum.splits)

lemma short_line [simp]: "length l < MIN_AUTHKEYS_LINE \<Longrightarrow> checkpubkey_line einval pk algo keyblob l = Inr None"
  by (simp add: checkpubkey_line_def)

text \<open>
  Property C32. The authorized keys are read line by line: for a file whose lines, ended by a line
  feed, a carriage return or both, have fewer than 4200 characters, the search for a key returns, with the outcome of
  the first line that is not passed over, and with none when all are.
\<close>

theorem check_lines_first:
  assumes "\<forall>l \<in> set (lines_of content). length l < 4200"
  shows "check_lines einval pk algo keyblob content = first_outcome (map (checkpubkey_line einval pk algo keyblob) (lines_of content))"
  using assms
proof (induction "length content" arbitrary: content rule: less_induct)
  case less
  let ?l = "takeWhile (\<lambda>c. \<not> eol c) content" and ?t = "dropWhile (\<lambda>c. \<not> eol c) content"
  have short: "length ?l < 4200" using less.prems by (subst (asm) lines_of_line) simp
  show ?case
  proof (cases ?t)
    case Nil
    then have l: "?l = content" by (metis append_Nil2 takeWhile_dropWhile_id)
    have none: "check_lines einval pk algo keyblob [] = Inr None" by (subst check_lines_step) (simp add: buf_getline_def)
    show ?thesis using short
      by (subst check_lines_step, subst lines_of_line) (simp add: Nil l none buf_getline_def not_eol Let_def)
  next
    case (Cons x t)
    have "length t < length content" by (metis Cons length_Cons length_append less_add_Suc2 takeWhile_dropWhile_id add_Suc_right)
    moreover have "\<forall>l \<in> set (lines_of t). length l < 4200" using less.prems Cons by (subst (asm) lines_of_line) simp
    ultimately have IH: "check_lines einval pk algo keyblob t = first_outcome (map (checkpubkey_line einval pk algo keyblob) (lines_of t))"
      by (rule less.hyps)
    then show ?thesis using short Cons
      by (subst check_lines_step, subst lines_of_line) (simp add: buf_getline_def not_eol Let_def)
  qed
qed

theorem check_lines_first_witness:
  "check_lines False no_crypto (cstr ''ssh-rsa'') [1] (cstr ''# a comment'' @ [10, 10]) = Inr None \<and>
   lines_of (cstr ''# a comment'' @ [10, 10]) = [cstr ''# a comment'', [], []]"
proof -
  let ?f = "cstr ''# a comment'' @ [10, 10]"
  have 1: "\<forall>l \<in> set (lines_of ?f). length l < 4200" by code_simp
  have "first_outcome (map (checkpubkey_line False no_crypto (cstr ''ssh-rsa'') [1]) (lines_of ?f)) = Inr None" by code_simp
  moreover have "lines_of ?f = [cstr ''# a comment'', [], []]" by code_simp
  ultimately show ?thesis using check_lines_first [OF 1, of False no_crypto "cstr ''ssh-rsa''" "[1]"] by simp
qed

text \<open>
  Property C34. Lines that are not read as the file means them. A line of blanks only, as long
  as a key line has to be, ends the session instead of being passed over; and of a line of 4200
  characters or more, the rest after the first 4200 is read as lines of their own.
\<close>

theorem odd_lines:
  assumes "algo \<noteq> []" "\<not> is_blank (hd algo)"
    and "list_all is_blank blanks" "10 \<le> length blanks" "length algo + 3 \<le> length blanks" "length blanks < 4200"
    and "list_all (\<lambda>c. \<not> eol c) long" "length long = 4200"
  shows "check_lines einval pk algo keyblob (blanks @ [10] @ rest) = Inl (Dropbear_exit ''Bad buf_getptr'') \<and>
    check_lines einval pk algo keyblob (long @ rest) = check_lines einval pk algo keyblob rest"
proof
  have ne: "list_all (\<lambda>c. \<not> eol c) blanks" using assms(3) by (auto simp: list_all_iff is_blank_def eol_def)
  have "take (length algo) blanks \<noteq> algo"
  proof
    assume "take (length algo) blanks = algo"
    then have "hd algo \<in> set blanks" using assms(1) by (metis hd_in_set in_set_takeD)
    then show False using assms(2,3) by (simp add: list_all_iff)
  qed
  moreover have none: "dropWhile is_blank blanks = []" using assms(3) by (simp add: list_all_iff)
  moreover have "0 \<notin> set blanks" using assms(3) by (auto simp: list_all_iff is_blank_def)
  ultimately have "checkpubkey_line einval pk algo keyblob blanks = Inl (Dropbear_exit ''Bad buf_getptr'')"
    using assms(4-6) by (simp add: checkpubkey_line_def line_ptr_def Let_def none)
  moreover have "takeWhile (\<lambda>c. \<not> eol c) (blanks @ [10] @ rest) = blanks" "dropWhile (\<lambda>c. \<not> eol c) (blanks @ [10] @ rest) = 10 # rest"
    using ne by (simp_all add: list_all_iff takeWhile_append2 dropWhile_append2 eol_def)
  ultimately show "check_lines einval pk algo keyblob (blanks @ [10] @ rest) = Inl (Dropbear_exit ''Bad buf_getptr'')"
    using assms(6) by (subst check_lines_step) (simp add: buf_getline_def not_eol Let_def)
next
  have "4200 \<le> length (takeWhile (\<lambda>c. \<not> eol c) (long @ rest))"
    using assms(7,8) by (simp add: list_all_iff takeWhile_append2)
  then have "buf_getline (long @ rest) = Some ([], rest)" using assms(8) by (simp add: buf_getline_def not_eol Let_def)
  then show "check_lines einval pk algo keyblob (long @ rest) = check_lines einval pk algo keyblob rest"
    by (subst check_lines_step) simp
qed

theorem odd_lines_witness:
  "check_lines False no_crypto (cstr ''ssh-rsa'') [1] (replicate 10 32 @ [10] @ cstr ''x'') = Inl (Dropbear_exit ''Bad buf_getptr'') \<and>
   check_lines False no_crypto (cstr ''ssh-rsa'') [1] (replicate 4200 65 @ cstr ''x'') = check_lines False no_crypto (cstr ''ssh-rsa'') [1] (cstr ''x'')"
  using odd_lines [of "cstr ''ssh-rsa''" "replicate 10 32" "replicate 4200 65" False no_crypto "[1]" "cstr ''x''"]
  by (simp add: is_blank_def eol_def list_all_iff)

section \<open>A line with a key\<close>

text \<open>Options as a line may carry them: no backslash, and blanks inside quotes only.\<close>

fun quoted_ok :: "bool \<Rightarrow> bytes \<Rightarrow> bool" where
  "quoted_ok q [] = (\<not> q)"
| "quoted_ok q (c # cs) = (c \<noteq> 92 \<and> (if c = 34 then quoted_ok (\<not> q) cs else (q \<or> \<not> is_blank c) \<and> quoted_ok q cs))"

lemma scan_quoted: "quoted_ok q opts \<Longrightarrow> is_blank b \<Longrightarrow> scan_options q False (opts @ b # rest) = (opts, rest)"
  by (induction q opts rule: quoted_ok.induct) (auto simp: is_blank_def)

definition names_algo :: "bytes \<Rightarrow> bytes \<Rightarrow> bool" where
  "names_algo keyblob algo \<longleftrightarrow> 4 \<le> length keyblob \<and> unat (load32h (take 4 keyblob)) = length algo \<and> take (length algo) (drop 4 keyblob) = algo"

lemma names_algo_ptr:
  assumes "names_algo keyblob algo"
  shows "length algo \<le> length (drop 4 keyblob)"
  using assms unfolding names_algo_def by (metis length_take min.absorb_iff1 min.commute)

lemma key_fields_accepted:
  assumes "pk_base64_decode pk key = Some keyblob" "names_algo keyblob algo" "key \<noteq> []" "32 \<notin> set key"
  shows "check_key_fields einval pk algo keyblob options (algo @ [32] @ key) = Inr (map_option (\<lambda>po. po\<lparr>info_env := None\<rparr>) (svr_parse_pubkey_options einval options))"
proof -
  have k: "takeWhile (\<lambda>c. c \<noteq> 32) key = key" "dropWhile (\<lambda>c. c \<noteq> 32) key = []"
    using assms(4) by (auto simp: takeWhile_eq_all_conv)
  show ?thesis
    using assms(1-3) names_algo_ptr [OF assms(2)]
    by (simp add: check_key_fields_def cmp_base64_key_def line_ptr_def names_algo_def Let_def k)
qed

text \<open>
  Property C33. A key that is listed is found, with its options: a line of the algorithm, a space
  and the base64 form of the key is accepted without restrictions; and with options in front, whose
  blanks are inside quotes and that hold no backslash, it is accepted exactly if the options parse,
  and with what they say.
\<close>

theorem key_line_accepted:
  assumes "pk_base64_decode pk key = Some keyblob" "names_algo keyblob algo" "key \<noteq> []" "32 \<notin> set key" "0 \<notin> set (opts @ algo @ key)"
    and "10 \<le> length algo + length key" "length opts + length algo + length key + 2 \<le> 4200" "2 \<le> length key"
    and "quoted_ok False opts" "opts \<noteq> []" "hd opts \<noteq> 35" "take (length algo) (opts @ [32] @ algo) \<noteq> algo"
  shows "checkpubkey_line einval pk algo keyblob (algo @ [32] @ key) = Inr (map_option (\<lambda>po. po\<lparr>info_env := None\<rparr>) (svr_parse_pubkey_options einval None)) \<and>
    checkpubkey_line einval pk algo keyblob (opts @ [32] @ algo @ [32] @ key) =
      Inr (map_option (\<lambda>po. po\<lparr>info_env := None\<rparr>) (svr_parse_pubkey_options einval (Some opts)))"
proof
  show "checkpubkey_line einval pk algo keyblob (algo @ [32] @ key) = Inr (map_option (\<lambda>po. po\<lparr>info_env := None\<rparr>) (svr_parse_pubkey_options einval None))"
    using assms(5-8) key_fields_accepted [OF assms(1-4), of einval None] by (simp add: checkpubkey_line_def)
next
  let ?line = "opts @ [32] @ algo @ [32] @ key"
  have "\<not> is_blank (hd opts)" using assms(9,10) by (cases opts) (auto simp: is_blank_def split: if_splits)
  then have keep: "dropWhile is_blank ?line = ?line" using assms(10) by (cases opts) auto
  have "take (length algo) ((opts @ [32] @ algo) @ ([32] @ key)) = take (length algo) (opts @ [32] @ algo)"
    unfolding take_append by simp
  then have "take (length algo) ?line \<noteq> algo" using assms(12) by simp
  moreover have "scan_options False False ?line = (opts, algo @ [32] @ key)"
    using scan_quoted [OF assms(9), of 32 "algo @ [32] @ key"] by (simp add: is_blank_def)
  moreover have "hd ?line \<noteq> 35" using assms(10,11) by simp
  ultimately show "checkpubkey_line einval pk algo keyblob ?line =
      Inr (map_option (\<lambda>po. po\<lparr>info_env := None\<rparr>) (svr_parse_pubkey_options einval (Some opts)))"
    using assms(5-8,10) key_fields_accepted [OF assms(1-4), of einval "Some opts"]
    by (simp add: checkpubkey_line_def Let_def keep [simplified] line_ptr_def)
qed

definition one_key :: "unit pk_crypto" where
  "one_key = no_crypto\<lparr>pk_base64_decode := (\<lambda>s. if s = cstr ''AAAAB3NzaC1yc2E='' then Some ([0, 0, 0, 7] @ cstr ''ssh-rsa'') else None)\<rparr>"

theorem key_line_accepted_witness:
  "checkpubkey_line False one_key (cstr ''ssh-rsa'') ([0, 0, 0, 7] @ cstr ''ssh-rsa'') (cstr ''no-pty,command='' @ [34] @ cstr ''a b'' @ [34] @ cstr '' ssh-rsa AAAAB3NzaC1yc2E='') =
     Inr (Some (empty_options\<lparr>no_pty_flag := True, forced_command := Some (cstr ''a b'')\<rparr>))"
proof -
  let ?o = "cstr ''no-pty,command='' @ [34] @ cstr ''a b'' @ [34]" and ?k = "cstr ''AAAAB3NzaC1yc2E=''"
  have "pk_base64_decode one_key ?k = Some ([0, 0, 0, 7] @ cstr ''ssh-rsa'')" "names_algo ([0, 0, 0, 7] @ cstr ''ssh-rsa'') (cstr ''ssh-rsa'')"
    "?k \<noteq> []" "32 \<notin> set ?k" "0 \<notin> set (?o @ cstr ''ssh-rsa'' @ ?k)" "10 \<le> length (cstr ''ssh-rsa'') + length ?k"
    "length ?o + length (cstr ''ssh-rsa'') + length ?k + 2 \<le> 4200" "2 \<le> length ?k" "quoted_ok False ?o" "?o \<noteq> []" "hd ?o \<noteq> 35"
    "take (length (cstr ''ssh-rsa'')) (?o @ [32] @ cstr ''ssh-rsa'') \<noteq> cstr ''ssh-rsa''"
    by code_simp+
  from key_line_accepted [OF this, of False]
  have "checkpubkey_line False one_key (cstr ''ssh-rsa'') ([0, 0, 0, 7] @ cstr ''ssh-rsa'') (?o @ [32] @ cstr ''ssh-rsa'' @ [32] @ ?k) =
      Inr (map_option (\<lambda>po. po\<lparr>info_env := None\<rparr>) (svr_parse_pubkey_options False (Some ?o)))" ..
  moreover have "map_option (\<lambda>po. po\<lparr>info_env := None\<rparr>) (svr_parse_pubkey_options False (Some ?o)) =
      Some (empty_options\<lparr>no_pty_flag := True, forced_command := Some (cstr ''a b'')\<rparr>)" by code_simp
  moreover have "?o @ [32] @ cstr ''ssh-rsa'' @ [32] @ ?k = cstr ''no-pty,command='' @ [34] @ cstr ''a b'' @ [34] @ cstr '' ssh-rsa AAAAB3NzaC1yc2E=''"
    by code_simp
  ultimately show ?thesis by simp
qed

text \<open>A backslash in front of a quote does not keep the quote from ending the quoted part.\<close>

lemma escaped_quote_ends_options:
  "scan_options False False (cstr ''command='' @ [34, 92, 34] @ cstr ''a b'' @ [92, 34, 34] @ cstr '' ssh-rsa'') =
     (cstr ''command='' @ [34, 92, 34] @ cstr ''a'', cstr ''b'' @ [92, 34, 34] @ cstr '' ssh-rsa'')"
  by code_simp

end
