(* ===== verification/Channel.thy ===== *)
theory Channel
  imports Pubkey_Options
begin

unbundle bit_operations_syntax

text \<open>
  The channels of a connection (\<^verbatim>\<open>common-channel.c\<close>, and \<^verbatim>\<open>update_channel_prio\<close> of \<^verbatim>\<open>common-session.c\<close>). A
  pointer to a channel is its index in \<^verbatim>\<open>ses.channels\<close>: every operation reads and writes the entry
  there, so that what a handler of the channel's type does to it is seen by the code after the call.
  The handlers of a type are found by its name in an argument. Descriptors are integers; closing,
  shutting down and writing are events, the results of system calls come from the connection. Of
  a failed read, \<open>Rd_again\<close> is \<^verbatim>\<open>EINTR\<close> and \<open>Rd_fail\<close> every other error. A failing \<^verbatim>\<open>close\<close> is
  not modelled.
\<close>

section \<open>Access to channels\<close>

definition chan_at :: "u32 \<Rightarrow> 't conn \<Rightarrow> 't Channel res" where
  "chan_at i c = (if unat i < length (cn_channels c) then deref (cn_channels c ! unat i) else Inl Fault)"

definition set_chan :: "u32 \<Rightarrow> 't Channel option \<Rightarrow> 't conn \<Rightarrow> 't conn" where
  "set_chan i x c = c\<lparr>cn_channels := (cn_channels c)[unat i := x]\<rparr>"

definition upd_chan :: "u32 \<Rightarrow> ('t Channel \<Rightarrow> 't Channel) \<Rightarrow> 't conn \<Rightarrow> 't conn res" where
  "upd_chan i f c = rbind (chan_at i c) (\<lambda>ch. Inr (set_chan i (Some (f ch)) c))"

definition sys_read :: "'t conn \<Rightarrow> rd \<times> 't conn" where
  "sys_read c = (cn_read c (cn_calls c), c\<lparr>cn_calls := Suc (cn_calls c)\<rparr>)"

definition sys_write :: "'t conn \<Rightarrow> wr \<times> 't conn" where
  "sys_write c = (cn_write c (cn_calls c), c\<lparr>cn_calls := Suc (cn_calls c)\<rparr>)"

definition fd_read_pending :: "'t conn \<Rightarrow> bool \<times> 't conn" where
  "fd_read_pending c = (cn_ready c (cn_calls c), c\<lparr>cn_calls := Suc (cn_calls c)\<rparr>)"

definition m_close :: "int \<Rightarrow> 't conn \<Rightarrow> 't conn" where
  "m_close fd c = (if fd < 0 then c else emit (Ev_close fd) c)"

abbreviation (input) "FD_UNINIT \<equiv> - 2 :: int"
abbreviation (input) "FD_CLOSED \<equiv> - 1 :: int"
abbreviation (input) "SHUT_RD \<equiv> 0 :: int"
abbreviation (input) "SHUT_WR \<equiv> 1 :: int"
abbreviation (input) "SHUT_RDWR \<equiv> 2 :: int"
abbreviation (input) "RECV_MAX_CHANNEL_DATA_LEN \<equiv> 131063 :: u32"
abbreviation (input) "MAX_CHANNELS \<equiv> 1000 :: u32"
abbreviation (input) "CHAN_EXTEND_SIZE \<equiv> 3 :: u32"
abbreviation (input) "SSH_OPEN_CONNECT_FAILED \<equiv> 2 :: u32"
abbreviation (input) "SSH_OPEN_UNKNOWN_CHANNEL_TYPE \<equiv> 3 :: u32"
abbreviation (input) "SSH_OPEN_RESOURCE_SHORTAGE \<equiv> 4 :: u32"
abbreviation (input) "SSH_OPEN_IN_PROGRESS \<equiv> 99 :: u32"

definition errfd_is_read :: "'t Channel \<Rightarrow> bool" where
  "errfd_is_read ch \<longleftrightarrow> extrabuf ch = None"

text \<open>\<^verbatim>\<open>struct ChanType\<close>: a handler that is not set is \<open>None\<close>.\<close>

record 't ChanType =
  inithandler :: "(u32 \<Rightarrow> 't conn \<Rightarrow> (u32 \<times> 't conn) res) option"
  checkclose :: "(u32 \<Rightarrow> 't conn \<Rightarrow> (bool \<times> 't conn) res) option"
  reqhandler :: "(u32 \<Rightarrow> 't conn \<Rightarrow> 't conn res) option"
  closehandler :: "(u32 \<Rightarrow> 't conn \<Rightarrow> 't conn res) option"
  cleanup :: "(u32 \<Rightarrow> 't conn \<Rightarrow> 't conn res) option"

type_synonym 't chan_types = "bytes \<Rightarrow> 't ChanType"

definition call_opt :: "(u32 \<Rightarrow> 't conn \<Rightarrow> 't conn res) option \<Rightarrow> u32 \<Rightarrow> 't conn \<Rightarrow> 't conn res" where
  "call_opt h i c = (case h of None \<Rightarrow> Inr c | Some f \<Rightarrow> f i c)"

section \<open>Setting up\<close>

definition chaninitialise :: "bytes list \<Rightarrow> 't conn \<Rightarrow> 't conn" where
  "chaninitialise chantypes c = c\<lparr>cn_channels := [None], cn_chansize := 1, cn_chancount := 0, cn_chantypes := chantypes\<rparr>"

definition new_Channel :: "u32 \<Rightarrow> u32 \<Rightarrow> bytes \<Rightarrow> u32 \<Rightarrow> u32 \<Rightarrow> u32 \<Rightarrow> circbuffer \<Rightarrow> 't Channel" where
  "new_Channel i remote type twindow tmaxpacket window wb =
     \<lparr>chan_index = i, remotechan = remote, recvwindow = window, transwindow = twindow, recvdonelen = 0,
      recvmaxpacket = RECV_MAX_CHANNEL_DATA_LEN, transmaxpacket = tmaxpacket, typedata = None, writefd = FD_UNINIT,
      readfd = FD_UNINIT, errfd = FD_CLOSED, bidir_fd = False, writebuf = Some wb, extrabuf = None, sent_close = False,
      recv_close = False, recv_eof = False, sent_eof = False, flushing = False, conn_pending = False, initconn = False,
      await_open = False, chan_type = type, chan_prio = DROPBEAR_PRIO_NORMAL\<rparr>"

fun first_free :: "'a option list \<Rightarrow> nat" where
  "first_free [] = 0"
| "first_free (None # xs) = 0"
| "first_free (Some x # xs) = Suc (first_free xs)"

definition newchannel :: "u32 \<Rightarrow> bytes \<Rightarrow> u32 \<Rightarrow> u32 \<Rightarrow> 't conn \<Rightarrow> (u32 option \<times> 't conn) res" where
  "newchannel remote type twindow tmaxpacket c =
     (let i = of_nat (first_free (cn_channels c)) in
      if i = cn_chansize c \<and> cn_chansize c \<ge> MAX_CHANNELS then Inr (None, c) else
      let c = (if i = cn_chansize c
               then c\<lparr>cn_channels := cn_channels c @ replicate 3 None, cn_chansize := cn_chansize c + CHAN_EXTEND_SIZE\<rparr> else c) in
      rbind (cbuf_new (recv_window (cn_opts c))) (\<lambda>wb.
      let c = set_chan i (Some (new_Channel i remote type twindow tmaxpacket (recv_window (cn_opts c)) wb)) c in
      Inr (Some i, c\<lparr>cn_chancount := cn_chancount c + 1\<rparr>)))"

definition getchannel_msg :: "'t conn \<Rightarrow> (u32 \<times> 't conn) res" where
  "getchannel_msg c =
     rbind (on_ses_get (on_payload buf_getint) c) (\<lambda>(chan, c).
     if chan \<ge> cn_chansize c then Inl (Dropbear_exit ''Unknown channel'')
     else if unat chan \<ge> length (cn_channels c) then Inl Fault
     else if cn_channels c ! unat chan = None then Inl (Dropbear_exit ''Unknown channel'')
     else Inr (chan, c))"

definition update_channel_prio :: "'t conn \<Rightarrow> 't conn" where
  "update_channel_prio c =
     (if cn_sock_out c < 0 then c else
      let chans = List.map_filter id (cn_channels c);
          new_prio = (if chans = [] \<or> (\<exists>ch \<in> set chans. chan_prio ch = DROPBEAR_PRIO_LOWDELAY)
                      then DROPBEAR_PRIO_LOWDELAY else DROPBEAR_PRIO_NORMAL) in
      if new_prio \<noteq> cn_socket_prio c
      then (emit (Ev_prio (cn_sock_out c) new_prio) c)\<lparr>cn_socket_prio := new_prio\<rparr> else c)"

section \<open>Messages\<close>

definition send_msg_channel_window_adjust :: "u32 \<Rightarrow> u32 \<Rightarrow> 't conn \<Rightarrow> 't conn res" where
  "send_msg_channel_window_adjust i incr c =
     rbind (chan_at i c) (\<lambda>ch. on_ses (send_fields [FByte 93, FInt (remotechan ch), FInt incr]) c)"

definition send_msg_channel_failure :: "u32 \<Rightarrow> 't conn \<Rightarrow> 't conn res" where
  "send_msg_channel_failure i c =
     rbind (chan_at i c) (\<lambda>ch. if sent_close ch then Inr c else on_ses (send_fields [FByte 100, FInt (remotechan ch)]) c)"

definition send_msg_channel_success :: "u32 \<Rightarrow> 't conn \<Rightarrow> 't conn res" where
  "send_msg_channel_success i c =
     rbind (chan_at i c) (\<lambda>ch. if sent_close ch then Inr c else on_ses (send_fields [FByte 99, FInt (remotechan ch)]) c)"

definition send_msg_channel_open_failure :: "u32 \<Rightarrow> u32 \<Rightarrow> bytes \<Rightarrow> bytes \<Rightarrow> 't conn \<Rightarrow> 't conn res" where
  "send_msg_channel_open_failure remote reason msg lang =
     on_ses (send_fields [FByte 92, FInt remote, FInt reason, FString msg, FString lang])"

definition send_msg_channel_open_confirmation :: "u32 \<Rightarrow> u32 \<Rightarrow> u32 \<Rightarrow> 't conn \<Rightarrow> 't conn res" where
  "send_msg_channel_open_confirmation i window maxpacket c =
     rbind (chan_at i c) (\<lambda>ch.
     on_ses (send_fields [FByte 91, FInt (remotechan ch), FInt (chan_index ch), FInt window, FInt maxpacket]) c)"

definition send_msg_request_success :: "'t conn \<Rightarrow> 't conn res" where
  "send_msg_request_success = on_ses (send_fields [FByte 81])"

definition send_msg_request_failure :: "'t conn \<Rightarrow> 't conn res" where
  "send_msg_request_failure = on_ses (send_fields [FByte 82])"

definition start_send_channel_request :: "u32 \<Rightarrow> bytes \<Rightarrow> 't conn \<Rightarrow> 't conn res" where
  "start_send_channel_request i type c =
     rbind (chan_at i c) (\<lambda>ch. on_ses (put_payload [FByte 98, FInt (remotechan ch), FString type]) c)"

section \<open>Closing\<close>

text \<open>The descriptors of a channel after \<^verbatim>\<open>fd\<close> is closed for input, output or both.\<close>

definition fds_closed :: "bool \<Rightarrow> bool \<Rightarrow> int \<Rightarrow> 't Channel \<Rightarrow> 't Channel" where
  "fds_closed closein closeout fd ch =
     (let ch = (if closeout \<and> fd = readfd ch then ch\<lparr>readfd := FD_CLOSED\<rparr> else ch);
          ch = (if closeout \<and> errfd_is_read ch \<and> fd = errfd ch then ch\<lparr>errfd := FD_CLOSED\<rparr> else ch);
          ch = (if closein \<and> fd = writefd ch then ch\<lparr>writefd := FD_CLOSED\<rparr> else ch);
          ch = (if closein \<and> \<not> errfd_is_read ch \<and> fd = errfd ch then ch\<lparr>errfd := FD_CLOSED\<rparr> else ch)
      in ch)"

definition close_chan_fd :: "u32 \<Rightarrow> int \<Rightarrow> int \<Rightarrow> 't conn \<Rightarrow> 't conn res" where
  "close_chan_fd i fd how c =
     rbind (chan_at i c) (\<lambda>ch.
     let c = (if bidir_fd ch then emit (Ev_shutdown fd how) c else m_close fd c);
         closein = (if bidir_fd ch then how \<noteq> 0 else True);
         closeout = (if bidir_fd ch then how = 0 else True);
         ch = fds_closed closein closeout fd ch;
         c = set_chan i (Some ch) c in
     Inr (if bidir_fd ch \<and> readfd ch = FD_CLOSED \<and> writefd ch = FD_CLOSED \<and> errfd ch = FD_CLOSED then m_close fd c else c))"

definition write_pending :: "'t Channel \<Rightarrow> bool res" where
  "write_pending ch =
     rbind (if writefd ch \<ge> 0 then rbind (deref (writebuf ch)) (\<lambda>wb. Inr (cbuf_getused wb > 0)) else Inr False) (\<lambda>pending.
     Inr (pending \<or> errfd ch \<ge> 0 \<and> (case extrabuf ch of None \<Rightarrow> False | Some eb \<Rightarrow> cbuf_getused eb > 0)))"

definition send_msg_channel_eof :: "u32 \<Rightarrow> 't conn \<Rightarrow> 't conn res" where
  "send_msg_channel_eof i c =
     rbind (chan_at i c) (\<lambda>ch.
     rbind (on_ses (send_fields [FByte 96, FInt (remotechan ch)]) c)
     (upd_chan i (\<lambda>ch. ch\<lparr>sent_eof := True\<rparr>)))"

text \<open>Closing one of the descriptors a channel holds now.\<close>

definition close_own_fd :: "u32 \<Rightarrow> ('t Channel \<Rightarrow> int) \<Rightarrow> int \<Rightarrow> 't conn \<Rightarrow> 't conn res" where
  "close_own_fd i sel how c = rbind (chan_at i c) (\<lambda>ch. close_chan_fd i (sel ch) how c)"

definition send_msg_channel_close :: "'t chan_types \<Rightarrow> u32 \<Rightarrow> 't conn \<Rightarrow> 't conn res" where
  "send_msg_channel_close types i c =
     rbind (chan_at i c) (\<lambda>ch.
     rbind (call_opt (closehandler (types (chan_type ch))) i c) (\<lambda>c.
     rbind (chan_at i c) (\<lambda>ch.
     rbind (on_ses (send_fields [FByte 97, FInt (remotechan ch)]) c) (\<lambda>c.
     rbind (upd_chan i (\<lambda>ch. ch\<lparr>sent_eof := True, sent_close := True\<rparr>) c) (\<lambda>c.
     rbind (close_own_fd i readfd SHUT_RD c) (\<lambda>c.
     rbind (close_own_fd i errfd SHUT_RDWR c)
     (close_own_fd i writefd SHUT_WR)))))))"

definition remove_channel :: "'t chan_types \<Rightarrow> u32 \<Rightarrow> 't conn \<Rightarrow> 't conn res" where
  "remove_channel types i c =
     rbind (upd_chan i (\<lambda>ch. ch\<lparr>writebuf := None, extrabuf := None\<rparr>) c) (\<lambda>c.
     rbind (chan_at i c) (\<lambda>ch.
     let c = m_close (errfd ch) (m_close (readfd ch) (m_close (writefd ch) c)) in
     rbind (call_opt (cleanup (types (chan_type ch))) i c) (\<lambda>c.
     rbind (chan_at i c) (\<lambda>ch.
     let c = (if conn_pending ch then emit (Ev_cancel_connect i) c else c);
         c = set_chan (chan_index ch) None c in
     Inr (update_channel_prio (c\<lparr>cn_chancount := cn_chancount c - 1\<rparr>))))))"

text \<open>The parts of \<^verbatim>\<open>check_close\<close>: whether the type lets the channel close, draining, and the rest.\<close>

definition close_is_allowed :: "'t chan_types \<Rightarrow> u32 \<Rightarrow> 't conn \<Rightarrow> (bool \<times> 't conn) res" where
  "close_is_allowed types i c =
     rbind (chan_at i c) (\<lambda>ch.
     case checkclose (types (chan_type ch)) of
       None \<Rightarrow> Inr (True, c)
     | Some f \<Rightarrow> if sent_close ch then Inr (True, c) else f i c)"

definition flush_fd :: "u32 \<Rightarrow> ('t Channel \<Rightarrow> bool) \<Rightarrow> ('t Channel \<Rightarrow> int) \<Rightarrow> 't conn \<Rightarrow> 't conn res" where
  "flush_fd i guard sel c =
     rbind (chan_at i c) (\<lambda>ch.
     if guard ch \<and> sel ch \<ge> 0 then
       let (pending, c) = fd_read_pending c in if pending then Inr c else close_chan_fd i (sel ch) SHUT_RD c
     else Inr c)"

definition flush_fds :: "u32 \<Rightarrow> 't conn \<Rightarrow> 't conn res" where
  "flush_fds i c =
     rbind (chan_at i c) (\<lambda>ch.
     if flushing ch then rbind (flush_fd i (\<lambda>_. True) readfd c) (flush_fd i errfd_is_read errfd) else Inr c)"

definition has_checkclose :: "'t chan_types \<Rightarrow> 't Channel \<Rightarrow> bool" where
  "has_checkclose types ch \<longleftrightarrow> checkclose (types (chan_type ch)) \<noteq> None"

definition close_writefd :: "'t chan_types \<Rightarrow> u32 \<Rightarrow> bool \<Rightarrow> 't conn \<Rightarrow> 't conn res" where
  "close_writefd types i allowed c =
     rbind (chan_at i c) (\<lambda>ch.
     rbind (if recv_eof ch then write_pending ch else Inr True) (\<lambda>pending.
     if \<not> pending \<or> (writefd ch \<noteq> FD_UNINIT \<and> has_checkclose types ch \<and> allowed)
     then close_chan_fd i (writefd ch) SHUT_WR c else Inr c))"

definition no_more_reads :: "'t Channel \<Rightarrow> bool" where
  "no_more_reads ch \<longleftrightarrow> readfd ch = FD_CLOSED \<and> (\<not> errfd_is_read ch \<or> errfd ch = FD_CLOSED)"

definition finish_close :: "'t chan_types \<Rightarrow> u32 \<Rightarrow> bool \<Rightarrow> 't conn \<Rightarrow> 't conn res" where
  "finish_close types i allowed c =
     rbind (chan_at i c) (\<lambda>ch.
     rbind (if \<not> sent_eof ch \<and> no_more_reads ch then send_msg_channel_eof i c else Inr c) (\<lambda>c.
     rbind (chan_at i c) (\<lambda>ch.
     if no_more_reads ch \<and> writefd ch = FD_CLOSED \<and> \<not> sent_close ch \<and> allowed then
       rbind (write_pending ch) (\<lambda>pending. if pending then Inr c else send_msg_channel_close types i c)
     else Inr c)))"

definition check_close :: "'t chan_types \<Rightarrow> u32 \<Rightarrow> 't conn \<Rightarrow> 't conn res" where
  "check_close types i c =
     rbind (close_is_allowed types i c) (\<lambda>(allowed, c).
     rbind (flush_fds i c) (\<lambda>c.
     rbind (chan_at i c) (\<lambda>ch.
     rbind (if recv_close ch then write_pending ch else Inr True) (\<lambda>pending.
     if \<not> pending \<and> allowed then
       rbind (if \<not> sent_close ch then send_msg_channel_close types i c else Inr c) (remove_channel types i)
     else
       rbind (close_writefd types i allowed c) (finish_close types i allowed)))))"

fun remove_all :: "'t chan_types \<Rightarrow> nat list \<Rightarrow> 't conn \<Rightarrow> 't conn res" where
  "remove_all types [] c = Inr c"
| "remove_all types (i # is) c =
     rbind (if i < length (cn_channels c) \<and> cn_channels c ! i \<noteq> None then remove_channel types (of_nat i) c else Inr c)
     (remove_all types is)"

definition chancleanup :: "'t chan_types \<Rightarrow> 't conn \<Rightarrow> 't conn res" where
  "chancleanup types c = rbind (remove_all types [0..<unat (cn_chansize c)] c) (\<lambda>c. Inr (c\<lparr>cn_channels := []\<rparr>))"

definition channel_connect_done :: "'t chan_types \<Rightarrow> bool \<Rightarrow> int \<Rightarrow> bytes \<Rightarrow> u32 \<Rightarrow> 't conn \<Rightarrow> 't conn res" where
  "channel_connect_done types success sock errstring i c =
     (if success then
        rbind (upd_chan i (\<lambda>ch. ch\<lparr>readfd := sock, writefd := sock, bidir_fd := True, conn_pending := False\<rparr>) c) (\<lambda>c.
        rbind (chan_at i c) (\<lambda>ch. send_msg_channel_open_confirmation i (recvwindow ch) (recvmaxpacket ch) c))
      else
        rbind (chan_at i c) (\<lambda>ch.
        rbind (send_msg_channel_open_failure (remotechan ch) SSH_OPEN_CONNECT_FAILED errstring [] c)
        (remove_channel types i)))"

section \<open>Data towards the local side\<close>

text \<open>The buffer for a descriptor: \<^verbatim>\<open>writebuf\<close>, or \<^verbatim>\<open>extrabuf\<close> for extended data.\<close>

definition chan_buf :: "bool \<Rightarrow> 't Channel \<Rightarrow> circbuffer option" where
  "chan_buf ext ch = (if ext then extrabuf ch else writebuf ch)"

definition set_buf :: "bool \<Rightarrow> circbuffer \<Rightarrow> 't Channel \<Rightarrow> 't Channel" where
  "set_buf ext cb ch = (if ext then ch\<lparr>extrabuf := Some cb\<rparr> else ch\<lparr>writebuf := Some cb\<rparr>)"

text \<open>
  \<^verbatim>\<open>writechannel_writev\<close>: whether it succeeded and how much of \<open>moredata\<close> was consumed. \<open>None\<close> is a null
  \<^verbatim>\<open>morelen\<close>.
\<close>

definition writechannel_writev :: "u32 \<Rightarrow> int \<Rightarrow> bool \<Rightarrow> bytes option \<Rightarrow> 't conn \<Rightarrow> ((bool \<times> u32) \<times> 't conn) res" where
  "writechannel_writev i fd ext moredata c =
     rbind (chan_at i c) (\<lambda>ch.
     rbind (deref (chan_buf ext ch)) (\<lambda>cbuf.
     rbind (cbuf_readptrs cbuf) (\<lambda>(circ_p1, circ_p2).
     if circ_p1 = [] \<and> circ_p2 = [] \<and> moredata = None then Inr ((True, 0), c) else
     let iov = circ_p1 @ circ_p2 @ (case moredata of None \<Rightarrow> [] | Some d \<Rightarrow> d); (w, c) = sys_write c in
     case w of
       Wr_fail \<Rightarrow> rbind (close_chan_fd i fd SHUT_WR c) (\<lambda>c. Inr ((False, 0), c))
     | Wr_again \<Rightarrow> Inr ((True, 0), c)
     | Wr n \<Rightarrow>
         let written = min n (length iov);
             cbuf_written = min (length circ_p1 + length circ_p2) written in
         rbind (cbuf_incrread cbuf (of_nat cbuf_written)) (\<lambda>cbuf.
         rbind (upd_chan i (\<lambda>ch. (set_buf ext cbuf ch)\<lparr>recvdonelen := recvdonelen ch + of_nat written\<rparr>) c) (\<lambda>c.
         Inr ((True, of_nat (written - cbuf_written)), emit (Ev_write fd (take written iov)) c))))))"

definition adjust_window :: "u32 \<Rightarrow> 't conn \<Rightarrow> 't conn res" where
  "adjust_window i c =
     rbind (chan_at i c) (\<lambda>ch.
     if recvdonelen ch \<ge> recv_window (cn_opts c) div 3 then
       rbind (send_msg_channel_window_adjust i (recvdonelen ch) c)
       (upd_chan i (\<lambda>ch. ch\<lparr>recvwindow := recvwindow ch + recvdonelen ch, recvdonelen := 0\<rparr>))
     else Inr c)"

definition writechannel :: "u32 \<Rightarrow> int \<Rightarrow> bool \<Rightarrow> bytes option \<Rightarrow> 't conn \<Rightarrow> ((bool \<times> u32) \<times> 't conn) res" where
  "writechannel i fd ext moredata c =
     rbind (writechannel_writev i fd ext moredata c) (\<lambda>(ret, c).
     rbind (adjust_window i c) (\<lambda>c.
     rbind (chan_at i c) (\<lambda>ch.
     rbind (dassert (recvwindow ch \<le> recv_window (cn_opts c)) ''channel->recvwindow <= opts.recv_window'') (\<lambda>_.
     rbind (deref (writebuf ch)) (\<lambda>wb.
     rbind (dassert (recvwindow ch \<le> cbuf_getavail wb) ''channel->recvwindow <= cbuf_getavail(channel->writebuf)'') (\<lambda>_.
     rbind (dassert (case extrabuf ch of None \<Rightarrow> True | Some eb \<Rightarrow> recvwindow ch \<le> cbuf_getavail eb)
              ''channel->recvwindow <= cbuf_getavail(channel->extrabuf)'') (\<lambda>_.
     Inr (ret, c))))))))"

text \<open>
  The loop that puts the rest of a payload into the buffer; it would never end if the buffer had no
  room while data is left.
\<close>

function store_loop :: "u32 \<Rightarrow> circbuffer \<Rightarrow> buffer \<Rightarrow> (circbuffer \<times> buffer) res" where
  "store_loop len cbuf payload =
     (if len = 0 then Inr (cbuf, payload) else
      rbind (cbuf_writelen cbuf) (\<lambda>room.
      let buflen = min room len in
      if buflen = 0 then Inl Diverge else
      rbind (buf_peek payload buflen) (\<lambda>bs.
      rbind (cbuf_write cbuf bs) (\<lambda>cbuf.
      rbind (buf_incrpos payload buflen) (\<lambda>payload.
      store_loop (len - buflen) cbuf payload)))))"
  by auto
termination
proof (relation "measure (\<lambda>(len, _, _). unat len)", goal_cases)
  case (2 len cbuf payload room buflen bs cbuf' payload')
  then have "buflen \<le> len" "buflen \<noteq> 0" by (simp_all add: min_def split: if_splits)
  moreover from this have "0 < unat buflen" by (simp add: unat_gt_0)
  ultimately show ?case by (simp add: unat_minus_u32 word_le_nat_alt)
qed simp

declare store_loop.simps [simp del]

text \<open>What happens to the data that was not written at once; after a failed write it is discarded.\<close>

definition store_received :: "u32 \<Rightarrow> bool \<Rightarrow> u32 \<Rightarrow> (bool \<times> u32) \<times> 't conn \<Rightarrow> 't conn res" where
  "store_received i ext datalen = (\<lambda>((res, consumed), c).
     rbind (deref (s_payload (cn_ses c))) (\<lambda>payload.
     rbind (buf_incrpos payload consumed) (\<lambda>payload.
     let c = c\<lparr>cn_ses := (cn_ses c)\<lparr>s_payload := Some payload\<rparr>\<rparr> in
     if \<not> res then Inr c else
     rbind (chan_at i c) (\<lambda>ch.
     rbind (deref (chan_buf ext ch)) (\<lambda>cbuf.
     rbind (store_loop (datalen - consumed) cbuf payload) (\<lambda>(cbuf, payload).
     upd_chan i (set_buf ext cbuf) (c\<lparr>cn_ses := (cn_ses c)\<lparr>s_payload := Some payload\<rparr>\<rparr>)))))))"

definition common_recv_msg_channel_data :: "u32 \<Rightarrow> int \<Rightarrow> bool \<Rightarrow> 't conn \<Rightarrow> 't conn res" where
  "common_recv_msg_channel_data i fd ext c =
     rbind (chan_at i c) (\<lambda>ch.
     if recv_eof ch then Inl (Dropbear_exit ''Received data after eof'') else
     case chan_buf ext ch of None \<Rightarrow> Inr c
     | Some cbuf \<Rightarrow>
       if fd < 0 then Inr c else
       rbind (on_ses_get (on_payload buf_getint) c) (\<lambda>(datalen, c).
       if datalen > cbuf_getavail cbuf then Inl (Dropbear_exit ''Oversized packet'') else
       rbind (dassert (recvwindow ch \<ge> datalen) ''channel->recvwindow >= datalen'') (\<lambda>_.
       rbind (upd_chan i (\<lambda>ch. ch\<lparr>recvwindow := recvwindow ch - datalen\<rparr>) c) (\<lambda>c.
       rbind (dassert (recvwindow ch - datalen \<le> recv_window (cn_opts c)) ''channel->recvwindow <= opts.recv_window'') (\<lambda>_.
       rbind (deref (s_payload (cn_ses c))) (\<lambda>payload.
       rbind (buf_peek payload datalen) (\<lambda>moredata.
       rbind (writechannel i fd ext (Some moredata) c)
       (store_received i ext datalen))))))))"

definition recv_msg_channel_data :: "'t conn \<Rightarrow> 't conn res" where
  "recv_msg_channel_data c =
     rbind (getchannel_msg c) (\<lambda>(i, c). rbind (chan_at i c) (\<lambda>ch. common_recv_msg_channel_data i (writefd ch) False c))"

section \<open>Data towards the peer\<close>

definition send_maxlen :: "bool \<Rightarrow> 't Channel \<Rightarrow> sshsession \<Rightarrow> u32" where
  "send_maxlen isextended ch s =
     min (min (transwindow ch) (transmaxpacket ch)) (b_size (s_writepayload s) - 1 - 4 - 4 - (if isextended then 4 else 0))"

text \<open>Giving up a message that has been started.\<close>

definition drop_writepayload :: "sshsession \<Rightarrow> sshsession res" where
  "drop_writepayload s =
     rbind (buf_setpos (s_writepayload s) 0) (\<lambda>wp. rbind (buf_setlen wp 0) (\<lambda>wp. Inr (s\<lparr>s_writepayload := wp\<rparr>)))"

definition send_msg_channel_data :: "u32 \<Rightarrow> bool \<Rightarrow> 't conn \<Rightarrow> 't conn res" where
  "send_msg_channel_data i isextended c =
     rbind (chan_at i c) (\<lambda>ch.
     rbind (dassert (\<not> sent_close ch) ''!channel->sent_close'') (\<lambda>_.
     let fd = (if isextended then errfd ch else readfd ch) in
     rbind (dassert (fd \<ge> 0) ''fd >= 0'') (\<lambda>_.
     let maxlen = send_maxlen isextended ch (cn_ses c) in
     if maxlen = 0 then Inr c else
     rbind (on_ses (put_payload ([FByte (if isextended then 95 else 94), FInt (remotechan ch)] @ (if isextended then [FInt 1] else []))) c) (\<lambda>c.
     let size_pos = b_pos (s_writepayload (cn_ses c)) in
     rbind (on_ses (put_payload [FInt 0]) c) (\<lambda>c.
     rbind (buf_getwriteptr (s_writepayload (cn_ses c)) maxlen) (\<lambda>_.
     let (r, c) = sys_read c in
     case r of
       Rd_again \<Rightarrow> on_ses drop_writepayload c
     | Rd_fail \<Rightarrow>
         rbind (close_chan_fd i fd SHUT_RD c)
         (on_ses drop_writepayload)
     | Rd bs \<Rightarrow>
         let bs = take (unat maxlen) bs; len = of_nat (length bs) in
         if bs = [] then
           rbind (close_chan_fd i fd SHUT_RD c)
           (on_ses drop_writepayload)
         else
           rbind (on_ses (\<lambda>s.
             rbind (buf_poke (s_writepayload s) len bs) (\<lambda>wp.
             rbind (buf_incrwritepos wp len) (\<lambda>wp.
             rbind (buf_setpos wp size_pos) (\<lambda>wp.
             rbind (buf_putint wp len) (\<lambda>wp. Inr (s\<lparr>s_writepayload := wp\<rparr>)))))) c) (\<lambda>c.
           rbind (upd_chan i (\<lambda>ch. ch\<lparr>transwindow := transwindow ch - len\<rparr>) c)
           (on_ses encrypt_packet))))))))"

definition recv_msg_channel_window_adjust :: "'t conn \<Rightarrow> 't conn res" where
  "recv_msg_channel_window_adjust c =
     rbind (getchannel_msg c) (\<lambda>(i, c).
     rbind (on_ses_get (on_payload buf_getint) c) (\<lambda>(incr, c).
     upd_chan i (\<lambda>ch. let newwin = transwindow ch + incr
       in ch\<lparr>transwindow := (if newwin < transwindow ch then 0xffffffff else newwin)\<rparr>) c))"

section \<open>Handlers of messages\<close>

definition recv_msg_channel_eof :: "'t chan_types \<Rightarrow> 't conn \<Rightarrow> 't conn res" where
  "recv_msg_channel_eof types c =
     rbind (getchannel_msg c) (\<lambda>(i, c).
     rbind (upd_chan i (\<lambda>ch. ch\<lparr>recv_eof := True\<rparr>) c) (check_close types i))"

definition recv_msg_channel_close :: "'t chan_types \<Rightarrow> 't conn \<Rightarrow> 't conn res" where
  "recv_msg_channel_close types c =
     rbind (getchannel_msg c) (\<lambda>(i, c).
     rbind (upd_chan i (\<lambda>ch. ch\<lparr>recv_eof := True, recv_close := True\<rparr>) c) (check_close types i))"

definition recv_msg_channel_request :: "'t chan_types \<Rightarrow> 't conn \<Rightarrow> 't conn res" where
  "recv_msg_channel_request types c =
     rbind (getchannel_msg c) (\<lambda>(i, c).
     rbind (chan_at i c) (\<lambda>ch.
     case reqhandler (types (chan_type ch)) of
       Some f \<Rightarrow> f i c
     | None \<Rightarrow>
         rbind (on_ses (\<lambda>s. rbind (deref (s_payload s)) (\<lambda>b. rbind (buf_eatstring b) (\<lambda>b. Inr (s\<lparr>s_payload := Some b\<rparr>)))) c) (\<lambda>c.
         rbind (on_ses_get (on_payload buf_getbool) c) (\<lambda>(wantreply, c).
         if wantreply then send_msg_channel_failure i c else Inr c))))"

text \<open>The result of the handler that sets up a channel of the type; no handler is a success.\<close>

definition call_init :: "'t chan_types \<Rightarrow> u32 \<Rightarrow> 't conn \<Rightarrow> (u32 \<times> 't conn) res" where
  "call_init types i c =
     rbind (chan_at i c) (\<lambda>ch. case inithandler (types (chan_type ch)) of None \<Rightarrow> Inr (0, c) | Some f \<Rightarrow> f i c)"

definition open_channel :: "'t chan_types \<Rightarrow> u32 \<Rightarrow> u32 \<Rightarrow> 't conn \<Rightarrow> 't conn res" where
  "open_channel types remote i c =
     rbind (call_init types i c) (\<lambda>(ret, c).
     if ret = SSH_OPEN_IN_PROGRESS then Inr c
     else if ret > 0 then
       rbind (remove_channel types i c) (send_msg_channel_open_failure remote ret [] [])
     else
       let c = update_channel_prio c in
       rbind (chan_at i c) (\<lambda>ch. send_msg_channel_open_confirmation i (recvwindow ch) (recvmaxpacket ch) c))"

definition recv_msg_channel_open :: "'t chan_types \<Rightarrow> 't conn \<Rightarrow> 't conn res" where
  "recv_msg_channel_open types c =
     rbind (on_ses_get (on_payload buf_getstring) c) (\<lambda>(type, c).
     rbind (on_ses_get (on_payload buf_getint) c) (\<lambda>(remote, c).
     rbind (on_ses_get (on_payload buf_getint) c) (\<lambda>(twindow, c).
     rbind (on_ses_get (on_payload buf_getint) c) (\<lambda>(tmaxpacket, c).
     let tmaxpacket = min tmaxpacket TRANS_MAX_PAYLOAD_LEN in
     if length type > 64 \<or> c_string type \<notin> set (cn_chantypes c)
     then send_msg_channel_open_failure remote SSH_OPEN_UNKNOWN_CHANNEL_TYPE [] [] c
     else
       rbind (newchannel remote (c_string type) twindow tmaxpacket c) (\<lambda>(ch, c).
       case ch of
         None \<Rightarrow> send_msg_channel_open_failure remote SSH_OPEN_RESOURCE_SHORTAGE [] [] c
       | Some i \<Rightarrow> open_channel types remote i c)))))"

definition send_msg_channel_open_init :: "int \<Rightarrow> bytes \<Rightarrow> 't conn \<Rightarrow> (bool \<times> 't conn) res" where
  "send_msg_channel_open_init fd type c =
     rbind (newchannel 0 type 0 0 c) (\<lambda>(ch, c).
     case ch of
       None \<Rightarrow> Inr (False, c)
     | Some i \<Rightarrow>
         rbind (upd_chan i (\<lambda>ch. ch\<lparr>writefd := fd, readfd := fd, bidir_fd := True, await_open := True\<rparr>) c) (\<lambda>c.
         let c = c\<lparr>cn_maxfd := max (cn_maxfd c) fd\<rparr> in
         rbind (chan_at i c) (\<lambda>ch.
         rbind (on_ses (put_payload [FByte 90, FString type, FInt (chan_index ch), FInt (recv_window (cn_opts c)),
                  FInt RECV_MAX_CHANNEL_DATA_LEN]) c) (\<lambda>c. Inr (True, c)))))"

definition recv_msg_channel_open_confirmation :: "'t chan_types \<Rightarrow> 't conn \<Rightarrow> 't conn res" where
  "recv_msg_channel_open_confirmation types c =
     rbind (getchannel_msg c) (\<lambda>(i, c).
     rbind (chan_at i c) (\<lambda>ch.
     if \<not> await_open ch then Inl (Dropbear_exit ''Unexpected channel reply'') else
     rbind (on_ses_get (on_payload buf_getint) c) (\<lambda>(remote, c).
     rbind (on_ses_get (on_payload buf_getint) c) (\<lambda>(twindow, c).
     rbind (on_ses_get (on_payload buf_getint) c) (\<lambda>(tmaxpacket, c).
     rbind (upd_chan i (\<lambda>ch. ch\<lparr>await_open := False, remotechan := remote, transwindow := twindow, transmaxpacket := tmaxpacket\<rparr>) c) (\<lambda>c.
     rbind (call_init types i c) (\<lambda>(ret, c).
     if ret > 0 then remove_channel types i c else Inr (update_channel_prio c))))))))"

definition recv_msg_channel_open_failure :: "'t chan_types \<Rightarrow> 't conn \<Rightarrow> 't conn res" where
  "recv_msg_channel_open_failure types c =
     rbind (getchannel_msg c) (\<lambda>(i, c).
     rbind (chan_at i c) (\<lambda>ch.
     if \<not> await_open ch then Inl (Dropbear_exit ''Unexpected channel reply'') else
     rbind (upd_chan i (\<lambda>ch. ch\<lparr>await_open := False\<rparr>) c) (remove_channel types i)))"

definition get_any_ready_channel :: "'t conn \<Rightarrow> 't Channel option" where
  "get_any_ready_channel c =
     (if cn_chancount c = 0 then None else
      List.find (\<lambda>ch. \<not> (sent_eof ch \<or> recv_eof ch) \<and> \<not> await_open ch) (List.map_filter id (cn_channels c)))"

section \<open>The main loop\<close>

text \<open>The descriptors to wait for: of the channels, those to read from and those to write to.\<close>

definition chan_fds :: "bool \<Rightarrow> 't Channel \<Rightarrow> int list \<times> int list" where
  "chan_fds reads ch =
     ((if transwindow ch > 0 \<and> reads
       then (if readfd ch \<ge> 0 then [readfd ch] else []) @ (if errfd_is_read ch \<and> errfd ch \<ge> 0 then [errfd ch] else []) else []),
      (if writefd ch \<ge> 0 \<and> (case writebuf ch of None \<Rightarrow> False | Some wb \<Rightarrow> cbuf_getused wb > 0) then [writefd ch] else []) @
      (if \<not> errfd_is_read ch \<and> errfd ch \<ge> 0 \<and> (case extrabuf ch of None \<Rightarrow> False | Some eb \<Rightarrow> cbuf_getused eb > 0) then [errfd ch] else []))"

definition setchannelfds :: "bool \<Rightarrow> 't conn \<Rightarrow> int list \<times> int list" where
  "setchannelfds allow_reads c =
     (let fds = map (chan_fds (s_dataallowed (cn_ses c) \<and> allow_reads)) (List.map_filter id (cn_channels c))
      in (concat (map fst fds), concat (map snd fds)))"

text \<open>One step of \<^verbatim>\<open>channelio\<close>: \<open>guard\<close> decides on the channel as it is then, and the flag says that it had some.\<close>

definition io_step :: "u32 \<Rightarrow> ('t Channel \<Rightarrow> bool) \<Rightarrow> ('t Channel \<Rightarrow> 't conn \<Rightarrow> 't conn res) \<Rightarrow> bool \<times> 't conn \<Rightarrow> (bool \<times> 't conn) res" where
  "io_step i guard act = (\<lambda>(do_check_close, c).
     rbind (chan_at i c) (\<lambda>ch.
     if guard ch then rbind (act ch c) (\<lambda>c. Inr (True, c)) else Inr (do_check_close, c)))"

definition channel_io :: "'t chan_types \<Rightarrow> (int \<Rightarrow> bool) \<Rightarrow> (int \<Rightarrow> bool) \<Rightarrow> u32 \<Rightarrow> 't conn \<Rightarrow> 't conn res" where
  "channel_io types readfds writefds i c =
     rbind (io_step i (\<lambda>ch. readfd ch \<ge> 0 \<and> readfds (readfd ch)) (\<lambda>ch. send_msg_channel_data i False) (False, c)) (\<lambda>r.
     rbind (io_step i (\<lambda>ch. errfd_is_read ch \<and> errfd ch \<ge> 0 \<and> readfds (errfd ch)) (\<lambda>ch. send_msg_channel_data i True) r) (\<lambda>r.
     rbind (io_step i (\<lambda>ch. writefd ch \<ge> 0 \<and> writefds (writefd ch))
              (\<lambda>ch c. rbind (writechannel i (writefd ch) False None c) (\<lambda>(_, c). Inr c)) r) (\<lambda>r.
     rbind (io_step i (\<lambda>ch. \<not> errfd_is_read ch \<and> errfd ch \<ge> 0 \<and> writefds (errfd ch))
              (\<lambda>ch c. rbind (writechannel i (errfd ch) True None c) (\<lambda>(_, c). Inr c)) r) (\<lambda>(do_check_close, c).
     if do_check_close \<or> cn_signal_pending c then check_close types i c else Inr c))))"

fun channelio_loop :: "'t chan_types \<Rightarrow> (int \<Rightarrow> bool) \<Rightarrow> (int \<Rightarrow> bool) \<Rightarrow> nat list \<Rightarrow> 't conn \<Rightarrow> 't conn res" where
  "channelio_loop types readfds writefds [] c = Inr c"
| "channelio_loop types readfds writefds (i # is) c =
     rbind (if i < length (cn_channels c) \<and> cn_channels c ! i \<noteq> None then channel_io types readfds writefds (of_nat i) c else Inr c)
     (channelio_loop types readfds writefds is)"

definition channelio :: "'t chan_types \<Rightarrow> (int \<Rightarrow> bool) \<Rightarrow> (int \<Rightarrow> bool) \<Rightarrow> 't conn \<Rightarrow> 't conn res" where
  "channelio types readfds writefds c = channelio_loop types readfds writefds [0..<unat (cn_chansize c)] c"

end
