(* ===== verification/Chansess.thy ===== *)
theory Chansess
  imports Channel
begin

unbundle bit_operations_syntax

text \<open>
  Sessions of the server (\<^verbatim>\<open>svr-chansession.c\<close>): shells, commands and subsystems run in a channel, with or
  without a pseudo terminal, their environment, signals, exit status, and the table of children; with
  \<^verbatim>\<open>run_shell_command\<close> and \<^verbatim>\<open>expand_homedir_path\<close> of \<^verbatim>\<open>dbutil.c\<close>, \<^verbatim>\<open>get_user_shell\<close> of \<^verbatim>\<open>common-session.c\<close>,
  \<^verbatim>\<open>svr_pubkey_set_forced_command\<close> of \<^verbatim>\<open>svr-authpubkeyoptions.c\<close>, \<^verbatim>\<open>common-chansession.c\<close> and
  \<^verbatim>\<open>termcodes.c\<close>. A pointer to the session of a channel is the index of the channel. Results of \<^verbatim>\<open>spawn_command\<close>,
  \<^verbatim>\<open>fork\<close>, \<^verbatim>\<open>pty_allocate\<close> and the calls on terminals come from the connection, those of \<^verbatim>\<open>waitpid\<close> are an
  argument. What the child does up to \<^verbatim>\<open>execv\<close> is computed when it is started. X11 and agent forwarding and the
  login records are not built.
\<close>

section \<open>Data\<close>

record ChanSess =
  cs_cmd :: "bytes option"
  cs_pid :: int
  original_command :: "bytes option"
  cs_master :: int
  cs_slave :: int
  cs_tty :: "bytes option"
  cs_term :: "bytes option"
  cs_exit :: exitinfo
  connection_string :: "bytes option"
  client_string :: "bytes option"

type_synonym sconn = "ChanSess conn"

abbreviation (input) "MAX_TERMCODE \<equiv> 93 :: byte"
abbreviation (input) "MAX_TERM_LEN \<equiv> 200 :: nat"
abbreviation (input) "MAX_CMD_LEN \<equiv> 9000 :: nat"
abbreviation (input) "MAX_NAME_LEN \<equiv> 64 :: nat"
abbreviation (input) "DEFAULT_PATH \<equiv> cstr ''/sbin:/system/sbin:/system/bin:/system/xbin''"
abbreviation (input) "DEFAULT_ROOT_PATH \<equiv> cstr ''/usr/sbin:/usr/bin:/sbin:/bin''"

text \<open>\<^verbatim>\<open>struct SigMap signames[]\<close> with the numbers of Linux.\<close>

definition signames :: "(int \<times> bytes) list" where
  "signames = [(6, cstr ''ABRT''), (14, cstr ''ALRM''), (7, cstr ''BUS''), (8, cstr ''FPE''), (1, cstr ''HUP''), (4, cstr ''ILL''),
     (2, cstr ''INT''), (9, cstr ''KILL''), (13, cstr ''PIPE''), (3, cstr ''QUIT''), (11, cstr ''SEGV''), (15, cstr ''TERM''),
     (5, cstr ''TRAP''), (10, cstr ''USR1''), (12, cstr ''USR2'')]"

text \<open>\<^verbatim>\<open>termcodes[]\<close>, with the constants of Linux; the codes that are not defined there have no effect.\<close>

datatype termcode_type = TERMCODE_NONE | TERMCODE_CONTROL | TERMCODE_INPUT | TERMCODE_OUTPUT | TERMCODE_LOCAL | TERMCODE_CONTROLCHAR

definition termcodes :: "(u32 \<times> termcode_type) list" where
  "termcodes =
     (0, TERMCODE_NONE) #
     map (\<lambda>m. case m of Some v \<Rightarrow> (v, TERMCODE_CONTROLCHAR) | None \<Rightarrow> (0, TERMCODE_NONE))
       [Some 0, Some 1, Some 2, Some 3, Some 4, Some 11, Some 16, Some 8, Some 9, Some 10, None, Some 12, Some 14, Some 15, None, None,
        None, Some 13] @
     replicate 11 (0, TERMCODE_NONE) @
     map (\<lambda>v. (v, TERMCODE_INPUT)) [0x4, 0x8, 0x10, 0x20, 0x40, 0x80, 0x100, 0x200, 0x400, 0x800, 0x1000, 0x2000, 0x4000] @
     replicate 7 (0, TERMCODE_NONE) @
     map (\<lambda>v. (v, TERMCODE_LOCAL)) [0x1, 0x2, 0x4, 0x8, 0x10, 0x20, 0x40, 0x80, 0x100, 0x8000, 0x200, 0x800, 0x4000] @
     replicate 7 (0, TERMCODE_NONE) @
     map (\<lambda>v. (v, TERMCODE_OUTPUT)) [0x1, 0x2, 0x4, 0x8, 0x10, 0x20] @
     replicate 14 (0, TERMCODE_NONE) @
     map (\<lambda>v. (v, TERMCODE_CONTROL)) [0x20, 0x30, 0x100, 0x200]"

section \<open>Access to sessions\<close>

definition sess_at :: "u32 \<Rightarrow> sconn \<Rightarrow> ChanSess res" where
  "sess_at i c = rbind (chan_at i c) (\<lambda>ch. deref (typedata ch))"

definition upd_sess :: "u32 \<Rightarrow> (ChanSess \<Rightarrow> ChanSess) \<Rightarrow> sconn \<Rightarrow> sconn res" where
  "upd_sess i f c = rbind (sess_at i c) (\<lambda>cs. upd_chan i (\<lambda>ch. ch\<lparr>typedata := Some (f cs)\<rparr>) c)"

definition tick :: "'t conn \<Rightarrow> 't conn" where
  "tick c = c\<lparr>cn_calls := Suc (cn_calls c)\<rparr>"

abbreviation auth_of :: "'t conn \<Rightarrow> AuthState" where
  "auth_of c \<equiv> s_authstate (cn_ses c)"

abbreviation get_from :: "(buffer \<Rightarrow> ('a \<times> buffer) res) \<Rightarrow> 't conn \<Rightarrow> ('a \<times> 't conn) res" where
  "get_from f c \<equiv> on_ses_get (on_payload f) c"

section \<open>Exit of children\<close>

definition sesscheckclose :: "u32 \<Rightarrow> sconn \<Rightarrow> (bool \<times> sconn) res" where
  "sesscheckclose i c =
     rbind (sess_at i c) (\<lambda>cs.
     rbind (if exitpid (cs_exit cs) \<noteq> -1 then upd_chan i (\<lambda>ch. ch\<lparr>flushing := True\<rparr>) c else Inr c) (\<lambda>c.
     Inr (cs_pid cs = 0 \<or> exitpid (cs_exit cs) \<noteq> -1, c)))"

text \<open>The fields \<^verbatim>\<open>svr_chansess_checksignal\<close> sets.\<close>

definition set_exit :: "int \<Rightarrow> wait_status \<Rightarrow> exitinfo \<Rightarrow> exitinfo" where
  "set_exit pid status ex =
     (let ex = ex\<lparr>exitpid := pid\<rparr> in
      case status of
        Exited n \<Rightarrow> ex\<lparr>exitstatus := n, exitsignal := -1\<rparr>
      | Signaled n core \<Rightarrow> ex\<lparr>exitsignal := n, exitcore := core\<rparr>)"

definition record_exit :: "int \<times> wait_status \<Rightarrow> sconn \<Rightarrow> sconn res" where
  "record_exit = (\<lambda>(pid, status) c.
     case List.find (\<lambda>cp. child_pid cp = pid) (cn_childpids c) of
       Some cp \<Rightarrow> rbind (deref (child_chan cp)) (\<lambda>i. upd_sess i (\<lambda>cs. cs\<lparr>cs_exit := set_exit pid status (cs_exit cs)\<rparr>) c)
     | None \<Rightarrow> Inr (c\<lparr>cn_lastexit := set_exit pid status (cn_lastexit c)\<rparr>))"

fun record_exits :: "(int \<times> wait_status) list \<Rightarrow> sconn \<Rightarrow> sconn res" where
  "record_exits [] c = Inr c"
| "record_exits (w # ws) c = rbind (record_exit w c) (record_exits ws)"

definition svr_chansess_checksignal :: "(int \<times> wait_status) list \<Rightarrow> sconn \<Rightarrow> sconn res" where
  "svr_chansess_checksignal ws c =
     (if \<not> cn_signal_pending c then Inr c else record_exits (takeWhile (\<lambda>(pid, _). pid > 0) ws) c)"

definition send_msg_chansess_exitstatus :: "u32 \<Rightarrow> ChanSess \<Rightarrow> sconn \<Rightarrow> sconn res" where
  "send_msg_chansess_exitstatus i cs c =
     rbind (dassert (exitpid (cs_exit cs) \<noteq> -1) ''chansess->exit.exitpid != -1'') (\<lambda>_.
     rbind (dassert (exitsignal (cs_exit cs) = -1) ''chansess->exit.exitsignal == -1'') (\<lambda>_.
     rbind (chan_at i c) (\<lambda>ch.
     on_ses (send_fields [FByte 98, FInt (remotechan ch), FString (cstr ''exit-status''), FByte 0, FInt (word_of_int (exitstatus (cs_exit cs)))]) c)))"

definition send_msg_chansess_exitsignal :: "u32 \<Rightarrow> ChanSess \<Rightarrow> sconn \<Rightarrow> sconn res" where
  "send_msg_chansess_exitsignal i cs c =
     rbind (dassert (exitpid (cs_exit cs) \<noteq> -1) ''chansess->exit.exitpid != -1'') (\<lambda>_.
     rbind (dassert (exitsignal (cs_exit cs) > 0) ''chansess->exit.exitsignal > 0'') (\<lambda>_.
     case List.find (\<lambda>(sig, name). sig = exitsignal (cs_exit cs)) signames of
       None \<Rightarrow> Inr c
     | Some (sig, signame) \<Rightarrow>
         rbind (chan_at i c) (\<lambda>ch.
         on_ses (send_fields [FByte 98, FInt (remotechan ch), FString (cstr ''exit-signal''), FByte 0, FString signame,
           FByte (if exitcore (cs_exit cs) then 1 else 0), FString [], FString []]) c)))"

definition send_exitsignalstatus :: "u32 \<Rightarrow> sconn \<Rightarrow> sconn res" where
  "send_exitsignalstatus i c =
     rbind (sess_at i c) (\<lambda>cs.
     if exitpid (cs_exit cs) \<ge> 0 then
       if exitsignal (cs_exit cs) > 0 then send_msg_chansess_exitsignal i cs c else send_msg_chansess_exitstatus i cs c
     else Inr c)"

section \<open>Set up and clean up\<close>

text \<open>\<^verbatim>\<open>m_malloc\<close> clears the memory.\<close>

definition new_ChanSess :: ChanSess where
  "new_ChanSess = \<lparr>cs_cmd = None, cs_pid = 0, original_command = None, cs_master = -1, cs_slave = -1, cs_tty = None, cs_term = None,
     cs_exit = \<lparr>exitpid = -1, exitstatus = 0, exitsignal = 0, exitcore = False\<rparr>, connection_string = None, client_string = None\<rparr>"

definition newchansess :: "u32 \<Rightarrow> sconn \<Rightarrow> (u32 \<times> sconn) res" where
  "newchansess i c =
     rbind (chan_at i c) (\<lambda>ch.
     rbind (dassert (typedata ch = None) ''channel->typedata == NULL'') (\<lambda>_.
     rbind (upd_chan i (\<lambda>ch. ch\<lparr>typedata := Some new_ChanSess, chan_prio := DROPBEAR_PRIO_LOWDELAY\<rparr>) c) (\<lambda>c. Inr (0, c))))"

definition closechansess :: "u32 \<Rightarrow> sconn \<Rightarrow> sconn res" where
  "closechansess i c =
     rbind (chan_at i c) (\<lambda>ch. if typedata ch = None then Inr c else send_exitsignalstatus i c)"

definition clear_children :: "u32 \<Rightarrow> ChildPid list \<Rightarrow> ChildPid list res" where
  "clear_children i cps =
     rbind (dassert (\<forall>cp \<in> set cps. child_chan cp = Some i \<longrightarrow> child_pid cp > 0) ''svr_ses.childpids[i].pid > 0'') (\<lambda>_.
     Inr (map (\<lambda>cp. if child_chan cp = Some i then \<lparr>child_pid = -1, child_chan = None\<rparr> else cp) cps))"

definition cleanupchansess :: "u32 \<Rightarrow> sconn \<Rightarrow> sconn res" where
  "cleanupchansess i c =
     rbind (chan_at i c) (\<lambda>ch.
     if typedata ch = None then Inr c else
     rbind (clear_children i (cn_childpids c)) (\<lambda>cps.
     upd_chan i (\<lambda>ch. ch\<lparr>typedata := None\<rparr>) (c\<lparr>cn_childpids := cps\<rparr>)))"

definition svr_chansessinitialise :: "sconn \<Rightarrow> sconn" where
  "svr_chansessinitialise c =
     c\<lparr>cn_childpids := [\<lparr>child_pid = -1, child_chan = None\<rparr>], cn_lastexit := (cn_lastexit c)\<lparr>exitpid := -1\<rparr>\<rparr>"

section \<open>The child\<close>

text \<open>\<^verbatim>\<open>getenv\<close>, and \<^verbatim>\<open>putenv\<close> and \<^verbatim>\<open>setenv\<close>, which replace a variable that is set.\<close>

definition getenv :: "bytes \<Rightarrow> (bytes \<times> bytes) list \<Rightarrow> bytes option" where
  "getenv name env = map_of env name"

fun put_env :: "bytes \<Rightarrow> bytes \<Rightarrow> (bytes \<times> bytes) list \<Rightarrow> (bytes \<times> bytes) list" where
  "put_env name val [] = [(name, val)]"
| "put_env name val ((n, v) # env) = (if n = name then (n, val) # env else (n, v) # put_env name val env)"

definition addnewvar :: "bytes \<Rightarrow> bytes option \<Rightarrow> (bytes \<times> bytes) list \<Rightarrow> (bytes \<times> bytes) list res" where
  "addnewvar param var env = rbind (deref var) (\<lambda>v. Inr (put_env param v env))"

definition addoptvar :: "bytes \<Rightarrow> bytes option \<Rightarrow> (bytes \<times> bytes) list \<Rightarrow> (bytes \<times> bytes) list" where
  "addoptvar param var env = (case var of None \<Rightarrow> env | Some v \<Rightarrow> put_env param v env)"

definition get_user_shell :: "AuthState \<Rightarrow> bytes res" where
  "get_user_shell a = rbind (deref (pw_shell a)) (\<lambda>sh. Inr (if sh = [] then cstr ''/bin/sh'' else sh))"

text \<open>\<^verbatim>\<open>basename\<close>: slashes at the end do not count.\<close>

definition basename :: "bytes \<Rightarrow> bytes" where
  "basename path =
     (let p = dropWhile (\<lambda>b. b = 47) (rev path) in
      if path = [] then cstr ''.'' else if p = [] then cstr ''/'' else rev (takeWhile (\<lambda>b. b \<noteq> 47) p))"

text \<open>\<^verbatim>\<open>run_shell_command\<close> with \<^verbatim>\<open>run_command\<close>: \<open>None\<close> when the function returns without executing anything.\<close>

definition run_shell_command :: "ikofi \<Rightarrow> bytes option \<Rightarrow> bytes \<Rightarrow> (bytes \<times> bytes) list \<Rightarrow> bytes \<Rightarrow> exec_call option res" where
  "run_shell_command k cmd usershell env dir =
     (let run = (\<lambda>argv. Inr (Some \<lparr>ex_path = usershell, ex_argv = argv,
                   ex_env = fold (\<lambda>(n, v). put_env n v) (ikofi_set_env k) env, ex_dir = dir\<rparr>)) in
      case cmd of
        Some _ \<Rightarrow>
          rbind (ikofi_exe_to_lib k cmd) (\<lambda>cmd. rbind (deref cmd) (\<lambda>cmd. run [basename usershell, cstr ''-c'', cmd]))
      | None \<Rightarrow> if \<not> enable_service_shell_access k then Inr None else run [cstr ''-'' @ basename usershell])"

definition child_env :: "ChanSess \<Rightarrow> sconn \<Rightarrow> (bytes \<times> bytes) list res" where
  "child_env cs c =
     (let a = auth_of c in
      rbind (addnewvar (cstr ''USER'') (pw_name a) (if pass_on_env (cn_svr_opts c) then cn_environ c else [])) (\<lambda>env.
      rbind (addnewvar (cstr ''LOGNAME'') (pw_name a) env) (\<lambda>env.
      rbind (addnewvar (cstr ''HOME'') (pw_dir a) env) (\<lambda>env.
      rbind (get_user_shell a) (\<lambda>sh.
      let env = put_env (cstr ''SHELL'') sh env;
          env = put_env (cstr ''PATH'') (if cn_uid c = 0 then DEFAULT_ROOT_PATH else DEFAULT_PATH) env;
          env = addoptvar (cstr ''LANG'') (getenv (cstr ''LANG'') (cn_environ c)) env;
          env = addoptvar (cstr ''TERM'') (cs_term cs) env;
          env = addoptvar (cstr ''SSH_TTY'') (cs_tty cs) env;
          env = addoptvar (cstr ''SSH_CONNECTION'') (connection_string cs) env;
          env = addoptvar (cstr ''SSH_CLIENT'') (client_string cs) env;
          env = addoptvar (cstr ''SSH_ORIGINAL_COMMAND'') (original_command cs) env in
      Inr (case pubkey_options a of None \<Rightarrow> env | Some po \<Rightarrow> addoptvar (cstr ''SSH_PUBKEYINFO'') (info_env po) env))))))"

definition execchild :: "ChanSess \<Rightarrow> sconn \<Rightarrow> exec_call option" where
  "execchild cs c =
     (case rbind (child_env cs c) (\<lambda>env.
           rbind (deref (pw_dir (auth_of c))) (\<lambda>home.
           if \<not> cn_chdir c home \<and> \<not> cn_chdir c (cstr ''/'') then Inl (Dropbear_exit ''chdir failed'') else
           rbind (get_user_shell (auth_of c)) (\<lambda>usershell.
           run_shell_command (cn_ikofi c) (cs_cmd cs) usershell env (if cn_chdir c home then home else cstr ''/''))))
      of Inl e \<Rightarrow> None | Inr ex \<Rightarrow> ex)"

section \<open>Commands\<close>

definition addchildpid :: "u32 \<Rightarrow> int \<Rightarrow> ChildPid list \<Rightarrow> ChildPid list" where
  "addchildpid i pid cps =
     (let n = length (takeWhile (\<lambda>cp. child_pid cp \<noteq> -1) cps);
          cps = (if n = length cps then cps @ [\<lparr>child_pid = 0, child_chan = None\<rparr>] else cps) in
      cps[n := \<lparr>child_pid = pid, child_chan = Some i\<rparr>])"

text \<open>The exit of a child that came before its process id was in the table.\<close>

definition match_lastexit :: "sconn \<Rightarrow> sconn res" where
  "match_lastexit c =
     (if exitpid (cn_lastexit c) = -1 then Inr c else
      case List.find (\<lambda>cp. child_pid cp = exitpid (cn_lastexit c)) (cn_childpids c) of
        None \<Rightarrow> Inr c
      | Some cp \<Rightarrow>
          rbind (deref (child_chan cp)) (\<lambda>i.
          rbind (upd_sess i (\<lambda>cs. cs\<lparr>cs_exit := cn_lastexit c\<rparr>) c) (\<lambda>c.
          Inr (c\<lparr>cn_lastexit := (cn_lastexit c)\<lparr>exitpid := -1\<rparr>\<rparr>))))"

definition noptycommand :: "u32 \<Rightarrow> sconn \<Rightarrow> (bool \<times> sconn) res" where
  "noptycommand i c =
     rbind (sess_at i c) (\<lambda>cs.
     case cn_spawn c (cn_calls c) of
       None \<Rightarrow> Inr (False, tick c)
     | Some (wfd, rfd, efd, pid) \<Rightarrow>
         let c = emit (Ev_spawn (execchild cs c)) (tick c) in
         rbind (upd_sess i (\<lambda>cs. cs\<lparr>cs_pid := pid\<rparr>) c) (\<lambda>c.
         rbind (upd_chan i (\<lambda>ch. ch\<lparr>writefd := wfd, readfd := rfd, errfd := efd, bidir_fd := False\<rparr>) c) (\<lambda>c.
         let c = c\<lparr>cn_maxfd := max (max (max (cn_maxfd c) wfd) rfd) efd, cn_childpids := addchildpid i pid (cn_childpids c)\<rparr> in
         rbind (match_lastexit c) (\<lambda>c. Inr (True, c)))))"

definition ptycommand :: "u32 \<Rightarrow> sconn \<Rightarrow> (bool \<times> sconn) res" where
  "ptycommand i c =
     rbind (sess_at i c) (\<lambda>cs.
     if cs_master cs = -1 \<or> cs_tty cs = None then
       Inr (False, emit (Ev_log (cstr ''No pty was allocated, couldn't execute'')) c)
     else case cn_fork c (cn_calls c) of
       None \<Rightarrow> Inr (False, tick c)
     | Some pid \<Rightarrow>
         let c = emit (Ev_spawn (execchild cs c)) (tick c) in
         rbind (upd_sess i (\<lambda>cs. cs\<lparr>cs_pid := pid\<rparr>) c) (\<lambda>c.
         let c = emit (Ev_close (cs_slave cs)) (c\<lparr>cn_childpids := addchildpid i pid (cn_childpids c)\<rparr>) in
         rbind (upd_chan i (\<lambda>ch. ch\<lparr>writefd := cs_master cs, readfd := cs_master cs, bidir_fd := False\<rparr>) c) (\<lambda>c.
         Inr (True, c\<lparr>cn_maxfd := max (cn_maxfd c) (cs_master cs)\<rparr>))))"

definition expand_homedir_path_home :: "bytes \<Rightarrow> bytes option \<Rightarrow> bytes" where
  "expand_homedir_path_home inpath homedir =
     (case homedir of
        Some h \<Rightarrow> if has_prefix (cstr ''~/'') inpath
                  then take (length inpath - 2 + length h + 2 - 1) (h @ cstr ''/'' @ drop 2 inpath) else inpath
      | None \<Rightarrow> inpath)"

definition expand_homedir_path :: "sconn \<Rightarrow> bytes \<Rightarrow> bytes" where
  "expand_homedir_path c inpath =
     expand_homedir_path_home inpath (case getenv (cstr ''HOME'') (cn_environ c) of Some h \<Rightarrow> Some h | None \<Rightarrow> cn_pw_home c)"

definition make_connection_string :: "sconn \<Rightarrow> ChanSess \<Rightarrow> ChanSess" where
  "make_connection_string c cs =
     (let (local_ip, local_port, remote_ip, remote_port) = cn_addr c; sp = cstr '' '' in
      cs\<lparr>connection_string := Some (take (length local_ip + length remote_ip + 20 - 1)
           (remote_ip @ sp @ remote_port @ sp @ local_ip @ sp @ local_port)),
         client_string := Some (take (length remote_ip + 20 - 1) (remote_ip @ sp @ remote_port @ sp @ local_port))\<rparr>)"

definition force_command :: "bytes \<Rightarrow> ChanSess \<Rightarrow> ChanSess" where
  "force_command forced cs =
     cs\<lparr>original_command := Some (case cs_cmd cs of Some cmd \<Rightarrow> cmd | None \<Rightarrow> []), cs_cmd := Some forced\<rparr>"

definition svr_pubkey_set_forced_command :: "AuthState \<Rightarrow> ChanSess \<Rightarrow> ChanSess" where
  "svr_pubkey_set_forced_command a cs =
     (case pubkey_options a of
        None \<Rightarrow> cs
      | Some po \<Rightarrow> case forced_command po of None \<Rightarrow> cs | Some forced \<Rightarrow> force_command forced cs)"

text \<open>
  The command of an "exec" or "subsystem" request is read from the payload unless there is one; the flag says that
  it is acceptable.
\<close>

definition read_command :: "u32 \<Rightarrow> bool \<Rightarrow> sconn \<Rightarrow> (bool \<times> sconn) res" where
  "read_command i issubsys c =
     rbind (sess_at i c) (\<lambda>cs.
     rbind (case cs_cmd cs of
              Some _ \<Rightarrow> Inr (0, c)
            | None \<Rightarrow>
                rbind (get_from buf_getstring c) (\<lambda>(cmd, c).
                rbind (upd_sess i (\<lambda>cs. cs\<lparr>cs_cmd := Some (c_string cmd)\<rparr>) c) (\<lambda>c. Inr (length cmd, c)))) (\<lambda>(cmdlen, c).
     if cs_cmd cs = None \<and> cmdlen > MAX_CMD_LEN then
       rbind (upd_sess i (\<lambda>cs. cs\<lparr>cs_cmd := None\<rparr>) c) (\<lambda>c. Inr (False, c))
     else if \<not> issubsys then Inr (True, c)
     else
       rbind (sess_at i c) (\<lambda>cs.
       rbind (deref (cs_cmd cs)) (\<lambda>cmd.
       if cmdlen = 4 \<and> has_prefix (cstr ''sftp'') cmd then
         rbind (ikofi_exe_to_lib (cn_ikofi c) (Some (cstr ''sftp-server''))) (\<lambda>path.
         rbind (deref path) (\<lambda>path.
         rbind (upd_sess i (\<lambda>cs. cs\<lparr>cs_cmd := Some (expand_homedir_path c path)\<rparr>) c) (\<lambda>c. Inr (True, c))))
       else
         rbind (upd_sess i (\<lambda>cs. cs\<lparr>cs_cmd := None\<rparr>) c) (\<lambda>c. Inr (False, c))))))"

definition set_command :: "sconn \<Rightarrow> ChanSess \<Rightarrow> ChanSess" where
  "set_command c cs =
     (case svr_forced_command (cn_svr_opts c) of
        Some forced \<Rightarrow> force_command forced cs
      | None \<Rightarrow> svr_pubkey_set_forced_command (auth_of c) cs)"

definition start_command :: "u32 \<Rightarrow> sconn \<Rightarrow> (bool \<times> sconn) res" where
  "start_command i c =
     rbind (upd_sess i (\<lambda>cs. make_connection_string c (set_command c cs)) c) (\<lambda>c.
     rbind (sess_at i c) (\<lambda>cs.
     rbind (if cs_term cs = None then
              rbind (noptycommand i c) (\<lambda>(ret, c).
              if ret then rbind (upd_chan i (\<lambda>ch. ch\<lparr>chan_prio := DROPBEAR_PRIO_NORMAL\<rparr>) c) (\<lambda>c. Inr (True, update_channel_prio c))
              else Inr (False, c))
            else ptycommand i c) (\<lambda>(ret, c).
     rbind (upd_sess i (\<lambda>cs. cs\<lparr>connection_string := None, client_string := None\<rparr>) c) (\<lambda>c.
     rbind (if ret then Inr c else upd_sess i (\<lambda>cs. cs\<lparr>cs_cmd := None\<rparr>) c) (\<lambda>c.
     Inr (ret, c))))))"

definition sessioncommand :: "bool \<Rightarrow> bool \<Rightarrow> u32 \<Rightarrow> sconn \<Rightarrow> (bool \<times> sconn) res" where
  "sessioncommand iscmd issubsys i c =
     rbind (sess_at i c) (\<lambda>cs.
     if cs_pid cs \<noteq> 0 then Inr (False, c) else
     rbind (if iscmd then read_command i issubsys c else Inr (True, c)) (\<lambda>(ok, c).
     if \<not> ok then Inr (False, c) else start_command i c))"

section \<open>Signals and terminals\<close>

definition sessionsignal :: "u32 \<Rightarrow> sconn \<Rightarrow> (bool \<times> sconn) res" where
  "sessionsignal i c =
     rbind (sess_at i c) (\<lambda>cs.
     if cs_pid cs = 0 then Inr (False, c)
     else if svr_forced_command (cn_svr_opts c) \<noteq> None \<or> svr_pubkey_has_forced_command (auth_of c) then Inr (False, c)
     else
       rbind (get_from buf_getstring c) (\<lambda>(signame, c).
       case List.find (\<lambda>(sig, name). name = c_string signame) signames of
         None \<Rightarrow> Inr (False, c)
       | Some (sig, name) \<Rightarrow> Inr (cn_kill c (cn_calls c), emit (Ev_kill (cs_pid cs) sig) (tick c))))"

definition sessionwinchange :: "u32 \<Rightarrow> sconn \<Rightarrow> (bool \<times> sconn) res" where
  "sessionwinchange i c =
     rbind (sess_at i c) (\<lambda>cs.
     if cs_master cs < 0 then Inr (False, c) else
     rbind (get_from buf_getint c) (\<lambda>(termc, c).
     rbind (get_from buf_getint c) (\<lambda>(termr, c).
     rbind (get_from buf_getint c) (\<lambda>(termw, c).
     rbind (get_from buf_getint c) (\<lambda>(termh, c).
     Inr (True, emit (Ev_winsize (cs_master cs) termr termc termw termh) c))))))"

definition set_flag :: "u32 \<Rightarrow> u32 \<Rightarrow> u32 \<Rightarrow> u32" where
  "set_flag value mapcode flags = (if value \<noteq> 0 then flags OR mapcode else flags AND (NOT mapcode))"

definition apply_termcode :: "byte \<Rightarrow> u32 \<Rightarrow> termios \<Rightarrow> termios res" where
  "apply_termcode opcode val t =
     (if opcode > MAX_TERMCODE then Inr t else
      if unat opcode \<ge> length termcodes then Inl Fault else
      let (mapcode, type) = termcodes ! unat opcode in
      case type of
        TERMCODE_NONE \<Rightarrow> Inr t
      | TERMCODE_CONTROLCHAR \<Rightarrow>
          if unat mapcode < length (c_cc t) then Inr (t\<lparr>c_cc := (c_cc t)[unat mapcode := ucast val]\<rparr>) else Inl Fault
      | TERMCODE_INPUT \<Rightarrow> Inr (t\<lparr>c_iflag := set_flag val mapcode (c_iflag t)\<rparr>)
      | TERMCODE_OUTPUT \<Rightarrow> Inr (t\<lparr>c_oflag := set_flag val mapcode (c_oflag t)\<rparr>)
      | TERMCODE_LOCAL \<Rightarrow> Inr (t\<lparr>c_lflag := set_flag val mapcode (c_lflag t)\<rparr>)
      | TERMCODE_CONTROL \<Rightarrow> Inr (t\<lparr>c_cflag := set_flag val mapcode (c_cflag t)\<rparr>))"

fun termmodes_loop :: "nat \<Rightarrow> termios \<Rightarrow> buffer \<Rightarrow> (termios \<times> buffer) res" where
  "termmodes_loop 0 t b = Inl Diverge"
| "termmodes_loop (Suc fuel) t b =
     rbind (buf_getbyte b) (\<lambda>(opcode, b).
     if opcode = 0 \<or> opcode > 159 then Inr (t, b) else
     rbind (buf_getint b) (\<lambda>(val, b).
     rbind (apply_termcode opcode val t) (\<lambda>t.
     termmodes_loop fuel t b)))"

definition get_termmodes :: "u32 \<Rightarrow> sconn \<Rightarrow> sconn res" where
  "get_termmodes i c =
     rbind (sess_at i c) (\<lambda>cs.
     case cn_tcgetattr c (cn_calls c) of
       None \<Rightarrow> Inr (tick c)
     | Some t \<Rightarrow>
         rbind (get_from buf_getint (tick c)) (\<lambda>(len, c).
         rbind (deref (s_payload (cn_ses c))) (\<lambda>b.
         if len \<noteq> b_len b - b_pos b then Inl (Dropbear_exit ''Bad term mode string'')
         else if len = 0 then Inr c
         else
           rbind (get_from (termmodes_loop (Suc (unat (b_len b))) t) c) (\<lambda>(t, c).
           let ok = cn_tcsetattr c (cn_calls c); c = emit (Ev_termios (cs_master cs) t) (tick c) in
           Inr (if ok then c else emit (Ev_log (cstr ''Error setting terminal attributes'')) c)))))"

definition sessionpty :: "u32 \<Rightarrow> sconn \<Rightarrow> (bool \<times> sconn) res" where
  "sessionpty i c =
     rbind (sess_at i c) (\<lambda>cs.
     if \<not> svr_pubkey_allows_pty (auth_of c) then Inr (False, c) else
     rbind (get_from buf_getstring c) (\<lambda>(term, c).
     rbind (upd_sess i (\<lambda>cs. cs\<lparr>cs_term := Some (c_string term)\<rparr>) c) (\<lambda>c.
     if length term > MAX_TERM_LEN then Inr (False, c)
     else if cs_master cs \<noteq> -1 then Inl (Dropbear_exit ''Multiple pty requests'')
     else case cn_pty c (cn_calls c) of
       None \<Rightarrow> Inr (False, tick c)
     | Some (master, slave, name) \<Rightarrow>
         rbind (upd_sess i (\<lambda>cs. cs\<lparr>cs_master := master, cs_slave := slave, cs_tty := Some name\<rparr>) (tick c)) (\<lambda>c.
         rbind (sessionwinchange i c) (\<lambda>(_, c).
         rbind (get_termmodes i c) (\<lambda>c.
         Inr (True, c)))))))"

section \<open>Requests\<close>

definition session_request :: "bytes \<Rightarrow> u32 \<Rightarrow> sconn \<Rightarrow> (bool \<times> sconn) res" where
  "session_request type i c =
     (if type = cstr ''window-change'' then sessionwinchange i c
      else if type = cstr ''shell'' then sessioncommand False False i c
      else if type = cstr ''pty-req'' then sessionpty i c
      else if type = cstr ''exec'' then sessioncommand True False i c
      else if type = cstr ''subsystem'' then sessioncommand True True i c
      else if type = cstr ''signal'' then sessionsignal i c
      else Inr (False, c))"

definition chansessionrequest :: "u32 \<Rightarrow> sconn \<Rightarrow> sconn res" where
  "chansessionrequest i c =
     rbind (get_from buf_getstring c) (\<lambda>(type, c).
     rbind (get_from buf_getbool c) (\<lambda>(wantreply, c).
     rbind (if length type > MAX_NAME_LEN then Inr (False, c) else
            rbind (chan_at i c) (\<lambda>ch.
            rbind (dassert (typedata ch \<noteq> None) ''chansess != NULL'') (\<lambda>_.
            session_request (c_string type) i c))) (\<lambda>(ok, c).
     if \<not> wantreply then Inr c else if ok then send_msg_channel_success i c else send_msg_channel_failure i c)))"

definition svrchansess :: "ChanSess ChanType" where
  "svrchansess = \<lparr>inithandler = Some newchansess, checkclose = Some sesscheckclose, reqhandler = Some chansessionrequest,
     closehandler = Some closechansess, cleanup = Some cleanupchansess\<rparr>"

end
