(* ===== verification/Forward.thy ===== *)
theory Forward
  imports Channel
begin

text \<open>
  Forwarding of connections: the table of listeners (\<^verbatim>\<open>listener.c\<close>), accepting connections for the peer
  (\<^verbatim>\<open>tcp-accept.c\<close>), requests to listen on a port or a Unix socket and channels that connect out
  (\<^verbatim>\<open>svr-tcpfwd.c\<close>, \<^verbatim>\<open>svr-streamfwd.c\<close>) and global requests (\<^verbatim>\<open>svr-forward.c\<close>). Creating sockets is outside;
  connecting out is an event, its outcome comes back through \<open>channel_connect_done\<close>. Freeing memory is not modelled,
  except where the pointer to free is read through a null pointer.
\<close>

abbreviation (input) "MAX_HOST_LEN \<equiv> 254 :: nat"
abbreviation (input) "SUN_PATH_LEN \<equiv> 108 :: nat"
abbreviation (input) "MAX_LISTENERS \<equiv> 20 :: u32"
abbreviation (input) "LISTENER_TYPE_TCPFORWARDED \<equiv> 1 :: u32"
abbreviation (input) "LISTENER_TYPE_STREAMFORWARDED \<equiv> 2 :: u32"
abbreviation (input) "CHANNEL_ID_STREAMLOCALFORWARDED \<equiv> 0x53747265 :: u32"
abbreviation (input) "SSH_OPEN_ADMINISTRATIVELY_PROHIBITED \<equiv> 1 :: u32"
abbreviation (input) "IPPORT_RESERVED \<equiv> 1024 :: u32"

section \<open>The table of listeners\<close>

definition listeners_initialise :: "'t conn \<Rightarrow> 't conn" where
  "listeners_initialise c = c\<lparr>cn_listeners := [None], cn_listensize := 1\<rparr>"

definition set_listener_fds :: "'t conn \<Rightarrow> int list" where
  "set_listener_fds c = concat (map li_socks (List.map_filter id (cn_listeners c)))"

fun close_all :: "int list \<Rightarrow> 't conn \<Rightarrow> 't conn" where
  "close_all [] c = c"
| "close_all (s # ss) c = close_all ss (emit (Ev_close s) c)"

definition new_listener :: "int list \<Rightarrow> u32 \<Rightarrow> FwdListener \<Rightarrow> listener_kind \<Rightarrow> 't conn \<Rightarrow> Listener option \<times> 't conn" where
  "new_listener socks type info kind c =
     (let i = of_nat (first_free (cn_listeners c)) in
      if i = cn_listensize c \<and> cn_listensize c > MAX_LISTENERS then (None, close_all socks c) else
      let c = (if i = cn_listensize c then c\<lparr>cn_listeners := cn_listeners c @ [None], cn_listensize := cn_listensize c + 1\<rparr> else c);
          c = c\<lparr>cn_maxfd := fold max socks (cn_maxfd c)\<rparr>;
          newlisten = \<lparr>li_socks = socks, li_index = i, li_kind = kind, li_type = type, li_typedata = info\<rparr> in
      (Some newlisten, c\<lparr>cn_listeners := (cn_listeners c)[unat i := Some newlisten]\<rparr>))"

fun find_listener :: "u32 \<Rightarrow> FwdListener \<Rightarrow> (FwdListener \<Rightarrow> FwdListener \<Rightarrow> bool res) \<Rightarrow> Listener option list \<Rightarrow> Listener option res" where
  "find_listener type info match [] = Inr None"
| "find_listener type info match (None # ls) = find_listener type info match ls"
| "find_listener type info match (Some l # ls) =
     (if li_type l \<noteq> type then find_listener type info match ls
      else rbind (match info (li_typedata l)) (\<lambda>found. if found then Inr (Some l) else find_listener type info match ls))"

definition get_listener :: "u32 \<Rightarrow> FwdListener \<Rightarrow> (FwdListener \<Rightarrow> FwdListener \<Rightarrow> bool res) \<Rightarrow> 't conn \<Rightarrow> Listener option res" where
  "get_listener type info match c = find_listener type info match (cn_listeners c)"

text \<open>\<^verbatim>\<open>cleanup_tcp\<close> only frees memory; the other cleanup removes the socket's file.\<close>

definition cleanup_streamlocal :: "Listener \<Rightarrow> 't conn \<Rightarrow> 't conn" where
  "cleanup_streamlocal l c = (case socket_path (li_typedata l) of Some path \<Rightarrow> emit (Ev_unlink path) c | None \<Rightarrow> c)"

definition remove_listener :: "Listener \<Rightarrow> 't conn \<Rightarrow> 't conn" where
  "remove_listener l c =
     (let c = (case li_kind l of Tcp_listener \<Rightarrow> c | Stream_listener \<Rightarrow> cleanup_streamlocal l c);
          c = close_all (li_socks l) c in
      c\<lparr>cn_listeners := (cn_listeners c)[unat (li_index l) := None]\<rparr>)"

fun remove_listeners :: "nat list \<Rightarrow> 't conn \<Rightarrow> 't conn" where
  "remove_listeners [] c = c"
| "remove_listeners (i # is) c =
     remove_listeners is (case (if i < length (cn_listeners c) then cn_listeners c ! i else None) of None \<Rightarrow> c | Some l \<Rightarrow> remove_listener l c)"

definition remove_all_listeners :: "'t conn \<Rightarrow> 't conn" where
  "remove_all_listeners c = (remove_listeners [0..<unat (cn_listensize c)] c)\<lparr>cn_listeners := []\<rparr>"

section \<open>Accepting\<close>

text \<open>The channel for an accepted connection, with the fields its type adds to the message.\<close>

definition accepted :: "int \<Rightarrow> bytes \<Rightarrow> field list \<Rightarrow> 't conn \<Rightarrow> 't conn res" where
  "accepted fd chantype fs c =
     rbind (send_msg_channel_open_init fd chantype c) (\<lambda>(ok, c).
     if ok then on_ses (send_fields fs) c else Inr (emit (Ev_close fd) c))"

definition tcp_acceptor :: "Listener \<Rightarrow> 't conn \<Rightarrow> 't conn res" where
  "tcp_acceptor l c =
     (case cn_accept c (cn_calls c) of
        None \<Rightarrow> Inr (c\<lparr>cn_calls := Suc (cn_calls c)\<rparr>)
      | Some (fd, None) \<Rightarrow> Inr (m_close fd (c\<lparr>cn_calls := Suc (cn_calls c)\<rparr>))
      | Some (fd, Some (ip, port)) \<Rightarrow>
          let info = li_typedata l;
              (addr, aport) = (if fwd_forwarded info then (request_listenaddr info, listenport info) else (sendaddr info, sendport info)) in
          accepted fd (fwd_chantype info)
            [FString (case addr of None \<Rightarrow> cstr ''localhost'' | Some a \<Rightarrow> a), FInt aport, FString ip, FInt port]
            (c\<lparr>cn_calls := Suc (cn_calls c)\<rparr>))"

definition streamlocal_acceptor :: "Listener \<Rightarrow> 't conn \<Rightarrow> 't conn res" where
  "streamlocal_acceptor l c =
     (case cn_accept c (cn_calls c) of
        None \<Rightarrow> Inr (c\<lparr>cn_calls := Suc (cn_calls c)\<rparr>)
      | Some (fd, _) \<Rightarrow>
          rbind (deref (request_listenaddr (li_typedata l))) (\<lambda>path.
          accepted fd (fwd_chantype (li_typedata l)) [FString path, FString []] (c\<lparr>cn_calls := Suc (cn_calls c)\<rparr>)))"

definition acceptor :: "Listener \<Rightarrow> 't conn \<Rightarrow> 't conn res" where
  "acceptor l c = (case li_kind l of Tcp_listener \<Rightarrow> tcp_acceptor l c | Stream_listener \<Rightarrow> streamlocal_acceptor l c)"

fun accept_socks :: "(int \<Rightarrow> bool) \<Rightarrow> Listener \<Rightarrow> int list \<Rightarrow> 't conn \<Rightarrow> 't conn res" where
  "accept_socks readfds l [] c = Inr c"
| "accept_socks readfds l (s # ss) c =
     rbind (if readfds s then acceptor l c else Inr c) (accept_socks readfds l ss)"

fun accept_loop :: "(int \<Rightarrow> bool) \<Rightarrow> nat list \<Rightarrow> 't conn \<Rightarrow> 't conn res" where
  "accept_loop readfds [] c = Inr c"
| "accept_loop readfds (i # is) c =
     rbind (if i \<ge> length (cn_listeners c) then Inl Fault
            else case cn_listeners c ! i of None \<Rightarrow> Inr c | Some l \<Rightarrow> accept_socks readfds l (li_socks l) c)
       (accept_loop readfds is)"

definition handle_listeners :: "(int \<Rightarrow> bool) \<Rightarrow> 't conn \<Rightarrow> 't conn res" where
  "handle_listeners readfds c = accept_loop readfds [0..<unat (cn_listensize c)] c"

section \<open>TCP\<close>

definition listen_tcpfwd :: "FwdListener \<Rightarrow> 't conn \<Rightarrow> Listener option \<times> 't conn" where
  "listen_tcpfwd info c =
     (case cn_listen c (cn_calls c) of
        None \<Rightarrow> (None, emit (Ev_log (cstr ''TCP forward failed'')) (c\<lparr>cn_calls := Suc (cn_calls c)\<rparr>))
      | Some socks \<Rightarrow> new_listener socks LISTENER_TYPE_TCPFORWARDED info Tcp_listener (c\<lparr>cn_calls := Suc (cn_calls c)\<rparr>))"

definition matchtcp :: "FwdListener \<Rightarrow> FwdListener \<Rightarrow> bool res" where
  "matchtcp info1 info2 =
     (if listenport info1 \<noteq> listenport info2 then Inr False else
      rbind (deref (request_listenaddr info1)) (\<lambda>a1. rbind (deref (request_listenaddr info2)) (\<lambda>a2. Inr (a1 = a2))))"

definition no_FwdListener :: FwdListener where
  "no_FwdListener = \<lparr>sendaddr = None, sendport = 0, listenaddr = None, listenport = 0, request_listenaddr = None, fwd_interface = None,
     fwd_chantype = [], fwd_forwarded = False, socket_path = None\<rparr>"

definition cancel_listener :: "Listener option \<Rightarrow> 't conn \<Rightarrow> bool \<times> 't conn" where
  "cancel_listener l c = (case l of None \<Rightarrow> (False, c) | Some l \<Rightarrow> (True, remove_listener l c))"

definition svr_cancelremotetcp :: "'t conn \<Rightarrow> (bool \<times> 't conn) res" where
  "svr_cancelremotetcp c =
     rbind (on_ses_get (on_payload buf_getstring) c) (\<lambda>(addr, c).
     if length addr > MAX_HOST_LEN then Inr (False, c) else
     rbind (on_ses_get (on_payload buf_getint) c) (\<lambda>(port, c).
     rbind (get_listener LISTENER_TYPE_TCPFORWARDED
              (no_FwdListener\<lparr>request_listenaddr := Some (c_string addr), listenport := port\<rparr>) matchtcp c) (\<lambda>l.
     Inr (cancel_listener l c))))"

definition remote_port_ok :: "'t conn \<Rightarrow> u32 \<Rightarrow> bool" where
  "remote_port_ok c port \<longleftrightarrow>
     port = 0 \<or> 1 \<le> port \<and> port \<le> 65535 \<and> (s_allowprivport (cn_ses c) \<or> port \<ge> IPPORT_RESERVED)"

definition remote_tcpinfo :: "'t conn \<Rightarrow> bytes \<Rightarrow> u32 \<Rightarrow> FwdListener" where
  "remote_tcpinfo c addr port = no_FwdListener\<lparr>listenport := port, fwd_chantype := cstr ''forwarded-tcpip'', fwd_forwarded := True,
     fwd_interface := svr_interface (cn_svr_opts c), request_listenaddr := Some addr,
     listenaddr := (if \<not> listen_fwd_all (cn_opts c) \<or> addr = cstr ''localhost'' then None else Some addr)\<rparr>"

text \<open>Listening; on success the result is the port that was bound, which the listener keeps.\<close>

definition start_tcpfwd :: "FwdListener \<Rightarrow> 't conn \<Rightarrow> (u32 option \<times> 't conn) res" where
  "start_tcpfwd info c =
     (case listen_tcpfwd info c of
        (None, c) \<Rightarrow> Inr (None, c)
      | (Some l, c) \<Rightarrow>
          if li_socks l = [] then Inl Fault else
          let port = cn_sock_port c (hd (li_socks l)) in
          Inr (Some port, c\<lparr>cn_listeners := (cn_listeners c)[unat (li_index l) := Some (l\<lparr>li_typedata := info\<lparr>listenport := port\<rparr>\<rparr>)]\<rparr>))"

definition svr_remotetcpreq :: "bool \<Rightarrow> 't conn \<Rightarrow> (bool \<times> 't conn) res" where
  "svr_remotetcpreq wantreply c =
     rbind (on_ses_get (on_payload buf_getstring) c) (\<lambda>(addr, c).
     rbind (if length addr > MAX_HOST_LEN then Inr ((0, None), c) else
            rbind (on_ses_get (on_payload buf_getint) c) (\<lambda>(port, c).
            if \<not> remote_port_ok c port \<or> \<not> svr_pubkey_allows_remote_tcpfwd (s_authstate (cn_ses c)) (c_string addr) port
            then Inr ((port, None), c)
            else rbind (start_tcpfwd (remote_tcpinfo c (c_string addr) port) c) (\<lambda>(bound, c). Inr ((port, bound), c)))) (\<lambda>((port, bound), c).
     rbind (if \<not> wantreply then Inr c else
            case bound of
              Some p \<Rightarrow> on_ses (send_fields (FByte 81 # (if port = 0 then [FInt p] else []))) c
            | None \<Rightarrow> on_ses (send_fields [FByte 82]) c) (\<lambda>c.
     Inr (bound \<noteq> None, c))))"

definition newtcpdirect :: "u32 \<Rightarrow> 't conn \<Rightarrow> (u32 \<times> 't conn) res" where
  "newtcpdirect i c =
     (if nolocaltcp (cn_svr_opts c) \<or> \<not> svr_pubkey_allows_tcpfwd (s_authstate (cn_ses c))
      then Inr (SSH_OPEN_ADMINISTRATIVELY_PROHIBITED, c) else
      rbind (on_ses_get (on_payload buf_getstring) c) (\<lambda>(desthost, c).
      if length desthost > MAX_HOST_LEN then Inr (SSH_OPEN_ADMINISTRATIVELY_PROHIBITED, c) else
      rbind (on_ses_get (on_payload buf_getint) c) (\<lambda>(destport, c).
      rbind (on_ses_get (on_payload buf_getstring) c) (\<lambda>(orighost, c).
      if length orighost > MAX_HOST_LEN then Inr (SSH_OPEN_ADMINISTRATIVELY_PROHIBITED, c) else
      rbind (on_ses_get (on_payload buf_getint) c) (\<lambda>(origport, c).
      if origport > 65535 \<or> destport > 65535 then Inr (SSH_OPEN_ADMINISTRATIVELY_PROHIBITED, c) else
      rbind (svr_pubkey_allows_local_tcpfwd (s_authstate (cn_ses c)) (c_string desthost) destport) (\<lambda>allowed.
      if \<not> allowed then Inr (SSH_OPEN_ADMINISTRATIVELY_PROHIBITED, c) else
      rbind (upd_chan i (\<lambda>ch. ch\<lparr>conn_pending := True\<rparr>) (emit (Ev_connect i (c_string desthost) (Some destport)) c)) (\<lambda>c.
      Inr (SSH_OPEN_IN_PROGRESS, c))))))))"

section \<open>Unix sockets\<close>

definition matchstreamlocal :: "FwdListener \<Rightarrow> FwdListener \<Rightarrow> bool res" where
  "matchstreamlocal info1 info2 =
     (case (socket_path info1, socket_path info2) of
        (Some p1, Some p2) \<Rightarrow> Inr (fwd_chantype info1 = fwd_chantype info2 \<and> p1 = p2)
      | _ \<Rightarrow> Inr False)"

definition svr_cancelremotestreamlocal :: "'t conn \<Rightarrow> (bool \<times> 't conn) res" where
  "svr_cancelremotestreamlocal c =
     rbind (on_ses_get (on_payload buf_getstring) c) (\<lambda>(path, c).
     if length path > MAX_HOST_LEN \<or> length (c_string path) \<noteq> length path then Inr (False, c) else
     rbind (get_listener CHANNEL_ID_STREAMLOCALFORWARDED
              (no_FwdListener\<lparr>socket_path := Some path, fwd_chantype := cstr ''forwarded-streamlocal@openssh.com''\<rparr>) matchstreamlocal c) (\<lambda>l.
     Inr (cancel_listener l c)))"

definition listen_streamlocal :: "FwdListener \<Rightarrow> 't conn \<Rightarrow> bool \<times> 't conn" where
  "listen_streamlocal info c =
     (case socket_path info of
        None \<Rightarrow> (False, c)
      | Some path \<Rightarrow>
          if length path \<ge> SUN_PATH_LEN then (False, emit (Ev_log (cstr ''Streamlocal forward failed: socket path too long'')) c) else
          let r = cn_unix c (cn_calls c); c = c\<lparr>cn_calls := Suc (cn_calls c)\<rparr> in
          case r of
            No_socket \<Rightarrow> (False, emit (Ev_log (cstr ''Streamlocal forward failed: socket() failed'')) c)
          | No_bind sock \<Rightarrow>
              (False, m_close sock (emit (Ev_log (cstr ''Streamlocal forward failed: bind() failed'')) (emit (Ev_unlink path) c)))
          | No_listen sock \<Rightarrow>
              (False, m_close sock (emit (Ev_unlink path) (emit (Ev_log (cstr ''Streamlocal forward failed: listen() failed'')) (emit (Ev_unlink path) c))))
          | Listening sock \<Rightarrow>
              (case new_listener [sock] LISTENER_TYPE_STREAMFORWARDED info Stream_listener (emit (Ev_unlink path) c) of
                 (None, c) \<Rightarrow> (False, m_close sock (emit (Ev_unlink path) c))
               | (Some l, c) \<Rightarrow> (True, c)))"

definition stream_info :: "bytes \<Rightarrow> FwdListener" where
  "stream_info path = no_FwdListener\<lparr>fwd_chantype := cstr ''forwarded-streamlocal@openssh.com'', fwd_forwarded := True,
     socket_path := Some path, request_listenaddr := Some path\<rparr>"

text \<open>
  At the label \<^verbatim>\<open>out\<close>, a failure frees \<^verbatim>\<open>tcpinfo->socket_path\<close>. Every jump to it comes before \<^verbatim>\<open>tcpinfo\<close> is
  allocated, so that \<^verbatim>\<open>tcpinfo\<close> is still null then.
\<close>

definition out_failure :: "FwdListener option \<Rightarrow> 't conn \<Rightarrow> (bool \<times> 't conn) res" where
  "out_failure tcpinfo c = rbind (deref tcpinfo) (\<lambda>_. Inr (False, c))"

definition svr_remotestreamlocalreq :: "'t conn \<Rightarrow> (bool \<times> 't conn) res" where
  "svr_remotestreamlocalreq c =
     (if svr_forced_command (cn_svr_opts c) \<noteq> None \<or> svr_pubkey_has_forced_command (s_authstate (cn_ses c)) then out_failure None c
      else if noremotefwd (cn_svr_opts c) \<or> \<not> svr_pubkey_allows_tcpfwd (s_authstate (cn_ses c)) then out_failure None c
      else
        rbind (on_ses_get (on_payload buf_getstring) c) (\<lambda>(path, c).
        if length path > MAX_HOST_LEN then out_failure None c
        else if length (c_string path) \<noteq> length path then out_failure None c
        else
          let (ok, c) = listen_streamlocal (stream_info path) c in
          if ok then Inr (True, c) else out_failure (Some (stream_info path)) c))"

definition newstreamlocal :: "u32 \<Rightarrow> 't conn \<Rightarrow> (u32 \<times> 't conn) res" where
  "newstreamlocal i c =
     (if svr_forced_command (cn_svr_opts c) \<noteq> None \<or> svr_pubkey_has_forced_command (s_authstate (cn_ses c))
      then Inr (SSH_OPEN_ADMINISTRATIVELY_PROHIBITED, c)
      else if nolocaltcp (cn_svr_opts c) \<or> \<not> svr_pubkey_allows_tcpfwd (s_authstate (cn_ses c))
      then Inr (SSH_OPEN_ADMINISTRATIVELY_PROHIBITED, c)
      else
        rbind (on_ses_get (on_payload buf_getstring) c) (\<lambda>(destsocket, c).
        if length destsocket > MAX_HOST_LEN then Inr (SSH_OPEN_ADMINISTRATIVELY_PROHIBITED, c) else
        rbind (upd_chan i (\<lambda>ch. ch\<lparr>conn_pending := True\<rparr>) (emit (Ev_connect i (c_string destsocket) None) c)) (\<lambda>c.
        Inr (SSH_OPEN_IN_PROGRESS, c))))"

section \<open>Global requests\<close>

text \<open>The request, and whether the reply is still to be sent.\<close>

definition global_request :: "bytes \<Rightarrow> bool \<Rightarrow> 't conn \<Rightarrow> ((bool \<times> bool) \<times> 't conn) res" where
  "global_request reqname wantreply c =
     (if c_string reqname = cstr ''tcpip-forward'' then
        rbind (svr_remotetcpreq wantreply c) (\<lambda>(ret, c). Inr ((ret, False), c))
      else if c_string reqname = cstr ''cancel-tcpip-forward'' then
        rbind (svr_cancelremotetcp c) (\<lambda>(ret, c). Inr ((ret, wantreply), c))
      else if c_string reqname = cstr ''streamlocal-forward@openssh.com'' then
        rbind (svr_remotestreamlocalreq c) (\<lambda>(ret, c). Inr ((ret, wantreply), c))
      else if c_string reqname = cstr ''cancel-streamlocal-forward@openssh.com'' then
        rbind (svr_cancelremotestreamlocal c) (\<lambda>(ret, c). Inr ((ret, wantreply), c))
      else Inr ((False, wantreply), c))"

definition svr_recv_msg_global_request :: "'t conn \<Rightarrow> 't conn res" where
  "svr_recv_msg_global_request c =
     rbind (on_ses_get (on_payload buf_getstring) c) (\<lambda>(reqname, c).
     rbind (on_ses_get (on_payload buf_getbool) c) (\<lambda>(wantreply, c).
     rbind (if noremotefwd (cn_svr_opts c) \<or> \<not> svr_pubkey_allows_tcpfwd (s_authstate (cn_ses c)) \<or> length reqname > 64
            then Inr ((False, wantreply), c) else global_request reqname wantreply c) (\<lambda>((ret, wantreply), c).
     if \<not> wantreply then Inr c else if ret then send_msg_request_success c else send_msg_request_failure c)))"

end
