(* ===== verification/Channel_Data.thy ===== *)
theory Channel_Data
  imports Channel
begin

unbundle bit_operations_syntax

text \<open>
  The flow of data through a channel: the invariant of its windows and buffers, under which the
  assertions of \<^verbatim>\<open>writechannel\<close> hold, and the conservation of the received bytes.
\<close>

section \<open>Access to channels\<close>

lemma chan_at_eq: "chan_at i c = Inr ch \<longleftrightarrow> unat i < length (cn_channels c) \<and> cn_channels c ! unat i = Some ch"
  by (simp add: chan_at_def deref_eq_Inr)

lemma chan_at_cong: "cn_channels c' = cn_channels c \<Longrightarrow> chan_at i c' = chan_at i c"
  by (simp add: chan_at_def)

lemma chan_at_frame [simp]:
  "chan_at i (emit e c) = chan_at i c" "chan_at i (c\<lparr>cn_calls := n\<rparr>) = chan_at i c" "chan_at i (c\<lparr>cn_ses := s\<rparr>) = chan_at i c"
  "chan_at i (m_close fd c) = chan_at i c"
  by (simp_all add: chan_at_def emit_def m_close_def)

lemma chan_at_set [simp]: "unat i < length (cn_channels c) \<Longrightarrow> chan_at i (set_chan i (Some ch) c) = Inr ch"
  by (simp add: chan_at_def set_chan_def)

lemma set_chan_sel [simp]:
  "cn_channels (set_chan i x c) = (cn_channels c)[unat i := x]" "cn_ses (set_chan i x c) = cn_ses c" "cn_opts (set_chan i x c) = cn_opts c"
  "cn_trace (set_chan i x c) = cn_trace c" "cn_chansize (set_chan i x c) = cn_chansize c" "cn_chancount (set_chan i x c) = cn_chancount c"
  "cn_chantypes (set_chan i x c) = cn_chantypes c" "cn_write (set_chan i x c) = cn_write c" "cn_calls (set_chan i x c) = cn_calls c"
  by (simp_all add: set_chan_def)

lemma upd_chan_at: "chan_at i c = Inr ch \<Longrightarrow> upd_chan i f c = Inr (set_chan i (Some (f ch)) c)"
  by (simp add: upd_chan_def)

lemma emit_conn [simp]:
  "cn_channels (emit e c) = cn_channels c" "cn_ses (emit e c) = cn_ses c" "cn_opts (emit e c) = cn_opts c"
  "cn_trace (emit e c) = cn_trace c @ [e]" "cn_chansize (emit e c) = cn_chansize c" "cn_chancount (emit e c) = cn_chancount c"
  "cn_chantypes (emit e c) = cn_chantypes c" "cn_write (emit e c) = cn_write c" "cn_calls (emit e c) = cn_calls c"
  by (simp_all add: emit_def)

lemma m_close_conn [simp]:
  "cn_channels (m_close fd c) = cn_channels c" "cn_ses (m_close fd c) = cn_ses c" "cn_opts (m_close fd c) = cn_opts c"
  "cn_chansize (m_close fd c) = cn_chansize c" "cn_chancount (m_close fd c) = cn_chancount c" "cn_chantypes (m_close fd c) = cn_chantypes c"
  by (simp_all add: m_close_def)

text \<open>What no channel operation on data changes in the connection.\<close>

definition chan_setup :: "'t conn \<Rightarrow> runopts \<times> u32 \<times> u32 \<times> bytes list" where
  "chan_setup c = (cn_opts c, cn_chansize c, cn_chancount c, cn_chantypes c)"

lemma chan_setup_frame [simp]:
  "chan_setup (emit e c) = chan_setup c" "chan_setup (c\<lparr>cn_calls := n\<rparr>) = chan_setup c" "chan_setup (c\<lparr>cn_ses := s\<rparr>) = chan_setup c" "chan_setup (m_close fd c) = chan_setup c"
  "chan_setup (set_chan i x c) = chan_setup c"
  by (simp_all add: chan_setup_def)

lemma chan_setup_opts: "chan_setup c = chan_setup c' \<Longrightarrow> cn_opts c = cn_opts c'"
  by (simp add: chan_setup_def)

section \<open>Storing received data\<close>

lemma store_loop_ok:
  assumes "cbuf_wf cb" "unat len \<le> cbuf_room cb" "buf_wf pl" "unat len \<le> length (buf_rest pl)"
  shows "\<exists>cb'. store_loop len cb pl = Inr (cb', buf_skip pl (unat len)) \<and> cbuf_wf cb' \<and> c_size cb' = c_size cb \<and>
    cbuf_list cb' = cbuf_list cb @ take (unat len) (buf_rest pl) \<and> unat (c_used cb') = unat (c_used cb) + unat len"
  using assms
proof (induction "unat len" arbitrary: len cb pl rule: less_induct)
  case less
  show ?case
  proof (cases "len = 0")
    case True
    then show ?thesis using less.prems by (subst store_loop.simps) (simp add: buf_skip_def)
  next
    case False
    let ?room = "of_nat (cbuf_linear cb) :: u32"
    note b = cbuf_linear_bounds [OF less.prems(1)]
    have room: "unat ?room = cbuf_linear cb" using b by (simp add: u32_simps)
    have "0 < unat len" using False by (simp add: unat_gt_0)
    then have "unat (c_used cb) < unat (c_size cb)" using less.prems(2) by (simp add: cbuf_room_def)
    then have pos: "0 < cbuf_linear cb"
      using linear_room_pos [of "unat (c_readpos cb)"] less.prems(1) by (simp add: cbuf_wf_def)
    define n where "n = min ?room len"
    have un: "unat n = min (cbuf_linear cb) (unat len)" by (simp add: n_def unat_min_u32 room)
    have n0: "n \<noteq> 0" "unat n \<le> unat len" "0 < unat n" using un pos \<open>0 < unat len\<close> by (auto simp: unat_gt_0 [symmetric] simp del: unat_gt_0)
    let ?bs = "take (unat n) (buf_rest pl)"
    have lb: "length ?bs = unat n" using less.prems(4) n0 by simp
    have fit: "length ?bs \<le> cbuf_linear cb" using lb un by simp
    let ?cb = "cbuf_stored cb ?bs"
    have used: "unat (c_used ?cb) = unat (c_used cb) + unat n" using cbuf_stored_used [OF less.prems(1) fit] lb by simp
    have len': "unat (len - n) = unat len - unat n" using n0 by (simp add: unat_minus_u32 word_le_nat_alt)
    have skip: "n \<le> len" using n0 by (simp add: word_le_nat_alt)
    have step: "store_loop len cb pl = store_loop (len - n) ?cb (buf_skip pl (unat n))"
      using False n0 lb fit less.prems
      by (subst store_loop.simps)
        (simp add: cbuf_writelen_eq n_def [symmetric] buf_peek_rest cbuf_write_eq buf_incrpos_rest Let_def)
    have "unat (len - n) < unat len" using len' n0 by simp
    moreover have "unat (len - n) \<le> cbuf_room ?cb" using less.prems(2) used len' by (simp add: cbuf_room_def)
    moreover have "buf_wf (buf_skip pl (unat n))" using less.prems(3,4) n0 by (intro buf_skip_wf) simp_all
    moreover have rest: "buf_rest (buf_skip pl (unat n)) = drop (unat n) (buf_rest pl)" using less.prems(3,4) n0 by (intro buf_rest_skip) simp_all
    moreover from this have "unat (len - n) \<le> length (buf_rest (buf_skip pl (unat n)))" using less.prems(4) len' by simp
    ultimately obtain cb' where cb': "store_loop (len - n) ?cb (buf_skip pl (unat n)) = Inr (cb', buf_skip (buf_skip pl (unat n)) (unat (len - n)))"
        "cbuf_wf cb'" "c_size cb' = c_size ?cb" "cbuf_list cb' = cbuf_list ?cb @ take (unat (len - n)) (buf_rest (buf_skip pl (unat n)))"
        "unat (c_used cb') = unat (c_used ?cb) + unat (len - n)"
      using less.hyps [of "len - n" ?cb "buf_skip pl (unat n)"] cbuf_stored_wf [OF less.prems(1) fit] by blast
    have "unat n + (unat len - unat n) = unat len" using n0 by simp
    then have "take (unat len) (buf_rest pl) = ?bs @ take (unat len - unat n) (drop (unat n) (buf_rest pl))" by (metis take_add)
    then show ?thesis using cb' step used len' n0 cbuf_stored_list [OF less.prems(1) fit] rest by simp
  qed
qed

text \<open>Whatever the payload, a store that returns has added as many bytes as it was asked to.\<close>

lemma store_loop_wf:
  assumes "cbuf_wf cb" "store_loop len cb pl = Inr (cb', pl')"
  shows "cbuf_wf cb' \<and> c_size cb' = c_size cb \<and> unat (c_used cb') = unat (c_used cb) + unat len"
  using assms
proof (induction "unat len" arbitrary: len cb pl rule: less_induct)
  case less
  show ?case
  proof (cases "len = 0")
    case True
    then show ?thesis using less.prems by (simp add: store_loop.simps)
  next
    case False
    let ?room = "of_nat (cbuf_linear cb) :: u32"
    define n where "n = min ?room len"
    have "store_loop len cb pl = (if n = 0 then Inl Diverge else rbind (buf_peek pl n) (\<lambda>bs. rbind (cbuf_write cb bs) (\<lambda>cbuf.
        rbind (buf_incrpos pl n) (\<lambda>payload. store_loop (len - n) cbuf payload))))"
      using False by (subst store_loop.simps) (simp only: cbuf_writelen_eq [OF less.prems(1)] n_def Let_def rbind_simps if_False)
    with less.prems(2) obtain bs cb1 pl1 where n: "n \<noteq> 0" and bs: "buf_peek pl n = Inr bs" "cbuf_write cb bs = Inr cb1" "store_loop (len - n) cb1 pl1 = Inr (cb', pl')"
      by (auto simp: rbind_eq_Inr split: if_splits)
    have lb: "length bs = unat n" using bs(1) by (auto simp: buf_peek_def rbind_eq_Inr mem_read_eq_Inr)
    have fit: "length bs \<le> cbuf_linear cb"
    proof (rule ccontr)
      assume "\<not> length bs \<le> cbuf_linear cb"
      then have "\<not> cbuf_fits cb (length bs)" by (simp add: cbuf_fits_def)
      then show False using cbuf_put_full [OF less.prems(1)] bs(2) lb unat_u32_lt [of n] by simp
    qed
    then have cb1: "cb1 = cbuf_stored cb bs" using bs(2) cbuf_write_eq [OF less.prems(1)] by simp
    have le: "n \<le> len" "0 < unat n" using n by (simp_all add: n_def unat_gt_0)
    then have len': "unat (len - n) = unat len - unat n" "unat n \<le> unat len" by (simp_all add: unat_minus_u32 word_le_nat_alt)
    then have "unat (len - n) < unat len" using le by simp
    from less.hyps [OF this _ bs(3)] cbuf_stored_wf [OF less.prems(1) fit]
    have "cbuf_wf cb' \<and> c_size cb' = c_size cb1 \<and> unat (c_used cb') = unat (c_used cb1) + unat (len - n)" by (simp add: cb1)
    then show ?thesis using cbuf_stored_used [OF less.prems(1) fit] lb len' by (simp add: cb1)
  qed
qed

section \<open>Writing to the local side\<close>

text \<open>What has been written to a descriptor.\<close>

fun written_to :: "int \<Rightarrow> event list \<Rightarrow> bytes" where
  "written_to fd [] = []"
| "written_to fd (Ev_write f bs # es) = (if f = fd then bs else []) @ written_to fd es"
| "written_to fd (_ # es) = written_to fd es"

lemma written_to_append [simp]: "written_to fd (es @ es') = written_to fd es @ written_to fd es'"
  by (induction fd es rule: written_to.induct) simp_all

lemma close_chan_fd_at:
  assumes "chan_at i c = Inr ch"
  shows "\<exists>c'. close_chan_fd i fd how c = Inr c' \<and>
    cn_channels c' = (cn_channels c)[unat i := Some (fds_closed (bidir_fd ch \<longrightarrow> how \<noteq> 0) (bidir_fd ch \<longrightarrow> how = 0) fd ch)] \<and>
    cn_ses c' = cn_ses c \<and> chan_setup c' = chan_setup c \<and> written_to f (cn_trace c') = written_to f (cn_trace c)"
  using assms by (cases "bidir_fd ch") (simp_all add: close_chan_fd_def Let_def m_close_def)

lemma fds_closed_sel [simp]:
  "chan_index (fds_closed a b fd ch) = chan_index ch" "recvwindow (fds_closed a b fd ch) = recvwindow ch"
  "recvdonelen (fds_closed a b fd ch) = recvdonelen ch" "writebuf (fds_closed a b fd ch) = writebuf ch"
  "extrabuf (fds_closed a b fd ch) = extrabuf ch" "remotechan (fds_closed a b fd ch) = remotechan ch"
  by (simp_all add: fds_closed_def Let_def)

lemma set_buf_sel [simp]:
  "chan_buf ext (set_buf ext cb ch) = Some cb" "recvwindow (set_buf ext cb ch) = recvwindow ch" "recvdonelen (set_buf ext cb ch) = recvdonelen ch"
  "chan_index (set_buf ext cb ch) = chan_index ch"
  by (simp_all add: chan_buf_def set_buf_def)

definition more_data :: "bytes option \<Rightarrow> bytes" where
  "more_data m = (case m of None \<Rightarrow> [] | Some d \<Rightarrow> d)"

text \<open>A write that did not fail: \<open>sent\<close> went out, \<open>n\<close> bytes of it from the new data, \<open>cb'\<close> is kept.\<close>

definition wrote :: "u32 \<Rightarrow> int \<Rightarrow> bool \<Rightarrow> bytes \<Rightarrow> 't Channel \<Rightarrow> circbuffer \<Rightarrow> 't conn \<Rightarrow> nat \<Rightarrow> bytes \<Rightarrow> circbuffer \<Rightarrow> 't conn \<Rightarrow> bool" where
  "wrote i fd ext data ch cb c n sent cb' c' \<longleftrightarrow>
     sent @ cbuf_list cb' @ drop n data = cbuf_list cb @ data \<and> n \<le> length data \<and> cbuf_wf cb' \<and> c_size cb' = c_size cb \<and>
     unat (c_used cb') + length sent = unat (c_used cb) + n \<and> (0 < n \<longrightarrow> unat (c_used cb') = 0) \<and>
     cn_channels c' = (cn_channels c)[unat i := Some ((set_buf ext cb' ch)\<lparr>recvdonelen := recvdonelen ch + of_nat (length sent)\<rparr>)] \<and>
     cn_ses c' = cn_ses c \<and> chan_setup c' = chan_setup c \<and> written_to fd (cn_trace c') = written_to fd (cn_trace c) @ sent"

lemma wrote_nothing:
  assumes "chan_at i c = Inr ch" "chan_buf ext ch = Some cb" "cbuf_wf cb"
    "cn_channels c' = cn_channels c" "cn_ses c' = cn_ses c" "chan_setup c' = chan_setup c" "cn_trace c' = cn_trace c"
  shows "wrote i fd ext data ch cb c 0 [] cb c'"
proof -
  have "set_buf ext cb ch = ch" using assms(2) by (auto simp: chan_buf_def set_buf_def split: if_splits)
  moreover have "(cn_channels c)[unat i := Some ch] = cn_channels c" using assms(1) by (simp add: chan_at_eq list_update_same_conv)
  ultimately show ?thesis using assms(3-7) by (simp add: wrote_def)
qed

lemma take_split: "take w (xs @ ys) @ drop (min (length xs) w) xs @ drop (w - min (length xs) w) ys = xs @ ys"
  by (simp add: min_def)

lemma writev_outcome:
  assumes ch: "chan_at i c = Inr ch" "chan_buf ext ch = Some cb" "cbuf_wf cb"
  shows "(\<exists>n sent cb' c'. writechannel_writev i fd ext moredata c = Inr ((True, of_nat n), c') \<and> wrote i fd ext (more_data moredata) ch cb c n sent cb' c') \<or>
    (\<exists>c' a b. writechannel_writev i fd ext moredata c = Inr ((False, 0), c') \<and> cn_channels c' = (cn_channels c)[unat i := Some (fds_closed a b fd ch)] \<and>
       cn_ses c' = cn_ses c \<and> chan_setup c' = chan_setup c \<and> cn_write c (cn_calls c) = Wr_fail)"
proof -
  obtain p1 p2 where p: "cbuf_readptrs cb = Inr (p1, p2)" "p1 @ p2 = cbuf_list cb" using cbuf_readptrs_eq [OF ch(3)] by blast
  show ?thesis
  proof (cases "p1 = [] \<and> p2 = [] \<and> moredata = None")
    case True
    then have "writechannel_writev i fd ext moredata c = Inr ((True, of_nat 0), c)" using ch p(1) by (simp add: writechannel_writev_def)
    then show ?thesis using wrote_nothing [OF ch refl refl refl refl] by blast
  next
    case False
    let ?d = "more_data moredata" and ?c = "c\<lparr>cn_calls := Suc (cn_calls c)\<rparr>"
    have no: "(p1 = [] \<and> p2 = [] \<and> moredata = None) = False" using False by blast
    have go: "writechannel_writev i fd ext moredata c =
       (case cn_write c (cn_calls c) of
          Wr_fail \<Rightarrow> rbind (close_chan_fd i fd SHUT_WR ?c) (\<lambda>c. Inr ((False, 0), c))
        | Wr_again \<Rightarrow> Inr ((True, 0), ?c)
        | Wr n \<Rightarrow> let written = min n (length (p1 @ p2 @ ?d)); cbuf_written = min (length p1 + length p2) written in
            rbind (cbuf_incrread cb (of_nat cbuf_written)) (\<lambda>cbuf.
            rbind (upd_chan i (\<lambda>ch. (set_buf ext cbuf ch)\<lparr>recvdonelen := recvdonelen ch + of_nat written\<rparr>) ?c) (\<lambda>c.
            Inr ((True, of_nat (written - cbuf_written)), emit (Ev_write fd (take written (p1 @ p2 @ ?d))) c))))"
      unfolding writechannel_writev_def by (simp only: ch p(1) deref_simps rbind_simps prod.case sys_write_def Let_def more_data_def no if_False)
    show ?thesis
    proof (cases "cn_write c (cn_calls c)")
      case Wr_fail
      have "chan_at i ?c = Inr ch" using ch(1) by simp
      from close_chan_fd_at [OF this, of fd SHUT_WR] show ?thesis using Wr_fail go by fastforce
    next
      case Wr_again
      then have "writechannel_writev i fd ext moredata c = Inr ((True, of_nat 0), ?c)" using go by simp
      moreover have "wrote i fd ext ?d ch cb c 0 [] cb ?c" by (rule wrote_nothing [OF ch]) simp_all
      ultimately show ?thesis by blast
    next
      case (Wr m)
      let ?L = "cbuf_list cb"
      define w where "w = min m (length (?L @ ?d))"
      define k where "k = min (length ?L) w"
      have lL: "length p1 + length p2 = length ?L" using p(2) by (metis length_append)
      have used: "length ?L = unat (c_used cb)" by (rule length_cbuf_list [OF ch(3)])
      have bound: "unat (c_used cb) \<le> 100000000" using ch(3) by (simp add: cbuf_wf_def)
      have kb: "k \<le> unat (c_used cb)" "k \<le> w" by (simp_all add: k_def used)
      have wb: "w \<le> length ?L + length ?d" by (simp add: w_def)
      have uk: "unat (of_nat k :: u32) = k" using kb bound by (simp add: u32_simps)
      obtain cb' where cb': "cbuf_incrread cb (of_nat k) = Inr cb'" "cbuf_wf cb'" "cbuf_list cb' = drop k ?L" "c_size cb' = c_size cb"
          "unat (c_used cb') = unat (c_used cb) - k"
        using cbuf_incrread_eq [OF ch(3), of "of_nat k"] uk kb by auto
      have iov: "p1 @ p2 @ ?d = ?L @ ?d" using p(2) by simp
      define c' where "c' = emit (Ev_write fd (take w (?L @ ?d))) (set_chan i (Some ((set_buf ext cb' ch)\<lparr>recvdonelen := recvdonelen ch + of_nat w\<rparr>)) ?c)"
      have "upd_chan i (\<lambda>ch. (set_buf ext cb' ch)\<lparr>recvdonelen := recvdonelen ch + of_nat w\<rparr>) ?c =
          Inr (set_chan i (Some ((set_buf ext cb' ch)\<lparr>recvdonelen := recvdonelen ch + of_nat w\<rparr>)) ?c)"
        using ch(1) by (intro upd_chan_at) simp
      then have run: "writechannel_writev i fd ext moredata c = Inr ((True, of_nat (w - k)), c')"
        unfolding go Wr wr.case iov lL Let_def w_def [symmetric] k_def [symmetric] cb'(1) rbind_simps c'_def by (simp only: rbind_simps)
      have split: "take w (?L @ ?d) @ drop k ?L @ drop (w - k) ?d = ?L @ ?d" unfolding k_def by (rule take_split)
      have len: "length (take w (?L @ ?d)) = w" using wb by simp
      have sums: "unat (c_used cb) - k + w = unat (c_used cb) + (w - k)" "0 < w - k \<longrightarrow> unat (c_used cb) - k = 0" "w - k \<le> length ?d"
        using kb wb used by (auto simp: k_def min_def)
      have sel: "cn_channels c' = (cn_channels c)[unat i := Some ((set_buf ext cb' ch)\<lparr>recvdonelen := recvdonelen ch + of_nat w\<rparr>)]"
        "cn_ses c' = cn_ses c" "chan_setup c' = chan_setup c" "written_to fd (cn_trace c') = written_to fd (cn_trace c) @ take w (?L @ ?d)"
        by (simp_all add: c'_def)
      have "wrote i fd ext ?d ch cb c (w - k) (take w (?L @ ?d)) cb' c'"
        unfolding wrote_def cb'(3-5) len sel using split sums cb'(2) by blast
      then show ?thesis using run by blast
    qed
  qed
qed

section \<open>Windows\<close>

text \<open>
  What the peer may still send, what has been handed on but not yet credited, and what is
  buffered add up to no more than the window of the connection.
\<close>

definition held :: "circbuffer option \<Rightarrow> nat" where
  "held b = (case b of None \<Rightarrow> 0 | Some cb \<Rightarrow> unat (c_used cb))"

definition chan_budget :: "'t Channel \<Rightarrow> nat" where
  "chan_budget ch = unat (recvwindow ch) + unat (recvdonelen ch) + held (writebuf ch) + held (extrabuf ch)"

definition bufs_wf :: "u32 \<Rightarrow> 't Channel \<Rightarrow> bool" where
  "bufs_wf W ch \<longleftrightarrow> (\<exists>wb. writebuf ch = Some wb \<and> cbuf_wf wb \<and> c_size wb = W) \<and>
     (\<forall>eb. extrabuf ch = Some eb \<longrightarrow> cbuf_wf eb \<and> c_size eb = W)"

definition chan_wf :: "u32 \<Rightarrow> 't Channel \<Rightarrow> bool" where
  "chan_wf W ch \<longleftrightarrow> bufs_wf W ch \<and> chan_budget ch \<le> unat W"

lemma bufs_wf_bound: "bufs_wf W ch \<Longrightarrow> unat W \<le> 100000000"
  by (auto simp: bufs_wf_def cbuf_wf_def)

lemma bufs_wf_buf: "bufs_wf W ch \<Longrightarrow> chan_buf ext ch = Some cb \<Longrightarrow> cbuf_wf cb \<and> c_size cb = W"
  by (auto simp: bufs_wf_def chan_buf_def split: if_splits)

lemma set_buf_wf:
  assumes "bufs_wf W ch" "chan_buf ext ch = Some cb" "cbuf_wf cb'" "c_size cb' = c_size cb"
  shows "bufs_wf W (set_buf ext cb' ch)" "chan_budget (set_buf ext cb' ch) + unat (c_used cb) = chan_budget ch + unat (c_used cb')"
  using assms by (auto simp: bufs_wf_def set_buf_def chan_buf_def chan_budget_def held_def split: if_splits)

lemma bufs_wf_cong: "writebuf ch' = writebuf ch \<Longrightarrow> extrabuf ch' = extrabuf ch \<Longrightarrow> bufs_wf W ch' = bufs_wf W ch"
  by (simp add: bufs_wf_def)

lemma room_budget:
  assumes "chan_wf W ch" "chan_buf ext ch = Some cb"
  shows "unat (recvwindow ch) \<le> cbuf_room cb"
proof -
  have "c_size cb = W" using assms bufs_wf_buf by (auto simp: chan_wf_def)
  then show ?thesis using assms by (auto simp: chan_wf_def chan_budget_def held_def cbuf_room_def chan_buf_def split: if_splits option.splits)
qed

text \<open>The assertions at the end of \<^verbatim>\<open>writechannel\<close>.\<close>

definition window_asserts :: "u32 \<Rightarrow> 't Channel \<Rightarrow> bool" where
  "window_asserts W ch \<longleftrightarrow> recvwindow ch \<le> W \<and> (\<exists>wb. writebuf ch = Some wb \<and> recvwindow ch \<le> cbuf_getavail wb) \<and>
     (case extrabuf ch of None \<Rightarrow> True | Some eb \<Rightarrow> recvwindow ch \<le> cbuf_getavail eb)"

lemma window_asserts_hold:
  assumes "chan_wf W ch"
  shows "window_asserts W ch"
proof -
  have "recvwindow ch \<le> cbuf_getavail cb" if "chan_buf ext ch = Some cb" for ext cb
  proof -
    have "cbuf_wf cb" using assms that bufs_wf_buf by (auto simp: chan_wf_def)
    then show ?thesis using room_budget [OF assms that] by (simp add: word_le_nat_alt unat_cbuf_getavail)
  qed
  from this [of False] this [of True] assms show ?thesis
    by (auto simp: window_asserts_def chan_wf_def chan_budget_def bufs_wf_def chan_buf_def word_le_nat_alt split: option.split)
qed

lemma adjust_window_at:
  assumes "chan_at i c = Inr ch" "adjust_window i c = Inr c'"
  shows "\<exists>ch'. cn_channels c' = (cn_channels c)[unat i := Some ch'] \<and>
    (ch' = ch \<or> ch' = ch\<lparr>recvwindow := recvwindow ch + recvdonelen ch, recvdonelen := 0\<rparr>) \<and> chan_setup c' = chan_setup c \<and>
    cn_trace c' = cn_trace c \<and> sends (cn_ses c) (cn_ses c')"
proof (cases "recvdonelen ch \<ge> recv_window (cn_opts c) div 3")
  case False
  then have "c' = c" using assms by (simp add: adjust_window_def)
  moreover have "cn_channels c = (cn_channels c)[unat i := Some ch]" using assms(1) by (simp add: chan_at_eq list_update_same_conv [THEN iffD2])
  ultimately show ?thesis by auto
next
  case True
  then obtain s where s: "send_fields [FByte 93, FInt (remotechan ch), FInt (recvdonelen ch)] (cn_ses c) = Inr s"
    and c': "c' = set_chan i (Some (ch\<lparr>recvwindow := recvwindow ch + recvdonelen ch, recvdonelen := 0\<rparr>)) (c\<lparr>cn_ses := s\<rparr>)"
    using assms by (auto simp: adjust_window_def send_msg_channel_window_adjust_def on_ses_def rbind_eq_Inr upd_chan_def)
  show ?thesis using send_fields_sends [OF s] by (auto simp: c')
qed

lemma adjusted_wf:
  assumes "ch' = ch \<or> ch' = ch\<lparr>recvwindow := recvwindow ch + recvdonelen ch, recvdonelen := 0\<rparr>" "bufs_wf W ch" "chan_budget ch \<le> unat W"
  shows "bufs_wf W ch' \<and> chan_budget ch' = chan_budget ch \<and> chan_buf ext ch' = chan_buf ext ch"
proof -
  have "unat (recvwindow ch + recvdonelen ch) = unat (recvwindow ch) + unat (recvdonelen ch)"
    using assms(3) bufs_wf_bound [OF assms(2)] by (intro unat_plus_u32) (simp add: chan_budget_def)
  then show ?thesis using assms(1,2) by (auto simp: bufs_wf_def chan_budget_def chan_buf_def)
qed

lemma writechannel_asserts:
  assumes "writechannel_writev i fd ext moredata c = Inr (ret, c1)"
    and "\<And>c2. adjust_window i c1 = Inr c2 \<Longrightarrow> \<exists>ch. chan_at i c2 = Inr ch \<and> window_asserts (recv_window (cn_opts c2)) ch"
  shows "writechannel i fd ext moredata c = rbind (adjust_window i c1) (\<lambda>c2. Inr (ret, c2))"
proof (cases "adjust_window i c1")
  case (Inl e)
  then show ?thesis using assms(1) by (simp add: writechannel_def)
next
  case (Inr c2)
  obtain ch where "chan_at i c2 = Inr ch" "window_asserts (recv_window (cn_opts c2)) ch" using assms(2) [OF Inr] by blast
  then show ?thesis using assms(1) Inr by (auto simp: writechannel_def window_asserts_def)
qed

text \<open>After the write: crediting the window keeps the budget, and then the assertions hold.\<close>

lemma writechannel_after:
  assumes run: "writechannel_writev i fd ext moredata c = Inr (ret, c1)"
    and c1: "cn_channels c1 = (cn_channels c)[unat i := Some ch1]" "chan_setup c1 = chan_setup c" "cn_ses c1 = cn_ses c" "unat i < length (cn_channels c)"
    and wf: "bufs_wf W ch1" "chan_budget ch1 \<le> unat W" and W: "W = recv_window (cn_opts c)"
  shows "writechannel i fd ext moredata c = rbind (adjust_window i c1) (\<lambda>c2. Inr (ret, c2))"
    and "\<And>c2. adjust_window i c1 = Inr c2 \<Longrightarrow> \<exists>ch'. cn_channels c2 = (cn_channels c)[unat i := Some ch'] \<and> chan_setup c2 = chan_setup c \<and>
      sends (cn_ses c) (cn_ses c2) \<and> cn_trace c2 = cn_trace c1 \<and> chan_index ch' = chan_index ch1 \<and> bufs_wf W ch' \<and>
      chan_budget ch' = chan_budget ch1 \<and> chan_buf ext ch' = chan_buf ext ch1"
proof -
  have at1: "chan_at i c1 = Inr ch1" using c1 by (simp add: chan_at_eq)
  show after: "\<exists>ch'. cn_channels c2 = (cn_channels c)[unat i := Some ch'] \<and> chan_setup c2 = chan_setup c \<and>
      sends (cn_ses c) (cn_ses c2) \<and> cn_trace c2 = cn_trace c1 \<and> chan_index ch' = chan_index ch1 \<and> bufs_wf W ch' \<and>
      chan_budget ch' = chan_budget ch1 \<and> chan_buf ext ch' = chan_buf ext ch1"
    if c2: "adjust_window i c1 = Inr c2" for c2
  proof -
    obtain ch' where ch': "cn_channels c2 = (cn_channels c1)[unat i := Some ch']"
        "ch' = ch1 \<or> ch' = ch1\<lparr>recvwindow := recvwindow ch1 + recvdonelen ch1, recvdonelen := 0\<rparr>" "chan_setup c2 = chan_setup c1"
        "cn_trace c2 = cn_trace c1" "sends (cn_ses c1) (cn_ses c2)"
      using adjust_window_at [OF at1 c2] by blast
    then show ?thesis using adjusted_wf [OF ch'(2) wf, of ext] c1 by auto
  qed
  have "\<exists>ch'. chan_at i c2 = Inr ch' \<and> window_asserts (recv_window (cn_opts c2)) ch'" if c2: "adjust_window i c1 = Inr c2" for c2
  proof -
    obtain ch' where ch': "cn_channels c2 = (cn_channels c)[unat i := Some ch']" "chan_setup c2 = chan_setup c" "bufs_wf W ch'"
        "chan_budget ch' = chan_budget ch1" using after [OF c2] by blast
    then have "chan_wf W ch'" using wf(2) by (simp add: chan_wf_def)
    then show ?thesis using window_asserts_hold chan_setup_opts [OF ch'(2)] ch' c1(4) W by (auto simp: chan_at_eq)
  qed
  then show "writechannel i fd ext moredata c = rbind (adjust_window i c1) (\<lambda>c2. Inr (ret, c2))"
    by (rule writechannel_asserts [OF run])
qed

text \<open>
  Writing to a channel in a good state, with data the window allowed for: what goes out and what stays,
  or a write error, after which the data is given up.
\<close>

definition write_result :: "u32 \<Rightarrow> int \<Rightarrow> bool \<Rightarrow> bytes \<Rightarrow> u32 \<Rightarrow> 't Channel \<Rightarrow> circbuffer \<Rightarrow> 't conn \<Rightarrow> bool \<times> u32 \<Rightarrow> 't conn \<Rightarrow> bool" where
  "write_result i fd ext data W ch cb c ret c2 \<longleftrightarrow>
     (\<exists>ch'. cn_channels c2 = (cn_channels c)[unat i := Some ch'] \<and> chan_setup c2 = chan_setup c \<and> sends (cn_ses c) (cn_ses c2) \<and>
        chan_index ch' = chan_index ch \<and> bufs_wf W ch' \<and>
        ((\<exists>n sent cb'. ret = (True, of_nat n) \<and> n \<le> length data \<and> chan_buf ext ch' = Some cb' \<and>
            sent @ cbuf_list cb' @ drop n data = cbuf_list cb @ data \<and>
            written_to fd (cn_trace c2) = written_to fd (cn_trace c) @ sent \<and> chan_budget ch' = chan_budget ch + n) \<or>
         ret = (False, 0) \<and> chan_budget ch' = chan_budget ch \<and> cn_write c (cn_calls c) = Wr_fail))"

lemma writechannel_outcome:
  assumes ch: "chan_at i c = Inr ch" "chan_buf ext ch = Some cb" and wf: "bufs_wf W ch" "chan_budget ch + length (more_data moredata) \<le> unat W"
    and W: "W = recv_window (cn_opts c)"
  shows "\<exists>ret c1. writechannel i fd ext moredata c = rbind (adjust_window i c1) (\<lambda>c2. Inr (ret, c2)) \<and>
    (\<exists>ch1. chan_at i c1 = Inr ch1 \<and> remotechan ch1 = remotechan ch) \<and> cn_ses c1 = cn_ses c \<and>
    (\<forall>c2. adjust_window i c1 = Inr c2 \<longrightarrow> write_result i fd ext (more_data moredata) W ch cb c ret c2)"
proof -
  have cb: "cbuf_wf cb" "c_size cb = W" using bufs_wf_buf [OF wf(1) ch(2)] by auto
  have len: "unat i < length (cn_channels c)" using ch(1) by (simp add: chan_at_eq)
  note W_le = bufs_wf_bound [OF wf(1)]
  consider (sent) n sent cb' c1 where "writechannel_writev i fd ext moredata c = Inr ((True, of_nat n), c1)"
      "wrote i fd ext (more_data moredata) ch cb c n sent cb' c1"
    | (failed) c1 a b where "writechannel_writev i fd ext moredata c = Inr ((False, 0), c1)"
      "cn_channels c1 = (cn_channels c)[unat i := Some (fds_closed a b fd ch)]" "cn_ses c1 = cn_ses c" "chan_setup c1 = chan_setup c"
      "cn_write c (cn_calls c) = Wr_fail"
    using writev_outcome [OF ch cb(1), of fd moredata] by blast
  then show ?thesis
  proof cases
    case sent
    note w = sent(2) [unfolded wrote_def]
    let ?ch1 = "(set_buf ext cb' ch)\<lparr>recvdonelen := recvdonelen ch + of_nat (length sent)\<rparr>"
    have size: "c_size cb' = c_size cb" "cbuf_wf cb'" using w by blast+
    note sb = set_buf_wf [OF wf(1) ch(2) size(2,1)]
    have slen: "unat (c_used cb') + length sent = unat (c_used cb) + n" "n \<le> length (more_data moredata)" using w by blast+
    have sum: "chan_budget (set_buf ext cb' ch) + length sent = chan_budget ch + n" using sb(2) slen by simp
    have b1: "unat (recvdonelen ch) \<le> chan_budget (set_buf ext cb' ch)" by (simp add: chan_budget_def)
    have done': "unat (recvdonelen ch + of_nat (length sent)) = unat (recvdonelen ch) + length sent"
      using b1 sum slen(2) wf(2) W_le by (subst unat_plus_u32) (simp_all add: u32_simps)
    have wf1: "bufs_wf W ?ch1" "chan_buf ext ?ch1 = Some cb'" using sb(1) by (simp_all add: bufs_wf_def chan_buf_def set_buf_def)
    have bud1: "chan_budget ?ch1 = chan_budget ch + n" using sum done' by (simp add: chan_budget_def)
    have sel: "cn_channels c1 = (cn_channels c)[unat i := Some ?ch1]" "chan_setup c1 = chan_setup c" "cn_ses c1 = cn_ses c"
      "sent @ cbuf_list cb' @ drop n (more_data moredata) = cbuf_list cb @ more_data moredata"
      "written_to fd (cn_trace c1) = written_to fd (cn_trace c) @ sent" using w by blast+
    note after = writechannel_after [OF sent(1) sel(1-3) len wf1(1) _ W]
    have le: "chan_budget ?ch1 \<le> unat W" using bud1 slen(2) wf(2) by simp
    have "write_result i fd ext (more_data moredata) W ch cb c (True, of_nat n) c2" if c2: "adjust_window i c1 = Inr c2" for c2
    proof -
      obtain ch' where ch': "cn_channels c2 = (cn_channels c)[unat i := Some ch']" "chan_setup c2 = chan_setup c" "sends (cn_ses c) (cn_ses c2)"
          "cn_trace c2 = cn_trace c1" "chan_index ch' = chan_index ch" "bufs_wf W ch'" "chan_budget ch' = chan_budget ch + n"
          "chan_buf ext ch' = Some cb'"
        using after(2) [OF le c2] bud1 wf1(2) by (auto simp: set_buf_def)
      then show ?thesis using sel(4,5) slen(2) unfolding write_result_def by auto
    qed
    moreover have "chan_at i c1 = Inr ?ch1" "remotechan ?ch1 = remotechan ch" using sel(1) len by (simp_all add: chan_at_eq set_buf_def)
    ultimately show ?thesis using after(1) [OF le] sel(3) by blast
  next
    case failed
    let ?ch1 = "fds_closed a b fd ch"
    have wf1: "bufs_wf W ?ch1" "chan_budget ?ch1 = chan_budget ch" using wf(1) by (simp_all add: bufs_wf_def chan_budget_def)
    then have le: "chan_budget ?ch1 \<le> unat W" using wf(2) by simp
    note after = writechannel_after [OF failed(1,2,4,3) len wf1(1) le W]
    have "write_result i fd ext (more_data moredata) W ch cb c (False, 0) c2" if "adjust_window i c1 = Inr c2" for c2
      using after(2) [OF that] wf1(2) failed(5) unfolding write_result_def by auto
    moreover have "chan_at i c1 = Inr ?ch1" "remotechan ?ch1 = remotechan ch" using failed(2) len by (simp_all add: chan_at_eq)
    ultimately show ?thesis using after(1) failed(3) by blast
  qed
qed

lemma writechannel_result:
  assumes "chan_at i c = Inr ch" "chan_buf ext ch = Some cb" "bufs_wf W ch" "chan_budget ch + length (more_data moredata) \<le> unat W"
    "W = recv_window (cn_opts c)" and run: "writechannel i fd ext moredata c = Inr (r, c')"
  shows "write_result i fd ext (more_data moredata) W ch cb c r c'"
proof -
  obtain ret c1 where o: "writechannel i fd ext moredata c = rbind (adjust_window i c1) (\<lambda>c2. Inr (ret, c2))"
      "\<And>c2. adjust_window i c1 = Inr c2 \<Longrightarrow> write_result i fd ext (more_data moredata) W ch cb c ret c2"
    using writechannel_outcome [OF assms(1-5), of fd] by blast
  have "rbind (adjust_window i c1) (\<lambda>c2. Inr (ret, c2)) = Inr (r, c')" using run o(1) by simp
  then have "adjust_window i c1 = Inr c'" "ret = r" by (auto simp: rbind_eq_Inr)
  then show ?thesis using o(2) by simp
qed

lemma adjust_window_fails:
  assumes "adjust_window i c = Inl e" and ch: "chan_at i c = Inr ch"
  shows "\<exists>n. send_fields [FByte 93, FInt (remotechan ch), FInt n] (cn_ses c) = Inl e"
proof -
  have "chan_at i c' = chan_at i c" if "send_msg_channel_window_adjust i n c = Inr c'" for c' n
    using that ch by (auto simp: send_msg_channel_window_adjust_def on_ses_def rbind_eq_Inr)
  then have "send_msg_channel_window_adjust i (recvdonelen ch) c = Inl e" using assms
    by (cases "send_msg_channel_window_adjust i (recvdonelen ch) c") (auto simp: adjust_window_def upd_chan_def split: if_splits)
  then show ?thesis using ch
    by (cases "send_fields [FByte 93, FInt (remotechan ch), FInt (recvdonelen ch)] (cn_ses c)")
      (auto simp: send_msg_channel_window_adjust_def on_ses_def)
qed

section \<open>Receiving data\<close>

lemma of_nat_minus_u32: "n \<le> m \<Longrightarrow> (of_nat m :: u32) - of_nat n = of_nat (m - n)"
  by (simp add: of_nat_diff)

text \<open>
  The rest of the data is stored after a write that did not fail.
\<close>

definition data_result :: "u32 \<Rightarrow> int \<Rightarrow> bool \<Rightarrow> bytes \<Rightarrow> u32 \<Rightarrow> 't Channel \<Rightarrow> circbuffer \<Rightarrow> 't conn \<Rightarrow> 't conn \<Rightarrow> bool" where
  "data_result i fd ext d W ch cb c c' \<longleftrightarrow>
     (\<exists>ch'. cn_channels c' = (cn_channels c)[unat i := Some ch'] \<and> chan_setup c' = chan_setup c \<and> chan_index ch' = chan_index ch \<and> chan_wf W ch' \<and>
        ((\<exists>sent cb'. chan_buf ext ch' = Some cb' \<and> sent @ cbuf_list cb' = cbuf_list cb @ d \<and>
            written_to fd (cn_trace c') = written_to fd (cn_trace c) @ sent) \<or>
         cn_write c (cn_calls c) = Wr_fail))"

lemma store_rest:
  assumes at: "chan_at i c2 = Inr ch'" "chan_buf ext ch' = Some cb'" and wf: "bufs_wf W ch'" "chan_budget ch' + (length d - n) \<le> unat W"
    and pl: "buf_wf b" "take (length d) (buf_rest b) = d" "length d \<le> length (buf_rest b)" and n: "n \<le> length d" "length d \<le> 100000000"
  shows "\<exists>cb''. store_loop (of_nat (length d) - of_nat n) cb' (buf_skip b n) = Inr (cb'', buf_skip b (length d)) \<and>
    cbuf_list cb'' = cbuf_list cb' @ drop n d \<and> bufs_wf W (set_buf ext cb'' ch') \<and>
    chan_budget (set_buf ext cb'' ch') = chan_budget ch' + (length d - n)"
proof -
  have cb: "cbuf_wf cb'" "c_size cb' = W" using bufs_wf_buf [OF wf(1) at(2)] by auto
  have len: "(of_nat (length d) :: u32) - of_nat n = of_nat (length d - n)" using n by (intro of_nat_minus_u32)
  have ulen: "unat (of_nat (length d - n) :: u32) = length d - n" using n by (intro unat_of_nat_u32) simp
  have room: "length d - n \<le> cbuf_room cb'"
    using wf(2) cb at(2) by (auto simp: cbuf_room_def chan_budget_def held_def chan_buf_def split: if_splits)
  have sk: "buf_wf (buf_skip b n)" "buf_rest (buf_skip b n) = drop n (buf_rest b)"
    using pl n by (auto intro!: buf_skip_wf buf_rest_skip)
  have "\<exists>cb''. store_loop (of_nat (length d - n)) cb' (buf_skip b n) = Inr (cb'', buf_skip (buf_skip b n) (length d - n)) \<and> cbuf_wf cb'' \<and>
      c_size cb'' = c_size cb' \<and> cbuf_list cb'' = cbuf_list cb' @ take (length d - n) (buf_rest (buf_skip b n)) \<and>
      unat (c_used cb'') = unat (c_used cb') + (length d - n)"
    using store_loop_ok [OF cb(1), of "of_nat (length d - n)" "buf_skip b n"] sk room pl(3) by (simp add: ulen)
  then obtain cb'' where cb'': "store_loop (of_nat (length d - n)) cb' (buf_skip b n) = Inr (cb'', buf_skip (buf_skip b n) (length d - n))"
      "cbuf_wf cb''" "c_size cb'' = c_size cb'" "cbuf_list cb'' = cbuf_list cb' @ take (length d - n) (buf_rest (buf_skip b n))"
      "unat (c_used cb'') = unat (c_used cb') + (length d - n)" by blast
  have "take (length d - n) (drop n (buf_rest b)) = drop n d" using pl(2) by (metis drop_take)
  then have data: "cbuf_list cb'' = cbuf_list cb' @ drop n d" using cb''(4) by (simp add: sk(2))
  have pos: "buf_skip (buf_skip b n) (length d - n) = buf_skip b (length d)" using n by simp
  note sb = set_buf_wf [OF wf(1) at(2) cb''(2,3)]
  have "chan_budget (set_buf ext cb'' ch') = chan_budget ch' + (length d - n)" using sb(2) cb''(5) by simp
  with cb''(1) data sb(1) show ?thesis unfolding len pos by blast
qed

lemma common_recv_outcome:
  fixes c :: "'t conn"
  assumes ch: "chan_at i c = Inr ch" "\<not> recv_eof ch" "chan_buf ext ch = Some cb" "0 \<le> fd" "chan_wf W ch" "W = recv_window (cn_opts c)"
    and pl: "s_payload (cn_ses c) = Some b" "buf_wf b" "buf_rest b = store32h (of_nat (length d)) @ d @ rest" "length d \<le> unat (recvwindow ch)"
  shows "(\<exists>e n p. common_recv_msg_channel_data i fd ext c = Inl e \<and>
      send_fields [FByte 93, FInt (remotechan ch), FInt n] ((cn_ses c)\<lparr>s_payload := p\<rparr>) = Inl e) \<or>
    (\<exists>c'. common_recv_msg_channel_data i fd ext c = Inr c' \<and> data_result i fd ext d W ch cb c c')"
proof -
  have bw: "bufs_wf W ch" "chan_budget ch \<le> unat W" using ch(5) by (simp_all add: chan_wf_def)
  have dlen: "length d \<le> 100000000" using pl(4) bw bufs_wf_bound [OF bw(1)] by (simp add: chan_budget_def)
  let ?n = "of_nat (length d) :: u32" and ?b = "buf_skip b 4"
  have un: "unat ?n = length d" using dlen by (simp add: u32_simps)
  have gi: "buf_getint b = Inr (?n, ?b)" using pl(2,3) by (simp add: buf_getint_rest load32h_store32h)
  have b4: "buf_wf ?b" "buf_rest ?b = d @ rest" using pl(2,3) by (simp_all add: buf_skip_wf buf_rest_skip)
  let ?k = "c\<lparr>cn_ses := (cn_ses c)\<lparr>s_payload := Some ?b\<rparr>\<rparr>" and ?ch = "ch\<lparr>recvwindow := recvwindow ch - ?n\<rparr>"
  let ?c = "set_chan i (Some ?ch) ?k"
  have len: "unat i < length (cn_channels c)" using ch(1) by (simp add: chan_at_eq)
  have read: "on_ses_get (on_payload buf_getint) c = Inr (?n, ?k)" using pl(1) gi by (simp add: on_ses_get_def on_payload_def)
  have avail: "\<not> ?n > cbuf_getavail cb"
    using room_budget [OF ch(5,3)] pl(4) bufs_wf_buf [OF bw(1) ch(3)] by (simp add: word_less_nat_alt unat_cbuf_getavail un)
  have win: "recvwindow ch \<ge> ?n" using pl(4) by (simp add: word_le_nat_alt un)
  have rw: "unat (recvwindow ch - ?n) = unat (recvwindow ch) - length d" using win un by (simp add: unat_minus_u32)
  have ass: "recvwindow ch - ?n \<le> recv_window (cn_opts c)" using rw bw(2) ch(6) by (simp add: word_le_nat_alt chan_budget_def)
  have peek: "buf_peek ?b ?n = Inr d" using b4 by (simp add: buf_peek_rest un)
  let ?more = "store_received i ext ?n"
  have fd: "(fd < 0) = False" using ch(4) by simp
  have run: "common_recv_msg_channel_data i fd ext c = rbind (writechannel i fd ext (Some d) ?c) ?more"
    unfolding common_recv_msg_channel_data_def
    using ch(1-3) fd read avail win ass peek by (simp add: upd_chan_def)
  have at: "chan_at i ?c = Inr ?ch" "chan_buf ext ?ch = Some cb" using len ch(3) by (auto simp: chan_buf_def split: if_splits)
  have wf: "bufs_wf W ?ch" "chan_budget ?ch + length (more_data (Some d)) \<le> unat W"
    using bw rw pl(4) by (simp_all add: bufs_wf_def chan_budget_def more_data_def)
  obtain ret c1 ch1 where c1: "writechannel i fd ext (Some d) ?c = rbind (adjust_window i c1) (\<lambda>c2. Inr (ret, c2))"
      "chan_at i c1 = Inr ch1" "remotechan ch1 = remotechan ch" "cn_ses c1 = cn_ses ?k"
      "\<And>c2. adjust_window i c1 = Inr c2 \<Longrightarrow> write_result i fd ext d W ?ch cb ?c ret c2"
    using writechannel_outcome [OF at wf, of fd] ch(6) by (auto simp: more_data_def)
  show ?thesis
  proof (cases "adjust_window i c1")
    case (Inl e)
    then show ?thesis using run c1(1) adjust_window_fails [OF Inl c1(2)] unfolding c1(3,4) by auto
  next
    case (Inr c2)
    obtain ch' where ch': "cn_channels c2 = (cn_channels ?c)[unat i := Some ch']" "chan_setup c2 = chan_setup ?c" "sends (cn_ses ?c) (cn_ses c2)"
        "chan_index ch' = chan_index ?ch" "bufs_wf W ch'"
      and cases: "(\<exists>n sent cb'. ret = (True, of_nat n) \<and> n \<le> length d \<and> chan_buf ext ch' = Some cb' \<and>
            sent @ cbuf_list cb' @ drop n d = cbuf_list cb @ d \<and>
            written_to fd (cn_trace c2) = written_to fd (cn_trace ?c) @ sent \<and> chan_budget ch' = chan_budget ?ch + n) \<or>
         ret = (False, 0) \<and> chan_budget ch' = chan_budget ?ch \<and> cn_write ?c (cn_calls ?c) = Wr_fail"
      using c1(5) [OF Inr] unfolding write_result_def by blast
    have pay: "s_payload (cn_ses c2) = Some ?b" using sends_same(3) [OF ch'(3)] by simp
    have chans: "cn_channels c2 = (cn_channels c)[unat i := Some ch']" using ch'(1) by simp
    have wr: "writechannel i fd ext (Some d) ?c = Inr (ret, c2)" using c1(1) Inr by simp
    from cases show ?thesis
    proof (elim disjE exE conjE)
      fix n sent cb'
      assume n: "ret = (True, of_nat n)" "n \<le> length d" "chan_buf ext ch' = Some cb'"
        "sent @ cbuf_list cb' @ drop n d = cbuf_list cb @ d" "written_to fd (cn_trace c2) = written_to fd (cn_trace ?c) @ sent"
        "chan_budget ch' = chan_budget ?ch + n"
      have le: "chan_budget ch' + (length d - n) \<le> unat W" using n(2,6) wf(2) by (simp add: more_data_def)
      have at2: "chan_at i c2 = Inr ch'" using chans len by (simp add: chan_at_eq)
      obtain cb'' where cb'': "store_loop (?n - of_nat n) cb' (buf_skip ?b n) = Inr (cb'', buf_skip ?b (length d))"
          "cbuf_list cb'' = cbuf_list cb' @ drop n d" "bufs_wf W (set_buf ext cb'' ch')" "chan_budget (set_buf ext cb'' ch') = chan_budget ch' + (length d - n)"
        using store_rest [OF at2 n(3) ch'(5) le b4(1) _ _ n(2) dlen] b4(2) by auto
      have uc: "unat (of_nat n :: u32) = n" using n(2) dlen by (simp add: u32_simps)
      have incr: "buf_incrpos ?b (of_nat n) = Inr (buf_skip ?b n)" using b4 n(2) by (simp add: buf_incrpos_rest uc)
      let ?c' = "set_chan i (Some (set_buf ext cb'' ch')) (c2\<lparr>cn_ses := (cn_ses c2)\<lparr>s_payload := Some (buf_skip ?b (length d))\<rparr>\<rparr>)"
      have "?more (ret, c2) = Inr ?c'"
        using n(1,3) pay incr at2 cb''(1) by (simp add: store_received_def upd_chan_def)
      then have "common_recv_msg_channel_data i fd ext c = Inr ?c'" using run wr by simp
      moreover have "chan_wf W (set_buf ext cb'' ch')" using cb''(3,4) le by (simp add: chan_wf_def)
      then have "data_result i fd ext d W ch cb c ?c'"
        unfolding data_result_def using chans ch'(2,4) n(4,5) cb''(2) by (intro exI [of _ "set_buf ext cb'' ch'"]) simp
      ultimately show ?thesis by blast
    next
      assume f: "ret = (False, 0)" "chan_budget ch' = chan_budget ?ch" "cn_write ?c (cn_calls ?c) = Wr_fail"
      have "buf_incrpos ?b 0 = Inr ?b" using b4 by (simp add: buf_incrpos_rest buf_skip_def)
      then have "?more (ret, c2) = Inr (c2\<lparr>cn_ses := (cn_ses c2)\<lparr>s_payload := Some ?b\<rparr>\<rparr>)" using f(1) pay by (simp add: store_received_def)
      moreover have "chan_wf W ch'" using f(2) wf(2) ch'(5) by (simp add: chan_wf_def)
      ultimately show ?thesis using run wr chans ch'(2,4) f(3) by (auto simp: data_result_def)
    qed
  qed
qed

end
