(* ===== verification/Channel_Props.thy ===== *)
theory Channel_Props
  imports Channel_Data
begin

unbundle bit_operations_syntax

text \<open>
  The invariant of the table of channels, the contract under which the handlers of the channel types
  are called, and that every handler of a channel message keeps the invariant.
\<close>

section \<open>Frames\<close>

text \<open>\<open>keeps p a c\<close>: from \<open>a\<close> to \<open>c\<close>, the channels have changed at most in what \<open>p\<close> does not show.\<close>

definition keeps :: "('t Channel \<Rightarrow> 'p) \<Rightarrow> 't conn \<Rightarrow> 't conn \<Rightarrow> bool" where
  "keeps p a c \<longleftrightarrow> map (map_option p) (cn_channels c) = map (map_option p) (cn_channels a) \<and> chan_setup c = chan_setup a"

text \<open>The windows and buffers; and everything but what a type's handlers may set up.\<close>

definition win :: "'t Channel \<Rightarrow> u32 \<times> u32 \<times> u32 \<times> circbuffer option \<times> circbuffer option" where
  "win ch = (chan_index ch, recvwindow ch, recvdonelen ch, writebuf ch, extrabuf ch)"

definition core :: "'t Channel \<Rightarrow> 't Channel" where
  "core ch = ch\<lparr>typedata := None, writefd := 0, readfd := 0, errfd := 0, bidir_fd := False, flushing := False, conn_pending := False,
     initconn := False, chan_prio := DROPBEAR_PRIO_NORMAL\<rparr>"

lemma keeps_refl [simp]: "keeps p c c"
  by (simp add: keeps_def)

lemma keeps_trans: "keeps p a b \<Longrightarrow> keeps p b c \<Longrightarrow> keeps p a c"
  by (simp add: keeps_def)

lemma win_core: "win (core ch) = win ch"
  by (simp add: win_def core_def)

lemma keeps_core_win: "keeps core a c \<Longrightarrow> keeps win a c"
proof -
  assume k: "keeps core a c"
  have "map (map_option win) xs = map (map_option win) (map (map_option core) xs)" for xs :: "'a Channel option list"
    by (simp add: comp_def option.map_comp win_core)
  then show ?thesis using k unfolding keeps_def by metis
qed

lemma keeps_frame [simp]:
  "keeps p a (emit e c) = keeps p a c" "keeps p a (c\<lparr>cn_calls := n\<rparr>) = keeps p a c" "keeps p a (c\<lparr>cn_ses := s\<rparr>) = keeps p a c"
  "keeps p a (m_close fd c) = keeps p a c" "keeps p a (c\<lparr>cn_maxfd := f\<rparr>) = keeps p a c" "keeps p a (c\<lparr>cn_socket_prio := pr\<rparr>) = keeps p a c"
  "keeps p a (c\<lparr>cn_childpids := cps\<rparr>) = keeps p a c" "keeps p a (c\<lparr>cn_lastexit := ex\<rparr>) = keeps p a c"
  by (simp_all add: keeps_def chan_setup_def)

lemma keeps_prio [simp]: "keeps p a (update_channel_prio c) = keeps p a c"
  by (simp add: update_channel_prio_def Let_def)

lemma keeps_set:
  assumes "keeps p a c" "chan_at i c = Inr ch" "p ch' = p ch"
  shows "keeps p a (set_chan i (Some ch') c)"
proof -
  have "map (map_option p) ((cn_channels c)[unat i := Some ch']) = map (map_option p) (cn_channels c)"
    using assms(2,3) by (simp add: map_update chan_at_eq list_update_same_conv)
  then show ?thesis using assms(1) by (simp add: keeps_def)
qed

lemma keeps_upd: "keeps p a c \<Longrightarrow> (\<And>ch. p (f ch) = p ch) \<Longrightarrow> res_post (keeps p a) (upd_chan i f c)"
  unfolding upd_chan_def by (intro res_post_intros) (simp add: keeps_set)

lemma keeps_ses: "keeps p a c \<Longrightarrow> res_post (keeps p a) (on_ses f c)"
  unfolding on_ses_def by (intro res_post_intros) simp

lemma keeps_read: "keeps p a c \<Longrightarrow> res_post (\<lambda>(x, c). keeps p a c) (on_ses_get f c)"
  unfolding on_ses_get_def by (intro res_post_intros) simp

lemma keeps_pick: "keeps p a c \<Longrightarrow> res_post (\<lambda>(x, c). keeps p a c) (getchannel_msg c)"
  unfolding getchannel_msg_def
  by (rule res_post_call [OF keeps_read], assumption) (auto split: prod.splits)

lemma core_closed [simp]: "core (fds_closed a b fd ch) = core ch"
  by (simp add: core_def fds_closed_def Let_def)

lemma keeps_close_fd: "keeps core a c \<Longrightarrow> res_post (keeps core a) (close_chan_fd i fd how c)"
  unfolding close_chan_fd_def Let_def
  by (intro res_post_intros) (auto simp: chan_at_frame intro!: keeps_set)

lemma keeps_own_fd: "keeps core a c \<Longrightarrow> res_post (keeps core a) (close_own_fd i sel how c)"
  unfolding close_own_fd_def by (intro res_post_intros keeps_close_fd)

lemma keeps_flush_fd: "keeps core a c \<Longrightarrow> res_post (keeps core a) (flush_fd i g sel c)"
  unfolding flush_fd_def fd_read_pending_def Let_def by (intro res_post_intros keeps_close_fd) auto

lemma keeps_flush: "keeps core a c \<Longrightarrow> res_post (keeps core a) (flush_fds i c)"
  unfolding flush_fds_def by (intro res_post_rbind res_post_if res_post_call [OF keeps_flush_fd] keeps_flush_fd) simp_all

lemmas keeps_intros = res_post_call [OF keeps_ses] res_post_call [OF keeps_read] keeps_ses res_post_call [OF keeps_pick]
  res_post_call [OF keeps_close_fd] res_post_call [OF keeps_own_fd] keeps_own_fd res_post_call [OF keeps_flush]

section \<open>The invariant\<close>

text \<open>
  The table has as many entries as its size says, grows by three and holds at most 1000; every channel
  stands at its index and, but for those in \<open>X\<close>, has its windows and buffers in order.
\<close>

definition conn_ok :: "nat set \<Rightarrow> 't conn \<Rightarrow> bool" where
  "conn_ok X c \<longleftrightarrow> 0 < recv_window (cn_opts c) \<and> recv_window (cn_opts c) \<le> MAX_CBUF_SIZE \<and>
     cn_chansize c = of_nat (length (cn_channels c)) \<and> length (cn_channels c) \<le> 1000 \<and> length (cn_channels c) mod 3 = 1 \<and>
     cn_chancount c = of_nat (length (filter (\<lambda>x. x \<noteq> None) (cn_channels c))) \<and>
     (\<forall>i ch. i < length (cn_channels c) \<and> cn_channels c ! i = Some ch \<longrightarrow>
        chan_index ch = of_nat i \<and> (i \<notin> X \<longrightarrow> chan_wf (recv_window (cn_opts c)) ch))"

lemma length_filter_map_id: "length (filter P xs) = length (filter (\<lambda>b. b) (map P xs))"
  by (induction xs) simp_all

lemma chan_wf_win: "win ch = win ch' \<Longrightarrow> chan_wf W ch = chan_wf W ch'"
  by (simp add: win_def chan_wf_def bufs_wf_def chan_budget_def)

lemma conn_ok_keeps:
  assumes "conn_ok X a" "keeps win a c"
  shows "conn_ok X c"
proof -
  have m: "map (map_option win) (cn_channels c) = map (map_option win) (cn_channels a)" and st: "chan_setup c = chan_setup a"
    using assms(2) by (simp_all add: keeps_def)
  have len: "length (cn_channels c) = length (cn_channels a)" using m by (metis length_map)
  have nth: "map_option win (cn_channels c ! i) = map_option win (cn_channels a ! i)" if "i < length (cn_channels c)" for i
    using m that len by (metis nth_map)
  have "map (\<lambda>x. x \<noteq> None) (cn_channels c) = map (\<lambda>x. x \<noteq> None) (cn_channels a)"
  proof (rule nth_equalityI)
    fix i assume "i < length (map (\<lambda>x. x \<noteq> None) (cn_channels c))"
    then show "map (\<lambda>x. x \<noteq> None) (cn_channels c) ! i = map (\<lambda>x. x \<noteq> None) (cn_channels a) ! i"
      using nth [of i] len by (cases "cn_channels c ! i"; cases "cn_channels a ! i") simp_all
  qed (simp add: len)
  then have cnt: "length (filter (\<lambda>x. x \<noteq> None) (cn_channels c)) = length (filter (\<lambda>x. x \<noteq> None) (cn_channels a))"
    by (metis length_filter_map_id)
  have "chan_index ch = of_nat i \<and> (i \<notin> X \<longrightarrow> chan_wf (recv_window (cn_opts c)) ch)"
    if i: "i < length (cn_channels c)" "cn_channels c ! i = Some ch" for i ch
  proof -
    obtain ch' where ch': "cn_channels a ! i = Some ch'" "win ch = win ch'" using nth [OF i(1)] i(2) by (cases "cn_channels a ! i") auto
    then have "chan_index ch' = of_nat i \<and> (i \<notin> X \<longrightarrow> chan_wf (recv_window (cn_opts a)) ch')"
      using assms(1) i(1) len by (simp add: conn_ok_def)
    then show ?thesis using ch'(2) chan_wf_win [OF ch'(2)] chan_setup_opts [OF st] by (simp add: win_def)
  qed
  then show ?thesis using assms(1) st len cnt by (auto simp: conn_ok_def chan_setup_def)
qed

lemma conn_ok_at: "conn_ok X c \<Longrightarrow> chan_at i c = Inr ch \<Longrightarrow> chan_index ch = i \<and> (unat i \<notin> X \<longrightarrow> chan_wf (recv_window (cn_opts c)) ch)"
  by (auto simp: conn_ok_def chan_at_eq)

lemma conn_ok_upd:
  assumes "conn_ok X c" "chan_at i c = Inr ch" "cn_channels c' = (cn_channels c)[unat i := Some ch']" "chan_setup c' = chan_setup c"
    "chan_index ch' = i" "chan_wf (recv_window (cn_opts c)) ch' \<or> unat i \<in> Y" "X \<subseteq> Y"
  shows "conn_ok Y c'"
proof -
  have i: "unat i < length (cn_channels c)" "cn_channels c ! unat i \<noteq> None" using assms(2) by (simp_all add: chan_at_eq)
  have "map (\<lambda>x. x \<noteq> None) (cn_channels c') = map (\<lambda>x. x \<noteq> None) (cn_channels c)"
    using i by (simp add: assms(3) map_update list_update_same_conv)
  then have cnt: "length (filter (\<lambda>x. x \<noteq> None) (cn_channels c')) = length (filter (\<lambda>x. x \<noteq> None) (cn_channels c))"
    by (metis length_filter_map_id)
  show ?thesis unfolding conn_ok_def
    using assms(1,4-7) i cnt chan_setup_opts [OF assms(4)] unfolding conn_ok_def
    by (auto simp: assms(3) nth_list_update chan_setup_def)
qed

lemma conn_ok_remove:
  assumes "conn_ok X c" "chan_at i c = Inr ch" "X \<subseteq> {unat i}"
  shows "conn_ok {} ((set_chan i None c)\<lparr>cn_chancount := cn_chancount c - 1\<rparr>)"
proof -
  have i: "unat i < length (cn_channels c)" "cn_channels c ! unat i = Some ch" using assms(2) by (simp_all add: chan_at_eq)
  let ?P = "\<lambda>x :: 'a Channel option. x \<noteq> None"
  have split: "cn_channels c = take (unat i) (cn_channels c) @ Some ch # drop (Suc (unat i)) (cn_channels c)" using i by (metis id_take_nth_drop)
  have upd: "(cn_channels c)[unat i := None] = take (unat i) (cn_channels c) @ None # drop (Suc (unat i)) (cn_channels c)"
    using i(1) by (simp add: upd_conv_take_nth_drop)
  have cnt: "length (filter ?P (cn_channels c)) = Suc (length (filter ?P ((cn_channels c)[unat i := None])))"
    unfolding upd by (subst (1) split) simp
  show ?thesis unfolding conn_ok_def
    using assms(1,3) cnt i(1) unfolding conn_ok_def by (auto simp: nth_list_update split: if_splits)
qed

lemma conn_ok_add:
  assumes "conn_ok {} c" "unat i < length (cn_channels c)" "cn_channels c ! unat i = None" "chan_index ch = i" "chan_wf (recv_window (cn_opts c)) ch"
  shows "conn_ok {} ((set_chan i (Some ch) c)\<lparr>cn_chancount := cn_chancount c + 1\<rparr>)"
proof -
  let ?P = "\<lambda>x :: 'a Channel option. x \<noteq> None"
  have split: "cn_channels c = take (unat i) (cn_channels c) @ None # drop (Suc (unat i)) (cn_channels c)" using assms(2,3) by (metis id_take_nth_drop)
  have upd: "(cn_channels c)[unat i := Some ch] = take (unat i) (cn_channels c) @ Some ch # drop (Suc (unat i)) (cn_channels c)"
    using assms(2) by (simp add: upd_conv_take_nth_drop)
  have cnt: "length (filter ?P ((cn_channels c)[unat i := Some ch])) = Suc (length (filter ?P (cn_channels c)))"
    unfolding upd by (subst (3) split) simp
  show ?thesis unfolding conn_ok_def
    using assms(1,2,4,5) cnt unfolding conn_ok_def by (auto simp: nth_list_update split: if_splits)
qed

lemma first_free_le: "first_free xs \<le> length xs"
  by (induction xs rule: first_free.induct) auto

lemma first_free_nth: "first_free xs < length xs \<Longrightarrow> xs ! first_free xs = None"
  by (induction xs rule: first_free.induct) auto

lemma new_Channel_wf:
  assumes "cbuf_new W = Inr wb" "0 < W"
  shows "chan_wf W (new_Channel i remote type tw tm W wb)"
proof -
  have "W \<le> MAX_CBUF_SIZE" using assms(1) by (simp add: cbuf_new_def split: if_splits)
  then have "cbuf_wf wb \<and> c_size wb = W \<and> c_used wb = 0" using assms by (auto simp: cbuf_new_def cbuf_wf_def u32_order word_le_nat_alt)
  then show ?thesis by (simp add: chan_wf_def bufs_wf_def chan_budget_def new_Channel_def held_def)
qed

text \<open>The limit on the number of channels, and where a new channel goes.\<close>

lemma newchannel_outcome:
  fixes c :: "'t conn"
  assumes "conn_ok {} c" "newchannel remote type tw tm c = Inr (r, c')"
  shows "conn_ok {} c' \<and> cn_opts c' = cn_opts c \<and> cn_ses c' = cn_ses c \<and> cn_trace c' = cn_trace c \<and>
    (case r of None \<Rightarrow> c' = c \<and> first_free (cn_channels c) = 1000
     | Some i \<Rightarrow> unat i = first_free (cn_channels c) \<and> unat i < 1000 \<and>
         (\<exists>wb. chan_at i c' = Inr (new_Channel i remote type tw tm (recv_window (cn_opts c)) wb)))"
proof -
  let ?n = "length (cn_channels c)" and ?i = "first_free (cn_channels c)" and ?W = "recv_window (cn_opts c)"
  have n: "cn_chansize c = of_nat ?n" "?n \<le> 1000" "?n mod 3 = 1" "0 < ?W" using assms(1) by (simp_all add: conn_ok_def)
  have i: "?i \<le> ?n" by (rule first_free_le)
  have ui: "unat (of_nat ?i :: u32) = ?i" "unat (cn_chansize c) = ?n" using i n by (simp_all add: u32_simps)
  have full: "(of_nat ?i = cn_chansize c) = (?i = ?n)" by (metis ui word_unat_eq_iff)
  have mx: "(cn_chansize c \<ge> MAX_CHANNELS) = (?n = 1000)" using n(2) ui(2) by (auto simp: word_le_nat_alt)
  show ?thesis
  proof (cases "?i = ?n \<and> ?n = 1000")
    case True
    then have "r = None" "c' = c" using assms(2) full mx by (simp_all add: newchannel_def Let_def)
    then show ?thesis using True assms(1) by simp
  next
    case False
    let ?c = "if ?i = ?n then c\<lparr>cn_channels := cn_channels c @ replicate 3 None, cn_chansize := cn_chansize c + CHAN_EXTEND_SIZE\<rparr> else c"
    obtain wb where wb: "cbuf_new ?W = Inr wb" "r = Some (of_nat ?i)"
      "c' = (set_chan (of_nat ?i) (Some (new_Channel (of_nat ?i) remote type tw tm ?W wb)) ?c)\<lparr>cn_chancount := cn_chancount ?c + 1\<rparr>"
      using assms(2) False full mx by (auto simp: newchannel_def Let_def rbind_eq_Inr)
    have small: "?i = ?n \<Longrightarrow> ?n \<le> 997" using False n(2,3) by presburger
    have ok: "conn_ok {} ?c"
    proof (cases "?i = ?n")
      case True
      then show ?thesis using assms(1) small by (auto simp: conn_ok_def nth_append split: if_splits)
    qed (simp add: assms(1))
    have "?i < 1000 \<and> ?i < length (cn_channels ?c)"
    proof (cases "?i = ?n")
      case True
      then show ?thesis using small by simp
    next
      case f: False
      then show ?thesis using i n(2) by simp
    qed
    then have lt: "?i < length (cn_channels ?c)" "?i < 1000" by blast+
    have none: "cn_channels ?c ! ?i = None"
    proof (cases "?i = ?n")
      case True
      then show ?thesis by (simp add: nth_append)
    next
      case f: False
      then have "?i < ?n" using i by simp
      then show ?thesis using first_free_nth f by simp
    qed
    have wf: "chan_wf (recv_window (cn_opts ?c)) (new_Channel (of_nat ?i) remote type tw tm ?W wb :: 't Channel)"
      by (simp add: new_Channel_wf [OF wb(1) n(4)])
    have "conn_ok {} c'" unfolding wb(3)
      by (rule conn_ok_add [OF ok _ _ _ wf]) (use lt none ui(1) in \<open>simp_all add: new_Channel_def\<close>)
    then show ?thesis using wb lt ui(1) by (auto simp: chan_at_eq set_chan_def)
  qed
qed

lemma res_post_rd: "(\<And>bs. r = Rd bs \<Longrightarrow> res_post P (f bs)) \<Longrightarrow> (r = Rd_again \<Longrightarrow> res_post P a) \<Longrightarrow> (r = Rd_fail \<Longrightarrow> res_post P b) \<Longrightarrow>
    res_post P (case r of Rd bs \<Rightarrow> f bs | Rd_again \<Rightarrow> a | Rd_fail \<Rightarrow> b)"
  by (cases r) simp_all

section \<open>The contract of channel types\<close>

locale chan_handlers =
  fixes types :: "'t chan_types"
  assumes init_keeps: "inithandler (types n) = Some f \<Longrightarrow> res_post (\<lambda>(r, c'). keeps core c c') (f i c)"
    and check_keeps: "checkclose (types n) = Some g \<Longrightarrow> res_post (\<lambda>(r, c'). keeps core c c') (g i c)"
    and req_keeps: "reqhandler (types n) = Some h \<Longrightarrow> res_post (keeps core c) (h i c)"
    and close_keeps: "closehandler (types n) = Some h \<Longrightarrow> res_post (keeps core c) (h i c)"
    and cleanup_keeps: "cleanup (types n) = Some h \<Longrightarrow> res_post (keeps core c) (h i c)"
begin

lemma call_keeps:
  assumes "h = closehandler (types n) \<or> h = cleanup (types n)" "keeps core a c"
  shows "res_post (keeps core a) (call_opt h i c)"
proof (cases h)
  case None
  then show ?thesis using assms(2) by (simp add: call_opt_def)
next
  case (Some f)
  then have "res_post (keeps core c) (f i c)" using assms(1) close_keeps cleanup_keeps by metis
  then show ?thesis using Some assms(2) by (auto simp: call_opt_def intro: keeps_trans elim: res_post_mono)
qed

lemma call_init_keeps: "keeps core a c \<Longrightarrow> res_post (\<lambda>(r, c). keeps core a c) (call_init types i c)"
  unfolding call_init_def
  by (intro res_post_intros) (auto elim!: res_post_mono [OF init_keeps] intro: keeps_trans)

lemma allowed_keeps: "keeps core a c \<Longrightarrow> res_post (\<lambda>(r, c). keeps core a c) (close_is_allowed types i c)"
  unfolding close_is_allowed_def
  by (intro res_post_intros) (auto elim!: res_post_mono [OF check_keeps] intro: keeps_trans)

lemma core_to_win: "res_post (keeps core c) m \<Longrightarrow> keeps win a c \<Longrightarrow> res_post (keeps win a) m"
  by (auto elim!: res_post_mono intro: keeps_trans keeps_core_win)

lemma core_to_win2: "res_post (\<lambda>(x, c'). keeps core c c') m \<Longrightarrow> keeps win a c \<Longrightarrow> res_post (\<lambda>(x, c'). keeps win a c') m"
  by (auto elim!: res_post_mono intro: keeps_trans keeps_core_win)

lemma send_close_keeps: "keeps win a c \<Longrightarrow> res_post (keeps win a) (send_msg_channel_close types i c)"
  unfolding send_msg_channel_close_def
  by (rule res_post_rbind res_post_call [OF core_to_win [OF call_keeps [OF disjI1 [OF refl] keeps_refl]]]
      res_post_call [OF keeps_ses] res_post_call [OF keeps_upd] res_post_call [OF core_to_win [OF keeps_own_fd [OF keeps_refl]]]
      core_to_win [OF keeps_own_fd [OF keeps_refl]] | assumption | simp add: win_def; fail)+

lemma send_eof_keeps: "keeps win a c \<Longrightarrow> res_post (keeps win a) (send_msg_channel_eof i c)"
  unfolding send_msg_channel_eof_def
  by (rule res_post_rbind res_post_call [OF keeps_ses] keeps_upd | assumption | simp add: win_def; fail)+

lemma remove_ok:
  assumes "conn_ok X c" "X \<subseteq> {unat i}"
  shows "res_post (conn_ok {}) (remove_channel types i c)"
proof (rule res_postI)
  fix c' assume run: "remove_channel types i c = Inr c'"
  define fin where "fin = (\<lambda>c. rbind (chan_at i c) (\<lambda>ch.
     let c = (if conn_pending ch then emit (Ev_cancel_connect i) c else c); c = set_chan (chan_index ch) None c in
     Inr (update_channel_prio (c\<lparr>cn_chancount := cn_chancount c - 1\<rparr>))) :: 't conn res)"
  obtain ch where ch: "chan_at i c = Inr ch" using run by (auto simp: remove_channel_def upd_chan_def rbind_eq_Inr)
  let ?ch = "ch\<lparr>writebuf := None, extrabuf := None\<rparr>" and ?c = "set_chan i (Some (ch\<lparr>writebuf := None, extrabuf := None\<rparr>)) c"
  have len: "unat i < length (cn_channels c)" using ch by (simp add: chan_at_eq)
  let ?k = "m_close (errfd ?ch) (m_close (readfd ?ch) (m_close (writefd ?ch) ?c))"
  have at: "chan_at i ?c = Inr ?ch" using len by simp
  have "rbind (call_opt (cleanup (types (chan_type ?ch))) i ?k) fin = Inr c'"
    using run unfolding remove_channel_def fin_def upd_chan_def Let_def by (simp only: ch at rbind_simps)
  then obtain c3 where c3: "call_opt (cleanup (types (chan_type ?ch))) i ?k = Inr c3" "fin c3 = Inr c'" unfolding rbind_eq_Inr by blast
  have "conn_ok {unat i} ?c"
    by (rule conn_ok_upd [OF assms(1) ch, where ch' = ?ch]) (use assms(2) conn_ok_at [OF assms(1) ch] in simp_all)
  moreover have "keeps core ?c c3" using res_postD [OF call_keeps c3(1), of "chan_type ?ch" ?c] by simp
  ultimately have ok: "conn_ok {unat i} c3" using conn_ok_keeps keeps_core_win by blast
  obtain ch3 where ch3: "chan_at i c3 = Inr ch3" using c3(2) by (auto simp: fin_def rbind_eq_Inr)
  let ?d = "if conn_pending ch3 then emit (Ev_cancel_connect i) c3 else c3"
  have c': "c' = update_channel_prio ((set_chan i None ?d)\<lparr>cn_chancount := cn_chancount ?d - 1\<rparr>)"
    using c3(2) ch3 conn_ok_at [OF ok ch3] by (simp add: fin_def Let_def)
  have "conn_ok {unat i} ?d" "chan_at i ?d = Inr ch3" using ok ch3 conn_ok_keeps [OF ok, of ?d] by simp_all
  from conn_ok_remove [OF this subset_refl] show "conn_ok {} c'" unfolding c' by (rule conn_ok_keeps) simp
qed

lemma remove_all_ok: "conn_ok {} c \<Longrightarrow> res_post (conn_ok {}) (remove_channel types i c)"
  by (rule remove_ok [OF _ empty_subsetI])

lemma finish_close_keeps: "keeps win a c \<Longrightarrow> res_post (keeps win a) (finish_close types i allowed c)"
  unfolding finish_close_def
  by (rule res_post_rbind res_post_call [where Q = "keeps win a"] res_post_if send_eof_keeps send_close_keeps | assumption
      | simp; fail)+

lemma close_writefd_keeps: "keeps win a c \<Longrightarrow> res_post (keeps win a) (close_writefd types i allowed c)"
  unfolding close_writefd_def
  by (rule res_post_rbind res_post_if core_to_win [OF keeps_close_fd [OF keeps_refl]] | assumption | simp; fail)+

lemma check_close_ok:
  assumes "conn_ok {} c"
  shows "res_post (conn_ok {}) (check_close types i c)"
proof (rule res_postI)
  fix c' assume run: "check_close types i c = Inr c'"
  define more where "more = (\<lambda>allowed c. rbind (chan_at i c) (\<lambda>ch.
     rbind (if recv_close ch then write_pending ch else Inr True) (\<lambda>pending.
     if \<not> pending \<and> allowed then
       rbind (if \<not> sent_close ch then send_msg_channel_close types i c else Inr c) (remove_channel types i)
     else rbind (close_writefd types i allowed c) (finish_close types i allowed))) :: 't conn res)"
  have eq: "check_close types i c = rbind (close_is_allowed types i c) (\<lambda>(allowed, c). rbind (flush_fds i c) (more allowed))"
    by (simp only: check_close_def more_def)
  obtain allowed c1 c2 where c1: "close_is_allowed types i c = Inr (allowed, c1)" and c2: "flush_fds i c1 = Inr c2" "more allowed c2 = Inr c'"
    using run eq by (auto simp: rbind_eq_Inr)
  have k: "keeps win c c2"
    using res_postD [OF allowed_keeps [OF keeps_refl] c1] res_postD [OF keeps_flush c2(1)] by (simp add: keeps_core_win)
  have ok: "conn_ok {} c2" using conn_ok_keeps [OF assms k] .
  have "res_post (conn_ok {}) (more allowed c2)"
    unfolding more_def
  proof (intro res_post_rbind res_post_if)
    fix ch c3 assume "(if \<not> sent_close ch then send_msg_channel_close types i c2 else Inr c2) = Inr c3"
    then have "keeps win c2 c3" using res_postD [OF send_close_keeps [OF keeps_refl]] by (auto split: if_splits)
    then show "res_post (conn_ok {}) (remove_channel types i c3)" using remove_ok conn_ok_keeps [OF ok] by blast
  next
    fix c3 assume "close_writefd types i allowed c2 = Inr c3"
    then have "keeps win c2 c3" by (rule res_postD [OF close_writefd_keeps [OF keeps_refl]])
    then show "res_post (conn_ok {}) (finish_close types i allowed c3)"
      using finish_close_keeps [of c2 c3 i allowed] conn_ok_keeps [OF ok] by (auto elim: res_post_mono)
  qed
  then show "conn_ok {} c'" using c2(2) by (rule res_postD)
qed

lemma ok_keeps: "conn_ok {} a \<Longrightarrow> res_post (keeps win a) m \<Longrightarrow> res_post (conn_ok {}) m"
  by (auto elim!: res_post_mono intro: conn_ok_keeps)

lemma pick_ok: "conn_ok {} c \<Longrightarrow> (\<And>i c. conn_ok {} c \<Longrightarrow> res_post (conn_ok {}) (f i c)) \<Longrightarrow>
    res_post (conn_ok {}) (rbind (getchannel_msg c) (\<lambda>(i, c). f i c))"
  by (rule res_post_call [OF keeps_pick [where p = win, OF keeps_refl]]) (auto intro: conn_ok_keeps split: prod.splits)

lemma upd_ok: "conn_ok {} c \<Longrightarrow> (\<And>ch. win (f ch) = win ch) \<Longrightarrow> (\<And>c. conn_ok {} c \<Longrightarrow> res_post P (g c)) \<Longrightarrow>
    res_post P (rbind (upd_chan i f c) g)"
  by (rule res_post_call [OF keeps_upd [where p = win, OF keeps_refl]]) (auto intro: conn_ok_keeps)

lemma read_ok: "conn_ok {} c \<Longrightarrow> (\<And>x c. conn_ok {} c \<Longrightarrow> res_post P (g x c)) \<Longrightarrow> res_post P (rbind (on_ses_get f c) (\<lambda>(x, c). g x c))"
  by (rule res_post_call [OF keeps_read [where p = win, OF keeps_refl]]) (auto intro: conn_ok_keeps split: prod.splits)

lemma send_ok: "conn_ok {} c \<Longrightarrow> res_post (conn_ok {}) (on_ses f c)"
  by (rule ok_keeps [OF _ keeps_ses [where p = win, OF keeps_refl]])

lemma init_ok: "conn_ok {} c \<Longrightarrow> (\<And>r c. conn_ok {} c \<Longrightarrow> res_post P (g r c)) \<Longrightarrow> res_post P (rbind (call_init types i c) (\<lambda>(r, c). g r c))"
  by (rule res_post_call [OF core_to_win2 [OF call_init_keeps [OF keeps_refl] keeps_refl]]) (auto intro: conn_ok_keeps split: prod.splits)

lemma prio_ok: "conn_ok {} c \<Longrightarrow> conn_ok {} (update_channel_prio c)"
  by (rule conn_ok_keeps [where a = c]) simp_all

lemma eof_ok: "conn_ok {} c \<Longrightarrow> res_post (conn_ok {}) (recv_msg_channel_eof types c)"
  unfolding recv_msg_channel_eof_def by (intro pick_ok upd_ok check_close_ok) (simp_all add: win_def)

lemma close_ok: "conn_ok {} c \<Longrightarrow> res_post (conn_ok {}) (recv_msg_channel_close types c)"
  unfolding recv_msg_channel_close_def by (intro pick_ok upd_ok check_close_ok) (simp_all add: win_def)

lemma failure_send_ok: "conn_ok {} c \<Longrightarrow> res_post (conn_ok {}) (send_msg_channel_failure i c)"
  unfolding send_msg_channel_failure_def by (intro res_post_rbind res_post_if send_ok) simp_all

lemma request_ok: "conn_ok {} c \<Longrightarrow> res_post (conn_ok {}) (recv_msg_channel_request types c)"
  unfolding recv_msg_channel_request_def
proof (erule pick_ok, rule res_post_rbind, rule res_post_option)
  fix i ch f and c :: "'t conn" assume "conn_ok {} c" "reqhandler (types (chan_type ch)) = Some f"
  then show "res_post (conn_ok {}) (f i c)" using core_to_win [OF req_keeps keeps_refl] by (intro ok_keeps)
next
  fix i and c :: "'t conn" assume "conn_ok {} c"
  then show "res_post (conn_ok {}) (rbind (on_ses (\<lambda>s. rbind (deref (s_payload s)) (\<lambda>b. rbind (buf_eatstring b) (\<lambda>b. Inr (s\<lparr>s_payload := Some b\<rparr>)))) c) (\<lambda>c.
      rbind (on_ses_get (on_payload buf_getbool) c) (\<lambda>(wantreply, c). if wantreply then send_msg_channel_failure i c else Inr c)))"
    by (intro res_post_call [OF send_ok] read_ok res_post_if failure_send_ok) simp_all
qed

lemma window_adjust_ok: "conn_ok {} c \<Longrightarrow> res_post (conn_ok {}) (recv_msg_channel_window_adjust c)"
  unfolding recv_msg_channel_window_adjust_def
  by (intro pick_ok read_ok ok_keeps [OF _ keeps_upd [where p = win, OF keeps_refl]]) (simp_all add: win_def Let_def)

lemma confirm_send_ok: "conn_ok {} c \<Longrightarrow> res_post (conn_ok {}) (send_msg_channel_open_confirmation i w m c)"
  unfolding send_msg_channel_open_confirmation_def by (intro res_post_rbind send_ok)

lemma new_ok:
  "conn_ok {} c \<Longrightarrow> (\<And>r c. conn_ok {} c \<Longrightarrow> res_post P (g r c)) \<Longrightarrow> res_post P (rbind (newchannel remote type tw tm c) (\<lambda>(r, c). g r c))"
  by (intro res_post_rbind res_post_prod) (use newchannel_outcome in blast)

lemma open_ok: "conn_ok {} c \<Longrightarrow> res_post (conn_ok {}) (recv_msg_channel_open types c)"
  unfolding recv_msg_channel_open_def Let_def open_channel_def send_msg_channel_open_failure_def
  by (rule read_ok new_ok res_post_if send_ok init_ok res_post_option res_post_call [OF remove_all_ok] confirm_send_ok prio_ok res_post_rbind
      | assumption | simp; fail)+

lemma maxfd_ok: "conn_ok {} c \<Longrightarrow> conn_ok {} (c\<lparr>cn_maxfd := f\<rparr>)"
  by (rule conn_ok_keeps [where a = c]) simp_all

lemma open_init_ok: "conn_ok {} c \<Longrightarrow> res_post (\<lambda>(r, c). conn_ok {} c) (send_msg_channel_open_init fd type c)"
  unfolding send_msg_channel_open_init_def Let_def
  by (intro new_ok res_post_option upd_ok res_post_rbind [of "chan_at _ _"] res_post_call [OF send_ok]) (simp_all add: win_def maxfd_ok)

lemma reply_ok:
  assumes "conn_ok {} c"
  shows "res_post (conn_ok {}) (recv_msg_channel_open_confirmation types c)" "res_post (conn_ok {}) (recv_msg_channel_open_failure types c)"
proof -
  show "res_post (conn_ok {}) (recv_msg_channel_open_confirmation types c)"
    unfolding recv_msg_channel_open_confirmation_def
    by (intro pick_ok [OF assms] res_post_rbind [of "chan_at _ _"] res_post_if read_ok upd_ok init_ok remove_all_ok)
      (simp_all add: win_def prio_ok)
  show "res_post (conn_ok {}) (recv_msg_channel_open_failure types c)"
    unfolding recv_msg_channel_open_failure_def
    by (intro pick_ok [OF assms] res_post_rbind [of "chan_at _ _"] res_post_if upd_ok remove_all_ok) (simp_all add: win_def)
qed

lemma connect_done_ok: "conn_ok {} c \<Longrightarrow> res_post (conn_ok {}) (channel_connect_done types success sock err i c)"
  unfolding channel_connect_done_def send_msg_channel_open_failure_def
  by (intro res_post_if upd_ok res_post_rbind [of "chan_at _ _"] confirm_send_ok res_post_call [OF send_ok] remove_all_ok) (simp_all add: win_def)

lemma writechannel_ok:
  assumes "conn_ok {} c"
  shows "res_post (\<lambda>(r, c). conn_ok {} c) (writechannel i fd ext None c)"
proof (rule res_postI)
  fix x assume run: "writechannel i fd ext None c = Inr x"
  obtain r c' where x: "x = (r, c')" by (cases x)
  obtain ch cb where ch: "chan_at i c = Inr ch" "chan_buf ext ch = Some cb"
    using run by (auto simp: writechannel_def writechannel_writev_def rbind_eq_Inr deref_eq_Inr)
  let ?W = "recv_window (cn_opts c)"
  have wf: "chan_wf ?W ch" "chan_index ch = i" using conn_ok_at [OF assms ch(1)] by simp_all
  then have "bufs_wf ?W ch" "chan_budget ch + length (more_data None) \<le> unat ?W" by (simp_all add: chan_wf_def more_data_def)
  then have "write_result i fd ext [] ?W ch cb c r c'"
    using writechannel_result [OF ch _ _ refl, of None fd r c'] run x by (simp add: more_data_def)
  then obtain ch' where ch': "cn_channels c' = (cn_channels c)[unat i := Some ch']" "chan_setup c' = chan_setup c" "chan_index ch' = i" "bufs_wf ?W ch'"
      "chan_budget ch' = chan_budget ch"
    using wf(2) unfolding write_result_def by auto
  then have "chan_wf ?W ch'" using wf(1) by (simp add: chan_wf_def)
  from conn_ok_upd [OF assms ch(1) ch'(1-3) disjI1 [OF this] subset_refl] show "case x of (r, c) \<Rightarrow> conn_ok {} c" by (simp add: x)
qed

lemma send_data_keeps: "keeps win a c \<Longrightarrow> res_post (keeps win a) (send_msg_channel_data i ext c)"
  unfolding send_msg_channel_data_def sys_read_def Let_def prod.case
  by (rule res_post_if res_post_rd res_post_call [OF keeps_ses] keeps_ses res_post_call [OF core_to_win [OF keeps_close_fd [OF keeps_refl]]]
      res_post_call [OF keeps_upd] res_post_rbind | assumption | simp add: win_def; fail)+

lemma recv_data_ok:
  assumes "conn_ok {} c"
  shows "res_post (conn_ok {}) (common_recv_msg_channel_data i fd ext c)"
proof (rule res_postI)
  fix c' assume run: "common_recv_msg_channel_data i fd ext c = Inr c'"
  let ?W = "recv_window (cn_opts c)"
  obtain ch where ch: "chan_at i c = Inr ch" using run by (auto simp: common_recv_msg_channel_data_def rbind_eq_Inr)
  have wf: "chan_wf ?W ch" "chan_index ch = i" using conn_ok_at [OF assms ch] by simp_all
  show "conn_ok {} c'"
  proof (cases "chan_buf ext ch = None \<or> fd < 0")
    case True
    then show ?thesis using run ch assms by (auto simp: common_recv_msg_channel_data_def split: if_splits option.splits)
  next
    case False
    then obtain cb where cb: "chan_buf ext ch = Some cb" "(fd < 0) = False" by auto
    have "\<not> recv_eof ch" using run ch by (auto simp: common_recv_msg_channel_data_def)
    then obtain datalen b where g: "on_ses_get (on_payload buf_getint) c = Inr (datalen, c\<lparr>cn_ses := (cn_ses c)\<lparr>s_payload := Some b\<rparr>\<rparr>)"
      using run ch cb by (auto simp: common_recv_msg_channel_data_def rbind_eq_Inr on_ses_get_def on_payload_eq)
    let ?ch = "ch\<lparr>recvwindow := recvwindow ch - datalen\<rparr>" and ?k = "c\<lparr>cn_ses := (cn_ses c)\<lparr>s_payload := Some b\<rparr>\<rparr>"
    let ?c = "set_chan i (Some ?ch) ?k"
    obtain d where d: "buf_peek b datalen = Inr d" "datalen \<le> recvwindow ch"
      "rbind (writechannel i fd ext (Some d) ?c) (store_received i ext datalen) = Inr c'"
      using run ch cb g \<open>\<not> recv_eof ch\<close>
      by (simp add: common_recv_msg_channel_data_def upd_chan_def split: if_splits) (auto simp: rbind_eq_Inr [of "buf_peek _ _"] dassert_def split: if_splits)
    then obtain r c2 where w: "writechannel i fd ext (Some d) ?c = Inr (r, c2)" "store_received i ext datalen (r, c2) = Inr c'"
      by (auto simp: rbind_eq_Inr)
    have len: "length d = unat datalen" using d(1) by (auto simp: buf_peek_def rbind_eq_Inr mem_read_eq_Inr)
    have rw: "unat (recvwindow ch - datalen) + unat datalen = unat (recvwindow ch)" using d(2) by (simp add: unat_minus_u32 word_le_nat_alt)
    have i: "unat i < length (cn_channels c)" using ch by (simp add: chan_at_eq)
    have at: "chan_at i ?c = Inr ?ch" "chan_buf ext ?ch = Some cb" using i cb by (auto simp: chan_buf_def split: if_splits)
    have wf1: "bufs_wf ?W ?ch" "chan_budget ?ch + length (more_data (Some d)) \<le> unat ?W"
      using wf(1) rw len by (simp_all add: chan_wf_def bufs_wf_def chan_budget_def more_data_def)
    have "write_result i fd ext d ?W ?ch cb ?c r c2"
      using writechannel_result [OF at wf1 _ w(1)] by (simp add: more_data_def)
    then obtain ch' n where ch': "cn_channels c2 = (cn_channels c)[unat i := Some ch']" "chan_setup c2 = chan_setup c" "chan_index ch' = i" "bufs_wf ?W ch'"
        and n: "n \<le> length d" "chan_budget ch' = chan_budget ?ch + n" "snd r = of_nat n \<or> r = (False, 0)"
      using wf(2) unfolding write_result_def by fastforce
    have at2: "chan_at i c2 = Inr ch'" using ch'(1) i by (simp add: chan_at_eq)
    have ok2: "conn_ok {} c2"
      using conn_ok_upd [OF assms ch ch'(1-3), of "{}"] ch'(4) n(1,2) wf1(2) by (simp add: chan_wf_def more_data_def)
    show ?thesis
    proof (cases "fst r")
      case False
      then show ?thesis using w(2) ok2 by (cases r) (auto simp: store_received_def rbind_eq_Inr elim: conn_ok_keeps)
    next
      case True
      then obtain cb' pl pl' cb'' where s: "chan_buf ext ch' = Some cb'" "store_loop (datalen - of_nat n) cb' pl = Inr (cb'', pl')"
        "c' = set_chan i (Some (set_buf ext cb'' ch')) (c2\<lparr>cn_ses := (cn_ses c2)\<lparr>s_payload := Some pl'\<rparr>\<rparr>)"
        using w(2) at2 n(3) by (cases r) (auto simp: store_received_def rbind_eq_Inr deref_eq_Inr upd_chan_def)
      have uo: "unat (of_nat n :: u32) = n" using n(1) len unat_u32_lt [of datalen] by (intro unat_of_nat_u32) linarith
      have un: "unat (datalen - of_nat n) = unat datalen - n"
        using n(1) len uo by (subst unat_minus_u32) (simp_all add: word_le_nat_alt)
      have cbw: "cbuf_wf cb'" "c_size cb' = ?W" using bufs_wf_buf [OF ch'(4) s(1)] by simp_all
      note st = store_loop_wf [OF cbw(1) s(2)]
      note sb = set_buf_wf [OF ch'(4) s(1), of cb'']
      have "chan_wf ?W (set_buf ext cb'' ch')" using sb st n un len wf1(2) by (simp add: chan_wf_def more_data_def)
      then show ?thesis
        by (intro conn_ok_upd [OF ok2 at2, where ch' = "set_buf ext cb'' ch'"]) (simp_all add: s(3) ch'(3) chan_setup_opts [OF ch'(2)])
    qed
  qed
qed

lemma data_ok: "conn_ok {} c \<Longrightarrow> res_post (conn_ok {}) (recv_msg_channel_data c)"
  unfolding recv_msg_channel_data_def by (intro pick_ok res_post_rbind recv_data_ok)

lemma io_step_ok:
  assumes "conn_ok {} (snd r)" "\<And>ch. res_post (conn_ok {}) (act ch (snd r))"
  shows "res_post (\<lambda>r. conn_ok {} (snd r)) (io_step i guard act r)"
proof (cases r)
  case (Pair b c)
  show ?thesis unfolding io_step_def Pair prod.case
    by (intro res_post_rbind [of "chan_at _ _"] res_post_if res_post_call [OF assms(2) [unfolded Pair snd_conv]]) (use assms(1) Pair in simp_all)
qed

lemma channel_io_ok: "conn_ok {} c \<Longrightarrow> res_post (conn_ok {}) (channel_io types readfds writefds i c)"
  unfolding channel_io_def
  by (rule res_post_call [OF io_step_ok] ok_keeps [OF _ send_data_keeps [OF keeps_refl]] res_post_call [OF writechannel_ok] res_post_if check_close_ok
      res_post_prod | assumption | simp; fail)+

lemma channelio_loop_ok: "conn_ok {} c \<Longrightarrow> res_post (conn_ok {}) (channelio_loop types readfds writefds is c)"
proof (induction "is" arbitrary: c)
  case (Cons i "is")
  have "res_post (conn_ok {}) (if i < length (cn_channels c) \<and> cn_channels c ! i \<noteq> None then channel_io types readfds writefds (of_nat i) c else Inr c)"
    using Cons.prems channel_io_ok by auto
  then show ?case unfolding channelio_loop.simps by (rule res_post_call) (rule Cons.IH)
qed simp

lemma channelio_ok: "conn_ok {} c \<Longrightarrow> res_post (conn_ok {}) (channelio types readfds writefds c)"
  unfolding channelio_def by (rule channelio_loop_ok)

lemmas handlers_ok = eof_ok close_ok request_ok window_adjust_ok open_ok reply_ok data_ok connect_done_ok channelio_ok

end

section \<open>Runs\<close>

text \<open>What can happen to the channels of a connection: a message with its payload, or something local.\<close>

datatype chan_event =
    Ch_open buffer | Ch_confirmation buffer | Ch_open_failure buffer | Ch_window_adjust buffer | Ch_data buffer
  | Ch_eof buffer | Ch_close buffer | Ch_request buffer
  | Ch_io "int list" "int list" | Ch_connected bool int bytes u32 | Ch_open_init int bytes

definition received :: "buffer \<Rightarrow> 't conn \<Rightarrow> 't conn" where
  "received b c = c\<lparr>cn_ses := (cn_ses c)\<lparr>s_payload := Some b\<rparr>\<rparr>"

fun chan_exec :: "'t chan_types \<Rightarrow> chan_event \<Rightarrow> 't conn \<Rightarrow> 't conn res" where
  "chan_exec types (Ch_open b) c = recv_msg_channel_open types (received b c)"
| "chan_exec types (Ch_confirmation b) c = recv_msg_channel_open_confirmation types (received b c)"
| "chan_exec types (Ch_open_failure b) c = recv_msg_channel_open_failure types (received b c)"
| "chan_exec types (Ch_window_adjust b) c = recv_msg_channel_window_adjust (received b c)"
| "chan_exec types (Ch_data b) c = recv_msg_channel_data (received b c)"
| "chan_exec types (Ch_eof b) c = recv_msg_channel_eof types (received b c)"
| "chan_exec types (Ch_close b) c = recv_msg_channel_close types (received b c)"
| "chan_exec types (Ch_request b) c = recv_msg_channel_request types (received b c)"
| "chan_exec types (Ch_io readfds writefds) c = channelio types (\<lambda>fd. fd \<in> set readfds) (\<lambda>fd. fd \<in> set writefds) c"
| "chan_exec types (Ch_connected success sock err i) c = channel_connect_done types success sock err i c"
| "chan_exec types (Ch_open_init fd type) c =
     rbind (send_msg_channel_open_init fd type c) (\<lambda>(ok, c). if ok then on_ses encrypt_packet c else Inr c)"

fun chan_run :: "'t chan_types \<Rightarrow> chan_event list \<Rightarrow> 't conn \<Rightarrow> 't conn res" where
  "chan_run types [] c = Inr c"
| "chan_run types (e # es) c = rbind (chan_exec types e c) (chan_run types es)"

lemma chaninitialise_ok:
  "0 < recv_window (cn_opts c) \<Longrightarrow> recv_window (cn_opts c) \<le> MAX_CBUF_SIZE \<Longrightarrow> conn_ok {} (chaninitialise names c)"
  by (auto simp: conn_ok_def chaninitialise_def)

context chan_handlers
begin

lemma event_ok:
  assumes "conn_ok {} c"
  shows "res_post (conn_ok {}) (chan_exec types e c)"
proof -
  have r: "conn_ok {} (received b c)" for b
    by (rule conn_ok_keeps [OF assms]) (simp add: received_def)
  show ?thesis
  proof (cases e)
    case (Ch_open_init fd type)
    have "res_post (conn_ok {}) (rbind (send_msg_channel_open_init fd type c) (\<lambda>(ok, c). if ok then on_ses encrypt_packet c else Inr c))"
      by (rule res_post_call [OF open_init_ok [OF assms]]) (auto intro: send_ok)
    then show ?thesis by (simp add: Ch_open_init)
  qed (simp_all add: handlers_ok r assms)
qed

lemma run_ok: "conn_ok {} c \<Longrightarrow> res_post (conn_ok {}) (chan_run types es c)"
proof (induction es arbitrary: c)
  case (Cons e es)
  from event_ok [OF Cons.prems, of e] show ?case unfolding chan_run.simps by (rule res_post_call) (rule Cons.IH)
qed simp

end

end
