(* ===== verification/Svr_Channels.thy ===== *)
theory Svr_Channels
  imports Chansess Forward Channel_Props
begin

text \<open>
  The channel types of the server (\<^verbatim>\<open>svr_chantypes\<close> of \<^verbatim>\<open>svr-session.c\<close>) and their contract.
\<close>

section \<open>Channel types\<close>

definition svr_chan_tcpdirect :: "ChanSess ChanType" where
  "svr_chan_tcpdirect = \<lparr>inithandler = Some newtcpdirect, checkclose = None, reqhandler = None, closehandler = None, cleanup = None\<rparr>"

definition svr_chan_streamlocal :: "ChanSess ChanType" where
  "svr_chan_streamlocal = \<lparr>inithandler = Some newstreamlocal, checkclose = None, reqhandler = None, closehandler = None, cleanup = None\<rparr>"

text \<open>The types of channels that the server opens have no handlers.\<close>

definition svr_chan_remote :: "ChanSess ChanType" where
  "svr_chan_remote = \<lparr>inithandler = None, checkclose = None, reqhandler = None, closehandler = None, cleanup = None\<rparr>"

definition svr_chantypes :: "bytes list" where
  "svr_chantypes = [cstr ''session'', cstr ''direct-tcpip'', cstr ''direct-streamlocal@openssh.com'']"

definition svr_types :: "ChanSess chan_types" where
  "svr_types name =
     (if name = cstr ''session'' then svrchansess
      else if name = cstr ''direct-tcpip'' then svr_chan_tcpdirect
      else if name = cstr ''direct-streamlocal@openssh.com'' then svr_chan_streamlocal
      else svr_chan_remote)"

lemmas svr_types_simps = svr_types_def svrchansess_def svr_chan_tcpdirect_def svr_chan_streamlocal_def svr_chan_remote_def

section \<open>The contract of channel types holds\<close>

lemma keeps_tick [simp]: "keeps p a (tick c) = keeps p a c"
  by (simp add: tick_def)

lemma core_upd [simp]:
  "core (ch\<lparr>typedata := td\<rparr>) = core ch" "core (ch\<lparr>writefd := w\<rparr>) = core ch" "core (ch\<lparr>readfd := r\<rparr>) = core ch"
  "core (ch\<lparr>errfd := e\<rparr>) = core ch" "core (ch\<lparr>bidir_fd := b\<rparr>) = core ch" "core (ch\<lparr>flushing := f\<rparr>) = core ch"
  "core (ch\<lparr>conn_pending := cp\<rparr>) = core ch" "core (ch\<lparr>chan_prio := p\<rparr>) = core ch"
  by (simp_all add: core_def)

lemma keeps_upd_sess: "keeps core a c \<Longrightarrow> res_post (keeps core a) (upd_sess i f c)"
  unfolding upd_sess_def by (intro res_post_rbind keeps_upd) simp_all

lemma keeps_upd_core: "keeps core a c \<Longrightarrow> (\<And>ch. core (f ch) = core ch) \<Longrightarrow> res_post (keeps core a) (upd_chan i f c)"
  by (rule keeps_upd)

lemma keeps_init: "keeps core a c \<Longrightarrow> res_post (\<lambda>(r, c). keeps core a c) (newchansess i c)"
  unfolding newchansess_def
  by (rule res_post_call [OF keeps_upd_core] res_post_rbind | assumption | simp; fail)+

lemma keeps_check: "keeps core a c \<Longrightarrow> res_post (\<lambda>(r, c). keeps core a c) (sesscheckclose i c)"
  unfolding sesscheckclose_def
  by (rule res_post_rbind [of "sess_at i c"] res_post_call [where Q = "keeps core a"] res_post_if keeps_upd_core | assumption
      | simp; fail)+

lemma keeps_exit_msg: "keeps core a c \<Longrightarrow> res_post (keeps core a) (send_exitsignalstatus i c)"
  unfolding send_exitsignalstatus_def send_msg_chansess_exitsignal_def send_msg_chansess_exitstatus_def
  by (rule res_post_rbind res_post_if res_post_option res_post_prod keeps_ses | assumption | simp; fail)+

lemma keeps_close: "keeps core a c \<Longrightarrow> res_post (keeps core a) (closechansess i c)"
  unfolding closechansess_def by (intro res_post_rbind res_post_if keeps_exit_msg) simp_all

lemma keeps_cleanup: "keeps core a c \<Longrightarrow> res_post (keeps core a) (cleanupchansess i c)"
  unfolding cleanupchansess_def by (intro res_post_rbind res_post_if keeps_upd_core) simp_all

lemma keeps_lastexit: "keeps core a c \<Longrightarrow> res_post (keeps core a) (match_lastexit c)"
  unfolding match_lastexit_def
  by (rule res_post_rbind res_post_if res_post_option res_post_call [OF keeps_upd_sess] | assumption | simp; fail)+

lemma keeps_nopty: "keeps core a c \<Longrightarrow> res_post (\<lambda>(r, c). keeps core a c) (noptycommand i c)"
  unfolding noptycommand_def Let_def
  by (rule res_post_option res_post_prod res_post_call [OF keeps_upd_sess] res_post_call [OF keeps_upd_core] res_post_call [OF keeps_lastexit]
      res_post_rbind | assumption | simp; fail)+

lemma keeps_pty: "keeps core a c \<Longrightarrow> res_post (\<lambda>(r, c). keeps core a c) (ptycommand i c)"
  unfolding ptycommand_def Let_def
  by (rule res_post_option res_post_prod res_post_if res_post_call [OF keeps_upd_sess] res_post_call [OF keeps_upd_core]
      res_post_rbind | assumption | simp; fail)+

lemma keeps_read_command: "keeps core a c \<Longrightarrow> res_post (\<lambda>(r, c). keeps core a c) (read_command i sub c)"
  unfolding read_command_def
  by (rule res_post_rbind [of "sess_at _ _"] res_post_rbind [of "deref _"] res_post_rbind [of "ikofi_exe_to_lib _ _"]
      res_post_call [OF keeps_read [where p = core]] res_post_call [OF keeps_upd_sess]
      res_post_call [where Q = "\<lambda>(r, c). keeps core a c"] res_post_option res_post_if res_post_prod | assumption | simp; fail)+

lemma keeps_start: "keeps core a c \<Longrightarrow> res_post (\<lambda>(r, c). keeps core a c) (start_command i c)"
  unfolding start_command_def
  by (rule res_post_rbind [of "sess_at _ _"] res_post_call [OF keeps_upd_sess] res_post_call [OF keeps_upd_core] res_post_call [OF keeps_nopty]
      res_post_call [where Q = "\<lambda>(r, c). keeps core a c"] res_post_call [where Q = "keeps core a"] keeps_upd_sess keeps_pty
      res_post_if res_post_prod | assumption | simp; fail)+

lemma keeps_command: "keeps core a c \<Longrightarrow> res_post (\<lambda>(r, c). keeps core a c) (sessioncommand e sub i c)"
  unfolding sessioncommand_def
  by (rule res_post_rbind [of "sess_at _ _"] res_post_call [where Q = "\<lambda>(r, c). keeps core a c"] keeps_read_command keeps_start
      res_post_if res_post_prod | assumption | simp; fail)+

lemma keeps_signal: "keeps core a c \<Longrightarrow> res_post (\<lambda>(r, c). keeps core a c) (sessionsignal i c)"
  unfolding sessionsignal_def
  by (rule res_post_rbind [of "sess_at _ _"] res_post_call [OF keeps_read [where p = core]] res_post_option res_post_if res_post_prod | assumption | simp; fail)+

lemma keeps_winchange: "keeps core a c \<Longrightarrow> res_post (\<lambda>(r, c). keeps core a c) (sessionwinchange i c)"
  unfolding sessionwinchange_def
  by (rule res_post_rbind [of "sess_at _ _"] res_post_call [OF keeps_read [where p = core]] res_post_if res_post_prod | assumption | simp; fail)+

lemma keeps_termmodes: "keeps core a c \<Longrightarrow> res_post (keeps core a) (get_termmodes i c)"
  unfolding get_termmodes_def Let_def
  by (rule res_post_rbind [of "sess_at _ _"] res_post_rbind [of "deref _"] res_post_call [OF keeps_read [where p = core]] res_post_option res_post_if
      res_post_prod | assumption | simp; fail)+

lemma keeps_sessionpty: "keeps core a c \<Longrightarrow> res_post (\<lambda>(r, c). keeps core a c) (sessionpty i c)"
  unfolding sessionpty_def
  by (rule res_post_rbind [of "sess_at _ _"] res_post_call [OF keeps_read [where p = core]] res_post_call [OF keeps_upd_sess] res_post_call [OF keeps_winchange]
      res_post_call [OF keeps_termmodes] res_post_option res_post_if res_post_prod | assumption | simp; fail)+

lemma keeps_session_request: "keeps core a c \<Longrightarrow> res_post (\<lambda>(r, c). keeps core a c) (session_request type i c)"
  unfolding session_request_def by (simp add: keeps_winchange keeps_command keeps_sessionpty keeps_signal)

lemma keeps_reply: "keeps core a c \<Longrightarrow> res_post (keeps core a) (send_msg_channel_success i c)"
    "keeps core a c \<Longrightarrow> res_post (keeps core a) (send_msg_channel_failure i c)"
  unfolding send_msg_channel_success_def send_msg_channel_failure_def
  by (rule res_post_rbind res_post_if keeps_ses | assumption | simp; fail)+

lemma keeps_request: "keeps core a c \<Longrightarrow> res_post (keeps core a) (chansessionrequest i c)"
  unfolding chansessionrequest_def
  by (rule res_post_rbind [of "chan_at _ _"] res_post_rbind [of "dassert _ _"] res_post_call [OF keeps_read [where p = core]]
      res_post_call [where Q = "\<lambda>(r, c). keeps core a c"] keeps_session_request keeps_reply res_post_if res_post_prod | assumption | simp; fail)+

lemma keeps_tcpdirect: "keeps core a c \<Longrightarrow> res_post (\<lambda>(r, c). keeps core a c) (newtcpdirect i c)"
  unfolding newtcpdirect_def
  by (rule res_post_rbind [of "svr_pubkey_allows_local_tcpfwd _ _ _"] res_post_call [OF keeps_read [where p = core]] res_post_call [OF keeps_upd_core]
      res_post_if res_post_prod | assumption | simp; fail)+

lemma keeps_streamlocal: "keeps core a c \<Longrightarrow> res_post (\<lambda>(r, c). keeps core a c) (newstreamlocal i c)"
  unfolding newstreamlocal_def
  by (rule res_post_call [OF keeps_read [where p = core]] res_post_call [OF keeps_upd_core] res_post_if res_post_prod | assumption
      | simp; fail)+

interpretation svr: chan_handlers svr_types
proof unfold_locales
  fix n f i and c :: sconn
  show "inithandler (svr_types n) = Some f \<Longrightarrow> res_post (\<lambda>(r, c'). keeps core c c') (f i c)"
    using keeps_init [OF keeps_refl] keeps_tcpdirect [OF keeps_refl] keeps_streamlocal [OF keeps_refl]
    by (auto simp: svr_types_simps split: if_splits)
next
  fix n f i and c :: sconn
  show "checkclose (svr_types n) = Some f \<Longrightarrow> res_post (\<lambda>(r, c'). keeps core c c') (f i c)"
    using keeps_check [OF keeps_refl] by (auto simp: svr_types_simps split: if_splits)
next
  fix n f i and c :: sconn
  show "reqhandler (svr_types n) = Some f \<Longrightarrow> res_post (keeps core c) (f i c)"
    using keeps_request [OF keeps_refl] by (auto simp: svr_types_simps split: if_splits)
next
  fix n f i and c :: sconn
  show "closehandler (svr_types n) = Some f \<Longrightarrow> res_post (keeps core c) (f i c)"
    using keeps_close [OF keeps_refl] by (auto simp: svr_types_simps split: if_splits)
next
  fix n f i and c :: sconn
  show "cleanup (svr_types n) = Some f \<Longrightarrow> res_post (keeps core c) (f i c)"
    using keeps_cleanup [OF keeps_refl] by (auto simp: svr_types_simps split: if_splits)
qed

end
