(* ===== verification/Channel_Inv.thy ===== *)
theory Channel_Inv
  imports Channel_Props
begin

text \<open>
  Invariants of what the channel types keep themselves: their data in the channels, the table of
  children and the listeners. The code common to all channels does not touch it; a second contract says what the handlers of
  the types have to keep, and gives that every run keeps it.
\<close>

section \<open>What belongs to the types\<close>

definition sess_view :: "'t conn \<Rightarrow> nat \<Rightarrow> (bytes \<times> 't) option" where
  "sess_view c i =
     (if i < length (cn_channels c)
      then Option.bind (cn_channels c ! i) (\<lambda>ch. map_option (\<lambda>t. (chan_type ch, t)) (typedata ch)) else None)"

definition same :: "'t conn \<Rightarrow> 't conn \<Rightarrow> bool" where
  "same a c \<longleftrightarrow> sess_view c = sess_view a \<and> cn_childpids c = cn_childpids a \<and> cn_lastexit c = cn_lastexit a \<and>
     cn_spawn c = cn_spawn a \<and> cn_fork c = cn_fork a \<and>
     cn_listeners c = cn_listeners a \<and> cn_listensize c = cn_listensize a \<and> cn_listen c = cn_listen a"

lemma same_refl [simp]: "same c c"
  by (simp add: same_def)

lemma same_trans: "same a b \<Longrightarrow> same b c \<Longrightarrow> same a c"
  by (simp add: same_def)

lemma sess_view_cong: "cn_channels c = cn_channels c' \<Longrightarrow> sess_view c = sess_view c'"
  by (simp add: sess_view_def fun_eq_iff)

lemma same_cong:
  assumes "cn_channels c = cn_channels c'" "cn_childpids c = cn_childpids c'" "cn_lastexit c = cn_lastexit c'" "cn_spawn c = cn_spawn c'"
    "cn_fork c = cn_fork c'" "cn_listeners c = cn_listeners c'" "cn_listensize c = cn_listensize c'" "cn_listen c = cn_listen c'"
  shows "same a c = same a c'"
  using assms sess_view_cong [OF assms(1)] by (simp add: same_def)

lemma same_frame [simp]:
  "same a (emit e c) = same a c" "same a (c\<lparr>cn_calls := n\<rparr>) = same a c" "same a (c\<lparr>cn_ses := s\<rparr>) = same a c"
  "same a (m_close fd c) = same a c" "same a (c\<lparr>cn_maxfd := f\<rparr>) = same a c" "same a (c\<lparr>cn_socket_prio := pr\<rparr>) = same a c"
  "same a (c\<lparr>cn_chancount := k\<rparr>) = same a c" "same a (c\<lparr>cn_signal_pending := sp\<rparr>) = same a c"
  by (rule same_cong; simp add: emit_def m_close_def)+

lemma same_prio [simp]: "same a (update_channel_prio c) = same a c"
  by (simp add: update_channel_prio_def Let_def)

lemma sess_view_set: "unat i < length (cn_channels c) \<Longrightarrow>
    sess_view (set_chan i x c) = (sess_view c)(unat i := Option.bind x (\<lambda>ch. map_option (\<lambda>t. (chan_type ch, t)) (typedata ch)))"
  by (auto simp: sess_view_def fun_eq_iff nth_list_update)

lemma sess_view_at: "chan_at i c = Inr ch \<Longrightarrow> sess_view c (unat i) = map_option (\<lambda>t. (chan_type ch, t)) (typedata ch)"
  by (simp add: sess_view_def chan_at_eq)

lemma set_chan_more [simp]:
  "cn_childpids (set_chan i x c) = cn_childpids c" "cn_lastexit (set_chan i x c) = cn_lastexit c" "cn_spawn (set_chan i x c) = cn_spawn c"
  "cn_fork (set_chan i x c) = cn_fork c" "cn_listeners (set_chan i x c) = cn_listeners c" "cn_listensize (set_chan i x c) = cn_listensize c"
  "cn_listen (set_chan i x c) = cn_listen c"
  by (simp_all add: set_chan_def)

lemma same_set:
  assumes "same a c" "chan_at i c = Inr ch" "typedata ch' = typedata ch" "chan_type ch' = chan_type ch"
  shows "same a (set_chan i (Some ch') c)"
proof -
  have "unat i < length (cn_channels c)" using assms(2) by (simp add: chan_at_eq)
  then have "sess_view (set_chan i (Some ch') c) = sess_view c"
    using sess_view_at [OF assms(2)] assms(3,4) by (simp add: sess_view_set fun_upd_idem)
  then show ?thesis using assms(1) by (simp add: same_def)
qed

lemma same_upd:
  "same a c \<Longrightarrow> (\<And>ch. typedata (f ch) = typedata ch) \<Longrightarrow> (\<And>ch. chan_type (f ch) = chan_type ch) \<Longrightarrow> res_post (same a) (upd_chan i f c)"
  unfolding upd_chan_def by (intro res_post_intros) (simp add: same_set)

lemma same_ses: "same a c \<Longrightarrow> res_post (same a) (on_ses f c)"
  unfolding on_ses_def by (intro res_post_intros) simp

lemma same_read: "same a c \<Longrightarrow> res_post (\<lambda>(x, c). same a c) (on_ses_get f c)"
  unfolding on_ses_get_def by (intro res_post_intros) simp

lemma same_pick: "same a c \<Longrightarrow> res_post (\<lambda>(x, c). same a c) (getchannel_msg c)"
  unfolding getchannel_msg_def
  by (rule res_post_call [OF same_read], assumption) (auto split: prod.splits)

lemma closed_type [simp]: "typedata (fds_closed x y fd ch) = typedata ch" "chan_type (fds_closed x y fd ch) = chan_type ch"
  by (simp_all add: fds_closed_def Let_def)

lemma same_close_fd: "same a c \<Longrightarrow> res_post (same a) (close_chan_fd i fd how c)"
  unfolding close_chan_fd_def Let_def
  by (intro res_post_intros) (auto simp: chan_at_frame intro!: same_set)

lemma same_own_fd: "same a c \<Longrightarrow> res_post (same a) (close_own_fd i sel how c)"
  unfolding close_own_fd_def by (intro res_post_intros same_close_fd)

lemma same_flush_fd: "same a c \<Longrightarrow> res_post (same a) (flush_fd i g sel c)"
  unfolding flush_fd_def fd_read_pending_def Let_def by (intro res_post_intros same_close_fd) auto

lemma same_flush: "same a c \<Longrightarrow> res_post (same a) (flush_fds i c)"
  unfolding flush_fds_def by (intro res_post_rbind res_post_if res_post_call [OF same_flush_fd] same_flush_fd) simp_all

lemma same_eof: "same a c \<Longrightarrow> res_post (same a) (send_msg_channel_eof i c)"
  unfolding send_msg_channel_eof_def
  by (rule res_post_rbind [of "chan_at _ _"] res_post_call [OF same_ses] same_upd | assumption | simp; fail)+

lemma same_close_writefd: "same a c \<Longrightarrow> res_post (same a) (close_writefd types i allowed c)"
  unfolding close_writefd_def by (rule res_post_rbind res_post_if same_close_fd | assumption | simp; fail)+

lemma set_buf_type [simp]: "typedata (set_buf ext cb ch) = typedata ch" "chan_type (set_buf ext cb ch) = chan_type ch"
  by (simp_all add: set_buf_def)

lemma res_post_wr: "(\<And>n. r = Wr n \<Longrightarrow> res_post P (f n)) \<Longrightarrow> (r = Wr_again \<Longrightarrow> res_post P a) \<Longrightarrow> (r = Wr_fail \<Longrightarrow> res_post P b) \<Longrightarrow>
    res_post P (case r of Wr n \<Rightarrow> f n | Wr_again \<Rightarrow> a | Wr_fail \<Rightarrow> b)"
  by (cases r) simp_all

lemma same_writev: "same a c \<Longrightarrow> res_post (\<lambda>(r, c). same a c) (writechannel_writev i fd ext m c)"
  unfolding writechannel_writev_def sys_write_def Let_def prod.case
  by (rule res_post_rbind [of "chan_at _ _"] res_post_rbind [of "deref _"] res_post_rbind [of "cbuf_readptrs _"] res_post_rbind [of "cbuf_incrread _ _"]
      res_post_prod res_post_if res_post_wr res_post_call [OF same_close_fd] res_post_call [OF same_upd] | assumption | simp; fail)+

lemma same_adjust: "same a c \<Longrightarrow> res_post (same a) (adjust_window i c)"
  unfolding adjust_window_def send_msg_channel_window_adjust_def
  by (rule res_post_rbind [of "chan_at _ _"] res_post_if res_post_call [where Q = "same a"] same_ses same_upd | assumption | simp; fail)+

lemma same_write: "same a c \<Longrightarrow> res_post (\<lambda>(r, c). same a c) (writechannel i fd ext m c)"
  unfolding writechannel_def
  by (rule res_post_call [OF same_writev] res_post_call [OF same_adjust] res_post_prod res_post_rbind | assumption | simp; fail)+

lemma same_store: "same a (snd r) \<Longrightarrow> res_post (same a) (store_received i ext n r)"
  unfolding store_received_def Let_def
  by (cases r) (auto intro!: res_post_rbind res_post_if same_upd)

lemma same_recv_data: "same a c \<Longrightarrow> res_post (same a) (common_recv_msg_channel_data i fd ext c)"
  unfolding common_recv_msg_channel_data_def
  by (rule res_post_rbind [of "chan_at _ _"] res_post_rbind [of "dassert _ _"] res_post_rbind [of "deref _"] res_post_rbind [of "buf_peek _ _"]
      res_post_if res_post_option res_post_call [OF same_read] res_post_call [OF same_upd] res_post_call [OF same_write] res_post_prod same_store
      | assumption | simp split: prod.splits; fail)+

lemma same_send_data: "same a c \<Longrightarrow> res_post (same a) (send_msg_channel_data i ext c)"
  unfolding send_msg_channel_data_def sys_read_def Let_def prod.case
  by (rule res_post_if res_post_rd res_post_call [OF same_ses] same_ses res_post_call [OF same_close_fd]
      res_post_call [OF same_upd] res_post_rbind | assumption | simp; fail)+

text \<open>A new channel has no data of its type yet.\<close>

lemma same_new:
  fixes c :: "'t conn"
  assumes "conn_ok {} c"
  shows "res_post (\<lambda>(r, c'). same c c') (newchannel remote type tw tm c)"
proof (rule res_postI)
  fix x assume run: "newchannel remote type tw tm c = Inr x"
  obtain r c' where x: "x = (r, c')" by (cases x)
  let ?i = "first_free (cn_channels c)" and ?n = "length (cn_channels c)"
  have sz: "cn_chansize c = of_nat ?n" "?n \<le> 1000" using assms by (simp_all add: conn_ok_def)
  have ui: "unat (of_nat ?i :: u32) = ?i" "unat (cn_chansize c) = ?n" using first_free_le [of "cn_channels c"] sz by (simp_all add: u32_simps)
  have full: "(of_nat ?i = cn_chansize c) = (?i = ?n)" by (metis ui word_unat_eq_iff)
  show "case x of (r, c') \<Rightarrow> same c c'"
  proof (cases r)
    case None
    then show ?thesis using newchannel_outcome [OF assms run [unfolded x]] x by simp
  next
    case (Some i)
    let ?c = "if ?i = ?n then c\<lparr>cn_channels := cn_channels c @ replicate 3 None, cn_chansize := cn_chansize c + CHAN_EXTEND_SIZE\<rparr> else c"
    obtain wb where c': "c' = (set_chan (of_nat ?i) (Some (new_Channel (of_nat ?i) remote type tw tm (recv_window (cn_opts c)) wb)) ?c)
        \<lparr>cn_chancount := cn_chancount ?c + 1\<rparr>"
      using run x Some full by (auto simp: newchannel_def Let_def rbind_eq_Inr split: if_splits)
    have ext: "sess_view ?c = sess_view c"
      by (auto simp: sess_view_def fun_eq_iff nth_append nth_Cons split: nat.splits)
    have len: "?i < length (cn_channels ?c)" using first_free_le [of "cn_channels c"] by auto
    have none: "sess_view c ?i = None"
      using first_free_nth [of "cn_channels c"] by (auto simp: sess_view_def)
    have "sess_view c' = sess_view c"
    proof -
      have "sess_view c' = sess_view (set_chan (of_nat ?i) (Some (new_Channel (of_nat ?i) remote type tw tm (recv_window (cn_opts c)) wb)) ?c)"
        by (rule sess_view_cong) (simp add: c')
      also have "\<dots> = (sess_view ?c)(?i := None)"
        using len ui(1) by (subst sess_view_set) (simp_all add: new_Channel_def)
      finally show ?thesis using ext none by (simp add: fun_upd_idem)
    qed
    then show ?thesis by (simp add: x same_def c')
  qed
qed

section \<open>The second contract\<close>

locale chan_inv = chan_handlers types for types :: "'t chan_types" +
  fixes I :: "'t conn \<Rightarrow> bool"
  assumes frame: "same a c \<Longrightarrow> I a \<Longrightarrow> I c"
    and init_inv: "inithandler (types (chan_type ch)) = Some f \<Longrightarrow> chan_at i c = Inr ch \<Longrightarrow> I c \<Longrightarrow> res_post (\<lambda>(r, c). I c) (f i c)"
    and check_inv: "checkclose (types (chan_type ch)) = Some g \<Longrightarrow> chan_at i c = Inr ch \<Longrightarrow> I c \<Longrightarrow> res_post (\<lambda>(r, c). I c) (g i c)"
    and req_inv: "reqhandler (types (chan_type ch)) = Some h \<Longrightarrow> chan_at i c = Inr ch \<Longrightarrow> I c \<Longrightarrow> res_post I (h i c)"
    and close_inv: "closehandler (types (chan_type ch)) = Some h \<Longrightarrow> chan_at i c = Inr ch \<Longrightarrow> I c \<Longrightarrow> res_post I (h i c)"
    and cleanup_inv: "chan_at i c = Inr ch \<Longrightarrow> I c \<Longrightarrow> res_post (\<lambda>c. I c \<and> sess_view c (unat i) = None) (call_opt (cleanup (types (chan_type ch))) i c)"
begin

lemma inv_same: "I a \<Longrightarrow> res_post (same a) m \<Longrightarrow> res_post I m"
  by (auto elim!: res_post_mono intro: frame)

lemma inv_same2: "I a \<Longrightarrow> res_post (\<lambda>(r, c). same a c) m \<Longrightarrow> res_post (\<lambda>(r, c). I c) m"
  by (auto elim!: res_post_mono intro: frame)

lemma inv_call: "I a \<Longrightarrow> res_post (same a) m \<Longrightarrow> (\<And>c. I c \<Longrightarrow> res_post P (f c)) \<Longrightarrow> res_post P (rbind m f)"
  by (rule res_post_call [OF inv_same])

lemma inv_call2: "I a \<Longrightarrow> res_post (\<lambda>(r, c). same a c) m \<Longrightarrow> (\<And>r c. I c \<Longrightarrow> res_post P (f r c)) \<Longrightarrow> res_post P (rbind m (\<lambda>(r, c). f r c))"
  by (rule res_post_call [OF inv_same2]) auto

lemma remove_inv:
  assumes "conn_ok X c" "I c"
  shows "res_post I (remove_channel types i c)"
proof (rule res_postI)
  fix c' assume run: "remove_channel types i c = Inr c'"
  define fin where "fin = (\<lambda>c. rbind (chan_at i c) (\<lambda>ch.
     let c = (if conn_pending ch then emit (Ev_cancel_connect i) c else c); c = set_chan (chan_index ch) None c in
     Inr (update_channel_prio (c\<lparr>cn_chancount := cn_chancount c - 1\<rparr>))) :: 't conn res)"
  obtain ch where ch: "chan_at i c = Inr ch" using run by (auto simp: remove_channel_def upd_chan_def rbind_eq_Inr)
  let ?ch = "ch\<lparr>writebuf := None, extrabuf := None\<rparr>" and ?c = "set_chan i (Some (ch\<lparr>writebuf := None, extrabuf := None\<rparr>)) c"
  have len: "unat i < length (cn_channels c)" using ch by (simp add: chan_at_eq)
  let ?k = "m_close (errfd ?ch) (m_close (readfd ?ch) (m_close (writefd ?ch) ?c))"
  have at: "chan_at i ?c = Inr ?ch" "chan_at i ?k = Inr ?ch" using len by simp_all
  have "rbind (call_opt (cleanup (types (chan_type ?ch))) i ?k) fin = Inr c'"
    using run unfolding remove_channel_def fin_def upd_chan_def Let_def by (simp only: ch at rbind_simps)
  then obtain c3 where c3: "call_opt (cleanup (types (chan_type ?ch))) i ?k = Inr c3" "fin c3 = Inr c'" unfolding rbind_eq_Inr by blast
  have "same c ?k" using same_set [OF same_refl ch, of ?ch] by simp
  then have "I ?k" using assms(2) by (rule frame)
  then have i3: "I c3" "sess_view c3 (unat i) = None" using res_postD [OF cleanup_inv [OF at(2)] c3(1)] by simp_all
  have ok: "conn_ok (insert (unat i) X) ?c"
    by (rule conn_ok_upd [OF assms(1) ch, where ch' = ?ch]) (use conn_ok_at [OF assms(1) ch] in auto)
  have "keeps core ?c c3" using res_postD [OF call_keeps c3(1), of "chan_type ?ch" ?c] by simp
  then have ok3: "conn_ok (insert (unat i) X) c3" using conn_ok_keeps [OF ok] keeps_core_win by blast
  obtain ch3 where ch3: "chan_at i c3 = Inr ch3" using c3(2) by (auto simp: fin_def rbind_eq_Inr)
  have idx: "chan_index ch3 = i" using conn_ok_at [OF ok3 ch3] by simp
  let ?e = "if conn_pending ch3 then emit (Ev_cancel_connect i) c3 else c3"
  have "sess_view (set_chan i None ?e) = sess_view ?e"
    using ch3 i3(2) sess_view_cong [of ?e c3] by (subst sess_view_set) (simp_all add: chan_at_eq fun_upd_idem)
  then have "same ?e (set_chan i None ?e)" by (simp add: same_def)
  moreover have "same c3 ?e" by simp
  ultimately have "same c3 (set_chan i None ?e)" by (rule same_trans [rotated])
  moreover have "c' = update_channel_prio ((set_chan i None ?e)\<lparr>cn_chancount := cn_chancount ?e - 1\<rparr>)"
    using c3(2) ch3 idx by (simp add: fin_def Let_def)
  ultimately have "same c3 c'" by simp
  then show "I c'" using i3(1) by (rule frame)
qed

lemma call_init_inv: "I c \<Longrightarrow> res_post (\<lambda>(r, c). I c) (call_init types i c)"
  unfolding call_init_def by (intro res_post_rbind res_post_option) (simp_all add: init_inv)

lemma allowed_inv: "I c \<Longrightarrow> res_post (\<lambda>(r, c). I c) (close_is_allowed types i c)"
  unfolding close_is_allowed_def by (intro res_post_rbind res_post_option res_post_if) (simp_all add: check_inv)

lemma send_close_inv: "I c \<Longrightarrow> res_post I (send_msg_channel_close types i c)"
proof -
  assume c: "I c"
  have "res_post I (call_opt (closehandler (types (chan_type ch))) i c)" if "chan_at i c = Inr ch" for ch
    using close_inv [OF _ that c] c by (simp add: call_opt_def split: option.split)
  then show ?thesis
    unfolding send_msg_channel_close_def
    by (intro res_post_rbind [of "chan_at i c"] res_post_call [of I "call_opt _ _ _"] res_post_rbind [of "chan_at i _"]
        inv_call [OF _ same_ses [OF same_refl]] inv_call [OF _ same_upd [OF same_refl]] inv_call [OF _ same_own_fd [OF same_refl]]
        inv_same [OF _ same_own_fd [OF same_refl]]) simp_all
qed

lemma finish_close_inv: "I c \<Longrightarrow> res_post I (finish_close types i allowed c)"
  unfolding finish_close_def
  by (rule res_post_rbind [of "chan_at _ _"] res_post_rbind [of "write_pending _"] res_post_call [where Q = I] res_post_if send_close_inv
      inv_same [OF _ same_eof [OF same_refl]] | assumption | simp; fail)+

lemma check_close_inv:
  assumes "conn_ok {} c" "I c"
  shows "res_post I (check_close types i c)"
proof (rule res_postI)
  fix c' assume run: "check_close types i c = Inr c'"
  define more where "more = (\<lambda>allowed c. rbind (chan_at i c) (\<lambda>ch.
     rbind (if recv_close ch then write_pending ch else Inr True) (\<lambda>pending.
     if \<not> pending \<and> allowed then
       rbind (if \<not> sent_close ch then send_msg_channel_close types i c else Inr c) (remove_channel types i)
     else rbind (close_writefd types i allowed c) (finish_close types i allowed))) :: 't conn res)"
  have eq: "check_close types i c = rbind (close_is_allowed types i c) (\<lambda>(allowed, c). rbind (flush_fds i c) (more allowed))"
    by (simp only: check_close_def more_def)
  obtain allowed c1 c2 where c1: "close_is_allowed types i c = Inr (allowed, c1)" and c2: "flush_fds i c1 = Inr c2" "more allowed c2 = Inr c'"
    using run eq by (auto simp: rbind_eq_Inr)
  have "keeps win c c2"
    using res_postD [OF allowed_keeps [OF keeps_refl] c1] res_postD [OF keeps_flush c2(1)] by (simp add: keeps_core_win)
  then have ok: "conn_ok {} c2" by (rule conn_ok_keeps [OF assms(1)])
  have i2: "I c2"
    using res_postD [OF allowed_inv [OF assms(2)] c1] res_postD [OF same_flush [OF same_refl] c2(1)] frame by auto
  have "res_post I (more allowed c2)"
    unfolding more_def
  proof (intro res_post_rbind res_post_if)
    fix ch c3 assume e: "(if \<not> sent_close ch then send_msg_channel_close types i c2 else Inr c2) = Inr c3"
    then have "keeps win c2 c3" using res_postD [OF send_close_keeps [OF keeps_refl]] by (auto split: if_splits)
    moreover have "I c3" using e i2 res_postD [OF send_close_inv [OF i2]] by (auto split: if_splits)
    ultimately show "res_post I (remove_channel types i c3)" using remove_inv conn_ok_keeps [OF ok] by blast
  next
    fix c3 assume "close_writefd types i allowed c2 = Inr c3"
    then have "I c3" using res_postD [OF same_close_writefd [OF same_refl]] frame i2 by blast
    then show "res_post I (finish_close types i allowed c3)" by (rule finish_close_inv)
  qed
  then show "I c'" using c2(2) by (rule res_postD)
qed

text \<open>Both invariants together, through the steps of a handler.\<close>

abbreviation inv2 :: "'t conn \<Rightarrow> bool" where
  "inv2 c \<equiv> conn_ok {} c \<and> I c"

lemma both: "res_post (conn_ok {}) m \<Longrightarrow> res_post I m \<Longrightarrow> res_post inv2 m"
  by (simp add: res_post_def)

lemma both2: "res_post (\<lambda>(r, c). conn_ok {} c) m \<Longrightarrow> res_post (\<lambda>(r, c). I c) m \<Longrightarrow> res_post (\<lambda>(r, c). inv2 c) m"
  by (auto simp: res_post_def)

lemma pick_inv: "inv2 c \<Longrightarrow> (\<And>i c. inv2 c \<Longrightarrow> res_post P (f i c)) \<Longrightarrow> res_post P (rbind (getchannel_msg c) (\<lambda>(i, c). f i c))"
  by (rule res_post_call [OF both2 [OF res_post_mono [OF keeps_pick [where p = win, OF keeps_refl]] inv_same2 [OF _ same_pick [OF same_refl]]]])
    (auto intro: conn_ok_keeps split: prod.splits)

lemma upd_inv: "inv2 c \<Longrightarrow> (\<And>ch. win (f ch) = win ch) \<Longrightarrow> (\<And>ch. typedata (f ch) = typedata ch) \<Longrightarrow> (\<And>ch. chan_type (f ch) = chan_type ch) \<Longrightarrow>
    (\<And>c. inv2 c \<Longrightarrow> res_post P (g c)) \<Longrightarrow> res_post P (rbind (upd_chan i f c) g)"
  by (rule res_post_call [OF both [OF res_post_mono [OF keeps_upd [where p = win, OF keeps_refl]] inv_same [OF _ same_upd [OF same_refl]]]])
    (auto intro: conn_ok_keeps)

lemma read_inv: "inv2 c \<Longrightarrow> (\<And>x c. inv2 c \<Longrightarrow> res_post P (g x c)) \<Longrightarrow> res_post P (rbind (on_ses_get f c) (\<lambda>(x, c). g x c))"
  by (rule res_post_call [OF both2 [OF res_post_mono [OF keeps_read [where p = win, OF keeps_refl]] inv_same2 [OF _ same_read [OF same_refl]]]])
    (auto intro: conn_ok_keeps split: prod.splits)

lemma send_inv: "inv2 c \<Longrightarrow> res_post inv2 (on_ses f c)"
  by (intro both send_ok inv_same [OF _ same_ses [OF same_refl]]) simp_all

lemma init_inv2: "inv2 c \<Longrightarrow> (\<And>r c. inv2 c \<Longrightarrow> res_post P (g r c)) \<Longrightarrow> res_post P (rbind (call_init types i c) (\<lambda>(r, c). g r c))"
  by (rule res_post_call [OF both2 [OF res_post_mono [OF core_to_win2 [OF call_init_keeps [OF keeps_refl] keeps_refl]] call_init_inv]])
    (auto intro: conn_ok_keeps split: prod.splits)

lemma new_inv: "inv2 c \<Longrightarrow> (\<And>r c. inv2 c \<Longrightarrow> res_post P (g r c)) \<Longrightarrow> res_post P (rbind (newchannel remote type tw tm c) (\<lambda>(r, c). g r c))"
  using newchannel_outcome [of c] same_new [of c] frame [of c] unfolding res_post_def rbind_eq_Inr by fastforce

lemma remove_inv2: "inv2 c \<Longrightarrow> res_post inv2 (remove_channel types i c)"
  using both [OF remove_all_ok remove_inv] by blast

lemma check_close_inv2: "inv2 c \<Longrightarrow> res_post inv2 (check_close types i c)"
  using both [OF check_close_ok check_close_inv] by blast

lemma prio_inv: "inv2 c \<Longrightarrow> inv2 (update_channel_prio c)"
  using frame [of c "update_channel_prio c"] by (simp add: prio_ok)

lemma maxfd_inv: "inv2 c \<Longrightarrow> inv2 (c\<lparr>cn_maxfd := f\<rparr>)"
  using frame [of c "c\<lparr>cn_maxfd := f\<rparr>"] by (simp add: maxfd_ok)

lemma eof_inv: "inv2 c \<Longrightarrow> res_post inv2 (recv_msg_channel_eof types c)"
  unfolding recv_msg_channel_eof_def by (intro pick_inv upd_inv check_close_inv2) (simp_all add: win_def)

lemma recv_close_inv: "inv2 c \<Longrightarrow> res_post inv2 (recv_msg_channel_close types c)"
  unfolding recv_msg_channel_close_def by (intro pick_inv upd_inv check_close_inv2) (simp_all add: win_def)

lemma request_inv: "inv2 c \<Longrightarrow> res_post inv2 (recv_msg_channel_request types c)"
  unfolding recv_msg_channel_request_def
proof (erule pick_inv, rule res_post_rbind, rule res_post_option)
  fix i ch f and c :: "'t conn" assume c: "inv2 c" "chan_at i c = Inr ch" "reqhandler (types (chan_type ch)) = Some f"
  then have "res_post I (f i c)" using req_inv by blast
  moreover have "res_post (conn_ok {}) (f i c)" using c core_to_win [OF req_keeps keeps_refl] by (intro ok_keeps) auto
  ultimately show "res_post inv2 (f i c)" by (rule both [rotated])
next
  fix i and c :: "'t conn" assume "inv2 c"
  then show "res_post inv2 (rbind (on_ses (\<lambda>s. rbind (deref (s_payload s)) (\<lambda>b. rbind (buf_eatstring b) (\<lambda>b. Inr (s\<lparr>s_payload := Some b\<rparr>)))) c) (\<lambda>c.
      rbind (on_ses_get (on_payload buf_getbool) c) (\<lambda>(wantreply, c). if wantreply then send_msg_channel_failure i c else Inr c)))"
    unfolding send_msg_channel_failure_def
    by (intro res_post_call [OF send_inv] read_inv res_post_if res_post_rbind [of "chan_at _ _"] send_inv) simp_all
qed

lemma window_adjust_inv: "inv2 c \<Longrightarrow> res_post inv2 (recv_msg_channel_window_adjust c)"
  unfolding recv_msg_channel_window_adjust_def
  by (intro pick_inv read_inv both ok_keeps [OF _ keeps_upd [where p = win, OF keeps_refl]] inv_same [OF _ same_upd [OF same_refl]])
    (simp_all add: win_def Let_def)

lemma open_inv: "inv2 c \<Longrightarrow> res_post inv2 (recv_msg_channel_open types c)"
  unfolding recv_msg_channel_open_def Let_def open_channel_def send_msg_channel_open_failure_def send_msg_channel_open_confirmation_def
  by (rule read_inv new_inv res_post_if send_inv init_inv2 res_post_option res_post_call [OF remove_inv2] prio_inv res_post_rbind
      | assumption | simp; fail)+

lemma open_init_inv: "inv2 c \<Longrightarrow> res_post (\<lambda>(r, c). inv2 c) (send_msg_channel_open_init fd type c)"
  unfolding send_msg_channel_open_init_def Let_def
  by (intro new_inv res_post_option upd_inv res_post_rbind [of "chan_at _ _"] res_post_call [OF send_inv]) (simp_all add: win_def maxfd_inv)

lemma reply_inv:
  assumes "inv2 c"
  shows "res_post inv2 (recv_msg_channel_open_confirmation types c)" "res_post inv2 (recv_msg_channel_open_failure types c)"
proof -
  show "res_post inv2 (recv_msg_channel_open_confirmation types c)"
    unfolding recv_msg_channel_open_confirmation_def
    by (intro pick_inv [OF assms] res_post_rbind [of "chan_at _ _"] res_post_if read_inv upd_inv init_inv2 remove_inv2)
      (simp_all add: win_def prio_inv)
  show "res_post inv2 (recv_msg_channel_open_failure types c)"
    unfolding recv_msg_channel_open_failure_def
    by (intro pick_inv [OF assms] res_post_rbind [of "chan_at _ _"] res_post_if upd_inv remove_inv2) (simp_all add: win_def)
qed

lemma connect_done_inv: "inv2 c \<Longrightarrow> res_post inv2 (channel_connect_done types success sock err i c)"
  unfolding channel_connect_done_def send_msg_channel_open_failure_def send_msg_channel_open_confirmation_def
  by (intro res_post_if upd_inv res_post_rbind [of "chan_at _ _"] send_inv res_post_call [OF send_inv] remove_inv2) (simp_all add: win_def)

lemma data_inv: "inv2 c \<Longrightarrow> res_post inv2 (recv_msg_channel_data c)"
  unfolding recv_msg_channel_data_def
  by (intro pick_inv res_post_rbind [of "chan_at _ _"] both recv_data_ok inv_same [OF _ same_recv_data [OF same_refl]]) simp_all

lemma io_step_inv:
  assumes "inv2 (snd r)" "\<And>ch. res_post inv2 (act ch (snd r))"
  shows "res_post (\<lambda>r. inv2 (snd r)) (io_step i guard act r)"
proof (cases r)
  case (Pair b c)
  show ?thesis unfolding io_step_def Pair prod.case
    by (intro res_post_rbind [of "chan_at _ _"] res_post_if res_post_call [OF assms(2) [unfolded Pair snd_conv]]) (use assms(1) Pair in simp_all)
qed

lemma write_inv: "inv2 c \<Longrightarrow> res_post (\<lambda>(r, c). inv2 c) (writechannel i fd ext None c)"
  by (intro both2 writechannel_ok inv_same2 [OF _ same_write [OF same_refl]]) simp_all

lemma send_data_inv: "inv2 c \<Longrightarrow> res_post inv2 (send_msg_channel_data i ext c)"
  by (intro both ok_keeps [OF _ send_data_keeps [OF keeps_refl]] inv_same [OF _ same_send_data [OF same_refl]]) simp_all

lemma channel_io_inv: "inv2 c \<Longrightarrow> res_post inv2 (channel_io types readfds writefds i c)"
  unfolding channel_io_def
  by (rule res_post_call [OF io_step_inv] send_data_inv res_post_call [OF write_inv] res_post_if check_close_inv2 res_post_prod
      | assumption | simp; fail)+

lemma channelio_loop_inv: "inv2 c \<Longrightarrow> res_post inv2 (channelio_loop types readfds writefds is c)"
proof (induction "is" arbitrary: c)
  case (Cons i "is")
  have "res_post inv2 (if i < length (cn_channels c) \<and> cn_channels c ! i \<noteq> None then channel_io types readfds writefds (of_nat i) c else Inr c)"
    using Cons.prems channel_io_inv [of c] by auto
  then show ?case unfolding channelio_loop.simps by (rule res_post_call) (rule Cons.IH)
qed simp

lemma channelio_inv: "inv2 c \<Longrightarrow> res_post inv2 (channelio types readfds writefds c)"
  unfolding channelio_def by (rule channelio_loop_inv)

lemma received_inv: "inv2 c \<Longrightarrow> inv2 (received b c)"
  using frame [of c "received b c"] conn_ok_keeps [of "{}" c "received b c"] by (simp add: received_def)

lemmas handlers_inv = eof_inv recv_close_inv request_inv window_adjust_inv open_inv reply_inv data_inv connect_done_inv channelio_inv

lemma event_inv: "inv2 c \<Longrightarrow> res_post inv2 (chan_exec types e c)"
proof (cases e)
  case (Ch_open_init fd type)
  assume "inv2 c"
  then have "res_post inv2 (rbind (send_msg_channel_open_init fd type c) (\<lambda>(ok, c). if ok then on_ses encrypt_packet c else Inr c))"
    by (rule res_post_call [OF open_init_inv]) (auto intro!: send_inv)
  then show ?thesis by (simp add: Ch_open_init)
qed (simp_all only: chan_exec.simps handlers_inv received_inv)

end

end
