(* ===== verification/Svr_Inv.thy ===== *)
theory Svr_Inv
  imports Svr_Channels Channel_Inv
begin

text \<open>
  The invariant of sessions, children and listeners: the table of children points only to sessions that exist, and
  what is recorded of an exit is fit for the message that reports it. Process ids are positive.
\<close>

section \<open>The invariant\<close>

definition exit_ok :: "exitinfo \<Rightarrow> bool" where
  "exit_ok ex \<longleftrightarrow> exitpid ex = -1 \<or> 0 < exitpid ex \<and> (exitsignal ex = -1 \<or> 0 < exitsignal ex)"

definition child_ok :: "sconn \<Rightarrow> ChildPid \<Rightarrow> bool" where
  "child_ok c cp \<longleftrightarrow> child_pid cp = -1 \<and> child_chan cp = None \<or>
     0 < child_pid cp \<and> (\<exists>i. child_chan cp = Some i \<and> sess_view c (unat i) \<noteq> None)"

text \<open>
  The table of listeners: each stands at its index, has a socket and the address it was asked for, and its type is
  that of the functions it points to. There are at most 21 entries.
\<close>

definition listener_ok :: "nat \<Rightarrow> Listener \<Rightarrow> bool" where
  "listener_ok i l \<longleftrightarrow> li_index l = of_nat i \<and> li_socks l \<noteq> [] \<and> request_listenaddr (li_typedata l) \<noteq> None \<and>
     li_type l = (case li_kind l of Tcp_listener \<Rightarrow> LISTENER_TYPE_TCPFORWARDED | Stream_listener \<Rightarrow> LISTENER_TYPE_STREAMFORWARDED)"

definition listeners_ok :: "Listener option list \<Rightarrow> u32 \<Rightarrow> (nat \<Rightarrow> int list option) \<Rightarrow> bool" where
  "listeners_ok ls n listens \<longleftrightarrow> n = of_nat (length ls) \<and> length ls \<le> 21 \<and>
     (\<forall>i l. i < length ls \<and> ls ! i = Some l \<longrightarrow> listener_ok i l) \<and> (\<forall>k socks. listens k = Some socks \<longrightarrow> socks \<noteq> [])"

definition sess_inv :: "sconn \<Rightarrow> bool" where
  "sess_inv c \<longleftrightarrow> (\<forall>cp \<in> set (cn_childpids c). child_ok c cp) \<and>
     (\<forall>i t cs. sess_view c i = Some (t, cs) \<longrightarrow> t = cstr ''session'' \<and> exit_ok (cs_exit cs)) \<and> exit_ok (cn_lastexit c) \<and>
     (\<forall>n w r e p. cn_spawn c n = Some (w, r, e, p) \<longrightarrow> 0 < p) \<and> (\<forall>n p. cn_fork c n = Some p \<longrightarrow> 0 < p) \<and>
     listeners_ok (cn_listeners c) (cn_listensize c) (cn_listen c)"

lemma sess_inv_frame: "same a c \<Longrightarrow> sess_inv a \<Longrightarrow> sess_inv c"
  by (simp add: same_def sess_inv_def child_ok_def)

lemma same_tick [simp]: "same a (tick c) = same a c"
  by (simp add: tick_def)

lemma sess_at_view: "sess_at i c = Inr cs \<Longrightarrow> sess_inv c \<Longrightarrow> sess_view c (unat i) = Some (cstr ''session'', cs) \<and> exit_ok (cs_exit cs)"
  using sess_view_at [of i c] by (auto simp: sess_at_def rbind_eq_Inr deref_eq_Inr sess_inv_def)

lemma view_sess_at:
  assumes "sess_view c (unat i) \<noteq> None"
  obtains ch cs where "chan_at i c = Inr ch" "typedata ch = Some cs" "sess_at i c = Inr cs"
proof -
  obtain ch where ch: "unat i < length (cn_channels c)" "cn_channels c ! unat i = Some ch"
    using assms by (cases "cn_channels c ! unat i") (auto simp: sess_view_def split: if_splits)
  then obtain cs where "typedata ch = Some cs" using assms by (auto simp: sess_view_def)
  then show ?thesis using that ch by (auto simp: sess_at_def chan_at_def)
qed

text \<open>Changing a session; \<open>J\<close> says in addition which sessions there are.\<close>

definition sess_inv_at :: "u32 \<Rightarrow> sconn \<Rightarrow> bool" where
  "sess_inv_at i c \<longleftrightarrow> sess_inv c \<and> sess_view c (unat i) \<noteq> None"

lemma upd_sess_result:
  assumes "upd_sess i f c = Inr c'"
  shows "\<exists>ch cs. chan_at i c = Inr ch \<and> typedata ch = Some cs \<and> c' = set_chan i (Some (ch\<lparr>typedata := Some (f cs)\<rparr>)) c"
  using assms by (auto simp: upd_sess_def sess_at_def rbind_eq_Inr deref_eq_Inr upd_chan_def)

lemma upd_sess_inv_at:
  assumes "sess_inv c" "\<And>cs. exit_ok (cs_exit cs) \<Longrightarrow> exit_ok (cs_exit (f cs))"
  shows "res_post (sess_inv_at i) (upd_sess i f c)"
proof (rule res_postI)
  fix c' assume "upd_sess i f c = Inr c'"
  then obtain ch cs where ch: "chan_at i c = Inr ch" "typedata ch = Some cs" "c' = set_chan i (Some (ch\<lparr>typedata := Some (f cs)\<rparr>)) c"
    using upd_sess_result by blast
  have v: "sess_view c' = (sess_view c)(unat i := Some (chan_type ch, f cs))"
    using ch by (simp add: sess_view_set chan_at_eq)
  have s: "chan_type ch = cstr ''session''" "exit_ok (cs_exit cs)"
    using sess_view_at [OF ch(1)] ch(2) assms(1) by (simp_all add: sess_inv_def)
  have "child_ok c cp \<Longrightarrow> child_ok c' cp" for cp by (auto simp: child_ok_def v)
  moreover have "cn_childpids c' = cn_childpids c" "cn_lastexit c' = cn_lastexit c" "cn_spawn c' = cn_spawn c" "cn_fork c' = cn_fork c"
      "cn_listeners c' = cn_listeners c" "cn_listensize c' = cn_listensize c" "cn_listen c' = cn_listen c"
    by (simp_all add: ch(3))
  ultimately show "sess_inv_at i c'" using assms s by (auto simp: sess_inv_at_def sess_inv_def v split: if_splits)
qed

lemma upd_sess_inv:
  "sess_inv c \<Longrightarrow> (\<And>cs. exit_ok (cs_exit cs) \<Longrightarrow> exit_ok (cs_exit (f cs))) \<Longrightarrow> res_post sess_inv (upd_sess i f c)"
  by (rule res_post_mono [OF upd_sess_inv_at]) (simp_all add: sess_inv_at_def)

lemma sess_inv_at_frame: "same a c \<Longrightarrow> sess_inv_at i a \<Longrightarrow> sess_inv_at i c"
  using sess_inv_frame by (auto simp: sess_inv_at_def same_def)

section \<open>Children\<close>

lemma set_addchildpid: "set (addchildpid i pid cps) \<subseteq> insert \<lparr>child_pid = pid, child_chan = Some i\<rparr> (set cps)"
proof -
  let ?n = "length (takeWhile (\<lambda>cp. child_pid cp \<noteq> -1) cps)" and ?new = "\<lparr>child_pid = pid, child_chan = Some i\<rparr>"
  show ?thesis
  proof (cases "?n = length cps")
    case True
    then have "addchildpid i pid cps = cps @ [?new]" by (simp add: addchildpid_def)
    then show ?thesis by simp
  next
    case False
    then have "addchildpid i pid cps = cps[?n := ?new]" by (simp add: addchildpid_def)
    then show ?thesis using set_update_subset_insert [of cps ?n ?new] by (simp only:)
  qed
qed

lemma addchildpid_inv:
  assumes "sess_inv_at i c" "0 < pid"
  shows "sess_inv_at i (c\<lparr>cn_childpids := addchildpid i pid (cn_childpids c)\<rparr>)"
proof -
  let ?c = "c\<lparr>cn_childpids := addchildpid i pid (cn_childpids c)\<rparr>"
  have v: "sess_view ?c = sess_view c" by (rule sess_view_cong) simp
  then have "child_ok ?c = child_ok c" by (simp add: child_ok_def fun_eq_iff)
  moreover have "child_ok c \<lparr>child_pid = pid, child_chan = Some i\<rparr>" using assms by (simp add: child_ok_def sess_inv_at_def)
  ultimately show ?thesis using assms(1) set_addchildpid [of i pid "cn_childpids c"] v by (auto simp: sess_inv_at_def sess_inv_def)
qed

lemma find_child:
  assumes "sess_inv c" "List.find (\<lambda>cp. child_pid cp = pid) (cn_childpids c) = Some cp" "pid \<noteq> -1"
  obtains i ch cs where "child_chan cp = Some i" "chan_at i c = Inr ch" "typedata ch = Some cs" "sess_at i c = Inr cs" "0 < pid"
proof -
  have "cp \<in> set (cn_childpids c)" "child_pid cp = pid" using assms(2) by (auto simp: find_Some_iff)
  then have "0 < pid \<and> (\<exists>i. child_chan cp = Some i \<and> sess_view c (unat i) \<noteq> None)"
    using assms(1,3) by (auto simp: sess_inv_def child_ok_def)
  then show ?thesis using that view_sess_at by metis
qed

lemma lastexit_inv: "sess_inv c \<Longrightarrow> exit_ok ex \<Longrightarrow> sess_inv (c\<lparr>cn_lastexit := ex\<rparr>)"
  using sess_view_cong [of "c\<lparr>cn_lastexit := ex\<rparr>" c] by (simp add: sess_inv_def child_ok_def)

text \<open>Recording the end of a child: it finds either a session that exists or none.\<close>

definition status_ok :: "int \<times> wait_status \<Rightarrow> bool" where
  "status_ok = (\<lambda>(pid, status). 0 < pid \<and> (case status of Exited n \<Rightarrow> True | Signaled n d \<Rightarrow> 0 < n))"

lemma set_exit_ok: "status_ok (pid, status) \<Longrightarrow> exit_ok (set_exit pid status ex)"
  by (cases status) (auto simp: status_ok_def set_exit_def exit_ok_def Let_def)

lemma record_exit_inv:
  assumes "sess_inv c" "status_ok w"
  shows "\<exists>c'. record_exit w c = Inr c' \<and> sess_inv c'"
proof -
  obtain pid status where w: "w = (pid, status)" by (cases w)
  then have pid: "pid \<noteq> -1" using assms(2) by (simp add: status_ok_def)
  show ?thesis
  proof (cases "List.find (\<lambda>cp. child_pid cp = pid) (cn_childpids c)")
    case None
    then show ?thesis using assms w by (simp add: record_exit_def lastexit_inv set_exit_ok)
  next
    case (Some cp)
    let ?f = "\<lambda>cs. cs\<lparr>cs_exit := set_exit pid status (cs_exit cs)\<rparr>"
    obtain i ch cs where i: "child_chan cp = Some i" "chan_at i c = Inr ch" "typedata ch = Some cs" "sess_at i c = Inr cs"
      using find_child [OF assms(1) Some pid] by blast
    have r: "record_exit w c = upd_sess i ?f c" using Some i by (simp add: record_exit_def w)
    have "\<exists>c'. upd_sess i ?f c = Inr c'" using i by (simp add: upd_sess_def upd_chan_def)
    then show ?thesis using r res_postD [OF upd_sess_inv [OF assms(1), where f = ?f and i = i]] set_exit_ok assms(2) w by auto
  qed
qed

lemma record_exits_inv: "sess_inv c \<Longrightarrow> list_all status_ok ws \<Longrightarrow> \<exists>c'. record_exits ws c = Inr c' \<and> sess_inv c'"
proof (induction ws arbitrary: c)
  case (Cons w ws)
  obtain c1 where c1: "record_exit w c = Inr c1" "sess_inv c1" using record_exit_inv [OF Cons.prems(1), of w] Cons.prems(2) by (auto simp del: split_paired_All)
  with Cons.IH [OF c1(2)] Cons.prems(2) show ?case by simp
qed simp

lemma match_lastexit_inv: "sess_inv_at i c \<Longrightarrow> res_post (sess_inv_at i) (match_lastexit c)"
proof (rule res_postI)
  fix c' assume c: "sess_inv_at i c" "match_lastexit c = Inr c'"
  show "sess_inv_at i c'"
  proof (cases "c' = c")
    case False
    then obtain cp j c1 where j: "List.find (\<lambda>cp. child_pid cp = exitpid (cn_lastexit c)) (cn_childpids c) = Some cp" "child_chan cp = Some j"
        "upd_sess j (\<lambda>cs. cs\<lparr>cs_exit := cn_lastexit c\<rparr>) c = Inr c1" "c' = c1\<lparr>cn_lastexit := (cn_lastexit c1)\<lparr>exitpid := -1\<rparr>\<rparr>"
      using c(2) by (auto simp: match_lastexit_def rbind_eq_Inr deref_eq_Inr split: if_splits option.splits)
    have inv: "sess_inv c" "exit_ok (cn_lastexit c)" using c(1) by (simp_all add: sess_inv_at_def sess_inv_def)
    have "sess_inv c1" using res_postD [OF upd_sess_inv [OF inv(1)] j(3)] inv(2) by simp
    then have "sess_inv c'" unfolding j(4) by (rule lastexit_inv) (simp add: exit_ok_def)
    moreover have "sess_view c1 (unat i) \<noteq> None"
      using c(1) upd_sess_result [OF j(3)] by (auto simp: sess_inv_at_def sess_view_set chan_at_eq)
    ultimately show ?thesis using sess_view_cong [of c' c1] j(4) by (simp add: sess_inv_at_def)
  qed (use c in simp)
qed

section \<open>Handlers\<close>

lemma inv_call_same: "sess_inv c \<Longrightarrow> res_post (same c) m \<Longrightarrow> (\<And>c. sess_inv c \<Longrightarrow> res_post P (f c)) \<Longrightarrow> res_post P (rbind m f)"
  by (erule res_post_call [where Q = "same c"], drule (1) sess_inv_frame) blast

lemma at_call_same: "sess_inv_at i c \<Longrightarrow> res_post (same c) m \<Longrightarrow> (\<And>c. sess_inv_at i c \<Longrightarrow> res_post P (f c)) \<Longrightarrow> res_post P (rbind m f)"
  by (erule res_post_call [where Q = "same c"], drule (1) sess_inv_at_frame) blast

lemma inv_read: "sess_inv c \<Longrightarrow> (\<And>x c. sess_inv c \<Longrightarrow> res_post P (g x c)) \<Longrightarrow> res_post P (rbind (on_ses_get f c) (\<lambda>(x, c). g x c))"
  by (rule res_post_call [OF same_read [OF same_refl]]) (auto intro: sess_inv_frame split: prod.splits)

lemma inv_sub: "res_post (\<lambda>(r, c). sess_inv c) m \<Longrightarrow> (\<And>r c. sess_inv c \<Longrightarrow> res_post P (f r c)) \<Longrightarrow> res_post P (rbind m (\<lambda>(r, c). f r c))"
  by (erule res_post_call) (auto split: prod.splits)

lemma sess_inv_cong: "same a c \<Longrightarrow> sess_inv a = sess_inv c"
  by (simp add: same_def sess_inv_def child_ok_def)

lemma inv_frames [simp]:
  "sess_inv (emit e c) = sess_inv c" "sess_inv (tick c) = sess_inv c" "sess_inv (update_channel_prio c) = sess_inv c"
  "sess_inv (c\<lparr>cn_maxfd := f\<rparr>) = sess_inv c"
  by (rule sess_inv_cong [symmetric]; simp)+

lemma inv_sess: "sess_inv c \<Longrightarrow> (\<And>cs. exit_ok (cs_exit cs) \<Longrightarrow> exit_ok (cs_exit (f cs))) \<Longrightarrow> (\<And>c. sess_inv c \<Longrightarrow> res_post P (g c)) \<Longrightarrow>
    res_post P (rbind (upd_sess i f c) g)"
  by (rule res_post_call [OF upd_sess_inv])

lemma inv_chan: "sess_inv c \<Longrightarrow> (\<And>ch. typedata (f ch) = typedata ch) \<Longrightarrow> (\<And>ch. chan_type (f ch) = chan_type ch) \<Longrightarrow>
    (\<And>c. sess_inv c \<Longrightarrow> res_post P (g c)) \<Longrightarrow> res_post P (rbind (upd_chan i f c) g)"
  by (rule inv_call_same [OF _ same_upd [OF same_refl]])

lemma init_session:
  assumes "chan_at i c = Inr ch" "chan_type ch = cstr ''session''" "sess_inv c"
  shows "res_post (\<lambda>(r, c). sess_inv c) (newchansess i c)"
proof (rule res_postI)
  fix x assume "newchansess i c = Inr x"
  then have x: "x = (0, set_chan i (Some (ch\<lparr>typedata := Some new_ChanSess, chan_prio := DROPBEAR_PRIO_LOWDELAY\<rparr>)) c)" "typedata ch = None"
    using assms(1) by (auto simp: newchansess_def upd_chan_def rbind_eq_Inr dassert_eq_Inr)
  let ?c = "set_chan i (Some (ch\<lparr>typedata := Some new_ChanSess, chan_prio := DROPBEAR_PRIO_LOWDELAY\<rparr>)) c"
  have v: "sess_view ?c = (sess_view c)(unat i := Some (cstr ''session'', new_ChanSess))"
    using assms(1,2) by (simp add: sess_view_set chan_at_eq del: cstr_Cons)
  have "child_ok c cp \<Longrightarrow> child_ok ?c cp" for cp by (auto simp: child_ok_def v)
  moreover have "exit_ok (cs_exit new_ChanSess)" by (simp add: exit_ok_def new_ChanSess_def)
  ultimately show "case x of (r, c) \<Rightarrow> sess_inv c"
    using assms(3) by (auto simp: x(1) sess_inv_def v split: if_splits)
qed

lemma check_inv: "sess_inv c \<Longrightarrow> res_post (\<lambda>(r, c). sess_inv c) (sesscheckclose i c)"
  unfolding sesscheckclose_def
  by (rule res_post_rbind [of "sess_at i c"] inv_call_same [where c = c] res_post_if same_upd [OF same_refl] | assumption | simp; fail)+

lemma same_exit_msg: "same a c \<Longrightarrow> res_post (same a) (send_exitsignalstatus i c)"
  unfolding send_exitsignalstatus_def send_msg_chansess_exitsignal_def send_msg_chansess_exitstatus_def
  by (rule res_post_rbind res_post_if res_post_option res_post_prod same_ses | assumption | simp; fail)+

lemma same_close: "same a c \<Longrightarrow> res_post (same a) (closechansess i c)"
  unfolding closechansess_def by (intro res_post_rbind res_post_if same_exit_msg) simp_all

lemma nopty_inv: "sess_inv c \<Longrightarrow> res_post (\<lambda>(r, c). sess_inv c) (noptycommand i c)"
proof (rule res_postI)
  fix x assume c: "sess_inv c" "noptycommand i c = Inr x"
  show "case x of (r, c) \<Rightarrow> sess_inv c"
  proof (cases "cn_spawn c (cn_calls c)")
    case None
    then show ?thesis using c by (auto simp: noptycommand_def rbind_eq_Inr)
  next
    case (Some q)
    obtain wfd rfd efd pid where q: "q = (wfd, rfd, efd, pid)" by (cases q)
    have pid: "0 < pid" using Some q c(1) unfolding sess_inv_def by blast
    have "res_post (\<lambda>(r, c). sess_inv c) (noptycommand i c)"
      unfolding noptycommand_def Let_def Some q option.case prod.case
    proof (rule res_post_rbind, rule res_post_call [OF upd_sess_inv_at], goal_cases)
      case (3 cs c1)
      show ?case
      proof (rule at_call_same [OF 3(2) same_upd [OF same_refl]], goal_cases)
        case (3 c2)
        let ?c = "c2\<lparr>cn_maxfd := max (max (max (cn_maxfd c2) wfd) rfd) efd, cn_childpids := addchildpid i pid (cn_childpids c2)\<rparr>"
        have "same (c2\<lparr>cn_childpids := addchildpid i pid (cn_childpids c2)\<rparr>) ?c"
          using sess_view_cong [of ?c "c2\<lparr>cn_childpids := addchildpid i pid (cn_childpids c2)\<rparr>"] by (simp add: same_def)
        then have "sess_inv_at i ?c" using addchildpid_inv [OF 3 pid] by (rule sess_inv_at_frame)
        then show ?case by (rule res_post_call [OF match_lastexit_inv]) (simp add: sess_inv_at_def)
      qed simp_all
    qed (use c(1) in simp_all)
    then show ?thesis using c(2) by (rule res_postD)
  qed
qed

lemma pty_inv: "sess_inv c \<Longrightarrow> res_post (\<lambda>(r, c). sess_inv c) (ptycommand i c)"
proof (rule res_postI)
  fix x assume c: "sess_inv c" "ptycommand i c = Inr x"
  obtain cs where cs: "sess_at i c = Inr cs" using c(2) by (auto simp: ptycommand_def rbind_eq_Inr)
  show "case x of (r, c) \<Rightarrow> sess_inv c"
  proof (cases "(cs_master cs = -1 \<or> cs_tty cs = None) \<or> cn_fork c (cn_calls c) = None")
    case True
    then show ?thesis using c cs by (auto simp: ptycommand_def split: if_splits)
  next
    case False
    then obtain pid where f: "cn_fork c (cn_calls c) = Some pid" "\<not> (cs_master cs = -1 \<or> cs_tty cs = None)" by auto
    have pid: "0 < pid" using f(1) c(1) unfolding sess_inv_def by blast
    have "res_post (\<lambda>(r, c). sess_inv c) (ptycommand i c)"
      unfolding ptycommand_def Let_def f option.case cs rbind_simps if_not_P [OF f(2)]
    proof (rule res_post_call [OF upd_sess_inv_at], goal_cases)
      case (3 c1)
      have "sess_inv_at i (c1\<lparr>cn_childpids := addchildpid i pid (cn_childpids c1)\<rparr>)" using 3 pid by (rule addchildpid_inv)
      then have "sess_inv (emit (Ev_close (cs_slave cs)) (c1\<lparr>cn_childpids := addchildpid i pid (cn_childpids c1)\<rparr>))"
        by (simp add: sess_inv_at_def)
      then show ?case by (rule inv_chan) simp_all
    qed (use c(1) in simp_all)
    then show ?thesis using c(2) by (rule res_postD)
  qed
qed

lemma read_command_inv: "sess_inv c \<Longrightarrow> res_post (\<lambda>(r, c). sess_inv c) (read_command i sub c)"
  unfolding read_command_def
  by (rule res_post_rbind [of "sess_at _ _"] res_post_rbind [of "deref _"] res_post_rbind [of "ikofi_exe_to_lib _ _"] inv_read inv_sess
      inv_sub res_post_option res_post_if | assumption | simp; fail)+

lemma set_command_exit [simp]: "cs_exit (make_connection_string c (set_command c cs)) = cs_exit cs"
proof -
  have "cs_exit (set_command c cs) = cs_exit cs"
    by (simp add: set_command_def force_command_def svr_pubkey_set_forced_command_def split: option.split)
  then show ?thesis by (simp add: make_connection_string_def Let_def split: prod.split)
qed

lemma start_inv: "sess_inv c \<Longrightarrow> res_post (\<lambda>(r, c). sess_inv c) (start_command i c)"
  unfolding start_command_def
  by (rule res_post_rbind [of "sess_at _ _"] inv_sess inv_chan inv_sub res_post_call [where Q = sess_inv] upd_sess_inv nopty_inv pty_inv
      res_post_if | assumption | simp; fail)+

lemma command_inv: "sess_inv c \<Longrightarrow> res_post (\<lambda>(r, c). sess_inv c) (sessioncommand e sub i c)"
  unfolding sessioncommand_def
  by (rule res_post_rbind [of "sess_at _ _"] inv_sub read_command_inv start_inv res_post_if | assumption | simp; fail)+

lemma signal_inv: "sess_inv c \<Longrightarrow> res_post (\<lambda>(r, c). sess_inv c) (sessionsignal i c)"
  unfolding sessionsignal_def
  by (rule res_post_rbind [of "sess_at _ _"] inv_read res_post_option res_post_if res_post_prod | assumption | simp; fail)+

lemma winchange_inv: "sess_inv c \<Longrightarrow> res_post (\<lambda>(r, c). sess_inv c) (sessionwinchange i c)"
  unfolding sessionwinchange_def
  by (rule res_post_rbind [of "sess_at _ _"] inv_read res_post_if | assumption | simp; fail)+

lemma termmodes_inv: "sess_inv c \<Longrightarrow> res_post sess_inv (get_termmodes i c)"
  unfolding get_termmodes_def Let_def
  by (rule res_post_rbind [of "sess_at _ _"] res_post_rbind [of "deref _"] inv_read res_post_option res_post_if | assumption | simp; fail)+

lemma sessionpty_inv: "sess_inv c \<Longrightarrow> res_post (\<lambda>(r, c). sess_inv c) (sessionpty i c)"
  unfolding sessionpty_def
  by (rule res_post_rbind [of "sess_at _ _"] inv_read inv_sess inv_sub winchange_inv res_post_call [OF termmodes_inv] res_post_option res_post_if
      res_post_prod | assumption | simp; fail)+

lemma session_request_inv: "sess_inv c \<Longrightarrow> res_post (\<lambda>(r, c). sess_inv c) (session_request type i c)"
  unfolding session_request_def by (simp add: winchange_inv command_inv sessionpty_inv signal_inv)

lemma same_reply: "same a c \<Longrightarrow> res_post (same a) (send_msg_channel_success i c)"
    "same a c \<Longrightarrow> res_post (same a) (send_msg_channel_failure i c)"
  unfolding send_msg_channel_success_def send_msg_channel_failure_def
  by (rule res_post_rbind res_post_if same_ses | assumption | simp; fail)+

lemma session_reply_inv: "sess_inv c \<Longrightarrow> res_post sess_inv (send_msg_channel_success i c)"
    "sess_inv c \<Longrightarrow> res_post sess_inv (send_msg_channel_failure i c)"
  by (rule res_post_mono [OF same_reply(1) [OF same_refl]] res_post_mono [OF same_reply(2) [OF same_refl]], erule (1) sess_inv_frame)+

lemma chansession_request_inv: "sess_inv c \<Longrightarrow> res_post sess_inv (chansessionrequest i c)"
  unfolding chansessionrequest_def
  by (rule res_post_rbind [of "chan_at _ _"] res_post_rbind [of "dassert _ _"] inv_read inv_sub session_request_inv session_reply_inv res_post_if
      | assumption | simp; fail)+

lemma tcpdirect_inv: "sess_inv c \<Longrightarrow> res_post (\<lambda>(r, c). sess_inv c) (newtcpdirect i c)"
  unfolding newtcpdirect_def
  by (rule res_post_rbind [of "svr_pubkey_allows_local_tcpfwd _ _ _"] inv_read inv_chan res_post_if | assumption | simp; fail)+

lemma streamlocal_inv: "sess_inv c \<Longrightarrow> res_post (\<lambda>(r, c). sess_inv c) (newstreamlocal i c)"
  unfolding newstreamlocal_def by (rule inv_read inv_chan res_post_if | assumption | simp; fail)+

lemma cleanup_session_inv:
  assumes "chan_at i c = Inr ch" "sess_inv c" "cleanupchansess i c = Inr c'"
  shows "sess_inv c' \<and> sess_view c' (unat i) = None"
proof (cases "typedata ch")
  case None
  then show ?thesis using assms sess_view_at [OF assms(1)] by (simp add: cleanupchansess_def)
next
  case (Some cs)
  let ?clear = "\<lambda>cp. if child_chan cp = Some i then \<lparr>child_pid = -1, child_chan = None\<rparr> else cp"
  have c': "c' = set_chan i (Some (ch\<lparr>typedata := None\<rparr>)) (c\<lparr>cn_childpids := map ?clear (cn_childpids c)\<rparr>)"
    using assms(1,3) Some chan_at_cong [of "c\<lparr>cn_childpids := map ?clear (cn_childpids c)\<rparr>" c i]
    by (auto simp: cleanupchansess_def clear_children_def rbind_eq_Inr upd_chan_def)
  have "sess_view c' = (sess_view (c\<lparr>cn_childpids := map ?clear (cn_childpids c)\<rparr>))(unat i := None)"
    unfolding c' using assms(1) by (subst sess_view_set) (simp_all add: chan_at_eq)
  then have v: "sess_view c' = (sess_view c)(unat i := None)"
    using sess_view_cong [of "c\<lparr>cn_childpids := map ?clear (cn_childpids c)\<rparr>" c] by simp
  have "child_ok c' (?clear cp)" if "child_ok c cp" for cp
    using that by (auto simp: child_ok_def v word_unat_eq_iff)
  then have "\<forall>cp \<in> set (map ?clear (cn_childpids c)). child_ok c' cp" using assms(2) unfolding sess_inv_def set_map by blast
  moreover have "cn_childpids c' = map ?clear (cn_childpids c)" "cn_lastexit c' = cn_lastexit c" "cn_spawn c' = cn_spawn c" "cn_fork c' = cn_fork c"
      "cn_listeners c' = cn_listeners c" "cn_listensize c' = cn_listensize c" "cn_listen c' = cn_listen c"
    by (simp_all add: c')
  ultimately show ?thesis using assms(2) unfolding sess_inv_def by (simp only: v fun_upd_apply) simp
qed

interpretation svr_sess: chan_inv svr_types sess_inv
proof unfold_locales
  fix ch f i and c :: sconn
  assume "inithandler (svr_types (chan_type ch)) = Some f" "chan_at i c = Inr ch" "sess_inv c"
  then show "res_post (\<lambda>(r, c). sess_inv c) (f i c)"
    using init_session [of i c ch] tcpdirect_inv [of c i] streamlocal_inv [of c i] by (auto simp: svr_types_simps split: if_splits)
next
  fix ch f i and c :: sconn
  assume "checkclose (svr_types (chan_type ch)) = Some f" "sess_inv c"
  then show "res_post (\<lambda>(r, c). sess_inv c) (f i c)"
    using check_inv [of c i] by (auto simp: svr_types_simps split: if_splits)
next
  fix ch h i and c :: sconn
  assume "reqhandler (svr_types (chan_type ch)) = Some h" "sess_inv c"
  then show "res_post sess_inv (h i c)"
    using chansession_request_inv [of c i] by (auto simp: svr_types_simps split: if_splits)
next
  fix ch h i and c :: sconn
  assume "closehandler (svr_types (chan_type ch)) = Some h" "sess_inv c"
  then show "res_post sess_inv (h i c)"
    using same_close [OF same_refl, of c i] by (auto simp: svr_types_simps split: if_splits elim!: res_post_mono intro: sess_inv_frame)
next
  fix ch i and c :: sconn
  assume c: "chan_at i c = Inr ch" "sess_inv c"
  show "res_post (\<lambda>c. sess_inv c \<and> sess_view c (unat i) = None) (call_opt (cleanup (svr_types (chan_type ch))) i c)"
  proof (cases "chan_type ch = cstr ''session''")
    case True
    then show ?thesis using cleanup_session_inv [OF c] by (simp add: svr_types_simps call_opt_def res_post_def)
  next
    case False
    then have "sess_view c (unat i) = None"
      using c(2) sess_view_at [OF c(1)] by (cases "typedata ch") (auto simp: sess_inv_def simp del: cstr_Cons)
    then show ?thesis using c(2) False by (simp add: svr_types_simps call_opt_def)
  qed
qed (rule sess_inv_frame)

end
