(* ===== verification/Session_Loop.thy ===== *)
theory Session_Loop
  imports Svr_Inv Svr_Auth Handshake
begin

text \<open>
  The life of a connection: its start (\<^verbatim>\<open>svr_session\<close> of \<^verbatim>\<open>svr-session.c\<close>), the table of packet
  handlers, and the main loop of \<^verbatim>\<open>common-session.c\<close> with its timeouts, keep-alive messages and the exchange of
  identifications. One iteration of the loop is a function of what the system calls return in it.
  Connections in progress (\<^verbatim>\<open>netio.c\<close>) are outside: those that fail or are established in an iteration are part of
  the input.
\<close>

section \<open>Time\<close>

abbreviation (input) "LONG_MAX \<equiv> 9223372036854775807 :: int"
abbreviation (input) "AUTH_TIMEOUT \<equiv> 300 :: int"
abbreviation (input) "KEX_REKEY_TIMEOUT \<equiv> 28800 :: int"
abbreviation (input) "KEX_REKEY_DATA \<equiv> 1073741824 :: u32"
abbreviation (input) "DEFAULT_KEEPALIVE_LIMIT \<equiv> 3 :: int"
abbreviation (input) "DROPBEAR_KEEPALIVE_STRING \<equiv> cstr ''keepalive@openssh.com''"

definition elapsed :: "int \<Rightarrow> int \<Rightarrow> int" where
  "elapsed now prev = (let del = now - prev in if del > LONG_MAX then LONG_MAX else del)"

definition send_msg_keepalive :: "'t conn \<Rightarrow> 't conn res" where
  "send_msg_keepalive c =
     (let old_time_idle = s_last_packet_time_idle (cn_ses c) in
      rbind (case get_any_ready_channel c of
               Some ch \<Rightarrow> start_send_channel_request (chan_index ch) DROPBEAR_KEEPALIVE_STRING c
             | None \<Rightarrow> on_ses (put_payload [FByte 80, FString DROPBEAR_KEEPALIVE_STRING]) c) (\<lambda>c.
      rbind (on_ses (send_fields [FByte 1]) c) (\<lambda>c.
      let (now, s) = monotonic_now (cn_ses c) in
      Inr (c\<lparr>cn_ses := s\<lparr>s_last_packet_time_keepalive_sent := now, s_last_packet_time_idle := old_time_idle\<rparr>\<rparr>))))"

definition rekey_due :: "int \<Rightarrow> sshsession \<Rightarrow> bool" where
  "rekey_due now s \<longleftrightarrow> \<not> sentkexinit (s_kexstate s) \<and>
     (elapsed now (lastkextime (s_kexstate s)) \<ge> KEX_REKEY_TIMEOUT \<or>
      datarecv (s_kexstate s) + datatrans (s_kexstate s) \<ge> KEX_REKEY_DATA \<or> needrekey (s_kexstate s))"

text \<open>The part for keep-alive messages, and the part after it.\<close>

definition check_keepalive :: "int \<Rightarrow> 't conn \<Rightarrow> 't conn res" where
  "check_keepalive now c =
     (let k = keepalive_secs (cn_opts c) in
      if k > 0 \<and> authdone (s_authstate (cn_ses c)) then
        rbind (if elapsed now (s_last_packet_time_any_sent (cn_ses c)) \<ge> k then send_msg_keepalive c else Inr c) (\<lambda>c.
        rbind (if elapsed now (s_last_packet_time_keepalive_recv (cn_ses c)) \<ge> k \<and>
                  elapsed now (s_last_packet_time_keepalive_sent (cn_ses c)) \<ge> k then send_msg_keepalive c else Inr c) (\<lambda>c.
        if elapsed now (s_last_packet_time_keepalive_recv (cn_ses c)) \<ge> k * DEFAULT_KEEPALIVE_LIMIT
        then Inl (Dropbear_exit ''Keepalive timeout'') else Inr c))
      else Inr c)"

definition check_limits :: "int \<Rightarrow> 't conn \<Rightarrow> 't conn res" where
  "check_limits now c =
     (if idle_timeout_secs (cn_opts c) > 0 \<and> elapsed now (s_last_packet_time_idle (cn_ses c)) \<ge> idle_timeout_secs (cn_opts c)
      then Inl (Dropbear_close ''Idle timeout'')
      else if max_duration_secs (cn_opts c) > 0 \<and> elapsed now (s_connect_time (cn_ses c)) \<ge> max_duration_secs (cn_opts c)
      then Inl (Dropbear_close ''Max duration reached'')
      else Inr c)"

definition checktimeouts :: "'t conn \<Rightarrow> 't conn res" where
  "checktimeouts c =
     (let (now, s) = monotonic_now (cn_ses c); c = c\<lparr>cn_ses := s\<rparr> in
      if \<not> authdone (s_authstate s) \<and> elapsed now (s_connect_time s) \<ge> AUTH_TIMEOUT
      then Inl (Dropbear_close ''Timeout before auth'')
      else if s_remoteident s = None then Inr c
      else
        rbind (if rekey_due now s
               then on_ses (send_msg_kexinit (cn_algos c)) (c\<lparr>cn_ses := s\<lparr>s_kexstate := (s_kexstate s)\<lparr>needrekey := False\<rparr>\<rparr>\<rparr>)
               else Inr c) (\<lambda>c.
        rbind (check_keepalive now c) (check_limits now)))"

definition update_timeout :: "int \<Rightarrow> int \<Rightarrow> int \<Rightarrow> int \<Rightarrow> int" where
  "update_timeout limit now last_event timeout =
     (if last_event > 0 \<and> limit > 0 then min timeout (max 0 (limit - elapsed now last_event)) else timeout)"

definition select_timeout :: "'t conn \<Rightarrow> int \<times> 't conn" where
  "select_timeout c =
     (let (now, s) = monotonic_now (cn_ses c); timeout = KEX_REKEY_TIMEOUT;
          timeout = (if \<not> sentkexinit (s_kexstate s) then update_timeout KEX_REKEY_TIMEOUT now (lastkextime (s_kexstate s)) timeout else timeout);
          timeout = (if needrekey (s_kexstate s) then 0 else timeout);
          timeout = (if \<not> authdone (s_authstate s) then update_timeout AUTH_TIMEOUT now (s_connect_time s) timeout else timeout);
          timeout = (if authdone (s_authstate s)
                     then update_timeout (keepalive_secs (cn_opts c)) now
                            (max (s_last_packet_time_keepalive_recv s) (s_last_packet_time_keepalive_sent s)) timeout else timeout);
          timeout = update_timeout (idle_timeout_secs (cn_opts c)) now (s_last_packet_time_idle s) timeout;
          timeout = update_timeout (max_duration_secs (cn_opts c)) now (s_connect_time s) timeout
      in (max timeout 0, c\<lparr>cn_ses := s\<rparr>))"

section \<open>Identification\<close>

definition send_session_identification :: "sshsession \<Rightarrow> sshsession res" where
  "send_session_identification s =
     (let line = LOCAL_IDENT @ cstr [CHR 0x0D, CHR 0x0A] in
      rbind (buf_new (of_nat (length line) + 1)) (\<lambda>b.
      rbind (buf_putbytes b line (of_nat (length line))) (writebuf_enqueue s)))"

text \<open>
  What happens in one round of the loop of \<^verbatim>\<open>ident_readln\<close>: \<^verbatim>\<open>select\<close> is interrupted or fails, times
  out, or \<^verbatim>\<open>read\<close> returns. The function does not return before a line is complete: with rounds that run out
  before, it diverges.
\<close>

datatype ident_round = Sel_intr | Sel_fail | Sel_timeout | Read_intr | Read_fail | Read_eof | Read_byte byte

datatype ident_result = Failed | Line bytes

fun ident_readln :: "nat \<Rightarrow> ident_round list \<Rightarrow> bytes \<Rightarrow> 't conn \<Rightarrow> (ident_result \<times> 't conn) res" where
  "ident_readln count [] buf c = (if length buf < count - 1 then Inl Diverge else Inr (Line buf, c))"
| "ident_readln count (r # rs) buf c =
     (if \<not> length buf < count - 1 then Inr (Line buf, c) else
      case r of
        Sel_intr \<Rightarrow> ident_readln count rs buf c
      | Sel_fail \<Rightarrow> Inr (Failed, c)
      | _ \<Rightarrow>
          rbind (checktimeouts c) (\<lambda>c.
          case r of
            Read_fail \<Rightarrow> Inr (Failed, c)
          | Read_eof \<Rightarrow> Inr (Failed, c)
          | Read_byte b \<Rightarrow>
              if b = 10 then Inr (Line buf, c)
              else ident_readln count rs (if b = 13 then buf else buf @ [b]) c
          | _ \<Rightarrow> ident_readln count rs buf c))"

definition svr_remoteclosed :: "'t conn \<Rightarrow> 'a res" where
  "svr_remoteclosed c = Inl (Dropbear_close ''Exited normally'')"

definition read_session_identification :: "ident_round list \<Rightarrow> 't conn \<Rightarrow> 't conn res" where
  "read_session_identification rs c =
     rbind (ident_readln 256 rs [] c) (\<lambda>(r, c).
     case r of
       Failed \<Rightarrow> svr_remoteclosed c
     | Line linebuf \<Rightarrow>
         if length linebuf + 1 \<ge> 4 \<and> take 4 (linebuf @ [0]) = cstr ''SSH-'' then
           let remoteident = c_string linebuf in
           if \<not> has_prefix (cstr ''SSH-2.'') remoteident \<and> \<not> has_prefix (cstr ''SSH-1.99-'') remoteident
           then Inl (Dropbear_exit ''Incompatible remote version'')
           else Inr (c\<lparr>cn_ses := (cn_ses c)\<lparr>s_remoteident := Some remoteident\<rparr>\<rparr>)
         else svr_remoteclosed c)"

section \<open>The loop\<close>

definition ignore_recv_response :: "'t handler" where
  "ignore_recv_response c = Inr c"

text \<open>The libraries the handlers call: \<open>fuel\<close> bounds the search for a random exponent.\<close>

record 'k env =
  env_kex :: kex_crypto
  env_fuel :: nat
  env_einval :: bool
  env_pk :: "'k pk_crypto"

definition svr_packettypes :: "'k env \<Rightarrow> ChanSess packettypes" where
  "svr_packettypes e =
     [(94, recv_msg_channel_data), (93, recv_msg_channel_window_adjust), (50, recv_msg_userauth_request (env_einval e) (env_pk e)),
      (5, recv_msg_service_request), (20, kexinit_handler), (30, kexdh_handler (env_kex e) (env_fuel e)), (21, newkeys_handler),
      (80, svr_recv_msg_global_request), (98, recv_msg_channel_request svr_types), (90, recv_msg_channel_open svr_types),
      (96, recv_msg_channel_eof svr_types), (97, recv_msg_channel_close svr_types), (99, ignore_recv_response),
      (100, ignore_recv_response), (82, ignore_recv_response), (81, ignore_recv_response),
      (91, recv_msg_channel_open_confirmation svr_types), (92, recv_msg_channel_open_failure svr_types)]"

text \<open>
  The input of an iteration: the connections that are given up while descriptors are collected, whether a signal
  asked the process to end, whether \<^verbatim>\<open>select\<close> failed, the descriptors it reports (none after a timeout or an
  interruption), whether the signal pipe is among them, the rounds of \<^verbatim>\<open>ident_readln\<close>, the results of the
  reads and the write on the socket, the connection that is established and the children that ended.
\<close>

record loop_input =
  lp_failed :: "(u32 \<times> bytes) list"
  lp_exitflag :: bool
  lp_select_fail :: bool
  lp_read :: "int list"
  lp_written :: "int list"
  lp_signal :: bool
  lp_ident :: "ident_round list"
  lp_r1 :: rd
  lp_r2 :: rd
  lp_junk :: "nat \<Rightarrow> byte"
  lp_connected :: "(u32 \<times> int) option"
  lp_children :: "(int \<times> wait_status) list"
  lp_write :: wr

text \<open>The descriptors the loop waits for: those of channels and listeners, and the socket.\<close>

definition queue_has_space :: "sshsession \<Rightarrow> bool" where
  "queue_has_space s \<longleftrightarrow> s_writequeue_len s \<le> 2 * TRANS_MAX_PAYLOAD_LEN"

definition loop_fds :: "bool \<Rightarrow> 't conn \<Rightarrow> int list \<times> int list" where
  "loop_fds space c = (let (reads, writes) = setchannelfds space c in (reads @ set_listener_fds c, writes))"

definition socket_fds :: "bool \<Rightarrow> 't conn \<Rightarrow> int list \<times> int list" where
  "socket_fds space c =
     (let s = cn_ses c in
      (if cn_sock_in c \<noteq> -1 \<and> (s_remoteident s \<noteq> None \<or> isempty (s_writequeue s)) \<and> space then [cn_sock_in c] else [],
       if cn_sock_out c \<noteq> -1 \<and> \<not> isempty (s_writequeue s) then [cn_sock_out c] else []))"

text \<open>\<^verbatim>\<open>set_connect_fds\<close> reports the connections that failed, \<^verbatim>\<open>handle_connect_fds\<close> at most one that succeeded.\<close>

fun loop_failed :: "(u32 \<times> bytes) list \<Rightarrow> sconn \<Rightarrow> sconn res" where
  "loop_failed [] c = Inr c"
| "loop_failed ((i, err) # ks) c = rbind (channel_connect_done svr_types False (-1) err i c) (loop_failed ks)"

definition loop_connected :: "(u32 \<times> int) option \<Rightarrow> sconn \<Rightarrow> sconn res" where
  "loop_connected k c = (case k of None \<Rightarrow> Inr c | Some (i, sock) \<Rightarrow> channel_connect_done svr_types True sock [] i c)"

definition loop_socket :: "'k env \<Rightarrow> loop_input \<Rightarrow> bool \<Rightarrow> sconn \<Rightarrow> sconn res" where
  "loop_socket e inp readable c =
     (if cn_sock_in c = -1 then Inr c else
      rbind (if \<not> readable then Inr c
             else if s_remoteident (cn_ses c) = None then read_session_identification (lp_ident inp) c
             else on_ses (read_packet (lp_junk inp) (lp_r1 inp) (lp_r2 inp)) c) (\<lambda>c.
      if s_payload (cn_ses c) \<noteq> None then process_packet (svr_packettypes e) c else Inr c))"

definition loop_write :: "wr \<Rightarrow> sconn \<Rightarrow> sconn res" where
  "loop_write w c =
     (if cn_sock_out c = -1 \<or> isempty (s_writequeue (cn_ses c)) then Inr c else
      rbind (write_packet w (cn_ses c)) (\<lambda>(out, s). Inr (emit (Ev_write (cn_sock_out c) out) (c\<lparr>cn_ses := s\<rparr>))))"

text \<open>What follows \<^verbatim>\<open>select\<close>, with the descriptors that were waited for.\<close>

definition loop_events :: "'k env \<Rightarrow> loop_input \<Rightarrow> int list \<Rightarrow> int list \<Rightarrow> sconn \<Rightarrow> sconn res" where
  "loop_events e inp reads writes c =
     (let readfds = (\<lambda>fd. fd \<in> set reads \<and> fd \<in> set (lp_read inp));
          writefds = (\<lambda>fd. fd \<in> set writes \<and> fd \<in> set (lp_written inp)) in
      if lp_exitflag inp then Inl (Dropbear_exit ''Terminated by signal'')
      else if lp_select_fail inp then Inl (Dropbear_exit ''Error in select'')
      else
        rbind (checktimeouts (c\<lparr>cn_signal_pending := lp_signal inp\<rparr>)) (\<lambda>c.
        rbind (loop_socket e inp (readfds (cn_sock_in c)) c) (\<lambda>c.
        rbind (on_ses maybe_flush_reply_queue c) (\<lambda>c.
        rbind (loop_connected (lp_connected inp) c) (\<lambda>c.
        rbind (svr_chansess_checksignal (lp_children inp) c) (\<lambda>c.
        rbind (channelio svr_types readfds writefds c) (\<lambda>c.
        rbind (handle_listeners readfds c)
        (loop_write (lp_write inp)))))))))"

definition loop_iteration :: "'k env \<Rightarrow> loop_input \<Rightarrow> sconn \<Rightarrow> sconn res" where
  "loop_iteration e inp c =
     (let space = queue_has_space (cn_ses c); (timeout, c) = select_timeout c in
      rbind (dassert (s_payload (cn_ses c) = None) ''ses.payload == NULL'') (\<lambda>_.
      let (reads, writes) = loop_fds space c in
      rbind (loop_failed (lp_failed inp) c) (\<lambda>c.
      let (sread, swrite) = socket_fds space c in
      loop_events e inp (reads @ sread) (writes @ swrite) c)))"

section \<open>The start\<close>

text \<open>\<^verbatim>\<open>svr_session\<close> after \<^verbatim>\<open>common_session_init\<close> has made the session \<open>s\<close>, up to the main loop.\<close>

definition svr_session :: "sshsession \<Rightarrow> sconn \<Rightarrow> sconn res" where
  "svr_session s c =
     rbind (svr_authinitialise (c\<lparr>cn_ses := s\<rparr>)) (\<lambda>c.
     let c = svr_chansessinitialise (listeners_initialise (chaninitialise svr_chantypes c)) in
     rbind (on_ses send_session_identification c) (\<lambda>c.
     let c = c\<lparr>cn_ses := kexfirstinitialise (cn_ses c)\<rparr> in
     on_ses (send_msg_kexinit (cn_algos c)) c))"

section \<open>The end\<close>

text \<open>
  What is left of a connection that ends: descriptors, listeners and the streams of the compression library. The
  memory that is released is not followed.
\<close>

definition svr_session_cleanup :: "sconn \<Rightarrow> sconn" where
  "svr_session_cleanup c = c\<lparr>cn_ses := (cn_ses c)\<lparr>s_authstate := (s_authstate (cn_ses c))\<lparr>pubkey_options := None\<rparr>\<rparr>, cn_childpids := []\<rparr>"

definition end_zstream :: "(bytes \<Rightarrow> bool) \<Rightarrow> bytes option \<Rightarrow> unit res" where
  "end_zstream close z = (case z of None \<Rightarrow> Inr () | Some st \<Rightarrow> if close st then Inr () else Inl (Dropbear_exit ''Crypto error''))"

definition session_cleanup :: "sconn \<Rightarrow> sconn res" where
  "session_cleanup c =
     rbind (chancleanup svr_types c) (\<lambda>c.
     let c = remove_all_listeners (svr_session_cleanup c); s = cn_ses c in
     rbind (end_zstream (l_inflateEnd (s_libs s)) (kd_zstream (k_recv (s_keys s)))) (\<lambda>_.
     rbind (end_zstream (l_deflateEnd (s_libs s)) (kd_zstream (k_trans (s_keys s)))) (\<lambda>_.
     Inr (c\<lparr>cn_ses := s\<lparr>s_writequeue := initqueue, s_newkeys := None, s_remoteident := None, s_session_id := None, s_hash := None,
            s_payload := None, s_readbuf := None, s_kexhashbuf := None, s_transkexinit := None, s_dh_K := None, s_dh_K_bytes := None\<rparr>\<rparr>))))"

end
