(* ===== verification/Svr_Reach.thy ===== *)
theory Svr_Reach
  imports Session_Loop Svr_Auth_Props
begin

text \<open>
  The states a connection can reach, from its start through any iterations of the main loop, and the invariant of
  all of them: the table of channels with its windows and buffers, the sessions with the table of children, and
  the listeners.
\<close>

section \<open>What does not touch the channels\<close>

definition chans :: "'t conn \<Rightarrow> 't Channel option list \<times> (runopts \<times> u32 \<times> u32 \<times> bytes list) \<times> (ChildPid list \<times> exitinfo) \<times>
    ((nat \<Rightarrow> (int \<times> int \<times> int \<times> int) option) \<times> (nat \<Rightarrow> int option)) \<times> (Listener option list \<times> u32 \<times> (nat \<Rightarrow> int list option))" where
  "chans c = (cn_channels c, chan_setup c, (cn_childpids c, cn_lastexit c), (cn_spawn c, cn_fork c), (cn_listeners c, cn_listensize c, cn_listen c))"

definition off :: "'t conn \<Rightarrow> 't conn \<Rightarrow> bool" where
  "off a c \<longleftrightarrow> chans c = chans a"

lemma off_refl [simp]: "off c c"
  by (simp add: off_def)

lemma off_frame [simp]:
  "off a (c\<lparr>cn_ses := s\<rparr>) = off a c" "off a (emit e c) = off a c" "off a (upd_auth f c) = off a c" "off a (m_close fd c) = off a c"
  "off a (c\<lparr>cn_svr_opts := so\<rparr>) = off a c" "off a (c\<lparr>cn_algos := T\<rparr>) = off a c" "off a (c\<lparr>cn_ikofi := k\<rparr>) = off a c"
  "off a (c\<lparr>cn_calls := n\<rparr>) = off a c" "off a (c\<lparr>cn_signal_pending := sp\<rparr>) = off a c" "off a (packet_out ty c) = off a c"
  by (simp_all add: off_def chans_def upd_auth_def emit_def m_close_def chan_setup_def packet_out_def)

lemma off_ses: "off a c \<Longrightarrow> res_post (off a) (on_ses f c)"
  unfolding on_ses_def by (intro res_post_intros) simp

lemma off_read: "off a c \<Longrightarrow> res_post (\<lambda>(x, c). off a c) (on_ses_get f c)"
  unfolding on_ses_get_def by (intro res_post_intros) simp

lemma off_read_call: "off a c \<Longrightarrow> (\<And>x c. off a c \<Longrightarrow> res_post P (g x c)) \<Longrightarrow> res_post P (rbind (on_ses_get f c) (\<lambda>(x, c). g x c))"
  by (rule res_post_call [OF off_read]) (auto split: prod.splits)

lemma off_sub: "res_post (\<lambda>(r, c). off a c) m \<Longrightarrow> (\<And>r c. off a c \<Longrightarrow> res_post P (f r c)) \<Longrightarrow> res_post P (rbind m (\<lambda>(r, c). f r c))"
  by (erule res_post_call) (auto split: prod.splits)

lemma off_delay: "off a c \<Longrightarrow> failure_delay c = (d, c') \<Longrightarrow> off a c'"
  by (auto simp: failure_delay_def Let_def split: prod.splits)

lemma off_failure: "off a c \<Longrightarrow> res_post (off a) (send_msg_userauth_failure partial incr c)"
  unfolding send_msg_userauth_failure_def Let_def
  by (rule res_post_call [OF off_ses], assumption) (auto split: prod.split intro: off_delay)

lemma off_success: "off a c \<Longrightarrow> res_post (off a) (send_msg_userauth_success c)"
  unfolding send_msg_userauth_success_def Let_def by (rule res_post_call [OF off_ses], assumption) simp

lemmas off_replies = off_failure off_success res_post_call [OF off_failure] res_post_call [OF off_success]

lemma off_username: "off a c \<Longrightarrow> res_post (\<lambda>(r, c). off a c) (checkusername n c)"
  unfolding checkusername_def fill_passwd_def
  by (rule res_post_if res_post_call [where Q = "off a"] res_post_option | assumption | simp; fail)+

lemma off_service: "off a c \<Longrightarrow> res_post (off a) (recv_msg_service_request c)"
  unfolding recv_msg_service_request_def send_msg_service_accept_def
  by (rule off_read_call res_post_if off_ses | assumption | simp; fail)+

lemma off_banner: "off a c \<Longrightarrow> res_post (off a) (send_banner c)"
  unfolding send_banner_def send_msg_userauth_banner_def
  by (rule res_post_option res_post_call [OF off_ses] | assumption | simp; fail)+

lemma off_pubkey: "off a c \<Longrightarrow> res_post (off a) (svr_auth_pubkey einval pk v c)"
  unfolding svr_auth_pubkey_def verify_pubkey_def pubkey_verified_def send_msg_userauth_pk_ok_def Let_def
  by (rule off_read_call off_replies off_ses res_post_if res_post_option res_post_rbind [of "signkey_type_from_signature _"]
      res_post_rbind [of "signkey_name_from_type _"] res_post_rbind [of "checkpubkey _ _ _ _ _"] | assumption | simp; fail)+

lemma off_ikofi: "off a c \<Longrightarrow> res_post (\<lambda>(r, c). off a c) (ikofi_svr_auth_password p c)"
  unfolding ikofi_svr_auth_password_def Let_def by (intro res_post_rbind res_post_prod res_post_if) simp_all

lemma off_password: "off a c \<Longrightarrow> res_post (off a) (svr_auth_password v c)"
  unfolding svr_auth_password_def
  by (rule off_read_call off_sub off_ikofi off_replies res_post_if res_post_option res_post_prod res_post_prod_app res_post_rbind [of "deref _"]
      res_post_rbind [of "constant_time_strcmp _ _"] | assumption | simp; fail)+

lemma off_auth: "off a c \<Longrightarrow> res_post (off a) (recv_msg_userauth_request einval pk c)"
  unfolding recv_msg_userauth_request_def userauth_method_def Let_def
  by (rule off_read_call off_sub [OF off_username] off_replies off_pubkey off_password res_post_call [OF off_banner] res_post_if res_post_prod
      res_post_rbind [of "method_none_ok _ _"] | assumption | simp; fail)+

lemma off_kex: "off a c \<Longrightarrow> res_post (off a) (kexinit_handler c)" "off a c \<Longrightarrow> res_post (off a) (kexdh_handler kc fuel c)"
    "off a c \<Longrightarrow> res_post (off a) (newkeys_handler c)"
  unfolding kexinit_handler_def kexdh_handler_def newkeys_handler_def
  by (rule off_ses res_post_rbind res_post_prod | assumption | simp; fail)+

lemma off_keepalive: "off a c \<Longrightarrow> res_post (off a) (send_msg_keepalive c)"
  unfolding send_msg_keepalive_def start_send_channel_request_def Let_def
  by (rule res_post_call [where Q = "off a"] res_post_option res_post_rbind [of "chan_at _ _"] off_ses res_post_prod | assumption
      | simp split: prod.split; fail)+

lemma off_check_keepalive: "off a c \<Longrightarrow> res_post (off a) (check_keepalive now c)"
  unfolding check_keepalive_def Let_def
  by (rule res_post_if res_post_call [where Q = "off a"] off_keepalive | assumption | simp; fail)+

lemma off_check_limits: "off a c \<Longrightarrow> res_post (off a) (check_limits now c)"
  by (simp add: check_limits_def)

lemma off_timeouts: "off a c \<Longrightarrow> res_post (off a) (checktimeouts c)"
  unfolding checktimeouts_def monotonic_now_def Let_def prod.case
  by (rule res_post_if res_post_call [OF off_check_keepalive] off_check_limits res_post_call [where Q = "off a"] off_ses | assumption | simp; fail)+

lemma off_readln: "off a c \<Longrightarrow> res_post (\<lambda>(r, c). off a c) (ident_readln n rs buf c)"
proof (induction rs arbitrary: buf c)
  case (Cons r rs)
  show ?case
  proof (cases r)
    case (Read_byte b)
    then show ?thesis using Cons by (auto intro!: res_post_call [OF off_timeouts])
  qed (use Cons in \<open>auto intro!: res_post_call [OF off_timeouts]\<close>)
qed simp

lemma off_ident: "off a c \<Longrightarrow> res_post (off a) (read_session_identification rs c)"
  unfolding read_session_identification_def svr_remoteclosed_def Let_def
  by (erule off_sub [OF off_readln]) (auto split: ident_result.split)

section \<open>The invariant\<close>

definition server_inv :: "sconn \<Rightarrow> bool" where
  "server_inv c \<longleftrightarrow> conn_ok {} c \<and> sess_inv c"

lemma server_inv_eq: "server_inv = (\<lambda>c. conn_ok {} c \<and> sess_inv c)"
  by (simp add: fun_eq_iff server_inv_def)

lemma server_inv_off:
  assumes "off a c" "server_inv a"
  shows "server_inv c"
proof -
  have "keeps win a c" "same a c"
    using assms(1) sess_view_cong [of c a] by (simp_all add: off_def chans_def keeps_def same_def)
  then show ?thesis using assms(2) conn_ok_keeps sess_inv_frame unfolding server_inv_def by blast
qed

lemma server_off: "server_inv c \<Longrightarrow> res_post (off c) m \<Longrightarrow> res_post server_inv m"
  by (auto elim!: res_post_mono intro: server_inv_off)

lemma server_chan: "server_inv c \<Longrightarrow> res_post server_inv (chan_exec svr_types e c)"
  using svr_sess.event_inv [of c e] by (simp only: server_inv_eq)

lemma server_inv_cong: "off a c \<Longrightarrow> server_inv a = server_inv c"
  using server_inv_off [of a c] server_inv_off [of c a] by (auto simp: off_def)

lemma server_frame [simp]:
  "server_inv (emit e c) = server_inv c" "server_inv (c\<lparr>cn_calls := n\<rparr>) = server_inv c" "server_inv (m_close fd c) = server_inv c"
  "server_inv (c\<lparr>cn_ses := s\<rparr>) = server_inv c" "server_inv (packet_out ty c) = server_inv c" "server_inv (c\<lparr>cn_signal_pending := sp\<rparr>) = server_inv c"
  by (rule server_inv_cong [symmetric]; simp)+

section \<open>Listeners\<close>

lemma listeners_inv:
  assumes "server_inv c" "listeners_ok ls n (cn_listen c)"
  shows "server_inv (c\<lparr>cn_maxfd := f, cn_listeners := ls, cn_listensize := n\<rparr>)"
proof -
  let ?c = "c\<lparr>cn_maxfd := f, cn_listeners := ls, cn_listensize := n\<rparr>"
  have "conn_ok {} ?c" using assms(1) conn_ok_keeps [of "{}" c ?c] by (simp add: server_inv_def keeps_def chan_setup_def)
  moreover have "sess_view ?c = sess_view c" by (rule sess_view_cong) simp
  ultimately show ?thesis using assms by (simp add: server_inv_def sess_inv_def child_ok_def)
qed

lemma close_all_inv [simp]: "server_inv (close_all ss c) = server_inv c"
  by (induction ss arbitrary: c) simp_all

lemma listeners_ok_upd:
  assumes "listeners_ok ls n lf" "i < length ls" "\<And>l. x = Some l \<Longrightarrow> listener_ok i l"
  shows "listeners_ok (ls[i := x]) n lf"
  using assms by (auto simp: listeners_ok_def nth_list_update split: if_splits)

lemma listeners_ok_index: "listeners_ok ls n lf \<Longrightarrow> i < length ls \<Longrightarrow> unat (of_nat i :: u32) = i"
  by (simp add: listeners_ok_def u32_simps)

lemma server_listeners: "server_inv c \<Longrightarrow> listeners_ok (cn_listeners c) (cn_listensize c) (cn_listen c)"
  by (simp add: server_inv_def sess_inv_def)

text \<open>A new listener stands at the first free index, and there are never more than 21.\<close>

lemma new_listener_inv:
  assumes inv: "server_inv c" and socks: "socks \<noteq> []" "request_listenaddr info \<noteq> None"
    and type: "type = (case kind of Tcp_listener \<Rightarrow> LISTENER_TYPE_TCPFORWARDED | Stream_listener \<Rightarrow> LISTENER_TYPE_STREAMFORWARDED)"
    and new: "new_listener socks type info kind c = (r, c')"
  shows "server_inv c' \<and> (\<forall>l. r = Some l \<longrightarrow> unat (li_index l) < length (cn_listeners c') \<and> li_socks l = socks \<and>
    li_typedata l = info \<and> listener_ok (unat (li_index l)) l)"
proof -
  let ?ls = "cn_listeners c" and ?i = "first_free (cn_listeners c)"
  note ok = server_listeners [OF inv]
  have n: "cn_listensize c = of_nat (length ?ls)" "length ?ls \<le> 21" using ok by (simp_all add: listeners_ok_def)
  have ui: "unat (of_nat ?i :: u32) = ?i" "unat (cn_listensize c) = length ?ls" using first_free_le [of ?ls] n by (simp_all add: u32_simps)
  have full: "(of_nat ?i = cn_listensize c) = (?i = length ?ls)" by (metis ui word_unat_eq_iff)
  have mx: "(cn_listensize c > MAX_LISTENERS) = (length ?ls = 21)" using n(2) ui(2) by (auto simp: word_less_nat_alt)
  show ?thesis
  proof (cases "?i = length ?ls \<and> length ?ls = 21")
    case True
    then have "r = None" "c' = close_all socks c" using new full mx by (simp_all add: new_listener_def Let_def)
    then show ?thesis using inv by simp
  next
    case False
    define ls' where "ls' = (if ?i = length ?ls then ?ls @ [None] else ?ls)"
    define l where "l = \<lparr>li_socks = socks, li_index = of_nat ?i, li_kind = kind, li_type = type, li_typedata = info\<rparr>"
    have c': "r = Some l" "c' = c\<lparr>cn_maxfd := fold max socks (cn_maxfd c), cn_listeners := ls'[?i := Some l],
        cn_listensize := (if ?i = length ?ls then cn_listensize c + 1 else cn_listensize c)\<rparr>"
      using new False full mx ui(1) by (auto simp: new_listener_def Let_def ls'_def l_def)
    have len: "?i < length ls'" using first_free_le [of ?ls] by (auto simp: ls'_def)
    have "listeners_ok ls' (if ?i = length ?ls then cn_listensize c + 1 else cn_listensize c) (cn_listen c)"
      using ok False n by (auto simp: listeners_ok_def ls'_def nth_append split: if_splits)
    moreover have lok: "listener_ok ?i l" using socks type by (simp add: listener_ok_def l_def)
    ultimately have "server_inv c'" unfolding c'(2) using len by (intro listeners_inv [OF inv] listeners_ok_upd) simp_all
    then show ?thesis using c' len lok ui(1) by (simp add: l_def)
  qed
qed

lemma remove_listener_inv:
  assumes "server_inv c" "unat (li_index l) < length (cn_listeners c)"
  shows "server_inv (remove_listener l c)"
proof -
  let ?c = "close_all (li_socks l) (case li_kind l of Tcp_listener \<Rightarrow> c | Stream_listener \<Rightarrow> cleanup_streamlocal l c)"
  have lst: "cn_listeners (close_all ss d) = cn_listeners d" for ss and d :: sconn
    by (induction ss arbitrary: d) (simp_all add: emit_def)
  have inv: "server_inv ?c" using assms(1) by (simp add: cleanup_streamlocal_def split: listener_kind.split option.split)
  have "length (cn_listeners ?c) = length (cn_listeners c)"
    by (simp add: lst cleanup_streamlocal_def emit_def split: listener_kind.split option.split)
  then have "listeners_ok ((cn_listeners ?c)[unat (li_index l) := None]) (cn_listensize ?c) (cn_listen ?c)"
    using assms(2) server_listeners [OF inv] by (intro listeners_ok_upd) simp_all
  from listeners_inv [OF inv this, of "cn_maxfd ?c"] show ?thesis by (simp add: remove_listener_def Let_def)
qed

lemma find_listener_mem:
  "find_listener type info match ls = Inr (Some l) \<Longrightarrow> \<exists>i < length ls. ls ! i = Some l \<and> li_type l = type"
proof (induction type info match ls rule: find_listener.induct)
  case (3 type info match l' ls)
  then show ?case by (fastforce simp: rbind_eq_Inr nth_Cons' split: if_splits intro: exI [where x = "Suc _"] exI [where x = 0])
qed (fastforce intro: exI [where x = "Suc _"])+

lemma server_read: "server_inv c \<Longrightarrow> (\<And>x c. server_inv c \<Longrightarrow> res_post P (g x c)) \<Longrightarrow> res_post P (rbind (on_ses_get f c) (\<lambda>(x, c). g x c))"
  by (rule res_post_call [OF off_read [OF off_refl]]) (auto intro: server_inv_off split: prod.splits)

lemma server_ses: "server_inv c \<Longrightarrow> res_post server_inv (on_ses f c)"
  by (rule server_off [OF _ off_ses [OF off_refl]])

lemma server_sub: "res_post (\<lambda>(r, c). server_inv c) m \<Longrightarrow> (\<And>r c. server_inv c \<Longrightarrow> res_post P (f r c)) \<Longrightarrow> res_post P (rbind m (\<lambda>(r, c). f r c))"
  by (erule res_post_call) (auto split: prod.splits)

lemma cancel_inv:
  assumes "server_inv c" "get_listener type info match c = Inr l"
  shows "server_inv (snd (cancel_listener l c))"
proof (cases l)
  case (Some l')
  then obtain i where i: "i < length (cn_listeners c)" "cn_listeners c ! i = Some l'"
    using find_listener_mem assms(2) unfolding get_listener_def by blast
  then have "li_index l' = of_nat i" using server_listeners [OF assms(1)] by (simp add: listeners_ok_def listener_ok_def)
  then have "unat (li_index l') < length (cn_listeners c)" using i(1) listeners_ok_index [OF server_listeners [OF assms(1)] i(1)] by simp
  then show ?thesis using remove_listener_inv [OF assms(1)] Some by (simp add: cancel_listener_def)
qed (use assms in \<open>simp add: cancel_listener_def\<close>)

lemma cancel_post: "server_inv c \<Longrightarrow> res_post (\<lambda>(r, c). server_inv c) (rbind (get_listener type info match c) (\<lambda>l. Inr (cancel_listener l c)))"
  using cancel_inv by (auto intro!: res_post_rbind simp: case_prod_beta)

lemma start_tcpfwd_inv:
  assumes "server_inv c" "request_listenaddr info \<noteq> None"
  shows "res_post (\<lambda>(r, c). server_inv c) (start_tcpfwd info c)"
proof (cases "cn_listen c (cn_calls c)")
  case None
  then show ?thesis using assms(1) by (simp add: start_tcpfwd_def listen_tcpfwd_def)
next
  case (Some socks)
  have ne: "socks \<noteq> []" using server_listeners [OF assms(1)] Some unfolding listeners_ok_def by blast
  let ?c = "c\<lparr>cn_calls := Suc (cn_calls c)\<rparr>"
  obtain r c' where new: "new_listener socks LISTENER_TYPE_TCPFORWARDED info Tcp_listener ?c = (r, c')" by fastforce
  have inv: "server_inv c' \<and> (\<forall>l. r = Some l \<longrightarrow> unat (li_index l) < length (cn_listeners c') \<and> li_socks l = socks \<and>
      li_typedata l = info \<and> listener_ok (unat (li_index l)) l)"
    by (rule new_listener_inv [OF _ ne assms(2) _ new]) (simp_all add: assms(1))
  show ?thesis
  proof (cases r)
    case None
    then show ?thesis using inv new Some by (simp add: start_tcpfwd_def listen_tcpfwd_def)
  next
    case (Some l)
    let ?l = "l\<lparr>li_typedata := info\<lparr>listenport := cn_sock_port c' (hd (li_socks l))\<rparr>\<rparr>"
    have l: "unat (li_index l) < length (cn_listeners c')" "listener_ok (unat (li_index l)) l" "server_inv c'" using inv Some by simp_all
    have "listener_ok (unat (li_index l)) ?l" using l(2) assms(2) by (simp add: listener_ok_def)
    then have "listeners_ok ((cn_listeners c')[unat (li_index l) := Some ?l]) (cn_listensize c') (cn_listen c')"
      using server_listeners [OF l(3)] l(1) by (intro listeners_ok_upd) simp_all
    from listeners_inv [OF l(3) this, of "cn_maxfd c'"] show ?thesis
      using new Some \<open>cn_listen c (cn_calls c) = Some socks\<close> by (simp add: start_tcpfwd_def listen_tcpfwd_def Let_def)
  qed
qed

lemma remotetcp_inv: "server_inv c \<Longrightarrow> res_post (\<lambda>(r, c). server_inv c) (svr_remotetcpreq w c)"
  unfolding svr_remotetcpreq_def
  by (rule server_read server_sub start_tcpfwd_inv res_post_call [where Q = server_inv] server_ses res_post_if res_post_option res_post_prod
      res_post_prod_app | assumption | simp add: remote_tcpinfo_def; fail)+

lemma cancel_tcp_inv: "server_inv c \<Longrightarrow> res_post (\<lambda>(r, c). server_inv c) (svr_cancelremotetcp c)"
  unfolding svr_cancelremotetcp_def by (rule server_read cancel_post res_post_if | assumption | simp; fail)+

lemma cancel_stream_inv: "server_inv c \<Longrightarrow> res_post (\<lambda>(r, c). server_inv c) (svr_cancelremotestreamlocal c)"
  unfolding svr_cancelremotestreamlocal_def by (rule server_read cancel_post res_post_if | assumption | simp; fail)+

lemma listen_stream_inv:
  assumes "server_inv c" "listen_streamlocal (stream_info path) c = (ok, c')"
  shows "server_inv c'"
proof (cases "\<exists>sock. length path < SUN_PATH_LEN \<and> cn_unix c (cn_calls c) = Listening sock")
  case True
  then obtain sock where sock: "length path < SUN_PATH_LEN" "cn_unix c (cn_calls c) = Listening sock" by blast
  let ?c = "emit (Ev_unlink path) (c\<lparr>cn_calls := Suc (cn_calls c)\<rparr>)"
  obtain r c1 where new: "new_listener [sock] LISTENER_TYPE_STREAMFORWARDED (stream_info path) Stream_listener ?c = (r, c1)" by fastforce
  have "server_inv c1"
    using new_listener_inv [OF _ _ _ _ new] assms(1) by (simp add: stream_info_def)
  then show ?thesis using assms(2) sock new by (cases r) (auto simp: listen_streamlocal_def stream_info_def Let_def)
next
  case False
  then show ?thesis using assms
    by (cases "cn_unix c (cn_calls c)") (auto simp: listen_streamlocal_def stream_info_def Let_def split: if_splits)
qed

lemma remotestream_inv: "server_inv c \<Longrightarrow> res_post (\<lambda>(r, c). server_inv c) (svr_remotestreamlocalreq c)"
  unfolding svr_remotestreamlocalreq_def out_failure_def Let_def
  by (rule server_read res_post_if res_post_prod | assumption | simp add: listen_stream_inv; fail)+

lemma global_inv: "server_inv c \<Longrightarrow> res_post server_inv (svr_recv_msg_global_request c)"
  unfolding svr_recv_msg_global_request_def global_request_def send_msg_request_success_def send_msg_request_failure_def
  by (rule server_read server_sub remotetcp_inv cancel_tcp_inv remotestream_inv cancel_stream_inv server_ses res_post_if res_post_prod_app
      | assumption | simp; fail)+

lemma accepted_inv: "server_inv c \<Longrightarrow> res_post server_inv (accepted fd ty fs c)"
proof -
  assume "server_inv c"
  then have "res_post (\<lambda>(r, c). server_inv c) (send_msg_channel_open_init fd ty c)"
    using svr_sess.open_init_inv [of c fd ty] by (simp add: server_inv_eq)
  then show ?thesis unfolding accepted_def by (rule server_sub) (simp add: server_ses)
qed

lemma acceptor_inv: "server_inv c \<Longrightarrow> res_post server_inv (acceptor l c)"
  unfolding acceptor_def tcp_acceptor_def streamlocal_acceptor_def Let_def
  by (auto split: listener_kind.split option.split prod.split intro!: accepted_inv res_post_rbind)

lemma accept_socks_inv: "server_inv c \<Longrightarrow> res_post server_inv (accept_socks rf l ss c)"
proof (induction ss arbitrary: c)
  case (Cons s ss)
  have "res_post server_inv (if rf s then acceptor l c else Inr c)" using Cons.prems acceptor_inv by simp
  then show ?case unfolding accept_socks.simps by (rule res_post_call) (rule Cons.IH)
qed simp

lemma accept_loop_inv: "server_inv c \<Longrightarrow> res_post server_inv (accept_loop rf is c)"
proof (induction "is" arbitrary: c)
  case (Cons i "is")
  have "res_post server_inv (if i \<ge> length (cn_listeners c) then Inl Fault
      else case cn_listeners c ! i of None \<Rightarrow> Inr c | Some l \<Rightarrow> accept_socks rf l (li_socks l) c)"
    using Cons.prems accept_socks_inv by (simp split: option.split)
  then show ?case unfolding accept_loop.simps by (rule res_post_call) (rule Cons.IH)
qed simp

section \<open>Packets\<close>

lemma find_handler_mem: "find_handler tbl ty = Some h \<Longrightarrow> (ty, h) \<in> set tbl"
  by (induction tbl ty rule: find_handler.induct) (auto split: if_splits)

lemma packet_handlers_inv:
  assumes "server_inv c" "(ty, h) \<in> set (svr_packettypes e)"
  shows "res_post server_inv (h c)"
proof -
  note own = svr_sess.handlers_inv [of c, folded server_inv_eq] and frame = server_off [OF assms(1)]
  have "conn_ok {} c \<and> sess_inv c" using assms(1) by (simp add: server_inv_def)
  note own = svr_sess.handlers_inv [OF this, folded server_inv_eq]
  have "res_post server_inv (ignore_recv_response c)" using assms(1) by (simp add: ignore_recv_response_def)
  moreover note frame [OF off_auth [OF off_refl]] frame [OF off_service [OF off_refl]] frame [OF off_kex(1) [OF off_refl]]
    frame [OF off_kex(2) [OF off_refl]] frame [OF off_kex(3) [OF off_refl]] global_inv [OF assms(1)]
  ultimately show ?thesis using assms(2) own unfolding svr_packettypes_def by auto
qed

lemma process_packet_inv:
  assumes "server_inv c" "\<And>ty h c. (ty, h) \<in> set tbl \<Longrightarrow> server_inv c \<Longrightarrow> res_post server_inv (h c)"
  shows "res_post server_inv (process_packet tbl c)"
  unfolding process_packet_def Let_def monotonic_now_def prod.case
  by (insert assms(1), (rule server_read res_post_if res_post_option res_post_call [OF server_ses] res_post_call [OF assms(2) [OF find_handler_mem]]
      | assumption | simp; fail)+)

section \<open>The main loop\<close>

lemma keeps_record_exit: "keeps core a c \<Longrightarrow> res_post (keeps core a) (record_exit w c)"
  unfolding record_exit_def
  by (cases w) (auto intro!: res_post_rbind keeps_upd_sess split: option.split)

lemma record_exits_server:
  "server_inv c \<Longrightarrow> list_all status_ok ws \<Longrightarrow> \<exists>c'. record_exits ws c = Inr c' \<and> server_inv c'"
proof (induction ws arbitrary: c)
  case (Cons w ws)
  have c: "conn_ok {} c" "sess_inv c" using Cons.prems(1) by (simp_all add: server_inv_def)
  obtain c1 where c1: "record_exit w c = Inr c1" "sess_inv c1"
    using record_exit_inv [OF c(2), of w] Cons.prems(2) by (auto simp del: split_paired_All)
  have "conn_ok {} c1" using conn_ok_keeps [OF c(1) keeps_core_win] res_postD [OF keeps_record_exit [OF keeps_refl] c1(1)] by blast
  then have "server_inv c1" using c1(2) by (simp add: server_inv_def)
  from Cons.IH [OF this] Cons.prems(2) c1(1) show ?case by simp
qed simp

lemma checksignal_inv:
  assumes "server_inv c" "list_all status_ok (takeWhile (\<lambda>(pid, _). pid > 0) ws)"
  shows "\<exists>c'. svr_chansess_checksignal ws c = Inr c' \<and> server_inv c'"
  using record_exits_server [OF assms] assms(1) by (simp add: svr_chansess_checksignal_def)

lemma connect_done_server: "server_inv c \<Longrightarrow> res_post server_inv (channel_connect_done svr_types success sock err i c)"
  using svr_sess.connect_done_inv [of c success sock err i] by (simp add: server_inv_eq)

lemma loop_failed_inv: "server_inv c \<Longrightarrow> res_post server_inv (loop_failed ks c)"
proof (induction ks arbitrary: c)
  case (Cons k ks)
  obtain i err where k: "k = (i, err)" by (cases k)
  from connect_done_server [OF Cons.prems, of False "-1" err i] show ?case
    unfolding k loop_failed.simps by (rule res_post_call) (rule Cons.IH)
qed simp

lemma loop_connected_inv: "server_inv c \<Longrightarrow> res_post server_inv (loop_connected k c)"
  unfolding loop_connected_def by (intro res_post_option res_post_prod) (simp_all add: connect_done_server)

lemma packets_inv: "server_inv c \<Longrightarrow> res_post server_inv (process_packet (svr_packettypes e) c)"
  by (rule process_packet_inv) (simp_all add: packet_handlers_inv)

lemma ident_inv: "server_inv c \<Longrightarrow> res_post server_inv (read_session_identification rs c)"
  using off_ident [OF off_refl] by (rule res_post_mono) (auto intro: server_inv_off)

lemma loop_socket_inv: "server_inv c \<Longrightarrow> res_post server_inv (loop_socket e inp b c)"
  unfolding loop_socket_def
  by (rule res_post_if res_post_call [where Q = server_inv] server_ses packets_inv ident_inv | assumption | simp; fail)+

lemma loop_write_inv: "server_inv c \<Longrightarrow> res_post server_inv (loop_write w c)"
  unfolding loop_write_def by (intro res_post_if res_post_rbind res_post_prod) simp_all

text \<open>What the input has to satisfy: a child ends with a status, or by a signal, which has a positive number.\<close>

definition input_ok :: "loop_input \<Rightarrow> bool" where
  "input_ok inp \<longleftrightarrow> list_all status_ok (takeWhile (\<lambda>(pid, _). pid > 0) (lp_children inp))"

lemma loop_events_inv:
  assumes "server_inv c" "input_ok inp"
  shows "res_post server_inv (loop_events e inp reads writes c)"
proof -
  have sig: "res_post server_inv (svr_chansess_checksignal (lp_children inp) c)" if "server_inv c" for c
    using checksignal_inv [OF that, of "lp_children inp"] assms(2) by (auto simp: input_ok_def)
  have io: "res_post server_inv (channelio svr_types rf wf c)" if "server_inv c" for rf wf c
    using svr_sess.channelio_inv [of c rf wf] that by (simp add: server_inv_eq)
  have acc: "res_post server_inv (handle_listeners rf c)" if "server_inv c" for rf c
    using accept_loop_inv that by (simp add: handle_listeners_def)
  have tmo: "res_post server_inv (checktimeouts (c\<lparr>cn_signal_pending := lp_signal inp\<rparr>))"
    using server_off [OF _ off_timeouts [OF off_refl]] assms(1) by simp
  show ?thesis unfolding loop_events_def Let_def
    by (rule res_post_if res_post_call [OF tmo] res_post_call [OF loop_socket_inv] res_post_call [OF server_ses]
        res_post_call [OF loop_connected_inv] res_post_call [OF sig] res_post_call [OF io] res_post_call [OF acc] loop_write_inv
        | assumption | simp; fail)+
qed

lemma loop_iteration_inv:
  assumes "server_inv c" "input_ok inp"
  shows "res_post server_inv (loop_iteration e inp c)"
proof -
  obtain timeout c0 where st: "select_timeout c = (timeout, c0)" by fastforce
  then have c0: "server_inv c0" using assms(1) by (auto simp: select_timeout_def monotonic_now_def Let_def)
  show ?thesis unfolding loop_iteration_def Let_def st prod.case
    by (insert c0 assms(2)) (rule res_post_rbind [of "dassert _ _"] res_post_prod res_post_call [OF loop_failed_inv] loop_events_inv | assumption)+
qed

text \<open>The start: the receive window has to be one the options accept, and process ids and listening sockets are as documented.\<close>

definition start_ok :: "sconn \<Rightarrow> bool" where
  "start_ok c \<longleftrightarrow> 0 < recv_window (cn_opts c) \<and> recv_window (cn_opts c) \<le> MAX_CBUF_SIZE \<and>
     (\<forall>n w r e p. cn_spawn c n = Some (w, r, e, p) \<longrightarrow> 0 < p) \<and> (\<forall>n p. cn_fork c n = Some p \<longrightarrow> 0 < p) \<and>
     (\<forall>n socks. cn_listen c n = Some socks \<longrightarrow> socks \<noteq> [])"

lemma off_single_use: "off a c \<Longrightarrow> off a (snd (ikofi_generate_single_use_password c))"
  by (simp add: ikofi_generate_single_use_password_def Let_def split: prod.split)

lemma off_authinit: "off a c \<Longrightarrow> res_post (off a) (svr_authinitialise c)"
  unfolding svr_authinitialise_def ikofi_svr_authinitialise_def Let_def
  by (intro res_post_rbind) (auto simp: case_prod_beta off_single_use)

lemma svr_session_inv:
  assumes "start_ok c" "svr_session s c = Inr c'"
  shows "server_inv c'"
proof -
  obtain c1 where c1: "svr_authinitialise (c\<lparr>cn_ses := s\<rparr>) = Inr c1"
      "rbind (on_ses send_session_identification (svr_chansessinitialise (listeners_initialise (chaninitialise svr_chantypes c1)))) (\<lambda>c.
       let c = c\<lparr>cn_ses := kexfirstinitialise (cn_ses c)\<rparr> in on_ses (send_msg_kexinit (cn_algos c)) c) = Inr c'"
    using assms(2) by (auto simp: svr_session_def rbind_eq_Inr Let_def)
  let ?c = "svr_chansessinitialise (listeners_initialise (chaninitialise svr_chantypes c1))"
  have "off c c1" using res_postD [OF off_authinit c1(1), of c] by simp
  then have s1: "start_ok c1" using assms(1) by (simp add: off_def chans_def start_ok_def chan_setup_def)
  then have "conn_ok {} ?c"
    using chaninitialise_ok [of c1 svr_chantypes] conn_ok_keeps [of "{}" "chaninitialise svr_chantypes c1" ?c]
    by (simp add: start_ok_def keeps_def svr_chansessinitialise_def listeners_initialise_def chan_setup_def)
  moreover have "sess_inv ?c"
    using s1 by (simp add: start_ok_def sess_inv_def svr_chansessinitialise_def listeners_initialise_def chaninitialise_def child_ok_def sess_view_def
        listeners_ok_def exit_ok_def)
  ultimately have "server_inv ?c" by (simp add: server_inv_def)
  then have "res_post server_inv (rbind (on_ses send_session_identification ?c) (\<lambda>c.
       let c = c\<lparr>cn_ses := kexfirstinitialise (cn_ses c)\<rparr> in on_ses (send_msg_kexinit (cn_algos c)) c))"
    unfolding Let_def by (rule res_post_call [OF server_ses]) (simp add: server_ses)
  then show ?thesis using c1(2) by (rule res_postD)
qed

section \<open>Reachable states\<close>

text \<open>The session the connection starts with is any; that of \<open>common_session_init\<close> is one of them.\<close>

inductive svr_reaches :: "'k env \<Rightarrow> sconn \<Rightarrow> sconn \<Rightarrow> bool" for e start where
  initial: "svr_session s start = Inr c \<Longrightarrow> svr_reaches e start c"
| iterate: "svr_reaches e start c \<Longrightarrow> input_ok inp \<Longrightarrow> loop_iteration e inp c = Inr c' \<Longrightarrow> svr_reaches e start c'"

lemma reaches_inv: "svr_reaches e start c \<Longrightarrow> start_ok start \<Longrightarrow> server_inv c"
proof (induction rule: svr_reaches.induct)
  case (initial s c)
  then show ?case using svr_session_inv by blast
next
  case (iterate c inp c')
  then show ?case using res_postD [OF loop_iteration_inv] by blast
qed

section \<open>Properties\<close>

text \<open>
  Property C5. In every state a connection can reach, through any packets, events on descriptors, ended children and
  finished connections: the table holds at most 1000 channels, each at its index and with its windows and
  buffers in order (what is still allowed to arrive, what is buffered and what has not been acknowledged fit
  together in the window); every used entry of the table of children belongs to a session that exists; and there
  are at most 21 listeners, each at its index, with a socket and the type that fits its functions.
\<close>

theorem connection_well_formed:
  assumes "svr_reaches e start c" "start_ok start"
  shows "length (cn_channels c) \<le> 1000 \<and>
    (\<forall>i ch. i < length (cn_channels c) \<and> cn_channels c ! i = Some ch \<longrightarrow> chan_index ch = of_nat i \<and> chan_wf (recv_window (cn_opts c)) ch) \<and>
    (\<forall>cp \<in> set (cn_childpids c). child_ok c cp) \<and> length (cn_listeners c) \<le> 21 \<and>
    (\<forall>i l. i < length (cn_listeners c) \<and> cn_listeners c ! i = Some l \<longrightarrow> listener_ok i l)"
  using reaches_inv [OF assms] by (simp add: server_inv_def conn_ok_def sess_inv_def listeners_ok_def)

text \<open>The first state of an example connection.\<close>

definition first_session :: sshsession where
  "first_session = initial_session plain_libs plain_world False \<lparr>b_data = replicate 120 0, b_len = 0, b_pos = 0, b_size = 120\<rparr>"

definition example_env :: "unit env" where
  "example_env = \<lparr>env_kex = example_crypto, env_fuel = 3, env_einval = False, env_pk = no_crypto\<rparr>"

lemma first_session_returns: "returns (svr_session first_session (plain_conn small_session))"
  by code_simp

lemma plain_start_ok: "start_ok (plain_conn s)"
  by (simp add: start_ok_def plain_conn_def)

lemma first_state:
  obtains c where "svr_session first_session (plain_conn small_session) = Inr c" "svr_reaches example_env (plain_conn small_session) c"
  using first_session_returns svr_reaches.initial [of first_session "plain_conn small_session"] by (auto simp: returns_ex)

theorem connection_well_formed_witness:
  "\<exists>c. svr_session first_session (plain_conn small_session) = Inr c \<and> length (cn_channels c) \<le> 1000 \<and> length (cn_listeners c) \<le> 21"
proof -
  obtain c where c: "svr_session first_session (plain_conn small_session) = Inr c" "svr_reaches example_env (plain_conn small_session) c"
    by (rule first_state)
  from connection_well_formed [OF c(2) plain_start_ok] c(1) show ?thesis by blast
qed

text \<open>
  Property C12. In every state a connection can reach, the end of any children is recorded without touching a session that
  is gone, and what is then reported to the peer for a session is its signal or its status: no assertion fails.
\<close>

theorem children_reaped_safely:
  assumes "svr_reaches e start c" "start_ok start" "list_all status_ok (takeWhile (\<lambda>(pid, _). pid > 0) ws)"
  shows "\<exists>c'. svr_chansess_checksignal ws c = Inr c' \<and>
    (\<forall>i cs. sess_at i c' = Inr cs \<longrightarrow> send_exitsignalstatus i c' =
       (if exitpid (cs_exit cs) = -1 then Inr c'
        else rbind (chan_at i c') (\<lambda>ch.
          if exitsignal (cs_exit cs) = -1 then
            on_ses (send_fields [FByte 98, FInt (remotechan ch), FString (cstr ''exit-status''), FByte 0,
              FInt (word_of_int (exitstatus (cs_exit cs)))]) c'
          else case map_of signames (exitsignal (cs_exit cs)) of
            None \<Rightarrow> Inr c'
          | Some name \<Rightarrow> on_ses (send_fields [FByte 98, FInt (remotechan ch), FString (cstr ''exit-signal''), FByte 0, FString name,
              FByte (if exitcore (cs_exit cs) then 1 else 0), FString [], FString []]) c')))"
proof -
  obtain c' where c': "svr_chansess_checksignal ws c = Inr c'" "server_inv c'"
    using checksignal_inv [OF reaches_inv [OF assms(1,2)] assms(3)] by blast
  have find: "List.find (\<lambda>(sig, name). sig = n) xs = map_option (Pair n) (map_of xs n)" for n and xs :: "(int \<times> bytes) list"
    by (induction xs) auto
  have "send_exitsignalstatus i c' =
       (if exitpid (cs_exit cs) = -1 then Inr c'
        else rbind (chan_at i c') (\<lambda>ch.
          if exitsignal (cs_exit cs) = -1 then
            on_ses (send_fields [FByte 98, FInt (remotechan ch), FString (cstr ''exit-status''), FByte 0,
              FInt (word_of_int (exitstatus (cs_exit cs)))]) c'
          else case map_of signames (exitsignal (cs_exit cs)) of
            None \<Rightarrow> Inr c'
          | Some name \<Rightarrow> on_ses (send_fields [FByte 98, FInt (remotechan ch), FString (cstr ''exit-signal''), FByte 0, FString name,
              FByte (if exitcore (cs_exit cs) then 1 else 0), FString [], FString []]) c'))" if cs: "sess_at i c' = Inr cs" for i cs
  proof -
    obtain ch where ch: "chan_at i c' = Inr ch" using cs by (auto simp: sess_at_def rbind_eq_Inr)
    have "exit_ok (cs_exit cs)" using sess_at_view [OF cs] c'(2) by (simp add: server_inv_def)
    then show ?thesis using cs ch
      by (auto simp: exit_ok_def send_exitsignalstatus_def send_msg_chansess_exitsignal_def send_msg_chansess_exitstatus_def find
          split: option.split simp del: cstr_Cons)
  qed
  then show ?thesis using c'(1) by blast
qed

theorem children_reaped_safely_witness:
  "\<exists>c c'. svr_session first_session (plain_conn small_session) = Inr c \<and> svr_chansess_checksignal [(5, Exited 3), (7, Signaled 9 False)] c = Inr c'"
proof -
  obtain c where c: "svr_session first_session (plain_conn small_session) = Inr c" "svr_reaches example_env (plain_conn small_session) c"
    by (rule first_state)
  have "list_all status_ok (takeWhile (\<lambda>(pid, _). pid > 0) [(5, Exited 3), (7, Signaled 9 False)])" by (simp add: status_ok_def)
  from children_reaped_safely [OF c(2) plain_start_ok this] c(1) show ?thesis by blast
qed

end
