(* ===== verification/Loop_Props.thy ===== *)
theory Loop_Props
  imports Session_Loop
begin

text \<open>
  The time limits of a connection: how long the loop sleeps, and what it does when a limit has passed.
\<close>

section \<open>What sending leaves of the times\<close>

definition timed :: "'t conn \<Rightarrow> 't conn \<Rightarrow> bool" where
  "timed a c \<longleftrightarrow> s_connect_time (cn_ses c) = s_connect_time (cn_ses a) \<and> cn_opts c = cn_opts a"

lemma connect_time_kexinit:
  "res_post (\<lambda>s'. s_connect_time s' = s_connect_time s) (send_msg_kexinit T s)"
  unfolding send_msg_kexinit_def
  by (intro res_post_intros) (auto dest!: encrypt_packet_sends sends_same(10) simp: genrandom_def Let_def)

lemma timed_on_ses:
  assumes "timed a c" "res_post (\<lambda>s'. s_connect_time s' = s_connect_time (cn_ses c)) (f (cn_ses c))"
  shows "res_post (timed a) (on_ses f c)"
  using assms by (auto simp: on_ses_def timed_def res_post_def rbind_eq_Inr)

lemma connect_time_send: "res_post (\<lambda>s'. s_connect_time s' = s_connect_time s) (send_fields fs s)"
  by (auto simp: res_post_def dest!: send_fields_sends sends_same(10))

lemma connect_time_put: "res_post (\<lambda>s'. s_connect_time s' = s_connect_time s) (put_payload fs s)"
  unfolding put_payload_def by (rule res_post_rbind) simp

lemma timed_keepalive: "timed a c \<Longrightarrow> res_post (timed a) (send_msg_keepalive c)"
  unfolding send_msg_keepalive_def start_send_channel_request_def Let_def monotonic_now_def prod.case
  by (rule res_post_call [where Q = "timed a"] res_post_option res_post_rbind [of "chan_at _ _"] timed_on_ses connect_time_send connect_time_put
     | assumption | simp add: timed_def; fail)+

lemma timed_check_keepalive: "timed a c \<Longrightarrow> res_post (timed a) (check_keepalive now c)"
  unfolding check_keepalive_def Let_def
  by (rule res_post_if res_post_call [where Q = "timed a"] timed_keepalive | assumption | simp; fail)+

section \<open>What failed connections leave of the times\<close>

text \<open>Packets may have been sent and the clock may have been read since.\<close>

definition ticked :: "sshsession \<Rightarrow> sshsession \<Rightarrow> bool" where
  "ticked a s \<longleftrightarrow> sends a s \<and> w_ticks (s_world a) \<le> w_ticks (s_world s)"

lemma ticked_refl [simp]: "ticked s s"
  by (simp add: ticked_def)

lemma ticked_upd:
  "ticked a (s\<lparr>s_writepayload := wp\<rparr>) \<longleftrightarrow> ticked a s"
  "ticked a (s\<lparr>s_transseq := ts\<rparr>) \<longleftrightarrow> ticked a s"
  "ticked a (s\<lparr>s_last_packet_time_any_sent := t\<rparr>) \<longleftrightarrow> ticked a s"
  "ticked a (s\<lparr>s_last_packet_time_idle := t\<rparr>) \<longleftrightarrow> ticked a s"
  "ticked a (s\<lparr>s_reply_queue := rq\<rparr>) \<longleftrightarrow> ticked a s"
  "ticked a (s\<lparr>s_writequeue_len := ql\<rparr>) \<longleftrightarrow> ticked a s"
  "ticked a (s\<lparr>s_writequeue := q\<rparr>) \<longleftrightarrow> ticked a s"
  "ticked a (s\<lparr>s_kexstate := (s_kexstate s)\<lparr>datatrans := dt\<rparr>\<rparr>) \<longleftrightarrow> ticked a s"
  "ticked a (s\<lparr>s_keys := (s_keys s)\<lparr>k_trans := (k_trans (s_keys s))\<lparr>kd_zstream := z\<rparr>\<rparr>\<rparr>) \<longleftrightarrow> ticked a s"
  "ticked a (s\<lparr>s_keys := (s_keys s)\<lparr>k_trans := (k_trans (s_keys s))\<lparr>kd_cipher_state := cs\<rparr>\<rparr>\<rparr>) \<longleftrightarrow> ticked a s"
  by (simp_all add: ticked_def sends_upd)

lemma ticked_world:
  "ticked a s \<Longrightarrow> monotonic_now s = (t, s') \<Longrightarrow> ticked a s'" "ticked a s \<Longrightarrow> genrandom s n = (v, s') \<Longrightarrow> ticked a s'"
  by (auto simp: ticked_def sends_world) (auto simp: monotonic_now_def genrandom_def)

lemma ticked_clock: "monotonic_now (s\<lparr>s_transseq := n\<rparr>) = (t, s') \<Longrightarrow> ticked a s \<Longrightarrow> ticked a s'"
  by (rule ticked_world(1)) (simp_all add: ticked_upd)

lemma ticked_compress: "ticked a s \<Longrightarrow> res_post (\<lambda>(d, b, s). ticked a s) (buf_compress s d b n)"
  unfolding buf_compress_def by (intro res_post_intros) (simp_all add: ticked_upd)

lemma ticked_fill: "ticked a s \<Longrightarrow> res_post (\<lambda>(b, s). ticked a s) (fill_writebuf s b)"
  unfolding fill_writebuf_def Let_def
  by (intro res_post_if res_post_call [OF ticked_compress] res_post_rbind) (auto simp: ticked_upd)

lemma ticked_pad: "ticked a s \<Longrightarrow> res_post (\<lambda>(b, s). ticked a s) (pad_writebuf s b p)"
  unfolding pad_writebuf_def by (intro res_post_intros) (simp, rule ticked_world(2))

lemma ticked_encrypt: "ticked a s \<Longrightarrow> res_post (\<lambda>(b, s). ticked a s) (encrypt_writebuf s b)"
  unfolding encrypt_writebuf_def by (intro res_post_intros) (simp_all add: ticked_upd)

lemma ticked_enqueue: "ticked a s \<Longrightarrow> res_post (ticked a) (writebuf_enqueue s b)"
  unfolding writebuf_enqueue_def by (intro res_post_intros) (simp add: ticked_def sends_def unsent_def)

lemma ticked_reply: "ticked a s \<Longrightarrow> res_post (ticked a) (enqueue_reply_packet s)"
  unfolding enqueue_reply_packet_def by (intro res_post_intros) (simp add: ticked_def sends_def unsent_def)

lemma ticked_packet: "ticked a s \<Longrightarrow> res_post (ticked a) (encrypt_packet s)"
  unfolding encrypt_packet_def
  by (rule ticked_reply res_post_call [OF ticked_fill] res_post_call [OF ticked_pad] res_post_call [OF ticked_encrypt]
        res_post_call [OF ticked_enqueue] res_post_intros
      | simp add: ticked_upd; fail | auto simp: ticked_upd dest: ticked_clock; fail)+

lemma ticked_send: "ticked a s \<Longrightarrow> res_post (ticked a) (send_fields fs s)"
  unfolding send_fields_def put_payload_def rbind_assoc by (intro res_post_intros) (auto simp: ticked_packet ticked_upd)

definition later :: "sconn \<Rightarrow> sconn \<Rightarrow> bool" where
  "later a c \<longleftrightarrow> ticked (cn_ses a) (cn_ses c) \<and> cn_opts c = cn_opts a"

lemma later_frame [simp]:
  "later a (emit e c) = later a c" "later a (m_close fd c) = later a c" "later a (set_chan i ch c) = later a c"
  "later a (c\<lparr>cn_chancount := n\<rparr>) = later a c" "later a (c\<lparr>cn_childpids := cps\<rparr>) = later a c"
  "later a (update_channel_prio c) = later a c"
  by (simp_all add: later_def update_channel_prio_def Let_def)

lemma later_upd_chan: "later a c \<Longrightarrow> res_post (later a) (upd_chan i f c)"
  unfolding upd_chan_def by (rule res_post_rbind) simp

lemma later_cleanupchansess: "later a c \<Longrightarrow> res_post (later a) (cleanupchansess i c)"
  unfolding cleanupchansess_def by (intro res_post_rbind res_post_if later_upd_chan) simp_all

lemma later_cleanup: "later a c \<Longrightarrow> res_post (later a) (call_opt (cleanup (svr_types t)) i c)"
  by (simp add: call_opt_def svr_types_simps later_cleanupchansess del: cstr_Cons)

lemma later_failed: "later a c \<Longrightarrow> res_post (later a) (loop_failed ks c)"
proof (induction ks arbitrary: c)
  case (Cons k ks)
  obtain i err where k: "k = (i, err)" by (cases k)
  have send: "res_post (later a) (on_ses (send_fields fs) c)" for fs
    using Cons.prems ticked_send [of "cn_ses a" "cn_ses c" fs] by (auto simp: later_def on_ses_def res_post_def rbind_eq_Inr)
  have "res_post (later a) (channel_connect_done svr_types False (-1) err i c)"
    unfolding channel_connect_done_def send_msg_channel_open_failure_def remove_channel_def Let_def
    by (insert Cons.prems) (rule res_post_if res_post_rbind [of "chan_at _ _"] res_post_call [OF send] res_post_call [OF later_upd_chan]
        res_post_call [OF later_cleanup] | assumption | simp; fail)+
  then show ?case unfolding k loop_failed.simps by (rule res_post_call) (rule Cons.IH)
qed simp

section \<open>Limits\<close>

definition now_of :: "'t conn \<Rightarrow> int" where
  "now_of c = w_clock (s_world (cn_ses c)) (w_ticks (s_world (cn_ses c)))"

lemma checktimeouts_auth:
  "\<not> authdone (s_authstate (cn_ses c)) \<Longrightarrow> elapsed (now_of c) (s_connect_time (cn_ses c)) \<ge> AUTH_TIMEOUT \<Longrightarrow>
     checktimeouts c = Inl (Dropbear_close ''Timeout before auth'')"
  by (simp add: checktimeouts_def monotonic_now_def now_of_def)

lemma checktimeouts_duration:
  assumes "s_remoteident (cn_ses c) \<noteq> None" "0 < max_duration_secs (cn_opts c)"
    and "elapsed (now_of c) (s_connect_time (cn_ses c)) \<ge> max_duration_secs (cn_opts c)"
  shows "res_post (\<lambda>_. False) (checktimeouts c)"
proof -
  have limits: "res_post (\<lambda>_. False) (check_limits (now_of c) d)" if "timed c d" for d
    using assms(2,3) that by (simp add: check_limits_def timed_def)
  have keep: "res_post (\<lambda>_. False) (rbind (check_keepalive (now_of c) d) (check_limits (now_of c)))" if "timed c d" for d
    using that by (rule res_post_call [OF timed_check_keepalive limits])
  show ?thesis
    unfolding checktimeouts_def monotonic_now_def Let_def prod.case now_of_def [symmetric]
    by (rule res_post_if res_post_call [where Q = "timed c"] keep timed_on_ses connect_time_kexinit | assumption
       | simp add: timed_def assms(1); fail)+
qed

lemma elapsed_le: "now - prev \<ge> n \<Longrightarrow> n \<le> LONG_MAX \<Longrightarrow> elapsed now prev \<ge> n"
  by (simp add: elapsed_def Let_def)

text \<open>The time to sleep is bounded by what is left of each limit.\<close>

lemma update_timeout_le: "update_timeout limit now ev t \<le> t"
  by (simp add: update_timeout_def)

lemma update_timeout_left:
  assumes "0 < ev" "0 < limit" "limit \<le> LONG_MAX"
  shows "update_timeout limit now ev t \<le> max 0 (ev + limit - now)"
  using assms by (auto simp: update_timeout_def elapsed_def Let_def)

lemma select_timeout_le:
  assumes "0 < s_connect_time (cn_ses c)" "0 < L" "L \<le> LONG_MAX"
    and "\<not> authdone (s_authstate (cn_ses c)) \<and> L = AUTH_TIMEOUT \<or> L = max_duration_secs (cn_opts c)"
  shows "fst (select_timeout c) \<le> max 0 (s_connect_time (cn_ses c) + L - now_of c)"
proof -
  let ?now = "now_of c" and ?s = "cn_ses c" and ?o = "cn_opts c"
  let ?max = "update_timeout (max_duration_secs ?o) ?now (s_connect_time ?s)" and ?idle = "update_timeout (idle_timeout_secs ?o) ?now (s_last_packet_time_idle ?s)"
  let ?auth = "update_timeout AUTH_TIMEOUT ?now (s_connect_time ?s)"
  obtain t where t: "fst (select_timeout c) = max (?max (?idle (if \<not> authdone (s_authstate ?s) then ?auth t else t))) 0"
    by (cases "authdone (s_authstate ?s)") (auto simp: select_timeout_def monotonic_now_def Let_def now_of_def)
  show ?thesis using assms(4)
  proof
    assume "\<not> authdone (s_authstate ?s) \<and> L = AUTH_TIMEOUT"
    then have "?max (?idle (?auth t)) \<le> max 0 (s_connect_time ?s + L - ?now)"
      using update_timeout_left [OF assms(1-3), of ?now t] update_timeout_le order_trans by metis
    then show ?thesis using t \<open>\<not> authdone (s_authstate ?s) \<and> L = AUTH_TIMEOUT\<close> by simp
  next
    assume "L = max_duration_secs ?o"
    then show ?thesis using t update_timeout_left [OF assms(1-3), of ?now] by simp
  qed
qed

text \<open>
  Property C11. The limits on a connection's life take effect: while a client has not authenticated, with the limit of 300
  seconds, and once it has sent its identification, with the limit of the option, if set, the loop never sleeps
  past the moment at which the limit runs out, and an iteration in which \<^verbatim>\<open>select\<close> returns at or after that moment
  ends the connection, whatever the client sends and whatever else is ready, provided that the clock never goes back.
\<close>

theorem time_limits_enforced:
  assumes "0 < s_connect_time (cn_ses c)" "0 < L" "L \<le> LONG_MAX"
    and "\<not> authdone (s_authstate (cn_ses c)) \<and> L = AUTH_TIMEOUT \<or>
         s_remoteident (cn_ses c) \<noteq> None \<and> L = max_duration_secs (cn_opts c)"
    and "select_timeout c = (timeout, c0)" "mono (w_clock (s_world (cn_ses c)))"
  shows "timeout \<le> max 0 (s_connect_time (cn_ses c) + L - now_of c) \<and>
    (now_of c0 < s_connect_time (cn_ses c) + L \<or> (\<exists>err. loop_iteration e inp c = Inl err))"
proof -
  have c0: "ticked (cn_ses c) (cn_ses c0)" "cn_opts c0 = cn_opts c"
    using assms(5) by (auto simp: select_timeout_def monotonic_now_def Let_def ticked_def sends_def unsent_def)
  have "res_post (\<lambda>_. False) (loop_iteration e inp c)" if late: "now_of c0 \<ge> s_connect_time (cn_ses c) + L"
  proof -
    have events: "res_post (\<lambda>_. False) (loop_events e inp reads writes k)" if k: "later c0 k" for reads writes k
    proof -
      let ?k = "k\<lparr>cn_signal_pending := lp_signal inp\<rparr>"
      have ck: "sends (cn_ses c) (cn_ses k)" using c0 k by (auto simp: later_def ticked_def intro: sends_trans)
      note same = sends_same [OF ck]
      have "now_of c0 \<le> now_of k"
        using c0 k monoD [OF assms(6)] sends_same(49) [of "cn_ses c" "cn_ses c0"] same(49)
        by (simp add: later_def ticked_def now_of_def)
      then have "elapsed (now_of ?k) (s_connect_time (cn_ses ?k)) \<ge> L"
        using elapsed_le [of L "now_of ?k" "s_connect_time (cn_ses ?k)"] late assms(3) same(10) by (simp add: now_of_def)
      then have "res_post (\<lambda>_. False) (checktimeouts ?k)"
        using assms(2,4) checktimeouts_auth [of ?k] checktimeouts_duration [of ?k] same(1,20) k c0(2) by (auto simp: later_def)
      then show ?thesis unfolding loop_events_def Let_def by (intro res_post_if) (auto intro: res_post_call)
    qed
    have "later c0 c0" by (simp add: later_def)
    then show ?thesis unfolding loop_iteration_def Let_def assms(5) prod.case
      by - (rule res_post_rbind [of "dassert _ _"] res_post_prod res_post_call [OF later_failed] events | assumption)+
  qed
  then show ?thesis using select_timeout_le [OF assms(1-3)] assms(4,5)
    by (cases "loop_iteration e inp c"; cases "now_of c0 < s_connect_time (cn_ses c) + L") auto
qed

definition late_conn :: sconn where
  "late_conn = plain_conn (small_session\<lparr>s_connect_time := 100, s_world := plain_world\<lparr>w_clock := (\<lambda>n. if n = 0 then 350 else 400)\<rparr>\<rparr>)"

theorem time_limits_enforced_witness:
  "fst (select_timeout late_conn) \<le> 50 \<and> (\<forall>(e :: unit env) inp. \<exists>err. loop_iteration e inp late_conn = Inl err)"
proof -
  obtain timeout c0 where st: "select_timeout late_conn = (timeout, c0)" by fastforce
  then have "now_of c0 = 400"
    by (auto simp: select_timeout_def monotonic_now_def Let_def now_of_def late_conn_def plain_conn_def plain_world_def)
  moreover have "s_connect_time (cn_ses late_conn) = 100" "now_of late_conn = 350" "\<not> authdone (s_authstate (cn_ses late_conn))"
    by (simp_all add: late_conn_def plain_conn_def now_of_def plain_world_def small_session_def initial_session_def Let_def zero_AuthState_def)
  moreover have "mono (w_clock (s_world (cn_ses late_conn)))"
    by (auto simp: mono_def late_conn_def plain_conn_def)
  ultimately show ?thesis using time_limits_enforced [OF _ _ _ _ st, of 300] st by auto
qed

end
