(* ===== verification/Chansess_Props.thy ===== *)
theory Chansess_Props
  imports Svr_Channels
begin

text \<open>
  Properties of sessions: what a forced command allows, and the terminal modes of a request.
\<close>

section \<open>Forced commands\<close>

text \<open>The command that every request has to run, of the server or of the key; the server's comes first.\<close>

definition forced_by :: "sconn \<Rightarrow> bytes option" where
  "forced_by c =
     (case svr_forced_command (cn_svr_opts c) of
        Some f \<Rightarrow> Some f
      | None \<Rightarrow> Option.bind (pubkey_options (auth_of c)) forced_command)"

text \<open>A child that executes the forced command with the user's shell.\<close>

definition runs_forced :: "sconn \<Rightarrow> bytes \<Rightarrow> exec_call \<Rightarrow> bool" where
  "runs_forced k f ex \<longleftrightarrow>
     (\<exists>cmd sh. ikofi_exe_to_lib (cn_ikofi k) (Some f) = Inr (Some cmd) \<and> get_user_shell (auth_of k) = Inr sh \<and>
        ex_path ex = sh \<and> ex_argv ex = [basename sh, cstr ''-c'', cmd])"

text \<open>What holds throughout a request that was started in the connection \<open>k\<close>, whose trace was \<open>old\<close>.\<close>

definition forced_inv :: "event list \<Rightarrow> sconn \<Rightarrow> bytes \<Rightarrow> sconn \<Rightarrow> bool" where
  "forced_inv old k f c \<longleftrightarrow> forced_by c = Some f \<and> cn_ikofi c = cn_ikofi k \<and> auth_of c = auth_of k \<and>
     (\<forall>ex. Ev_spawn (Some ex) \<in> set (cn_trace c) \<longrightarrow> Ev_spawn (Some ex) \<in> set old \<or> runs_forced k f ex)"

text \<open>Sending and reading leave the options alone.\<close>

definition set_auth_same :: "sconn \<Rightarrow> sconn \<Rightarrow> bool" where
  "set_auth_same a c \<longleftrightarrow> auth_of c = auth_of a \<and> cn_svr_opts c = cn_svr_opts a \<and> cn_ikofi c = cn_ikofi a \<and>
     (\<forall>ex. Ev_spawn ex \<in> set (cn_trace c) \<longrightarrow> Ev_spawn ex \<in> set (cn_trace a))"

lemma forced_same: "set_auth_same a c \<Longrightarrow> forced_inv old k f a \<Longrightarrow> forced_inv old k f c"
  by (auto simp: set_auth_same_def forced_inv_def forced_by_def cong: option.case_cong)

lemma same_auth_refl [simp]: "set_auth_same c c"
  by (simp add: set_auth_same_def)

lemma same_auth_frame [simp]:
  "set_auth_same a (tick c) = set_auth_same a c" "set_auth_same a (c\<lparr>cn_maxfd := m\<rparr>) = set_auth_same a c"
  "set_auth_same a (c\<lparr>cn_childpids := cps\<rparr>) = set_auth_same a c" "set_auth_same a (c\<lparr>cn_lastexit := le\<rparr>) = set_auth_same a c"
  "set_auth_same a (set_chan i x c) = set_auth_same a c"
  by (simp_all add: set_auth_same_def tick_def set_chan_def)

lemma same_auth_emit: "(\<And>x. e \<noteq> Ev_spawn x) \<Longrightarrow> set_auth_same a c \<Longrightarrow> set_auth_same a (emit e c)"
  by (auto simp: set_auth_same_def emit_def)

lemma same_auth_prio: "set_auth_same a c \<Longrightarrow> set_auth_same a (update_channel_prio c)"
  by (auto simp: set_auth_same_def update_channel_prio_def emit_def Let_def)

lemma forced_frames:
  "forced_inv old k f c \<Longrightarrow> forced_inv old k f (tick c)" "forced_inv old k f c \<Longrightarrow> forced_inv old k f (c\<lparr>cn_maxfd := m\<rparr>)"
  "forced_inv old k f c \<Longrightarrow> forced_inv old k f (c\<lparr>cn_childpids := cps\<rparr>)" "forced_inv old k f c \<Longrightarrow> forced_inv old k f (c\<lparr>cn_lastexit := le\<rparr>)"
  "forced_inv old k f c \<Longrightarrow> forced_inv old k f (update_channel_prio c)"
  "forced_inv old k f c \<Longrightarrow> (\<And>x. e \<noteq> Ev_spawn x) \<Longrightarrow> forced_inv old k f (emit e c)"
  by (erule forced_same [rotated]; simp add: same_auth_prio same_auth_emit)+

lemma forced_upd_chan: "forced_inv old k f c \<Longrightarrow> res_post (forced_inv old k f) (upd_chan i g c)"
  unfolding upd_chan_def by (rule res_post_rbind) (auto elim: forced_same [rotated])

lemma forced_upd_sess: "forced_inv old k f c \<Longrightarrow> res_post (forced_inv old k f) (upd_sess i g c)"
  unfolding upd_sess_def by (intro res_post_rbind forced_upd_chan)

lemma forced_read: "forced_inv old k f c \<Longrightarrow> (\<And>x c. forced_inv old k f c \<Longrightarrow> res_post P (g x c)) \<Longrightarrow> res_post P (rbind (get_from h c) (\<lambda>(x, c). g x c))"
proof (rule res_post_rbind, clarify)
  fix x c' assume g: "\<And>x c. forced_inv old k f c \<Longrightarrow> res_post P (g x c)" and inv: "forced_inv old k f c" and "get_from h c = Inr (x, c')"
  then have "set_auth_same c c'" by (auto simp: on_ses_get_def rbind_eq_Inr on_payload_eq set_auth_same_def)
  then show "res_post P (g x c')" by (rule g [OF forced_same [OF _ inv]])
qed

lemma forced_send: "forced_inv old k f c \<Longrightarrow> res_post (forced_inv old k f) (on_ses (send_fields fs) c)"
  unfolding on_ses_def
  by (rule res_post_rbind) (auto dest!: send_fields_sends sends_same(20) elim!: forced_same [rotated] simp: set_auth_same_def)

lemma forced_sub: "res_post (\<lambda>(r, c). forced_inv old k f c) m \<Longrightarrow> (\<And>r c. forced_inv old k f c \<Longrightarrow> res_post P (g r c)) \<Longrightarrow>
    res_post P (rbind m (\<lambda>(r, c). g r c))"
  by (erule res_post_call) (auto split: prod.splits)

text \<open>The child of a session whose command has been set runs that command.\<close>

lemma execchild_cmd:
  assumes "cs_cmd cs = Some f" "execchild cs c = Some ex"
  shows "runs_forced c f ex"
  using assms
  by (auto simp: execchild_def runs_forced_def run_shell_command_def Let_def rbind_eq_Inr deref_eq_Inr split: sum.splits if_splits)

lemma set_command_forced: "forced_by c = Some f \<Longrightarrow> cs_cmd (set_command c cs) = Some f"
  by (auto simp: forced_by_def set_command_def force_command_def svr_pubkey_set_forced_command_def bind_eq_Some_conv split: option.splits)

lemma connection_string_cmd [simp]: "cs_cmd (make_connection_string c cs) = cs_cmd cs"
  by (simp add: make_connection_string_def Let_def split: prod.split)

lemma forced_spawn:
  assumes "forced_inv old k f c" "cs_cmd cs = Some f"
  shows "forced_inv old k f (emit (Ev_spawn (execchild cs c)) (tick c))"
proof -
  have "runs_forced k f ex" if "execchild cs c = Some ex" for ex
    using execchild_cmd [OF assms(2) that] assms(1) by (simp add: forced_inv_def runs_forced_def)
  moreover have "forced_by (emit (Ev_spawn (execchild cs c)) (tick c)) = forced_by c"
    by (simp add: forced_by_def emit_def tick_def cong: option.case_cong)
  ultimately show ?thesis using assms(1) by (auto simp: forced_inv_def emit_def tick_def)
qed

lemma sess_at_chan: "chan_at i c' = chan_at i c \<Longrightarrow> sess_at i c' = sess_at i c"
  by (simp add: sess_at_def)

lemma forced_lastexit: "forced_inv old k f c \<Longrightarrow> res_post (forced_inv old k f) (match_lastexit c)"
  unfolding match_lastexit_def
  by (rule res_post_if res_post_option res_post_rbind [of "deref _"] res_post_call [OF forced_upd_sess] | assumption | simp add: forced_frames; fail)+

lemma forced_nopty:
  assumes "forced_inv old k f c" "res_post (\<lambda>cs. cs_cmd cs = Some f) (sess_at i c)"
  shows "res_post (\<lambda>(r, c). forced_inv old k f c) (noptycommand i c)"
  unfolding noptycommand_def Let_def
  by (insert assms(1)) (rule res_post_call [OF assms(2)] res_post_option res_post_prod res_post_call [OF forced_upd_sess] res_post_call [OF forced_upd_chan]
        res_post_call [OF forced_lastexit [where old = old and k = k and f = f]] forced_spawn | assumption | simp add: forced_frames; fail)+

lemma forced_pty:
  assumes "forced_inv old k f c" "res_post (\<lambda>cs. cs_cmd cs = Some f) (sess_at i c)"
  shows "res_post (\<lambda>(r, c). forced_inv old k f c) (ptycommand i c)"
  unfolding ptycommand_def Let_def
  by (insert assms(1)) (rule res_post_call [OF assms(2)] res_post_if res_post_option res_post_prod res_post_call [OF forced_upd_sess]
        res_post_call [OF forced_upd_chan] forced_spawn forced_frames | assumption | simp add: forced_frames; fail)+

lemma sess_after_upd: "upd_sess i g c = Inr c' \<Longrightarrow> res_post (\<lambda>cs. \<exists>cs0. sess_at i c = Inr cs0 \<and> cs = g cs0) (sess_at i c')"
  by (auto simp: upd_sess_def upd_chan_def sess_at_def chan_at_def set_chan_def rbind_eq_Inr deref_eq_Inr res_post_def split: sum.splits option.splits if_splits)

lemma forced_start:
  assumes "forced_inv old k f c"
  shows "res_post (\<lambda>(r, c). forced_inv old k f c) (start_command i c)"
  unfolding start_command_def
proof (rule res_post_rbind)
  fix c1 assume upd: "upd_sess i (\<lambda>cs. make_connection_string c (set_command c cs)) c = Inr c1"
  have inv: "forced_inv old k f c1" using res_postD [OF forced_upd_sess [OF assms] upd] .
  have cmd: "res_post (\<lambda>cs. cs_cmd cs = Some f) (sess_at i c1)"
    using sess_after_upd [OF upd] assms by (elim res_post_mono) (auto simp: set_command_forced forced_inv_def)
  show "res_post (\<lambda>(r, c). forced_inv old k f c)
     (rbind (sess_at i c1) (\<lambda>cs.
     rbind (if cs_term cs = None then
              rbind (noptycommand i c1) (\<lambda>(ret, c).
              if ret then rbind (upd_chan i (\<lambda>ch. ch\<lparr>chan_prio := DROPBEAR_PRIO_NORMAL\<rparr>) c) (\<lambda>c. Inr (True, update_channel_prio c))
              else Inr (False, c))
            else ptycommand i c1) (\<lambda>(ret, c).
     rbind (upd_sess i (\<lambda>cs. cs\<lparr>connection_string := None, client_string := None\<rparr>) c) (\<lambda>c.
     rbind (if ret then Inr c else upd_sess i (\<lambda>cs. cs\<lparr>cs_cmd := None\<rparr>) c) (\<lambda>c.
     Inr (ret, c))))))"
    by (insert inv cmd) (rule res_post_rbind [of "sess_at _ _"] forced_sub [OF forced_nopty] forced_pty forced_sub [where old = old and k = k and f = f] res_post_if
        res_post_call [OF forced_upd_sess] res_post_call [OF forced_upd_chan] res_post_call [where Q = "forced_inv old k f" and m = "If _ _ _"]
        forced_upd_sess | assumption | simp add: forced_frames; fail)+
qed

lemma forced_read_command: "forced_inv old k f c \<Longrightarrow> res_post (\<lambda>(r, c). forced_inv old k f c) (read_command i sub c)"
  unfolding read_command_def
  by (rule res_post_rbind [of "sess_at _ _"] res_post_rbind [of "deref _"] res_post_rbind [of "ikofi_exe_to_lib _ _"]
      forced_sub [where old = old and k = k and f = f] forced_read res_post_if res_post_option res_post_call [OF forced_upd_sess]
     | assumption | simp; fail)+

lemma forced_sessioncommand: "forced_inv old k f c \<Longrightarrow> res_post (\<lambda>(r, c). forced_inv old k f c) (sessioncommand iscmd sub i c)"
  unfolding sessioncommand_def
  by (rule res_post_rbind [of "sess_at _ _"] forced_sub [where old = old and k = k and f = f] res_post_if forced_read_command forced_start
     | assumption | simp; fail)+

lemma forced_signal: "forced_inv old k f c \<Longrightarrow> res_post (\<lambda>(r, c). forced_inv old k f c) (sessionsignal i c)"
  unfolding sessionsignal_def
  by (rule res_post_rbind [of "sess_at _ _"] forced_read res_post_if res_post_option res_post_prod | assumption | simp add: forced_frames; fail)+

lemma forced_winchange: "forced_inv old k f c \<Longrightarrow> res_post (\<lambda>(r, c). forced_inv old k f c) (sessionwinchange i c)"
  unfolding sessionwinchange_def
  by (rule res_post_rbind [of "sess_at _ _"] forced_read res_post_if | assumption | simp add: forced_frames; fail)+

lemma forced_termmodes: "forced_inv old k f c \<Longrightarrow> res_post (forced_inv old k f) (get_termmodes i c)"
  unfolding get_termmodes_def Let_def
  by (rule res_post_rbind [of "sess_at _ _"] res_post_rbind [of "deref _"] forced_read [where old = old and k = k and f = f] res_post_if res_post_option
     | assumption | simp add: forced_frames; fail)+

lemma forced_sessionpty: "forced_inv old k f c \<Longrightarrow> res_post (\<lambda>(r, c). forced_inv old k f c) (sessionpty i c)"
  unfolding sessionpty_def
  by (rule res_post_rbind [of "sess_at _ _"] forced_read forced_sub [OF forced_winchange [where old = old and k = k and f = f]] res_post_if res_post_option res_post_prod
      res_post_call [OF forced_upd_sess [where old = old and k = k and f = f]] res_post_call [OF forced_termmodes]
     | assumption | simp add: forced_frames; fail)+

lemma forced_request: "forced_inv old k f c \<Longrightarrow> res_post (\<lambda>(r, c). forced_inv old k f c) (session_request type i c)"
  unfolding session_request_def
  by (rule res_post_if forced_sessioncommand forced_signal forced_winchange forced_sessionpty | assumption | simp; fail)+

lemma forced_chansessionrequest: "forced_inv old k f c \<Longrightarrow> res_post (forced_inv old k f) (chansessionrequest i c)"
  unfolding chansessionrequest_def send_msg_channel_success_def send_msg_channel_failure_def
  by (rule res_post_rbind [of "chan_at _ _"] res_post_rbind [of "dassert _ _"] forced_read forced_sub [where old = old and k = k and f = f] res_post_if
      forced_request forced_send | assumption | simp; fail)+

text \<open>
  Property C6. A forced command cannot be escaped: while the server or the key of the user forces a command, every
  process that a request on a session starts, whether for a shell, a command or a subsystem, with or without a
  terminal, runs the user's shell on the forced command, as the application's bridge maps it, and on nothing else.
\<close>

theorem forced_command_only:
  assumes "forced_by c = Some f" "chansessionrequest i c = Inr c'"
    and "Ev_spawn (Some ex) \<in> set (cn_trace c')" "Ev_spawn (Some ex) \<notin> set (cn_trace c)"
  shows "\<exists>cmd sh. ikofi_exe_to_lib (cn_ikofi c) (Some f) = Inr (Some cmd) \<and> get_user_shell (auth_of c) = Inr sh \<and>
      ex_path ex = sh \<and> ex_argv ex = [basename sh, cstr ''-c'', cmd]"
proof -
  have "forced_inv (cn_trace c) c f c" using assms(1) by (simp add: forced_inv_def)
  then have "forced_inv (cn_trace c) c f c'" using assms(2) by (rule res_postD [OF forced_chansessionrequest])
  then show ?thesis using assms(3,4) by (auto simp: forced_inv_def runs_forced_def)
qed

text \<open>A session whose key forces a command, with a request to run another one.\<close>

definition forced_conn :: sconn where
  "forced_conn =
     (let po = \<lparr>no_port_forwarding_flag = False, no_agent_forwarding_flag = False, no_x11_forwarding_flag = False, no_pty_flag = False,
                 forced_command = Some (cstr ''scp -t d''), permit_open_destinations = None, permit_listens = None, no_touch_required_flag = False,
                 verify_required_flag = False, info_env = None\<rparr>;
          a = zero_AuthState\<lparr>authdone := True, pw_name := Some (cstr ''u''), pw_dir := Some (cstr ''/h''), pw_shell := Some (cstr ''/bin/sh''),
                pubkey_options := Some po\<rparr>;
          s = small_session\<lparr>s_authstate := a, s_payload := Some (payload_of (enc_string (cstr ''exec'') @ [0] @ enc_string (cstr ''id'')))\<rparr>;
          ch = (new_Channel 0 7 (cstr ''session'') 100 100 100 \<lparr>c_size = 100, c_readpos = 0, c_writepos = 0, c_used = 0, c_data = None\<rparr>)
                 \<lparr>typedata := Some new_ChanSess\<rparr> in
      (plain_conn s)\<lparr>cn_channels := [Some ch], cn_chancount := 1, cn_spawn := (\<lambda>_. Some (5, 6, 7, 77))\<rparr>)"

definition new_children :: "sconn res \<Rightarrow> exec_call list" where
  "new_children r = (case r of Inl e \<Rightarrow> [] | Inr c \<Rightarrow> List.map_filter (\<lambda>e. case e of Ev_spawn x \<Rightarrow> x | _ \<Rightarrow> None) (cn_trace c))"

lemma new_children_mem: "ex \<in> set (new_children r) \<Longrightarrow> \<exists>c. r = Inr c \<and> Ev_spawn (Some ex) \<in> set (cn_trace c)"
  by (force simp: new_children_def List.map_filter_def split: sum.splits event.splits)

lemma forced_conn_spawns: "map ex_argv (new_children (chansessionrequest 0 forced_conn)) = [[cstr ''sh'', cstr ''-c'', cstr ''/lib/libscp.so -t d'']]"
  by code_simp

theorem forced_command_only_witness:
  "\<exists>c' ex cmd. chansessionrequest 0 forced_conn = Inr c' \<and> Ev_spawn (Some ex) \<in> set (cn_trace c') \<and>
     ikofi_exe_to_lib (cn_ikofi forced_conn) (Some (cstr ''scp -t d'')) = Inr (Some cmd) \<and>
     ex_path ex = cstr ''/bin/sh'' \<and> ex_argv ex = [basename (cstr ''/bin/sh''), cstr ''-c'', cmd]"
proof -
  have "new_children (chansessionrequest 0 forced_conn) \<noteq> []" using forced_conn_spawns by auto
  then obtain c' ex where c': "chansessionrequest 0 forced_conn = Inr c'" "Ev_spawn (Some ex) \<in> set (cn_trace c')"
    using new_children_mem hd_in_set by blast
  have "cn_trace forced_conn = []" "forced_by forced_conn = Some (cstr ''scp -t d'')" "get_user_shell (auth_of forced_conn) = Inr (cstr ''/bin/sh'')"
    by (simp_all add: forced_conn_def forced_by_def Let_def plain_conn_def plain_svr_opts_def get_user_shell_def)
  then show ?thesis using forced_command_only [of forced_conn "cstr ''scp -t d''" 0 c' ex] c' by auto
qed

end
