(* ===== verification/Channel_Flow.thy ===== *)
theory Channel_Flow
  imports Channel_Props Buffer_Codec
begin

text \<open>
  The data that flows through channels: what the peer sends reaches the local descriptor or waits in the buffer, in
  order, and what is read locally goes to the peer in messages that respect its window and its packet size.
\<close>

section \<open>From the peer\<close>

lemma getchannel_msg_at:
  assumes "conn_ok {} c" "chan_at i c = Inr ch" "s_payload (cn_ses c) = Some b" "buf_wf b" "buf_rest b = store32h i @ r"
  shows "getchannel_msg c = Inr (i, received (buf_skip b 4) c)"
proof -
  have "buf_getint b = Inr (i, buf_skip b 4)" using assms(4,5) by (simp add: buf_getint_rest load32h_store32h)
  then have read: "on_ses_get (on_payload buf_getint) c = Inr (i, received (buf_skip b 4) c)"
    using assms(3) by (simp add: on_ses_get_def on_payload_def received_def)
  have "unat i < length (cn_channels c)" "cn_channels c ! unat i = Some ch" using assms(2) by (simp_all add: chan_at_eq)
  moreover from this have "\<not> i \<ge> cn_chansize c" using assms(1) by (simp add: conn_ok_def word_le_nat_alt u32_simps)
  ultimately show ?thesis unfolding getchannel_msg_def read by (simp add: received_def)
qed

text \<open>
  Property C8. Data that a peer sends on a channel within its window is neither lost nor reordered: what the channel
  still held, followed by the new data, is what is written to the local descriptor, followed by what the
  channel then holds, and the accounting of the window stays in order. The exceptions are a failed write to the
  descriptor, which closes it, and a message that extends the window and cannot be sent, which ends the connection.
\<close>

theorem channel_data_conserved:
  fixes c :: "'t conn"
  assumes "conn_ok {} c" "chan_at i c = Inr ch" "\<not> recv_eof ch" "0 \<le> writefd ch" "writebuf ch = Some cb"
    and "buf_wf b" "buf_rest b = store32h i @ store32h (of_nat (length d)) @ d" "length d \<le> unat (recvwindow ch)"
  shows "(\<exists>e n p. recv_msg_channel_data (received b c) = Inl e \<and>
      send_fields [FByte 93, FInt (remotechan ch), FInt n] ((cn_ses c)\<lparr>s_payload := p\<rparr>) = Inl e) \<or>
    (\<exists>c' ch'. recv_msg_channel_data (received b c) = Inr c' \<and> chan_at i c' = Inr ch' \<and> chan_wf (recv_window (cn_opts c)) ch' \<and>
       (cn_write c (cn_calls c) = Wr_fail \<or>
        (\<exists>sent cb'. writebuf ch' = Some cb' \<and> sent @ cbuf_list cb' = cbuf_list cb @ d \<and>
           written_to (writefd ch) (cn_trace c') = written_to (writefd ch) (cn_trace c) @ sent)))"
proof -
  let ?c = "received b c" and ?b = "buf_skip b 4" and ?W = "recv_window (cn_opts c)"
  have ok: "conn_ok {} ?c" by (rule conn_ok_keeps [OF assms(1)]) (simp add: received_def)
  have at: "chan_at i (received x c) = Inr ch" for x using assms(2) by (simp add: received_def)
  have pick: "getchannel_msg ?c = Inr (i, received ?b c)"
    using getchannel_msg_at [OF ok at _ assms(6,7)] by (simp add: received_def)
  have wf: "chan_wf ?W ch" using conn_ok_at [OF assms(1,2)] by simp
  have b4: "buf_wf ?b" "buf_rest ?b = store32h (of_nat (length d)) @ d @ []"
    using assms(6,7) by (simp_all add: buf_skip_wf buf_rest_skip)
  have buf: "chan_buf False ch = Some cb" using assms(5) by (simp add: chan_buf_def)
  have len: "unat i < length (cn_channels c)" using assms(2) by (simp add: chan_at_eq)
  have run: "recv_msg_channel_data ?c = common_recv_msg_channel_data i (writefd ch) False (received ?b c)"
    unfolding recv_msg_channel_data_def pick using at by simp
  have "(\<exists>e n p. recv_msg_channel_data ?c = Inl e \<and>
      send_fields [FByte 93, FInt (remotechan ch), FInt n] ((cn_ses (received ?b c))\<lparr>s_payload := p\<rparr>) = Inl e) \<or>
    (\<exists>c'. recv_msg_channel_data ?c = Inr c' \<and> data_result i (writefd ch) False d ?W ch cb (received ?b c) c')"
    unfolding run by (rule common_recv_outcome [OF at assms(3) buf assms(4) wf _ _ b4 assms(8)]) (simp_all add: received_def)
  then show ?thesis
    using len by (auto simp: data_result_def received_def chan_buf_def chan_at_eq)
qed

text \<open>A connection with one open channel.\<close>

definition flow_chan :: "unit Channel" where
  "flow_chan = (new_Channel 0 7 (cstr ''session'') 5 100 64 \<lparr>c_size = 64, c_readpos = 0, c_writepos = 0, c_used = 0, c_data = None\<rparr>)\<lparr>writefd := 8, readfd := 9\<rparr>"

definition flow_conn :: "unit conn" where
  "flow_conn = (plain_conn small_session)\<lparr>cn_channels := [Some flow_chan], cn_chancount := 1,
     cn_opts := \<lparr>recv_window = 64, keepalive_secs = 0, idle_timeout_secs = 0, max_duration_secs = 0, listen_fwd_all = False\<rparr>,
     cn_write := (\<lambda>_. Wr 1), cn_read := (\<lambda>_. Rd [65, 66])\<rparr>"

lemma flow_conn_ok: "conn_ok {} flow_conn" "chan_at 0 flow_conn = Inr flow_chan"
  by (simp_all add: conn_ok_def flow_conn_def flow_chan_def new_Channel_def plain_conn_def chan_wf_def bufs_wf_def cbuf_wf_def
      chan_budget_def held_def chan_at_def)

definition flow_data :: buffer where
  "flow_data = payload_of (store32h 0 @ store32h 3 @ [1, 2, 3])"

lemma flow_returns: "returns (recv_msg_channel_data (received flow_data flow_conn))"
  by code_simp

theorem channel_data_conserved_witness:
  "\<exists>c' ch' sent cb'. recv_msg_channel_data (received flow_data flow_conn) = Inr c' \<and> chan_at 0 c' = Inr ch' \<and> writebuf ch' = Some cb' \<and>
     sent @ cbuf_list cb' = [1, 2, 3] \<and> written_to 8 (cn_trace c') = sent"
proof -
  have b: "buf_wf flow_data" "buf_rest flow_data = store32h 0 @ store32h (of_nat (length [1, 2, 3 :: byte])) @ [1, 2, 3]"
    by (simp_all add: flow_data_def payload_of_def buf_wf_def buf_rest_def)
  have ch: "\<not> recv_eof flow_chan" "writefd flow_chan = 8" "unat (recvwindow flow_chan) = 64"
      "writebuf flow_chan = Some \<lparr>c_size = 64, c_readpos = 0, c_writepos = 0, c_used = 0, c_data = None\<rparr>"
    by (simp_all add: flow_chan_def new_Channel_def)
  have c: "cn_trace flow_conn = []" "cn_write flow_conn (cn_calls flow_conn) \<noteq> Wr_fail" by (simp_all add: flow_conn_def plain_conn_def)
  obtain c' where c': "recv_msg_channel_data (received flow_data flow_conn) = Inr c'" using flow_returns by (auto simp: returns_ex)
  show ?thesis
    using channel_data_conserved [OF flow_conn_ok ch(1) _ ch(4) b] ch(2,3) c c' by (auto simp: cbuf_list_def)
qed

section \<open>To the peer\<close>

text \<open>The length of the data is written into its place after the data.\<close>

lemma fill_length:
  assumes "buf_end b (length h + (4 + length bs))"
  defines "w \<equiv> b_append b (h @ store32h 0 @ bs)" and "p \<equiv> b_len b + of_nat (length h)"
  shows "\<exists>w1 w2. buf_setpos w p = Inr w1 \<and> buf_putint w1 v = Inr w2 \<and> buf_wf w2 \<and>
    buf_contents w2 = buf_contents b @ h @ store32h v @ bs"
proof -
  have wf: "buf_wf b" "unat (b_len b) + length h + 4 + length bs \<le> unat (b_size b)" using assms(1) by (simp_all add: buf_end_def)
  have be: "buf_end w 0" unfolding w_def using buf_end_append [of b "h @ store32h 0 @ bs" 0] assms(1) by simp
  have len: "unat (b_len w) = unat (b_len b) + length h + 4 + length bs"
    unfolding w_def using unat_len_append [of b "h @ store32h 0 @ bs"] assms(1) by (simp add: b_append_def)
  have p: "unat p = unat (b_len b) + length h"
    unfolding p_def using unat_len_append [of b h] buf_end_mono [OF assms(1), of "length h"] by simp
  let ?w1 = "w\<lparr>b_pos := p\<rparr>"
  have w1: "buf_setpos w p = Inr ?w1" "buf_wf ?w1"
    using len p be by (simp_all add: buf_setpos_def buf_wf_nat buf_end_def word_less_nat_alt)
  let ?w2 = "?w1\<lparr>b_data := take (unat p) (b_data w) @ store32h v @ drop (unat p + 4) (b_data w)\<rparr>"
  have sz: "unat p + 4 \<le> unat (b_size w)" using wf(2) p by (simp add: w_def)
  have w2: "buf_poke ?w1 4 (store32h v) = Inr ?w2" using w1(2) sz by (simp add: buf_poke_eq)
  have wf2: "buf_wf ?w2" using w1(2) sz by (auto simp: buf_wf_nat)
  have "\<not> b_len w < p + 4" using len p sz wf by (simp add: word_less_nat_alt buf_wf_nat u32_simps)
  then have fin: "buf_putint ?w1 v = Inr (?w2\<lparr>b_pos := p + 4\<rparr>)"
    using w2 wf2 sz by (simp add: buf_putint_def buf_incrwritepos_eq)
  have data: "b_data w = take (unat (b_len b)) (b_data b) @ (h @ store32h 0 @ bs) @ drop (unat (b_len b) + (length h + (4 + length bs))) (b_data b)"
    by (simp add: w_def b_append_def)
  have "length (take (unat (b_len b)) (b_data b)) = unat (b_len b)" using wf by (simp add: buf_wf_nat)
  then have "buf_contents (?w2\<lparr>b_pos := p + 4\<rparr>) = buf_contents b @ h @ store32h v @ bs"
    unfolding buf_contents_def using len p by (simp add: data)
  moreover have "buf_wf (?w2\<lparr>b_pos := p + 4\<rparr>)" using wf2 \<open>\<not> b_len w < p + 4\<close> by (simp add: buf_wf_def)
  ultimately show ?thesis using w1(1) fin by blast
qed

text \<open>What comes before the data in a message.\<close>

definition data_header :: "bool \<Rightarrow> 't Channel \<Rightarrow> bytes" where
  "data_header ext ch = (if ext then 95 else 94) # store32h (remotechan ch) @ (if ext then store32h 1 else [])"

lemma length_data_header: "length (data_header ext ch) = (if ext then 9 else 5)"
  by (simp add: data_header_def)

lemma header_fields:
  "enc_fields ([FByte (if ext then 95 else 94), FInt (remotechan ch)] @ (if ext then [FInt 1] else [])) = data_header ext ch"
  "list_all field_ok ([FByte (if ext then 95 else 94), FInt (remotechan ch)] @ (if ext then [FInt 1] else []))"
  by (simp_all add: enc_fields_def data_header_def)

lemma send_maxlen_fits:
  assumes "buf_wf (s_writepayload s)" "b_len (s_writepayload s) = 0" "b_pos (s_writepayload s) = 0" "13 \<le> unat (b_size (s_writepayload s))"
    and "n \<le> unat (send_maxlen ext ch s)"
  shows "buf_end (s_writepayload s) (length (data_header ext ch) + (4 + n))"
proof -
  let ?k = "1 + 4 + 4 + (if ext then 4 else 0) :: u32" and ?sz = "b_size (s_writepayload s)"
  have "?sz - 1 - 4 - 4 - (if ext then 4 else 0) = ?sz - ?k" by (simp add: algebra_simps)
  moreover have "unat (?sz - ?k) = unat ?sz - unat ?k" using assms(4) by (subst unat_minus_u32) (simp_all add: word_le_nat_alt)
  ultimately have "n \<le> unat ?sz - unat ?k" using assms(5) by (simp add: send_maxlen_def min_def word_le_nat_alt split: if_splits)
  then show ?thesis using assms(1-4) by (auto simp: buf_end_def length_data_header split: if_splits)
qed

lemma send_data_run:
  fixes c :: "'t conn"
  assumes at: "chan_at i c = Inr ch" and wp: "buf_wf (s_writepayload (cn_ses c))" "b_len (s_writepayload (cn_ses c)) = 0"
      "b_pos (s_writepayload (cn_ses c)) = 0" "13 \<le> unat (b_size (s_writepayload (cn_ses c)))"
    and go: "\<not> sent_close ch" "0 \<le> (if ext then errfd ch else readfd ch)" "send_maxlen ext ch (cn_ses c) \<noteq> 0"
  defines "fd \<equiv> if ext then errfd ch else readfd ch" and "w \<equiv> b_append (s_writepayload (cn_ses c)) (data_header ext ch @ store32h 0)"
    and "m \<equiv> send_maxlen ext ch (cn_ses c)" and "p \<equiv> b_len (s_writepayload (cn_ses c)) + of_nat (length (data_header ext ch))"
  defines "k \<equiv> c\<lparr>cn_ses := (cn_ses c)\<lparr>s_writepayload := w\<rparr>, cn_calls := Suc (cn_calls c)\<rparr>"
  shows "send_msg_channel_data i ext c =
     (case cn_read c (cn_calls c) of
        Rd_again \<Rightarrow> on_ses drop_writepayload k
      | Rd_fail \<Rightarrow> rbind (close_chan_fd i fd SHUT_RD k) (on_ses drop_writepayload)
      | Rd bs \<Rightarrow>
         let bs = take (unat m) bs; len = of_nat (length bs) in
         if bs = [] then rbind (close_chan_fd i fd SHUT_RD k) (on_ses drop_writepayload)
         else
           rbind (on_ses (\<lambda>s.
             rbind (buf_poke (s_writepayload s) len bs) (\<lambda>wp.
             rbind (buf_incrwritepos wp len) (\<lambda>wp.
             rbind (buf_setpos wp p) (\<lambda>wp.
             rbind (buf_putint wp len) (\<lambda>wp. Inr (s\<lparr>s_writepayload := wp\<rparr>)))))) k) (\<lambda>c.
           rbind (upd_chan i (\<lambda>ch. ch\<lparr>transwindow := transwindow ch - len\<rparr>) c)
           (on_ses encrypt_packet)))"
proof -
  let ?wp = "s_writepayload (cn_ses c)" and ?h = "data_header ext ch"
  have e: "buf_end ?wp (length ?h + (4 + unat m))" using send_maxlen_fits [OF wp, of _ ext ch] by (simp add: m_def)
  have h: "put_fields ?wp ([FByte (if ext then 95 else 94), FInt (remotechan ch)] @ (if ext then [FInt 1] else [])) = Inr (b_append ?wp ?h)"
    using put_fields_append [OF header_fields(2), of ?wp ext ch] buf_end_mono [OF e, of "length ?h"] by (simp only: header_fields(1))
  have "buf_end (b_append ?wp ?h) (4 + unat m)" using buf_end_append [OF e] .
  then have z: "put_fields (b_append ?wp ?h) [FInt 0] = Inr w"
    using b_append_append [of ?wp ?h "store32h 0"] buf_end_mono [OF e, of "length ?h + 4"]
    by (simp add: w_def buf_putint_append [OF buf_end_mono])
  have "buf_end w (unat m)" unfolding w_def using buf_end_append [of ?wp "?h @ store32h 0" "unat m"] e by (simp add: add.assoc)
  then have g: "buf_getwriteptr w m = Inr (unat (b_pos w))" by (simp add: buf_getwriteptr_eq buf_end_def)
  have pos: "b_pos (b_append ?wp ?h) = p" by (simp add: p_def b_append_def)
  show ?thesis
    unfolding send_msg_channel_data_def at
    using go h z g pos
    by (cases "cn_read c (cn_calls c)")
      (simp_all add: Let_def dassert_def on_ses_def put_payload_def sys_read_def m_def [symmetric] fd_def [symmetric] k_def split del: if_split cong: if_cong)
qed

lemma put_message:
  assumes "buf_end b (length h + (4 + length bs))"
  defines "len \<equiv> of_nat (length bs) :: u32"
  shows "\<exists>w. (\<forall>f :: buffer \<Rightarrow> 'a res.
      rbind (buf_poke (b_append b (h @ store32h 0)) len bs) (\<lambda>wp. rbind (buf_incrwritepos wp len) (\<lambda>wp.
      rbind (buf_setpos wp (b_len b + of_nat (length h))) (\<lambda>wp. rbind (buf_putint wp len) f))) = f w) \<and>
    buf_contents w = buf_contents b @ h @ enc_string bs"
proof -
  have "buf_putbytes (b_append b (h @ store32h 0)) bs len = Inr (b_append b (h @ store32h 0 @ bs))"
    using buf_putbytes_append [of "b_append b (h @ store32h 0)" bs] buf_end_append [of b "h @ store32h 0" "length bs"]
      b_append_append [of b "h @ store32h 0" bs] assms(1)
    by (simp add: len_def add.assoc)
  then obtain w0 where w0: "buf_poke (b_append b (h @ store32h 0)) len bs = Inr w0" "buf_incrwritepos w0 len = Inr (b_append b (h @ store32h 0 @ bs))"
    by (auto simp: buf_putbytes_def rbind_eq_Inr)
  obtain w1 w2 where "buf_setpos (b_append b (h @ store32h 0 @ bs)) (b_len b + of_nat (length h)) = Inr w1" "buf_putint w1 len = Inr w2"
      "buf_contents w2 = buf_contents b @ h @ enc_string bs"
    using fill_length [OF assms(1), of len] by (auto simp: enc_string_def len_def)
  then show ?thesis using w0 by (intro exI [of _ w2]) simp
qed

lemma sent_window:
  assumes "length bs \<le> unat (send_maxlen ext ch s)"
  shows "length bs \<le> unat (transwindow ch) \<and> length bs \<le> unat (transmaxpacket ch) \<and>
    unat (transwindow ch - of_nat (length bs)) = unat (transwindow ch) - length bs"
proof -
  have b: "length bs \<le> unat (transwindow ch)" "length bs \<le> unat (transmaxpacket ch)"
    using assms by (simp_all add: send_maxlen_def min_def word_le_nat_alt split: if_splits)
  have "length bs < 4294967296" using le_less_trans [OF assms unat_u32_lt] .
  then have "unat (of_nat (length bs) :: u32) = length bs" by (rule unat_of_nat_u32)
  with b show ?thesis by (simp add: unat_minus_u32 word_le_nat_alt)
qed

lemma drop_writepayload_run:
  "\<exists>wp. drop_writepayload s = Inr (s\<lparr>s_writepayload := wp\<rparr>) \<and> b_len wp = 0 \<and> b_pos wp = 0"
  by (rule exI [of _ "(s_writepayload s)\<lparr>b_pos := 0, b_len := 0\<rparr>"]) (simp add: drop_writepayload_def buf_setpos_def buf_setlen_def)

lemma transwindow_closed: "transwindow (fds_closed a b fd ch) = transwindow ch"
  by (simp add: fds_closed_def Let_def)

lemma give_up:
  assumes "res_post (\<lambda>k'. cn_ses k' = cn_ses k \<and> res_post (\<lambda>ch'. transwindow ch' = transwindow ch) (chan_at i k')) m"
    and "rbind m (on_ses drop_writepayload) = Inr c'" and "cn_ses k = (cn_ses c)\<lparr>s_writepayload := w\<rparr>"
  shows "(\<exists>wp. cn_ses c' = (cn_ses c)\<lparr>s_writepayload := wp\<rparr> \<and> b_len wp = 0) \<and> res_post (\<lambda>ch'. transwindow ch' = transwindow ch) (chan_at i c')"
proof -
  obtain k' where k': "m = Inr k'" "on_ses drop_writepayload k' = Inr c'" using assms(2) by (auto simp: rbind_eq_Inr)
  have "cn_ses k' = cn_ses k" "res_post (\<lambda>ch'. transwindow ch' = transwindow ch) (chan_at i k')" using res_postD [OF assms(1) k'(1)] by auto
  moreover obtain wp where "drop_writepayload (cn_ses k') = Inr ((cn_ses k')\<lparr>s_writepayload := wp\<rparr>)" "b_len wp = 0"
    using drop_writepayload_run by blast
  ultimately show ?thesis using k'(2) assms(3) by (auto simp: on_ses_def intro!: exI [of _ wp])
qed

text \<open>
  Property C9. What is sent to the peer respects its flow control: one call sends at most one message, with its data
  the beginning of what was read from the descriptor, in the format of the protocol, no longer than the window
  the peer has granted and the packet size it accepts; the window is reduced by exactly that length. When nothing
  is read or nothing may be sent, the session and the window stay as they were, with the message that was
  started dropped.
\<close>

theorem channel_data_sent:
  fixes c :: "'t conn"
  assumes "chan_at i c = Inr ch" "buf_wf (s_writepayload (cn_ses c))" "b_len (s_writepayload (cn_ses c)) = 0"
      "b_pos (s_writepayload (cn_ses c)) = 0" "13 \<le> unat (b_size (s_writepayload (cn_ses c)))"
    and "send_msg_channel_data i ext c = Inr c'" "chan_at i c' = Inr ch'"
  shows "((send_maxlen ext ch (cn_ses c) = 0 \<or> (\<forall>b bs. cn_read c (cn_calls c) \<noteq> Rd (b # bs))) \<and>
      (\<exists>wp. cn_ses c' = (cn_ses c)\<lparr>s_writepayload := wp\<rparr> \<and> b_len wp = 0 \<and> transwindow ch' = transwindow ch)) \<or>
    (\<exists>bs rest wp. cn_read c (cn_calls c) = Rd (bs @ rest) \<and> bs \<noteq> [] \<and>
       take (unat (send_maxlen ext ch (cn_ses c))) (bs @ rest) = bs \<and> length bs \<le> unat (transwindow ch) \<and>
       length bs \<le> unat (transmaxpacket ch) \<and> unat (transwindow ch') = unat (transwindow ch) - length bs \<and>
       encrypt_packet ((cn_ses c)\<lparr>s_writepayload := wp\<rparr>) = Inr (cn_ses c') \<and>
       buf_contents wp = (if ext then 95 else 94) # store32h (remotechan ch) @ (if ext then store32h 1 else []) @ enc_string bs)"
proof (cases "send_maxlen ext ch (cn_ses c) = 0")
  case True
  then have "c' = c" using assms(1,6) by (auto simp: send_msg_channel_data_def Let_def rbind_eq_Inr dassert_eq_Inr)
  then show ?thesis using True assms(1,3,7) by (intro disjI1 conjI exI [of _ "s_writepayload (cn_ses c)"]) simp_all
next
  case False
  have go: "\<not> sent_close ch" "0 \<le> (if ext then errfd ch else readfd ch)"
    using assms(1,6) by (auto simp: send_msg_channel_data_def Let_def rbind_eq_Inr dassert_eq_Inr)
  let ?wp = "s_writepayload (cn_ses c)" and ?h = "data_header ext ch" and ?m = "send_maxlen ext ch (cn_ses c)"
  let ?w = "b_append ?wp (?h @ store32h 0)"
  let ?k = "c\<lparr>cn_ses := (cn_ses c)\<lparr>s_writepayload := ?w\<rparr>, cn_calls := Suc (cn_calls c)\<rparr>"
  note run = send_data_run [OF assms(1-5) go False, unfolded assms(6)]
  have at: "chan_at i ?k = Inr ch" using assms(1) by (simp add: chan_at_eq)
  have closed: "res_post (\<lambda>k'. cn_ses k' = cn_ses ?k \<and> res_post (\<lambda>ch'. transwindow ch' = transwindow ch) (chan_at i k')) (close_chan_fd i fd how ?k)" for fd how
  proof -
    obtain k' where k': "close_chan_fd i fd how ?k = Inr k'" "cn_ses k' = cn_ses ?k"
        "cn_channels k' = (cn_channels ?k)[unat i := Some (fds_closed (bidir_fd ch \<longrightarrow> how \<noteq> 0) (bidir_fd ch \<longrightarrow> how = 0) fd ch)]"
      using close_chan_fd_at [OF at, of fd how 0] by blast
    have "chan_at i k' = Inr (fds_closed (bidir_fd ch \<longrightarrow> how \<noteq> 0) (bidir_fd ch \<longrightarrow> how = 0) fd ch)"
      using at k'(3) by (simp add: chan_at_eq)
    then show ?thesis unfolding k'(1) res_post_simps using k'(2) by (simp only: res_post_simps transwindow_closed simp_thms)
  qed
  note closed_up = give_up [OF closed, where c' = c' and c = c and w = ?w]
  show ?thesis
  proof (cases "cn_read c (cn_calls c)")
    case (Rd got)
    define bs where "bs = take (unat ?m) got"
    show ?thesis
    proof (cases "bs = []")
      case True
      then have "got = []" using False by (simp add: bs_def unat_eq_zero)
      then show ?thesis using run Rd closed_up assms(7) by (simp add: Let_def)
    next
      case ne: False
      have lb: "length bs \<le> unat ?m" by (simp add: bs_def)
      obtain w where w: "\<And>f :: buffer \<Rightarrow> sshsession res. rbind (buf_poke ?w (of_nat (length bs)) bs) (\<lambda>wp. rbind (buf_incrwritepos wp (of_nat (length bs))) (\<lambda>wp.
          rbind (buf_setpos wp (b_len ?wp + of_nat (length ?h))) (\<lambda>wp. rbind (buf_putint wp (of_nat (length bs))) f))) = f w"
          "buf_contents w = buf_contents ?wp @ ?h @ enc_string bs"
        using put_message [OF send_maxlen_fits [OF assms(2-5) lb]] by blast
      let ?k2 = "?k\<lparr>cn_ses := (cn_ses c)\<lparr>s_writepayload := w\<rparr>\<rparr>" and ?ch = "ch\<lparr>transwindow := transwindow ch - of_nat (length bs)\<rparr>"
      have at2: "chan_at i ?k2 = Inr ch" using at by simp
      have "on_ses encrypt_packet (set_chan i (Some ?ch) ?k2) = Inr c'"
        using run w(1) upd_chan_at [OF at2] ne by (simp add: Rd bs_def [symmetric] Let_def on_ses_def)
      then obtain s' where s': "encrypt_packet ((cn_ses c)\<lparr>s_writepayload := w\<rparr>) = Inr s'" "c' = (set_chan i (Some ?ch) ?k2)\<lparr>cn_ses := s'\<rparr>"
        by (auto simp: on_ses_def rbind_eq_Inr)
      have ch': "ch' = ?ch" using assms(7) at s'(2) by (auto simp: chan_at_eq)
      moreover have "cn_read c (cn_calls c) = Rd (bs @ drop (unat ?m) got)" by (simp add: Rd bs_def)
      moreover have "buf_contents w = (if ext then 95 else 94) # store32h (remotechan ch) @ (if ext then store32h 1 else []) @ enc_string bs"
        using w(2) assms(3) by (simp add: buf_contents_def data_header_def)
      moreover have "take (unat ?m) (bs @ drop (unat ?m) got) = bs" by (simp add: bs_def)
      ultimately show ?thesis
        using sent_window [OF lb] s' ne by (intro disjI2 exI [of _ bs] exI [of _ "drop (unat ?m) got"] exI [of _ w]) simp
    qed
  next
    case Rd_again
    then have "rbind (Inr ?k) (on_ses drop_writepayload) = Inr c'" using run by simp
    from give_up [OF _ this, where k = ?k and ch = ch and i = i and c = c and w = ?w] show ?thesis using Rd_again at assms(7) by simp
  next
    case Rd_fail
    then show ?thesis using run closed_up assms(7) by simp
  qed
qed

lemma flow_sent: "returns (rbind (send_msg_channel_data 0 False flow_conn) (chan_at 0))"
  by code_simp

theorem channel_data_sent_witness:
  "\<exists>c' ch'. send_msg_channel_data 0 False flow_conn = Inr c' \<and> chan_at 0 c' = Inr ch' \<and> transwindow ch' = 3 \<and>
     (\<exists>wp. encrypt_packet ((cn_ses flow_conn)\<lparr>s_writepayload := wp\<rparr>) = Inr (cn_ses c') \<and> buf_contents wp = [94, 0, 0, 0, 7, 0, 0, 0, 2, 65, 66])"
proof -
  obtain c' ch' where c': "send_msg_channel_data 0 False flow_conn = Inr c'" "chan_at 0 c' = Inr ch'"
    using flow_sent by (auto simp: returns_ex rbind_eq_Inr)
  have ses: "cn_ses flow_conn = small_session" by (simp add: flow_conn_def plain_conn_def)
  have wp: "s_writepayload small_session = \<lparr>b_data = replicate 40 0, b_len = 0, b_pos = 0, b_size = 40\<rparr>"
    by (simp add: small_session_def initial_session_def Let_def)
  have fc: "transwindow flow_chan = 5" "transmaxpacket flow_chan = 100" "remotechan flow_chan = 7"
    by (simp_all add: flow_chan_def new_Channel_def)
  have rd: "cn_read flow_conn (cn_calls flow_conn) = Rd [65, 66]" by (simp add: flow_conn_def)
  have max: "send_maxlen False flow_chan small_session = 5" by (simp add: send_maxlen_def fc wp)
  obtain bs rest wp where w: "[65, 66] = bs @ rest" "take 5 (bs @ rest) = bs" "unat (transwindow ch') = 5 - length bs"
      "encrypt_packet (small_session\<lparr>s_writepayload := wp\<rparr>) = Inr (cn_ses c')" "buf_contents wp = 94 # store32h 7 @ enc_string bs"
    using channel_data_sent [OF flow_conn_ok(2) _ _ _ _ c'] by (auto simp: ses wp fc rd max buf_wf_def)
  then have "bs = [65, 66]" unfolding w(1) [symmetric] by simp
  then have "unat (transwindow ch') = unat (3 :: u32)" using w(3) by simp
  then have "transwindow ch' = 3" by (rule unsigned_word_eqI)
  then show ?thesis using c' w \<open>bs = [65, 66]\<close> by (auto simp: ses enc_string_def store32h_def)
qed

end
