(* ===== verification/Forward_Props.thy ===== *)
theory Forward_Props
  imports Svr_Inv Chansess_Props
begin









end
