(* ===== verification/Svr_Runopts.thy ===== *)
theory Svr_Runopts
  imports Pubkey_Options
begin

text \<open>
  The command line and the host keys of the server (\<^verbatim>\<open>svr-runopts.c\<close>, \<^verbatim>\<open>common-runopts.c\<close>), in the configuration
  of the application: without \<^verbatim>\<open>inetd\<close> mode, syslog, message of the day, tracing, plugins and the password
  authentication of Dropbear. Files, groups and host keys that can be read are arguments.
\<close>

section \<open>Options\<close>

abbreviation (input) "DROPBEAR_DEFPORT \<equiv> cstr ''2222''"
abbreviation (input) "DROPBEAR_DEFADDRESS \<equiv> cstr ''''"
abbreviation (input) "DROPBEAR_MAX_PORTS \<equiv> 10 :: nat"
abbreviation (input) "MAX_HOSTKEYS \<equiv> 4 :: nat"
abbreviation (input) "MAX_AUTH_TRIES \<equiv> 10 :: u32"
abbreviation (input) "MAX_BANNER_SIZE \<equiv> 2050 :: nat"
abbreviation (input) "DEFAULT_RECV_WINDOW \<equiv> 524288 :: u32"
abbreviation (input) "MAX_RECV_WINDOW \<equiv> 10485760 :: u32"

text \<open>
  The options, beside those a session reads (\<open>go_opts\<close>, \<open>go_svr\<close>), and the local variables of \<^verbatim>\<open>svr_getopts\<close>
  that keep an argument until the end. \<open>go_listen\<close> are the ports with their addresses.
\<close>

record getopts =
  go_opts :: runopts
  go_svr :: svr_runopts
  bannerfile :: "bytes option"
  forkbg :: bool
  norootlogin :: bool
  restrict_group :: "bytes option"
  restrict_group_gid :: int
  go_listen :: "(bytes \<times> bytes) list"
  delay_hostkey :: bool
  hostkey_files :: "bytes list"
  pidfile :: bytes
  authorized_keys_dir :: bytes
  reexec_childpipe :: int
  disable_ip_tos :: bool
  recv_window_arg :: "bytes option"
  keepalive_arg :: "bytes option"
  idle_timeout_arg :: "bytes option"
  max_duration_arg :: "bytes option"
  maxauthtries_arg :: "bytes option"
  reexec_fd_arg :: "bytes option"
  algo_print_arg :: "bytes option"

definition default_opts :: "bytes \<Rightarrow> getopts" where
  "default_opts pid =
     \<lparr>go_opts = \<lparr>recv_window = DEFAULT_RECV_WINDOW, keepalive_secs = 0, idle_timeout_secs = 0, max_duration_secs = 0, listen_fwd_all = False\<rparr>,
      go_svr = \<lparr>noauthpass = False, norootpass = False, allowblankpass = False, multiauthmethod = False, maxauthtries = MAX_AUTH_TRIES,
                banner = None, svr_forced_command = None, noremotefwd = False, nolocaltcp = False, svr_interface = None, pass_on_env = False\<rparr>,
      bannerfile = None, forkbg = True, norootlogin = False, restrict_group = None, restrict_group_gid = 0, go_listen = [],
      delay_hostkey = False, hostkey_files = [], pidfile = pid, authorized_keys_dir = cstr ''~/.ssh'', reexec_childpipe = -1,
      disable_ip_tos = False, recv_window_arg = None, keepalive_arg = None, idle_timeout_arg = None, max_duration_arg = None,
      maxauthtries_arg = None, reexec_fd_arg = None, algo_print_arg = None\<rparr>"

text \<open>What \<^verbatim>\<open>next\<close> points to; \<open>To_port\<close> is \<^verbatim>\<open>nextisport\<close>.\<close>

datatype target =
    To_bannerfile | To_forced_command | To_keyfile | To_keys_dir | To_reexec | To_port | To_pidfile | To_interface
  | To_group | To_window | To_keepalive | To_idle | To_duration | To_tries | To_algo

definition addportandaddress :: "bytes \<Rightarrow> getopts \<Rightarrow> getopts res" where
  "addportandaddress spec g =
     (if length (go_listen g) \<ge> DROPBEAR_MAX_PORTS then Inr g else
      case split_address_port spec of
        None \<Rightarrow> Inl (Dropbear_exit ''Bad -p argument'')
      | Some (address, port) \<Rightarrow>
          let (address, port) = (case port of None \<Rightarrow> (None, address) | Some p \<Rightarrow> (address, Some p));
              address = (case address of None \<Rightarrow> DROPBEAR_DEFADDRESS | Some a \<Rightarrow> a) in
          case port of
            None \<Rightarrow> Inl Fault
          | Some p \<Rightarrow> if p = [] then Inl (Dropbear_exit ''Bad port'') else Inr (g\<lparr>go_listen := go_listen g @ [(p, address)]\<rparr>))"

definition addhostkey :: "bytes \<Rightarrow> getopts \<Rightarrow> getopts res" where
  "addhostkey keyfile g =
     (if length (hostkey_files g) \<ge> MAX_HOSTKEYS then Inl (Dropbear_exit ''Too many hostkeys'')
      else Inr (g\<lparr>hostkey_files := hostkey_files g @ [keyfile]\<rparr>))"

text \<open>The \<^verbatim>\<open>switch\<close> on one letter.\<close>

definition option_letter :: "byte \<Rightarrow> getopts \<Rightarrow> (getopts \<times> target option) res" where
  "option_letter c g =
     (let flag = (\<lambda>g. Inr (g, None)); arg = (\<lambda>t. Inr (g, Some t)) in
      if c = of_char CHR ''b'' then arg To_bannerfile
      else if c = of_char CHR ''c'' then arg To_forced_command
      else if c = of_char CHR ''d'' \<or> c = of_char CHR ''r'' then arg To_keyfile
      else if c = of_char CHR ''D'' then arg To_keys_dir
      else if c = of_char CHR ''R'' then flag (g\<lparr>delay_hostkey := True\<rparr>)
      else if c = of_char CHR ''F'' then flag (g\<lparr>forkbg := False\<rparr>)
      else if c = of_char CHR ''e'' then flag (g\<lparr>go_svr := (go_svr g)\<lparr>pass_on_env := True\<rparr>\<rparr>)
      else if c = of_char CHR ''j'' then flag (g\<lparr>go_svr := (go_svr g)\<lparr>nolocaltcp := True\<rparr>\<rparr>)
      else if c = of_char CHR ''k'' then flag (g\<lparr>go_svr := (go_svr g)\<lparr>noremotefwd := True\<rparr>\<rparr>)
      else if c = of_char CHR ''a'' then flag (g\<lparr>go_opts := (go_opts g)\<lparr>listen_fwd_all := True\<rparr>\<rparr>)
      else if c = of_char CHR ''2'' then arg To_reexec
      else if c = of_char CHR ''p'' then arg To_port
      else if c = of_char CHR ''P'' then arg To_pidfile
      else if c = of_char CHR ''l'' then arg To_interface
      else if c = of_char CHR ''m'' then flag g
      else if c = of_char CHR ''w'' then flag (g\<lparr>norootlogin := True\<rparr>)
      else if c = of_char CHR ''G'' then arg To_group
      else if c = of_char CHR ''W'' then arg To_window
      else if c = of_char CHR ''K'' then arg To_keepalive
      else if c = of_char CHR ''I'' then arg To_idle
      else if c = of_char CHR ''M'' then arg To_duration
      else if c = of_char CHR ''T'' then arg To_tries
      else if c = of_char CHR ''s'' \<or> c = of_char CHR ''g'' then flag g
      else if c = of_char CHR ''Q'' then arg To_algo
      else if c = of_char CHR ''h'' then Inl (Exit 0)
      else if c = of_char CHR ''u'' then flag g
      else if c = of_char CHR ''V'' then Inl (Exit 0)
      else if c = of_char CHR ''z'' then flag (g\<lparr>disable_ip_tos := True\<rparr>)
      else Inl (Exit 1))"

fun set_target :: "target \<Rightarrow> bytes \<Rightarrow> getopts \<Rightarrow> getopts res" where
  "set_target To_bannerfile v g = Inr (g\<lparr>bannerfile := Some v\<rparr>)"
| "set_target To_forced_command v g = Inr (g\<lparr>go_svr := (go_svr g)\<lparr>svr_forced_command := Some v\<rparr>\<rparr>)"
| "set_target To_keyfile v g = addhostkey v g"
| "set_target To_keys_dir v g = Inr (g\<lparr>authorized_keys_dir := v\<rparr>)"
| "set_target To_reexec v g = Inr (g\<lparr>reexec_fd_arg := Some v\<rparr>)"
| "set_target To_port v g = addportandaddress v g"
| "set_target To_pidfile v g = Inr (g\<lparr>pidfile := v\<rparr>)"
| "set_target To_interface v g = Inr (g\<lparr>go_svr := (go_svr g)\<lparr>svr_interface := Some v\<rparr>\<rparr>)"
| "set_target To_group v g = Inr (g\<lparr>restrict_group := Some v\<rparr>)"
| "set_target To_window v g = Inr (g\<lparr>recv_window_arg := Some v\<rparr>)"
| "set_target To_keepalive v g = Inr (g\<lparr>keepalive_arg := Some v\<rparr>)"
| "set_target To_idle v g = Inr (g\<lparr>idle_timeout_arg := Some v\<rparr>)"
| "set_target To_duration v g = Inr (g\<lparr>max_duration_arg := Some v\<rparr>)"
| "set_target To_tries v g = Inr (g\<lparr>maxauthtries_arg := Some v\<rparr>)"
| "set_target To_algo v g = Inr (g\<lparr>algo_print_arg := Some v\<rparr>)"

text \<open>The letters of an argument, up to the end or to one that takes an argument, with what follows it.\<close>

fun option_letters :: "bytes \<Rightarrow> getopts \<Rightarrow> (getopts \<times> (target \<times> bytes) option) res" where
  "option_letters [] g = Inr (g, None)"
| "option_letters (c # cs) g =
     rbind (option_letter c g) (\<lambda>(g, t). case t of None \<Rightarrow> option_letters cs g | Some t \<Rightarrow> Inr (g, Some (t, cs)))"

text \<open>
  The argument of an option: the rest of the same word or the next one, with the words behind it. \<open>null\<close> tells whether the
  array has a null pointer behind the last word, which is read when there is no next one.
\<close>

definition next_value :: "bool \<Rightarrow> bytes \<Rightarrow> bytes list \<Rightarrow> (bytes \<times> bytes list) res" where
  "next_value null rest args =
     (if rest \<noteq> [] then Inr (rest, args)
      else case args of
        [] \<Rightarrow> if null then Inl (Dropbear_exit ''Missing argument'') else Inl Fault
      | v # args \<Rightarrow> Inr (v, args))"

lemma next_value_length: "next_value null rest args = Inr (v, args') \<Longrightarrow> length args' \<le> length args"
  by (auto simp: next_value_def split: if_splits list.splits)

text \<open>The loop over the arguments.\<close>

function option_args :: "bool \<Rightarrow> bytes list \<Rightarrow> getopts \<Rightarrow> getopts res" where
  "option_args null [] g = Inr g"
| "option_args null (arg # args) g =
     (if take 1 arg \<noteq> cstr ''-'' \<or> length arg = 1 then Inl (Dropbear_exit ''Invalid argument'') else
      rbind (option_letters (drop 1 arg) g) (\<lambda>(g, t).
      case t of
        None \<Rightarrow> option_args null args g
      | Some (t, rest) \<Rightarrow>
          rbind (next_value null rest args) (\<lambda>(v, args).
          rbind (set_target t v g) (option_args null args))))"
  by pat_completeness auto
termination
  by (relation "measure (\<lambda>(null, args, g). length args)") (auto dest: next_value_length)

section \<open>After the loop\<close>

text \<open>
  \<open>st_file\<close> has the size and the content of a file, if it exists and can be read; \<open>st_group\<close> the group numbers;
  \<open>st_einval\<close> whether \<^verbatim>\<open>errno\<close> is \<^verbatim>\<open>EINVAL\<close>, and \<open>st_junk\<close> is the value of the variable that \<^verbatim>\<open>parse_recv_window\<close>
  does not initialise.
\<close>

record start_env =
  st_file :: "bytes \<Rightarrow> (nat \<times> bytes option) option"
  st_group :: "bytes \<Rightarrow> int option"
  st_einval :: bool
  st_junk :: u32

definition load_banner :: "start_env \<Rightarrow> bytes \<Rightarrow> buffer option \<Rightarrow> buffer option res" where
  "load_banner e file old =
     (case st_file e file of
        None \<Rightarrow> Inr old
      | Some (sz, content) \<Rightarrow>
          if sz > MAX_BANNER_SIZE then Inr old else
          rbind (buf_new (of_nat sz)) (\<lambda>b.
          case content of
            None \<Rightarrow> Inr None
          | Some bs \<Rightarrow>
              rbind (buf_putbytes b (take sz bs) (of_nat (length (take sz bs)))) (\<lambda>b.
              rbind (buf_setpos b 0) (\<lambda>b. Inr (Some b)))))"

definition parse_recv_window :: "start_env \<Rightarrow> bytes \<Rightarrow> runopts \<Rightarrow> runopts" where
  "parse_recv_window e arg opts =
     (let ret = m_str_to_uint (st_einval e) arg; rw = (case ret of None \<Rightarrow> st_junk e | Some v \<Rightarrow> v) in
      if ret = None \<or> rw = 0 \<or> rw > MAX_RECV_WINDOW
      then if rw > MAX_RECV_WINDOW then opts\<lparr>recv_window := MAX_RECV_WINDOW\<rparr> else opts
      else opts\<lparr>recv_window := rw\<rparr>)"

definition uint_arg :: "start_env \<Rightarrow> string \<Rightarrow> bytes option \<Rightarrow> u32 option res" where
  "uint_arg e msg arg =
     (case arg of None \<Rightarrow> Inr None
      | Some a \<Rightarrow> (case m_str_to_uint (st_einval e) a of None \<Rightarrow> Inl (Dropbear_exit msg) | Some v \<Rightarrow> Inr (Some v)))"

definition print_algos :: "bytes \<Rightarrow> 'a res" where
  "print_algos algo =
     (if algo \<in> set (map cstr [''kex'', ''sig'', ''cipher'', ''mac'', ''compress'', ''help'']) then Inl (Exit 0) else Inl (Exit 1))"

definition find_restrict_group :: "start_env \<Rightarrow> bytes option \<Rightarrow> int \<Rightarrow> int res" where
  "find_restrict_group e grp old =
     (case grp of
        None \<Rightarrow> Inr old
      | Some name \<Rightarrow> (case st_group e name of
          Some gid \<Rightarrow> Inr gid
        | None \<Rightarrow> Inl (Dropbear_exit ''Cannot restrict logins to group as the group does not exist'')))"

definition set_reexec :: "start_env \<Rightarrow> getopts \<Rightarrow> getopts res" where
  "set_reexec e g =
     (case reexec_fd_arg g of
        None \<Rightarrow> Inr g
      | Some a \<Rightarrow> (case m_str_to_uint (st_einval e) a of
          None \<Rightarrow> Inl (Dropbear_exit ''Bad -2'')
        | Some v \<Rightarrow> if sint v < 0 then Inl (Dropbear_exit ''Bad -2'') else Inr (g\<lparr>reexec_childpipe := sint v\<rparr>)))"

definition check_opts :: "getopts \<Rightarrow> getopts res" where
  "check_opts g =
     (if multiauthmethod (go_svr g) \<and> noauthpass (go_svr g) then Inl (Dropbear_exit ''-t and -s are incompatible'')
      else if authorized_keys_dir g = [] then Inl (Dropbear_exit ''Bad -D'')
      else case algo_print_arg g of Some a \<Rightarrow> print_algos a | None \<Rightarrow> Inr g)"

text \<open>The values of the arguments, in the order in which errors are noticed.\<close>

definition opt_values :: "start_env \<Rightarrow> getopts \<Rightarrow> getopts res" where
  "opt_values e g =
     rbind (case bannerfile g of None \<Rightarrow> Inr (banner (go_svr g)) | Some f \<Rightarrow> load_banner e f (banner (go_svr g))) (\<lambda>bn.
     rbind (find_restrict_group e (restrict_group g) (restrict_group_gid g)) (\<lambda>gid.
     let opts = (case recv_window_arg g of None \<Rightarrow> go_opts g | Some a \<Rightarrow> parse_recv_window e a (go_opts g)); svr = go_svr g in
     rbind (uint_arg e ''Bad maxauthtries'' (maxauthtries_arg g)) (\<lambda>tries.
     rbind (uint_arg e ''Bad keepalive'' (keepalive_arg g)) (\<lambda>ka.
     rbind (uint_arg e ''Bad idle_timeout'' (idle_timeout_arg g)) (\<lambda>idle.
     rbind (uint_arg e ''Bad max_duration'' (max_duration_arg g)) (\<lambda>dur.
     let secs = (\<lambda>v old. case v of None \<Rightarrow> old | Some v \<Rightarrow> int (unat v)) in
     Inr (g\<lparr>go_listen := (if go_listen g = [] then [(DROPBEAR_DEFPORT, DROPBEAR_DEFADDRESS)] else go_listen g),
            restrict_group_gid := gid,
            go_svr := svr\<lparr>banner := bn, maxauthtries := (case tries of None \<Rightarrow> maxauthtries svr | Some v \<Rightarrow> v)\<rparr>,
            go_opts := opts\<lparr>keepalive_secs := secs ka (keepalive_secs opts), idle_timeout_secs := secs idle (idle_timeout_secs opts),
                            max_duration_secs := secs dur (max_duration_secs opts)\<rparr>\<rparr>)))))))"

definition finish_opts :: "start_env \<Rightarrow> getopts \<Rightarrow> getopts res" where
  "finish_opts e g = rbind (opt_values e g) (\<lambda>g. rbind (set_reexec e g) check_opts)"

definition svr_getopts :: "start_env \<Rightarrow> bytes \<Rightarrow> bool \<Rightarrow> bytes list \<Rightarrow> getopts res" where
  "svr_getopts e pid null argv = rbind (option_args null (drop 1 argv) (default_opts pid)) (finish_opts e)"

text \<open>A number in decimal, as \<^verbatim>\<open>snprintf\<close> writes it.\<close>

fun decimal :: "nat \<Rightarrow> bytes" where
  "decimal n = (if n < 10 then [of_nat (48 + n)] else decimal (n div 10) @ [of_nat (48 + n mod 10)])"

declare decimal.simps [simp del]

section \<open>Host keys\<close>

text \<open>
  The types of keys and signatures in this configuration. \<open>read file\<close> is what \<^verbatim>\<open>readhostkey\<close> makes of a file: the type it
  finds, \<^verbatim>\<open>DROPBEAR_SIGNKEY_ANY\<close> if the file cannot be read, and the key unless it is malformed.
\<close>

abbreviation (input) "SIGNKEY_RSA \<equiv> 0 :: int"
abbreviation (input) "SIG_ECDSA_NISTP256 \<equiv> 1 :: int"
abbreviation (input) "SIG_ECDSA_NISTP384 \<equiv> 2 :: int"
abbreviation (input) "SIG_ECDSA_NISTP521 \<equiv> 3 :: int"
abbreviation (input) "SIG_SK_ECDSA_NISTP256 \<equiv> 4 :: int"
abbreviation (input) "SIG_ED25519 \<equiv> 5 :: int"
abbreviation (input) "SIG_SK_ED25519 \<equiv> 6 :: int"
abbreviation (input) "SIG_RSA_SHA256 \<equiv> 101 :: int"

record 'k sign_key =
  rsakey :: "'k option"
  ecckey256 :: "'k option"
  ecckey384 :: "'k option"
  ecckey521 :: "'k option"
  ed25519key :: "'k option"

definition new_sign_key :: "'k sign_key" where
  "new_sign_key = \<lparr>rsakey = None, ecckey256 = None, ecckey384 = None, ecckey521 = None, ed25519key = None\<rparr>"

definition sigalgs_table :: "unit algo_type list" where
  "sigalgs_table = map (\<lambda>(n, v). \<lparr>a_name = cstr n, a_val = v, a_data = None, a_usable = True, a_mode = None\<rparr>)
     [(''ssh-ed25519'', SIG_ED25519), (''sk-ssh-ed25519@openssh.com'', SIG_SK_ED25519),
      (''ecdsa-sha2-nistp256'', SIG_ECDSA_NISTP256), (''ecdsa-sha2-nistp384'', SIG_ECDSA_NISTP384),
      (''ecdsa-sha2-nistp521'', SIG_ECDSA_NISTP521), (''sk-ecdsa-sha2-nistp256@openssh.com'', SIG_SK_ECDSA_NISTP256),
      (''rsa-sha2-256'', SIG_RSA_SHA256)]"

fun disablekey :: "int \<Rightarrow> unit algo_type list \<Rightarrow> unit algo_type list" where
  "disablekey type [] = []"
| "disablekey type (a # as) = (if a_val a = type then a\<lparr>a_usable := False\<rparr> # as else a # disablekey type as)"

definition loadhostkey_helper :: "string \<Rightarrow> 'k option \<Rightarrow> 'k option \<Rightarrow> bool \<Rightarrow> 'k option res" where
  "loadhostkey_helper name src dst fatal_duplicate =
     (if dst \<noteq> None then if fatal_duplicate then Inl (Dropbear_exit (''Only one '' @ name @ '' key can be specified'')) else Inr dst
      else Inr src)"

definition loadhostkey :: "(bytes \<Rightarrow> int \<times> 'k option) \<Rightarrow> bool \<Rightarrow> bytes \<Rightarrow> 'k sign_key \<Rightarrow> 'k sign_key res" where
  "loadhostkey read fatal_duplicate keyfile hk =
     (let (type, key) = read keyfile in
      if type = SIGNKEY_RSA then rbind (loadhostkey_helper ''RSA'' key (rsakey hk) fatal_duplicate) (\<lambda>k. Inr (hk\<lparr>rsakey := k\<rparr>))
      else if type = SIG_ECDSA_NISTP256 then rbind (loadhostkey_helper ''ECDSA256'' key (ecckey256 hk) fatal_duplicate) (\<lambda>k. Inr (hk\<lparr>ecckey256 := k\<rparr>))
      else if type = SIG_ECDSA_NISTP384 then rbind (loadhostkey_helper ''ECDSA384'' key (ecckey384 hk) fatal_duplicate) (\<lambda>k. Inr (hk\<lparr>ecckey384 := k\<rparr>))
      else if type = SIG_ECDSA_NISTP521 then rbind (loadhostkey_helper ''ECDSA521'' key (ecckey521 hk) fatal_duplicate) (\<lambda>k. Inr (hk\<lparr>ecckey521 := k\<rparr>))
      else if type = SIG_ED25519 then rbind (loadhostkey_helper ''ed25519'' key (ed25519key hk) fatal_duplicate) (\<lambda>k. Inr (hk\<lparr>ed25519key := k\<rparr>))
      else Inr hk)"

fun loadhostkeys :: "(bytes \<Rightarrow> int \<times> 'k option) \<Rightarrow> bool \<Rightarrow> bytes list \<Rightarrow> 'k sign_key \<Rightarrow> 'k sign_key res" where
  "loadhostkeys read fatal_duplicate [] hk = Inr hk"
| "loadhostkeys read fatal_duplicate (f # fs) hk = rbind (loadhostkey read fatal_duplicate f hk) (loadhostkeys read fatal_duplicate fs)"

definition disable_if :: "bool \<Rightarrow> int \<Rightarrow> unit algo_type list \<Rightarrow> unit algo_type list" where
  "disable_if c type T = (if c then disablekey type T else T)"

text \<open>The second half of \<^verbatim>\<open>load_all_hostkeys\<close>: the algorithms without a key are disabled.\<close>

definition disable_missing :: "bool \<Rightarrow> 'k sign_key \<Rightarrow> unit algo_type list \<Rightarrow> unit algo_type list" where
  "disable_missing delay hk T =
     (let loaded_any_ecdsa = (ecckey256 hk \<noteq> None \<or> ecckey384 hk \<noteq> None \<or> ecckey521 hk \<noteq> None);
          T = disable_if (\<not> delay \<and> rsakey hk = None) SIG_RSA_SHA256 T;
          T = disable_if (ecckey256 hk = None \<and> (\<not> delay \<or> loaded_any_ecdsa)) SIG_ECDSA_NISTP256 T;
          T = disable_if (ecckey384 hk = None) SIG_ECDSA_NISTP384 T;
          T = disable_if (ecckey521 hk = None) SIG_ECDSA_NISTP521 T;
          T = disable_if (\<not> delay \<and> ed25519key hk = None) SIG_ED25519 T
      in disablekey SIG_SK_ED25519 (disablekey SIG_SK_ECDSA_NISTP256 T))"

definition any_keys :: "bool \<Rightarrow> 'k sign_key \<Rightarrow> bool" where
  "any_keys delay hk \<longleftrightarrow> delay \<or> rsakey hk \<noteq> None \<or> ecckey256 hk \<noteq> None \<or> ecckey384 hk \<noteq> None \<or> ecckey521 hk \<noteq> None \<or> ed25519key hk \<noteq> None"

definition load_all_hostkeys ::
    "(bytes \<Rightarrow> int \<times> 'k option) \<Rightarrow> bytes list \<Rightarrow> getopts \<Rightarrow> unit algo_type list \<Rightarrow> ('k sign_key \<times> unit algo_type list) res" where
  "load_all_hostkeys read default_files g T =
     rbind (loadhostkeys read True (hostkey_files g) new_sign_key) (\<lambda>hk.
     rbind (if hostkey_files g = [] then loadhostkeys read False default_files hk else Inr hk) (\<lambda>hk.
     if any_keys (delay_hostkey g) hk then Inr (hk, disable_missing (delay_hostkey g) hk T)
     else Inl (Dropbear_exit ''No hostkeys available.'')))"

end
