(* ===== verification/Svr_Main.thy ===== *)
theory Svr_Main
  imports Svr_Runopts
begin

text \<open>
  The process that listens (\<^verbatim>\<open>svr-main.c\<close>): the sockets it listens on, the loop that accepts connections and starts a
  process for each, and the limits on clients that are not logged in. For every such client the parent keeps the reading
  end of a pipe; it becomes readable when the child logs the client in (\<^verbatim>\<open>send_msg_userauth_success\<close> closes the
  writing end) or ends. Descriptors are explicit: \<open>ma_fds\<close> are those that are open in the process, and \<open>alloc\<close> is the
  number the system gives to a new one. \<^verbatim>\<open>close\<close> does not fail; logging and the seeding of random numbers are left out.
\<close>

section \<open>The state\<close>

abbreviation (input) "MAX_UNAUTH_CLIENTS \<equiv> 30 :: nat"
abbreviation (input) "MAX_UNAUTH_PER_IP \<equiv> 5 :: nat"
abbreviation (input) "FD_SETSIZE \<equiv> 1024 :: int"

record listen_state =
  ma_childpipes :: "int list"
  ma_preauth_addrs :: "bytes option list"
  ma_fds :: "int list"
  ma_maxsock :: int

text \<open>
  The ways the loop is left: the parent goes on, a child has replaced itself with arguments, or a child serves the
  connection on a socket with its end of the pipe.
\<close>

datatype listen_outcome =
    Parent listen_state
  | Child_exec "bytes list" "int list"
  | Child_session int int "int list"

text \<open>Results of the system calls for one listening socket: \<open>ac_fork\<close> is what \<^verbatim>\<open>fork\<close> returns in the process.\<close>

record accept_input =
  ac_ok :: bool
  ac_host :: bytes
  ac_pipe :: bool
  ac_fork :: int
  ac_setsid :: bool
  ac_dup2 :: bool
  ac_cloexec :: bool
  ac_fexecve :: bool

datatype select_result = Sel_ready "int list" | Sel_none | Sel_eintr | Sel_error

record listen_input =
  li_select :: select_result
  li_exitflag :: bool
  li_accepts :: "accept_input list"

text \<open>What does not change after the start: the sockets, and the arguments for the execution of a child.\<close>

record listen_env =
  le_listensocks :: "int list"
  le_execfd :: int
  le_multipath :: "bytes option"
  le_argv :: "bytes list"

section \<open>Descriptors\<close>

definition close_fd :: "int \<Rightarrow> int list \<Rightarrow> int list" where
  "close_fd fd fds = (if fd < 0 then fds else removeAll fd fds)"

definition fd_set_ok :: "int \<Rightarrow> unit res" where
  "fd_set_ok fd = (if 0 \<le> fd \<and> fd < FD_SETSIZE then Inr () else Inl Fault)"

fun fd_set_all :: "int list \<Rightarrow> unit res" where
  "fd_set_all [] = Inr ()"
| "fd_set_all (fd # fds) = rbind (fd_set_ok fd) (\<lambda>_. fd_set_all fds)"

definition live :: "listen_state \<Rightarrow> int list" where
  "live st = filter (\<lambda>p. p \<ge> 0) (ma_childpipes st)"

section \<open>Accepting\<close>

text \<open>
  The loop that counts the clients, overall and from the same address, and finds a free slot: \<open>slots\<close> are the
  pipes and addresses from index \<open>j\<close> on. \<^verbatim>\<open>strcmp\<close> on a missing address is a fault.
\<close>

fun count_unauthed :: "bytes \<Rightarrow> (int \<times> bytes option) list \<Rightarrow> nat \<Rightarrow> nat \<Rightarrow> nat \<Rightarrow> nat \<Rightarrow> (nat \<times> nat \<times> nat) res" where
  "count_unauthed host [] j for_addr num_total conn_idx = Inr (for_addr, num_total, conn_idx)"
| "count_unauthed host ((p, addr) # slots) j for_addr num_total conn_idx =
     (if p \<ge> 0 then
        case addr of
          None \<Rightarrow> Inl Fault
        | Some a \<Rightarrow> count_unauthed host slots (j + 1) (if host = a then for_addr + 1 else for_addr) (num_total + 1) conn_idx
      else count_unauthed host slots (j + 1) for_addr num_total j)"

definition reexec_argv :: "listen_env \<Rightarrow> int \<Rightarrow> bytes list" where
  "reexec_argv le pipe1 =
     (case le_multipath le of None \<Rightarrow> [] | Some m \<Rightarrow> [m]) @ le_argv le @ [cstr ''-2'', take 9 (decimal (nat pipe1))]"

text \<open>
  The part of the child: it leaves the parent's session, closes what it does not need and executes the program again
  (descriptors with \<^verbatim>\<open>FD_CLOEXEC\<close> are closed then) or, if that is not possible, serves the connection itself.
\<close>

definition accept_child :: "listen_env \<Rightarrow> accept_input \<Rightarrow> int \<Rightarrow> int \<Rightarrow> int \<Rightarrow> int list \<Rightarrow> listen_outcome res" where
  "accept_child le a childsock pipe0 pipe1 fds =
     (if \<not> ac_setsid a then Inl (Dropbear_exit ''setsid'') else
      let fds = close_fd pipe0 (fold close_fd (le_listensocks le) fds) in
      if le_execfd le \<ge> 0 then
        if \<not> ac_dup2 a then Inl (Dropbear_exit ''dup2 failed'')
        else let fds = (if 0 \<in> set fds then fds else 0 # fds) in
             if ac_fexecve a then Inr (Child_exec (reexec_argv le pipe1) (close_fd (le_execfd le) (if ac_cloexec a then close_fd childsock fds else fds)))
             else Inr (Child_session childsock pipe1 (close_fd 0 fds))
      else Inr (Child_session childsock pipe1 fds))"

definition accept_one :: "(int list \<Rightarrow> int) \<Rightarrow> listen_env \<Rightarrow> accept_input \<Rightarrow> listen_state \<Rightarrow> listen_outcome res" where
  "accept_one alloc le a st =
     (if \<not> ac_ok a then Inr (Parent st) else
      let childsock = alloc (ma_fds st); fds = childsock # ma_fds st;
          out = (\<lambda>st. Inr (Parent (st\<lparr>ma_fds := close_fd childsock (ma_fds st)\<rparr>)));
          st = st\<lparr>ma_fds := fds\<rparr> in
      rbind (count_unauthed (ac_host a) (zip (ma_childpipes st) (ma_preauth_addrs st)) 0 0 0 0) (\<lambda>(for_addr, num_total, conn_idx).
      if num_total \<ge> MAX_UNAUTH_CLIENTS \<or> for_addr \<ge> MAX_UNAUTH_PER_IP then out st
      else if \<not> ac_pipe a then out st
      else
        let pipe0 = alloc fds; pipe1 = alloc (pipe0 # fds); st = st\<lparr>ma_fds := pipe1 # pipe0 # fds\<rparr> in
        if ac_fork a < 0 then out st
        else if ac_fork a > 0 then
          out (st\<lparr>ma_childpipes := (ma_childpipes st)[conn_idx := pipe0],
                  ma_fds := close_fd pipe1 (ma_fds st),
                  ma_preauth_addrs := (ma_preauth_addrs st)[conn_idx := Some (ac_host a)]\<rparr>)
        else accept_child le a childsock pipe0 pipe1 (ma_fds st)))"

fun accept_sockets :: "(int list \<Rightarrow> int) \<Rightarrow> listen_env \<Rightarrow> int list \<Rightarrow> (int \<times> accept_input) list \<Rightarrow> listen_state \<Rightarrow> listen_outcome res" where
  "accept_sockets alloc le ready [] st = Inr (Parent st)"
| "accept_sockets alloc le ready ((sock, a) # socks) st =
     (if sock \<notin> set ready then accept_sockets alloc le ready socks st
      else rbind (accept_one alloc le a st) (\<lambda>r.
        case r of Parent st \<Rightarrow> accept_sockets alloc le ready socks st | _ \<Rightarrow> Inr r))"

section \<open>The loop\<close>

definition close_pipe :: "int list \<Rightarrow> nat \<Rightarrow> listen_state \<Rightarrow> listen_state" where
  "close_pipe ready i st =
     (let p = ma_childpipes st ! i in
      if p \<ge> 0 \<and> p \<in> set ready
      then st\<lparr>ma_childpipes := (ma_childpipes st)[i := -1], ma_fds := close_fd p (ma_fds st),
              ma_preauth_addrs := (ma_preauth_addrs st)[i := None]\<rparr>
      else st)"

definition close_pipes :: "int list \<Rightarrow> listen_state \<Rightarrow> listen_state" where
  "close_pipes ready st = fold (close_pipe ready) [0..<MAX_UNAUTH_CLIENTS] st"

definition listen_iteration :: "(int list \<Rightarrow> int) \<Rightarrow> listen_env \<Rightarrow> listen_input \<Rightarrow> listen_state \<Rightarrow> listen_outcome res" where
  "listen_iteration alloc le inp st =
     rbind (fd_set_all (le_listensocks le @ live st)) (\<lambda>_.
     let st = st\<lparr>ma_maxsock := fold max (live st) (ma_maxsock st)\<rparr> in
     if li_exitflag inp then Inl (Dropbear_close ''Terminated by signal'') else
     case li_select inp of
       Sel_none \<Rightarrow> Inr (Parent st)
     | Sel_eintr \<Rightarrow> Inr (Parent st)
     | Sel_error \<Rightarrow> Inl (Dropbear_exit ''Listening socket error'')
     | Sel_ready fds \<Rightarrow>
         let ready = filter (\<lambda>fd. fd \<in> set (le_listensocks le @ live st) \<and> fd < ma_maxsock st + 1) fds in
         accept_sockets alloc le ready (zip (le_listensocks le) (li_accepts inp)) (close_pipes ready st))"

section \<open>The start\<close>

text \<open>\<open>socks\<close> are the sockets \<^verbatim>\<open>dropbear_listen\<close> opens for each address and port, \<open>None\<close> if it fails.\<close>

definition listensockets :: "int list option list \<Rightarrow> int list" where
  "listensockets socks = concat (map (\<lambda>r. case r of None \<Rightarrow> [] | Some ss \<Rightarrow> ss) socks)"

definition main_noinetd :: "getopts \<Rightarrow> bool \<Rightarrow> int list option list \<Rightarrow> int list \<Rightarrow> int \<Rightarrow> bytes option \<Rightarrow> bytes list \<Rightarrow> (listen_env \<times> listen_state) res" where
  "main_noinetd g daemon_ok socks fds execfd multipath argv =
     (let listensocks = listensockets socks in
      if listensocks = [] then Inl (Dropbear_exit ''No listening ports available.'')
      else if forkbg g \<and> \<not> daemon_ok then Inl (Dropbear_exit ''Failed to daemonize'')
      else Inr (\<lparr>le_listensocks = listensocks, le_execfd = execfd, le_multipath = multipath, le_argv = argv\<rparr>,
                \<lparr>ma_childpipes = replicate MAX_UNAUTH_CLIENTS (-1), ma_preauth_addrs = replicate MAX_UNAUTH_CLIENTS None, ma_fds = fds, ma_maxsock = fold max listensocks (-1)\<rparr>))"

text \<open>
  \<^verbatim>\<open>main\<close>: a process that was started with the descriptor of a pipe serves the connection on descriptor 0
  (\<^verbatim>\<open>main_inetd\<close>), any other one listens.
\<close>

datatype start = Serve int int getopts | Listen getopts

definition dropbear_main :: "start_env \<Rightarrow> bytes \<Rightarrow> bool \<Rightarrow> bytes list \<Rightarrow> start res" where
  "dropbear_main e pid null argv =
     (if argv = [] then Inl (Dropbear_exit ''Bad argc'') else
      rbind (svr_getopts e pid null argv) (\<lambda>g.
      if reexec_childpipe g \<ge> 0 then Inr (Serve 0 (reexec_childpipe g) g) else Inr (Listen g)))"

end
