(* ===== verification/Svr_Runopts_Props.thy ===== *)
theory Svr_Runopts_Props
  imports Svr_Runopts
begin

text \<open>
  What the command line and the host keys can be (\<^verbatim>\<open>svr-runopts.c\<close>): the parser faults on no usual command line and
  its result is in bounds, the words that the server appends when it executes itself change nothing but the descriptor
  of the pipe, and the algorithms that are offered are those of the keys.
\<close>

section \<open>The loop over the arguments\<close>

lemma next_value_append: "next_value null rest args = Inr (v, args') \<Longrightarrow> next_value null rest (args @ extra) = Inr (v, args' @ extra)"
  by (auto simp: next_value_def split: if_splits list.splits)

lemma option_args_append:
  "option_args null args g = Inr g' \<Longrightarrow> option_args null (args @ extra) g = option_args null extra g'"
proof (induction null args g arbitrary: g' rule: option_args.induct)
  case (2 null arg args g)
  then obtain h t where w: "\<not> (take 1 arg \<noteq> cstr ''-'' \<or> length arg = 1)" and h: "option_letters (drop 1 arg) g = Inr (h, t)"
    by (auto simp: res_elims split: if_splits)
  show ?case
  proof (cases t)
    case None
    then show ?thesis using "2.prems" "2.IH"(1) [OF w h refl None] w h by simp
  next
    case (Some tr)
    obtain tt rest where tr: "tr = (tt, rest)" by fastforce
    obtain v args' k where k: "next_value null rest args = Inr (v, args')" "set_target tt v h = Inr k" "option_args null args' k = Inr g'"
      using "2.prems" w h Some tr by (auto simp: res_elims)
    show ?thesis
      using "2.IH"(2) [OF w h refl Some tr [symmetric] k(1) refl k(2,3)] w h Some tr k(2) next_value_append [OF k(1)] by simp
  qed
qed simp

lemma option_args_null: "option_args null args g = Inr g' \<Longrightarrow> option_args True args g = Inr g'"
proof (induction null args g arbitrary: g' rule: option_args.induct)
  case (2 null arg args g)
  have next_null: "next_value null r as = Inr x \<Longrightarrow> next_value True r as = Inr x" for r as x
    by (auto simp: next_value_def split: if_splits list.splits)
  obtain h t where w: "\<not> (take 1 arg \<noteq> cstr ''-'' \<or> length arg = 1)" and h: "option_letters (drop 1 arg) g = Inr (h, t)"
    using "2.prems" by (auto simp: res_elims split: if_splits)
  show ?case
  proof (cases t)
    case None
    then show ?thesis using "2.prems" "2.IH"(1) [OF w h refl None] w h by simp
  next
    case (Some tr)
    obtain tt rest where tr: "tr = (tt, rest)" by fastforce
    obtain v args' k where k: "next_value null rest args = Inr (v, args')" "set_target tt v h = Inr k" "option_args null args' k = Inr g'"
      using "2.prems" w h Some tr by (auto simp: res_elims)
    show ?thesis using "2.IH"(2) [OF w h refl Some tr [symmetric] k(1) refl k(2,3)] w h Some tr k(2) next_null [OF k(1)] by simp
  qed
qed simp

lemma option_args_reexec: "option_args null [cstr ''-2'', v] g = Inr (g\<lparr>reexec_fd_arg := Some v\<rparr>)"
  by (simp add: option_letter_def next_value_def)

section \<open>The arguments of a re-executed server\<close>

lemma opt_values_frame: "opt_values e (g\<lparr>reexec_fd_arg := x\<rparr>) = rbind (opt_values e g) (\<lambda>g. Inr (g\<lparr>reexec_fd_arg := x\<rparr>))"
  by (cases g) (simp add: opt_values_def Let_def rbind_assoc cong: option.case_cong)

lemma opt_values_keeps:
  "opt_values e g = Inr g' \<Longrightarrow> reexec_fd_arg g' = reexec_fd_arg g \<and> authorized_keys_dir g' = authorized_keys_dir g \<and>
     reexec_childpipe g' = reexec_childpipe g \<and> hostkey_files g' = hostkey_files g"
  by (auto simp: opt_values_def Let_def res_elims)

lemma check_opts_frame: "check_opts g = Inr g' \<Longrightarrow> g' = g \<and> check_opts (g\<lparr>reexec_fd_arg := x, reexec_childpipe := y\<rparr>) = Inr (g\<lparr>reexec_fd_arg := x, reexec_childpipe := y\<rparr>)"
  by (auto simp: check_opts_def print_algos_def split: option.splits if_splits)

lemma finish_opts_reexec:
  assumes "finish_opts e g = Inr g'" "reexec_fd_arg g = None" "m_str_to_uint (st_einval e) v = Some n" "0 \<le> sint n"
  shows "finish_opts e (g\<lparr>reexec_fd_arg := Some v\<rparr>) = Inr (g'\<lparr>reexec_fd_arg := Some v, reexec_childpipe := sint n\<rparr>)"
proof -
  obtain h where h: "opt_values e g = Inr h" "rbind (set_reexec e h) check_opts = Inr g'"
    using assms(1) by (auto simp: finish_opts_def res_elims)
  then have "check_opts h = Inr g'" using opt_values_keeps [OF h(1)] assms(2) by (simp add: set_reexec_def)
  from check_opts_frame [OF this, where x = "Some v" and y = "sint n"] show ?thesis
    using assms(3,4) h(1) by (simp add: finish_opts_def opt_values_frame set_reexec_def)
qed

lemma svr_getopts_reexec:
  assumes "svr_getopts e pid null argv = Inr g" "argv \<noteq> []" "reexec_childpipe g < 0"
    and "m_str_to_uint (st_einval e) v = Some n" "0 \<le> sint n"
  shows "svr_getopts e pid null (argv @ [cstr ''-2'', v]) = Inr (g\<lparr>reexec_fd_arg := Some v, reexec_childpipe := sint n\<rparr>)"
proof -
  obtain h where h: "option_args null (drop 1 argv) (default_opts pid) = Inr h" "finish_opts e h = Inr g"
    using assms(1) by (auto simp: svr_getopts_def res_elims)
  have "reexec_fd_arg h = None"
  proof (rule ccontr)
    assume "reexec_fd_arg h \<noteq> None"
    then obtain a where "reexec_fd_arg h = Some a" by auto
    moreover obtain k l where k: "opt_values e h = Inr k" "set_reexec e k = Inr l" "check_opts l = Inr g"
      using h(2) by (auto simp: finish_opts_def res_elims)
    ultimately have "0 \<le> reexec_childpipe l" using opt_values_keeps [OF k(1)] k(2)
      by (auto simp: set_reexec_def split: option.splits if_splits)
    then show False using check_opts_frame [OF k(3)] assms(3) by simp
  qed
  then have "finish_opts e (h\<lparr>reexec_fd_arg := Some v\<rparr>) = Inr (g\<lparr>reexec_fd_arg := Some v, reexec_childpipe := sint n\<rparr>)"
    by (rule finish_opts_reexec [OF h(2) _ assms(4,5)])
  moreover have "drop 1 (argv @ [cstr ''-2'', v]) = drop 1 argv @ [cstr ''-2'', v]" using assms(2) by (cases argv) simp_all
  ultimately show ?thesis unfolding svr_getopts_def by (simp only: option_args_append [OF h(1)] option_args_reexec rbind_simps)
qed

section \<open>Numbers\<close>

lemma digits_val_append: "digits_val acc (xs @ [d]) = 10 * digits_val acc xs + (unat d - 48)"
  by (induction xs arbitrary: acc) auto

lemma digit_byte: "n < 10 \<Longrightarrow> unat (of_nat (48 + n) :: byte) = 48 + n"
  using unat_plus_byte [of 48 "of_nat n"] by (simp add: unat_of_nat)

lemma decimal_val: "decimal n \<noteq> [] \<and> list_all is_digit (decimal n) \<and> digits_val 0 (decimal n) = n"
proof (induction n rule: decimal.induct)
  case (1 n)
  show ?case
  proof (cases "n < 10")
    case True
    then show ?thesis using digit_byte [of n] by (simp add: is_digit_def word_le_nat_alt decimal.simps)
  next
    case False
    then show ?thesis using 1 digit_byte [of "n mod 10"]
      by (simp add: decimal.simps [of n] digits_val_append is_digit_def word_le_nat_alt)
  qed
qed

lemma length_decimal: "n < 10 ^ k \<Longrightarrow> 0 < k \<Longrightarrow> length (decimal n) \<le> k"
proof (induction n arbitrary: k rule: decimal.induct)
  case (1 n)
  show ?case
  proof (cases "n < 10")
    case False
    then obtain k' where k: "k = Suc k'" "0 < k'" using "1.prems" by (cases k; cases "k - 1") auto
    then have "n div 10 < 10 ^ k'" using "1.prems"(1) by (simp add: less_mult_imp_div_less mult.commute)
    then show ?thesis using "1.IH" [OF False _ k(2)] False k(1) by (simp add: decimal.simps [of n])
  qed (use "1.prems" in \<open>simp add: Suc_leI decimal.simps [of n]\<close>)
qed

lemma decimal_uint: "n < 4294967296 \<Longrightarrow> (n = 0 \<longrightarrow> \<not> einval) \<Longrightarrow> m_str_to_uint einval (decimal n) = Some (of_nat n)"
  using decimal_val [of n] by (intro port_value) (auto simp: is_port_def u32_simps unat_eq_0 simp flip: unat_eq_0)

section \<open>What the options can be\<close>

definition ports_ok :: "(bytes \<times> bytes) list \<Rightarrow> bool" where
  "ports_ok ps \<longleftrightarrow> length ps \<le> DROPBEAR_MAX_PORTS \<and> (\<forall>(p, a) \<in> set ps. p \<noteq> [])"

definition args_ok :: "getopts \<Rightarrow> bool" where
  "args_ok g \<longleftrightarrow> recv_window (go_opts g) = DEFAULT_RECV_WINDOW \<and> keepalive_secs (go_opts g) = 0 \<and> idle_timeout_secs (go_opts g) = 0 \<and>
     max_duration_secs (go_opts g) = 0 \<and> banner (go_svr g) = None \<and> ports_ok (go_listen g) \<and> length (hostkey_files g) \<le> MAX_HOSTKEYS"

definition opts_ok :: "getopts \<Rightarrow> bool" where
  "opts_ok g \<longleftrightarrow> 0 < recv_window (go_opts g) \<and> recv_window (go_opts g) \<le> MAX_RECV_WINDOW \<and> 0 \<le> keepalive_secs (go_opts g) \<and>
     0 \<le> idle_timeout_secs (go_opts g) \<and> 0 \<le> max_duration_secs (go_opts g) \<and> list_all buf_wf (case_option [] (\<lambda>b. [b]) (banner (go_svr g))) \<and>
     go_listen g \<noteq> [] \<and> ports_ok (go_listen g) \<and> length (hostkey_files g) \<le> MAX_HOSTKEYS \<and> authorized_keys_dir g \<noteq> []"

lemma split_address_nothing: "split_address_port spec = Some (None, None) \<Longrightarrow> spec = [] \<or> spec = cstr ''[]''"
proof -
  assume *: "split_address_port spec = Some (None, None)"
  show ?thesis
  proof (cases spec)
    case (Cons c cs)
    show ?thesis
    proof (cases cs)
      case Nil
      then show ?thesis using * Cons by (auto simp: split_address_port_def Let_def split: if_splits)
    next
      case (Cons d ds)
      then show ?thesis using * \<open>spec = c # cs\<close>
        by (auto simp: split_address_port_def Let_def split: if_splits)
    qed
  qed simp
qed

lemma addport_ok: "args_ok g \<Longrightarrow> spec \<noteq> [] \<Longrightarrow> spec \<noteq> cstr ''[]'' \<Longrightarrow> res_ok args_ok (addportandaddress spec g)"
  using split_address_nothing [of spec]
  by (auto simp: addportandaddress_def Let_def args_ok_def ports_ok_def split: option.split)

lemma set_target_ok: "args_ok g \<Longrightarrow> spec \<noteq> [] \<Longrightarrow> spec \<noteq> cstr ''[]'' \<Longrightarrow> res_ok args_ok (set_target t spec g)"
  using addport_ok [of g spec] by (cases t) (simp_all add: args_ok_def addhostkey_def)

lemma option_letter_ok: "args_ok g \<Longrightarrow> res_ok (\<lambda>(g', t). args_ok g') (option_letter c g)"
  unfolding option_letter_def Let_def by (simp add: args_ok_def)

lemma option_letters_ok:
  "args_ok g \<Longrightarrow> res_ok (\<lambda>(g', r). args_ok g' \<and> (\<forall>t rest. r = Some (t, rest) \<longrightarrow> (\<exists>p. cs = p @ rest))) (option_letters cs g)"
proof (induction cs arbitrary: g)
  case (Cons c cs)
  show ?case
    unfolding option_letters.simps
  proof (rule res_ok_rbind [OF option_letter_ok [OF Cons.prems]], safe)
    fix g' t assume g': "args_ok g'"
    have "\<exists>p. c # cs = p @ cs" by (rule exI [of _ "[c]"]) simp
    moreover have "\<exists>p. cs = p @ rest \<Longrightarrow> \<exists>p. c # cs = p @ rest" for rest by (metis append_Cons)
    ultimately show "res_ok (\<lambda>(g', r). args_ok g' \<and> (\<forall>t rest. r = Some (t, rest) \<longrightarrow> (\<exists>p. c # cs = p @ rest)))
      (case t of None \<Rightarrow> option_letters cs g' | Some t \<Rightarrow> Inr (g', Some (t, cs)))"
      using g' by (cases t) (auto intro!: res_ok_mono [OF Cons.IH [OF g']])
  qed
qed simp

definition plain_arg :: "bytes \<Rightarrow> bool" where
  "plain_arg a \<longleftrightarrow> a \<noteq> [] \<and> take 2 (rev a) \<noteq> rev (cstr ''[]'')"

lemma plain_arg_suffix: "plain_arg (p @ rest) \<Longrightarrow> rest \<noteq> cstr ''[]''"
  by (auto simp: plain_arg_def)

lemma next_value_ok:
  assumes "list_all plain_arg args" "plain_arg (p @ rest)"
  shows "res_ok (\<lambda>(v, args'). v \<noteq> [] \<and> v \<noteq> cstr ''[]'' \<and> list_all plain_arg args') (next_value True rest args)"
proof (cases "rest = []")
  case True
  then show ?thesis using assms(1) plain_arg_suffix [of "[]"] by (cases args) (auto simp: next_value_def plain_arg_def)
next
  case False
  then show ?thesis using assms plain_arg_suffix by (auto simp: next_value_def)
qed

lemma option_args_ok:
  "list_all plain_arg args \<Longrightarrow> args_ok g \<Longrightarrow> res_ok args_ok (option_args True args g)"
proof (induction "True" args g rule: option_args.induct)
  case (2 arg args g)
  show ?case
  proof (cases "take 1 arg \<noteq> cstr ''-'' \<or> length arg = 1")
    case False
    note letters = option_letters_ok [OF "2.prems"(2), of "drop 1 arg"]
    show ?thesis
      unfolding option_args.simps if_not_P [OF False]
    proof (rule res_ok_rbind_eq [OF _ res_ok_safe [OF letters]], clarsimp)
      fix h t assume l: "option_letters (drop (Suc 0) arg) g = Inr (h, t)"
      have h: "args_ok h" "\<And>tt rest. t = Some (tt, rest) \<Longrightarrow> \<exists>p. drop 1 arg = p @ rest"
        using res_okD [OF letters] l by auto
      show "res_ok args_ok (case t of None \<Rightarrow> option_args True args h
        | Some (t, rest) \<Rightarrow> rbind (next_value True rest args) (\<lambda>(v, args). rbind (set_target t v h) (option_args True args)))"
      proof (cases t)
        case None
        then show ?thesis using "2.hyps"(1) [OF False _ refl None] l "2.prems" h by simp
      next
        case (Some tr)
        obtain tt rest where tr: "tr = (tt, rest)" by fastforce
        obtain p where "drop 1 arg = p @ rest" using h(2) Some tr by blast
        then have "plain_arg ((take 1 arg @ p) @ rest)" using "2.prems"(1) append_take_drop_id [of 1 arg] by simp
        note nv = next_value_ok [OF _ this, of args]
        have "res_ok args_ok (rbind (set_target tt v h) (option_args True args'))" if v: "next_value True rest args = Inr (v, args')" for v args'
        proof -
          have p: "v \<noteq> []" "v \<noteq> cstr ''[]''" "list_all plain_arg args'" using res_okD [OF nv v] "2.prems"(1) by auto
          note st = set_target_ok [OF h(1) p(1,2)]
          show ?thesis
            by (rule res_ok_rbind_eq [OF _ res_ok_safe [OF st]])
              (rule "2.hyps"(2) [OF False _ refl Some tr [symmetric] v refl _ p(3) res_okD [OF st]], use l in simp_all)
        qed
        then have "res_ok args_ok (rbind (next_value True rest args) (\<lambda>(v, args). rbind (set_target tt v h) (option_args True args)))"
          using "2.prems"(1) by (intro res_ok_rbind_eq [OF _ res_ok_safe [OF nv]]) auto
        then show ?thesis by (simp add: Some tr)
      qed
    qed
  qed auto
qed simp

lemma load_banner_ok:
  "list_all buf_wf (case_option [] (\<lambda>b. [b]) old) \<Longrightarrow> res_ok (\<lambda>bn. list_all buf_wf (case_option [] (\<lambda>b. [b]) bn)) (load_banner e f old)"
  unfolding load_banner_def
  by (auto split: option.split intro!: res_ok_rbind [OF buf_new_ok] res_ok_rbind [OF buf_putbytes_ok] res_ok_rbind [OF buf_setpos_ok]
        simp: u32_simps)

lemma recv_window_ok:
  "0 < recv_window o1 \<and> recv_window o1 \<le> MAX_RECV_WINDOW \<Longrightarrow>
     0 < recv_window (parse_recv_window e a o1) \<and> recv_window (parse_recv_window e a o1) \<le> MAX_RECV_WINDOW \<and>
     keepalive_secs (parse_recv_window e a o1) = keepalive_secs o1 \<and> idle_timeout_secs (parse_recv_window e a o1) = idle_timeout_secs o1 \<and>
     max_duration_secs (parse_recv_window e a o1) = max_duration_secs o1"
  by (auto simp: parse_recv_window_def Let_def word_neq_0_conv not_less split: option.split)

lemma safe_values: "safe (uint_arg e msg arg)" "safe (find_restrict_group e grp gid)" "safe (set_reexec e g)"
  by (auto simp: uint_arg_def find_restrict_group_def set_reexec_def split: option.split)

lemma opt_values_ok:
  assumes "args_ok g"
  shows "res_ok (\<lambda>g'. authorized_keys_dir g' \<noteq> [] \<longrightarrow> opts_ok g') (opt_values e g)"
proof -
  let ?w = "case recv_window_arg g of None \<Rightarrow> go_opts g | Some a \<Rightarrow> parse_recv_window e a (go_opts g)"
  have w: "0 < recv_window ?w \<and> recv_window ?w \<le> MAX_RECV_WINDOW \<and> keepalive_secs ?w = 0 \<and> idle_timeout_secs ?w = 0 \<and> max_duration_secs ?w = 0"
    using assms recv_window_ok [of "go_opts g" e] by (auto simp: args_ok_def split: option.split)
  have bn: "res_ok (\<lambda>bn. list_all buf_wf (case_option [] (\<lambda>b. [b]) bn))
      (case bannerfile g of None \<Rightarrow> Inr (banner (go_svr g)) | Some f \<Rightarrow> load_banner e f (banner (go_svr g)))"
    using assms load_banner_ok by (auto simp: args_ok_def split: option.split)
  have ports: "ports_ok (if go_listen g = [] then [(DROPBEAR_DEFPORT, DROPBEAR_DEFADDRESS)] else go_listen g)"
    using assms by (simp add: args_ok_def ports_ok_def)
  show ?thesis
    unfolding opt_values_def Let_def
    by (rule res_ok_rbind [OF bn], (rule res_ok_rbind_eq [OF _ safe_values(2)] res_ok_rbind_eq [OF _ safe_values(1)])+)
      (use w ports assms in \<open>auto simp: opts_ok_def args_ok_def split: option.split\<close>)
qed

lemma opts_ok_reexec: "set_reexec e g = Inr g' \<Longrightarrow> opts_ok g' = opts_ok g \<and> authorized_keys_dir g' = authorized_keys_dir g"
  by (auto simp: set_reexec_def opts_ok_def split: option.splits if_splits)

lemma finish_opts_ok: "args_ok g \<Longrightarrow> res_ok opts_ok (finish_opts e g)"
  unfolding finish_opts_def
proof (rule res_ok_rbind [OF opt_values_ok], assumption)
  fix h assume h: "authorized_keys_dir h \<noteq> [] \<longrightarrow> opts_ok h"
  show "res_ok opts_ok (rbind (set_reexec e h) check_opts)"
    by (rule res_ok_rbind_eq [OF _ safe_values(3)])
      (use h opts_ok_reexec in \<open>auto simp: check_opts_def print_algos_def split: option.split\<close>)
qed

text \<open>
  No command line without an empty word and without a word that ends in \<^verbatim>\<open>[]\<close> makes the parser of options fault, if the
  array of words ends in a null pointer; and the options it returns are in bounds: the receive window is positive and
  at most ten megabytes, there are one to ten ports, none of them empty, at most four files with host keys, a
  directory for authorized keys, no negative time limit, and the banner is a well-formed buffer.
\<close>

theorem options_in_bounds:
  assumes "list_all plain_arg (drop 1 argv)"
  shows "res_ok opts_ok (svr_getopts e pid True argv)"
proof -
  have "args_ok (default_opts pid)" by (simp add: default_opts_def args_ok_def ports_ok_def)
  then show ?thesis
    unfolding svr_getopts_def by (intro res_ok_rbind [OF option_args_ok [OF assms]] finish_opts_ok)
qed

definition example_start_env :: start_env where
  "example_start_env = \<lparr>st_file = (\<lambda>_. None), st_group = (\<lambda>_. None), st_einval = False, st_junk = 0\<rparr>"

definition example_argv :: "bytes list" where
  "example_argv = map cstr [''sshd'', ''-eRF'', ''-p'', ''2022'', ''-W99999999'', ''-I'', ''60'']"

lemma example_numbers:
  "m_str_to_uint False (cstr ''99999999'') = Some 99999999" "m_str_to_uint False (cstr ''60'') = Some 60"
  by (rule port_value; simp add: is_port_def is_digit_def)+

lemma example_argv_options:
  "svr_getopts example_start_env [] null example_argv =
     Inr ((default_opts [])\<lparr>forkbg := False, delay_hostkey := True, go_listen := [(cstr ''2022'', [])], recv_window_arg := Some (cstr ''99999999''),
       idle_timeout_arg := Some (cstr ''60''), go_svr := (go_svr (default_opts []))\<lparr>pass_on_env := True\<rparr>,
       go_opts := (go_opts (default_opts []))\<lparr>recv_window := MAX_RECV_WINDOW, idle_timeout_secs := 60\<rparr>\<rparr>)"
  using example_numbers
  by (simp add: svr_getopts_def example_argv_def option_letter_def next_value_def addportandaddress_def split_address_port_def Let_def
      default_opts_def finish_opts_def opt_values_def example_start_env_def uint_arg_def find_restrict_group_def parse_recv_window_def
      set_reexec_def check_opts_def)

theorem options_in_bounds_witness:
  "\<exists>g. svr_getopts example_start_env [] True example_argv = Inr g \<and>
     recv_window (go_opts g) = MAX_RECV_WINDOW \<and> idle_timeout_secs (go_opts g) = 60 \<and> go_listen g = [(cstr ''2022'', [])] \<and> opts_ok g"
proof -
  have "list_all plain_arg (drop 1 example_argv)" by (simp add: example_argv_def plain_arg_def)
  from res_okD [OF options_in_bounds [OF this] example_argv_options] show ?thesis
    by (intro exI conjI) (rule example_argv_options, simp_all)
qed

text \<open>
  The two kinds of words that fault: an empty one as a port, since \<^verbatim>\<open>split_address_port\<close> then returns neither an
  address nor a port, and a last option without its argument when the array has no null pointer behind it.
\<close>

lemma empty_port_faults: "svr_getopts e pid null [prog, cstr ''-p'', []] = Inl Fault"
  by (simp add: svr_getopts_def option_letter_def next_value_def addportandaddress_def split_address_port_def default_opts_def)

lemma missing_argument_faults: "svr_getopts e pid False [prog, cstr ''-p''] = Inl Fault"
  by (simp add: svr_getopts_def option_letter_def next_value_def)

section \<open>The host keys that are offered\<close>

text \<open>The algorithms that a set of keys allows, in the order of the table.\<close>

definition offered :: "bool \<Rightarrow> 'k sign_key \<Rightarrow> int list" where
  "offered delay hk =
     (let no_ecdsa = (ecckey256 hk = None \<and> ecckey384 hk = None \<and> ecckey521 hk = None) in
      (if delay \<or> ed25519key hk \<noteq> None then [SIG_ED25519] else []) @
      (if ecckey256 hk \<noteq> None \<or> delay \<and> no_ecdsa then [SIG_ECDSA_NISTP256] else []) @
      (if ecckey384 hk \<noteq> None then [SIG_ECDSA_NISTP384] else []) @
      (if ecckey521 hk \<noteq> None then [SIG_ECDSA_NISTP521] else []) @
      (if delay \<or> rsakey hk \<noteq> None then [SIG_RSA_SHA256] else []))"

lemma vals_disablekey [simp]: "map a_val (disablekey t T) = map a_val T"
  by (induction T) auto

lemma usable_disablekey:
  "distinct (map a_val T) \<Longrightarrow> map a_val (filter a_usable (disablekey t T)) = removeAll t (map a_val (filter a_usable T))"
proof (induction T)
  case (Cons a T)
  then have "a_val a = t \<Longrightarrow> removeAll t (map a_val (filter a_usable T)) = map a_val (filter a_usable T)"
    by (auto intro!: removeAll_id)
  then show ?case using Cons by auto
qed simp

lemma vals_disable_if [simp]: "map a_val (disable_if c t T) = map a_val T"
  by (simp add: disable_if_def)

lemma usable_disable_if:
  "distinct (map a_val T) \<Longrightarrow> map a_val (filter a_usable (disable_if c t T)) = filter (\<lambda>v. \<not> (c \<and> v = t)) (map a_val (filter a_usable T))"
  by (simp add: disable_if_def usable_disablekey removeAll_filter_not_eq) (metis (mono_tags, lifting) filter_cong)

lemma sigalgs_table_vals: "map a_val sigalgs_table = [5, 6, 1, 2, 3, 4, 101]" "map a_val (filter a_usable sigalgs_table) = [5, 6, 1, 2, 3, 4, 101]"
  by (simp_all add: sigalgs_table_def)

lemma disable_missing_offered: "map a_val (filter a_usable (disable_missing delay hk sigalgs_table)) = offered delay hk"
  unfolding disable_missing_def Let_def
  by (simp add: usable_disablekey usable_disable_if sigalgs_table_vals) (auto simp: offered_def Let_def)

lemma names_disablekey: "map a_name (disablekey t T) = map a_name T"
  by (induction T) auto

lemma names_disable_if: "map a_name (disable_if c t T) = map a_name T"
  by (simp add: disable_if_def names_disablekey)

text \<open>
  Once the host keys are loaded, the server offers a signature algorithm exactly if it has a key for it or
  may generate one: Ed25519 and RSA also when keys are generated on demand, ECDSA with 256 bits also then if no ECDSA key
  was loaded, and never an algorithm of a security key. At least one algorithm is offered, and the names of
  the table stay as they are.
\<close>

theorem hostkeys_offered:
  assumes "load_all_hostkeys read files g sigalgs_table = Inr (hk, T)"
  shows "map a_val (filter a_usable T) = offered (delay_hostkey g) hk \<and> offered (delay_hostkey g) hk \<noteq> [] \<and>
    map a_name T = map a_name sigalgs_table"
proof -
  have "any_keys (delay_hostkey g) hk" "T = disable_missing (delay_hostkey g) hk sigalgs_table"
    using assms by (auto simp: load_all_hostkeys_def res_elims split: if_splits)
  moreover have "map a_name (disable_missing (delay_hostkey g) hk sigalgs_table) = map a_name sigalgs_table"
    by (simp add: disable_missing_def Let_def names_disablekey names_disable_if)
  ultimately show ?thesis by (auto simp: disable_missing_offered offered_def any_keys_def Let_def)
qed

text \<open>Two files with ECDSA keys of different sizes: both algorithms are offered, although a comment says at most one is.\<close>

definition example_keys :: "bytes \<Rightarrow> int \<times> nat option" where
  "example_keys f = (if f = cstr ''a'' then (SIG_ECDSA_NISTP256, Some 1) else (SIG_ECDSA_NISTP384, Some 2))"

theorem hostkeys_offered_witness:
  "\<exists>hk T. load_all_hostkeys example_keys [] ((default_opts [])\<lparr>hostkey_files := [cstr ''a'', cstr ''b'']\<rparr>) sigalgs_table = Inr (hk, T) \<and>
     map a_val (filter a_usable T) = [SIG_ECDSA_NISTP256, SIG_ECDSA_NISTP384]"
proof -
  let ?g = "(default_opts [])\<lparr>hostkey_files := [cstr ''a'', cstr ''b'']\<rparr>"
  let ?hk = "\<lparr>rsakey = None, ecckey256 = Some (1 :: nat), ecckey384 = Some 2, ecckey521 = None, ed25519key = None\<rparr>"
  have "load_all_hostkeys example_keys [] ?g sigalgs_table = Inr (?hk, disable_missing False ?hk sigalgs_table)"
    by (simp add: load_all_hostkeys_def loadhostkey_def loadhostkey_helper_def example_keys_def new_sign_key_def any_keys_def default_opts_def)
  from hostkeys_offered [OF this] this show ?thesis by (simp add: offered_def default_opts_def)
qed

end
