(* ===== verification/Svr_Main_Props.thy ===== *)
theory Svr_Main_Props
  imports Svr_Main Svr_Runopts_Props
begin

text \<open>
  The limits on clients that are not logged in and the descriptors of the listening process, by rule induction over
  the states it reaches, and the options of a child that executes the server again (\<^verbatim>\<open>svr-main.c\<close>).
\<close>

section \<open>Numbers of descriptors\<close>

text \<open>POSIX: a new descriptor has the lowest number that is not in use.\<close>

definition posix_alloc :: "(int list \<Rightarrow> int) \<Rightarrow> bool" where
  "posix_alloc alloc \<longleftrightarrow> (\<forall>fds. 0 \<le> alloc fds \<and> alloc fds \<notin> set fds \<and> (\<forall>n. 0 \<le> n \<and> n < alloc fds \<longrightarrow> n \<in> set fds))"

definition lowest_fd :: "int list \<Rightarrow> int" where
  "lowest_fd fds = hd (filter (\<lambda>n. n \<notin> set fds) (map int [0..<length fds + 1]))"

lemma alloc_fresh: "posix_alloc alloc \<Longrightarrow> 0 \<le> alloc fds \<and> alloc fds \<notin> set fds"
  by (simp add: posix_alloc_def)

lemma alloc_le: "posix_alloc alloc \<Longrightarrow> alloc fds \<le> int (length fds)"
proof -
  assume "posix_alloc alloc"
  then have "{0..<alloc fds} \<subseteq> set fds" by (auto simp: posix_alloc_def)
  then have "card {0..<alloc fds} \<le> card (set fds)" by (rule card_mono [OF finite_set])
  also have "\<dots> \<le> length fds" by (rule card_length)
  finally show ?thesis by simp
qed

lemma lowest_fd_posix: "posix_alloc lowest_fd"
proof -
  have "0 \<le> lowest_fd fds \<and> lowest_fd fds \<notin> set fds \<and> (\<forall>n. 0 \<le> n \<and> n < lowest_fd fds \<longrightarrow> n \<in> set fds)" for fds
  proof -
    let ?ns = "map int [0..<length fds + 1]"
    have "\<not> set ?ns \<subseteq> set fds"
    proof
      assume "set ?ns \<subseteq> set fds"
      then have "card (set ?ns) \<le> length fds" by (rule order.trans [OF card_mono [OF finite_set] card_length])
      moreover have "card (set ?ns) = length fds + 1" by (subst distinct_card) (simp_all add: distinct_map del: upt_Suc)
      ultimately show False by simp
    qed
    then have "\<exists>k < length fds + 1. int k \<notin> set fds" by auto
    define k where "k = (LEAST k. int k \<notin> set fds)"
    obtain l where l: "l < length fds + 1" "int l \<notin> set fds" using \<open>\<exists>k < _. _\<close> by blast
    have k: "int k \<notin> set fds" "\<And>m. m < k \<Longrightarrow> int m \<in> set fds"
      unfolding k_def using LeastI [of "\<lambda>k. int k \<notin> set fds", OF l(2)] not_less_Least [of _ "\<lambda>k. int k \<notin> set fds"] by auto
    have "k \<le> l" unfolding k_def using l(2) by (rule Least_le)
    have "[0..<length fds + 1] = [0..<k] @ k # [Suc k..<length fds + 1]"
      using \<open>k \<le> l\<close> l(1) upt_add_eq_append [of 0 k "length fds + 1 - k"] by (simp add: upt_conv_Cons)
    moreover have "filter (\<lambda>n. n \<notin> set fds) (map int [0..<k]) = []" using k(2) by (auto simp: filter_empty_conv)
    ultimately have eq: "lowest_fd fds = int k" using k(1) by (simp add: lowest_fd_def)
    have "n \<in> set fds" if "0 \<le> n" "n < int k" for n using k(2) [of "nat n"] that by simp
    then show ?thesis using k(1) by (simp add: eq)
  qed
  then show ?thesis by (simp add: posix_alloc_def)
qed

section \<open>Counting\<close>

lemma filter_update:
  assumes "i < length xs"
  obtains ys zs where "filter P xs = ys @ (if P (xs ! i) then [xs ! i] else []) @ zs"
    "\<And>x. filter P (xs[i := x]) = ys @ (if P x then [x] else []) @ zs"
proof
  show "filter P xs = filter P (take i xs) @ (if P (xs ! i) then [xs ! i] else []) @ filter P (drop (Suc i) xs)"
    using assms by (subst (1) id_take_nth_drop [of i xs]) simp_all
  show "filter P (xs[i := x]) = filter P (take i xs) @ (if P x then [x] else []) @ filter P (drop (Suc i) xs)" for x
    using assms by (simp add: upd_conv_take_nth_drop)
qed

lemma length_close_fd: "distinct fds \<Longrightarrow> fd \<in> set fds \<Longrightarrow> 0 \<le> fd \<Longrightarrow> length (close_fd fd fds) + 1 = length fds"
  using length_pos_if_in_set [of fd fds] by (simp add: close_fd_def length_remove1 flip: distinct_remove1_removeAll)

lemma set_close_fd: "0 \<le> fd \<Longrightarrow> set (close_fd fd fds) = set fds - {fd}"
  by (simp add: close_fd_def)

lemma distinct_close_fd: "distinct fds \<Longrightarrow> distinct (close_fd fd fds)"
  by (simp add: close_fd_def distinct_removeAll)

definition addr_count :: "bytes \<Rightarrow> listen_state \<Rightarrow> nat" where
  "addr_count h st = length (filter (\<lambda>(p, a). p \<ge> 0 \<and> a = Some h) (zip (ma_childpipes st) (ma_preauth_addrs st)))"

text \<open>
  The invariant of the table of clients and of the descriptors: \<open>base\<close> are those open at the start, \<open>k\<close> the failed
  calls of \<^verbatim>\<open>fork\<close>.
\<close>

definition slots_ok :: "listen_state \<Rightarrow> bool" where
  "slots_ok st \<longleftrightarrow> length (ma_childpipes st) = MAX_UNAUTH_CLIENTS \<and> length (ma_preauth_addrs st) = MAX_UNAUTH_CLIENTS \<and>
     (\<forall>i < MAX_UNAUTH_CLIENTS. 0 \<le> ma_childpipes st ! i \<longrightarrow> ma_preauth_addrs st ! i \<noteq> None) \<and>
     (\<forall>h. addr_count h st \<le> MAX_UNAUTH_PER_IP)"

definition fds_ok :: "int list \<Rightarrow> nat \<Rightarrow> listen_state \<Rightarrow> bool" where
  "fds_ok base k st \<longleftrightarrow> distinct (live st) \<and> distinct (ma_fds st) \<and> set (live st) \<subseteq> set (ma_fds st) \<and>
     set base \<subseteq> set (ma_fds st) - set (live st) \<and> length (ma_fds st) \<le> length base + length (live st) + 2 * k \<and>
     (\<forall>p \<in> set (live st). p \<le> int (length base + 2 * k + MAX_UNAUTH_CLIENTS))"

text \<open>The index the counting loop keeps: the last free slot, \<open>i\<close> if there is none.\<close>

fun last_free :: "(int \<times> bytes option) list \<Rightarrow> nat \<Rightarrow> nat \<Rightarrow> nat" where
  "last_free [] j i = i"
| "last_free ((p, a) # slots) j i = last_free slots (j + 1) (if 0 \<le> p then i else j)"

lemma count_unauthed_eq:
  "(\<forall>(p, a) \<in> set slots. 0 \<le> p \<longrightarrow> a \<noteq> None) \<Longrightarrow>
     count_unauthed h slots j m n i =
       Inr (m + length (filter (\<lambda>(p, a). p \<ge> 0 \<and> a = Some h) slots), n + length (filter (\<lambda>(p, a). p \<ge> 0) slots), last_free slots j i)"
  by (induction h slots j m n i rule: count_unauthed.induct) (auto split: option.splits)

lemma last_free_none: "\<forall>(p, a) \<in> set slots. 0 \<le> p \<Longrightarrow> last_free slots j i = i"
  by (induction slots j i rule: last_free.induct) auto

lemma last_free_slot:
  "\<exists>(p, a) \<in> set slots. p < 0 \<Longrightarrow> j \<le> last_free slots j i \<and> last_free slots j i < j + length slots \<and> fst (slots ! (last_free slots j i - j)) < 0"
proof (induction slots j i rule: last_free.induct)
  case (2 p a slots j i)
  show ?case
  proof (cases "\<exists>(p, a) \<in> set slots. p < 0")
    case True
    then obtain q where "last_free slots (j + 1) (if 0 \<le> p then i else j) = Suc j + q"
      using "2.IH" [OF True] le_Suc_ex [of "Suc j" "last_free slots (j + 1) (if 0 \<le> p then i else j)"] by auto
    then show ?thesis using "2.IH" [OF True] by simp
  next
    case False
    then have "last_free slots (j + 1) (if 0 \<le> p then i else j) = (if 0 \<le> p then i else j)"
      by (intro last_free_none) force
    then show ?thesis using "2.prems" False by auto
  qed
qed simp

lemma filter_zip_fst: "length xs = length ys \<Longrightarrow> length (filter (\<lambda>(x, y). P x) (zip xs ys)) = length (filter P xs)"
  by (induction xs ys rule: list_induct2) auto

lemma live_zip: "slots_ok st \<Longrightarrow> length (filter (\<lambda>(p, a). 0 \<le> p) (zip (ma_childpipes st) (ma_preauth_addrs st))) = length (live st)"
  by (simp add: live_def slots_ok_def filter_zip_fst)

lemma slots_zip: "slots_ok st \<Longrightarrow> \<forall>(p, a) \<in> set (zip (ma_childpipes st) (ma_preauth_addrs st)). 0 \<le> p \<longrightarrow> a \<noteq> None"
  by (auto simp: slots_ok_def in_set_zip)

definition free_slot :: "listen_state \<Rightarrow> nat" where
  "free_slot st = last_free (zip (ma_childpipes st) (ma_preauth_addrs st)) 0 0"

lemma free_slot_ok:
  assumes "slots_ok st" "length (live st) < MAX_UNAUTH_CLIENTS"
  shows "free_slot st < MAX_UNAUTH_CLIENTS" "ma_childpipes st ! free_slot st < 0"
proof -
  let ?z = "zip (ma_childpipes st) (ma_preauth_addrs st)"
  have z: "length ?z = MAX_UNAUTH_CLIENTS" using assms(1) by (simp add: slots_ok_def)
  have "\<exists>(p, a) \<in> set ?z. p < 0"
  proof (rule ccontr)
    assume "\<not> (\<exists>(p, a) \<in> set ?z. p < 0)"
    then have "filter (\<lambda>(p, a). 0 \<le> p) ?z = ?z" by (auto simp: filter_id_conv)
    then show False using live_zip [OF assms(1)] z assms(2) by simp
  qed
  from last_free_slot [OF this, of 0 0] show "free_slot st < MAX_UNAUTH_CLIENTS" "ma_childpipes st ! free_slot st < 0"
    using assms(1) by (auto simp: free_slot_def slots_ok_def)
qed

section \<open>What an iteration does\<close>

lemma m_close_Cons: "0 \<le> x \<Longrightarrow> close_fd x (y # ys) = (if x = y then close_fd x ys else y # close_fd x ys)"
  by (simp add: close_fd_def)

lemma m_close_notin: "x \<notin> set xs \<Longrightarrow> close_fd x xs = xs"
  by (simp add: close_fd_def)

text \<open>The outcome of accepting a connection, with the descriptors that are open afterwards in the parent.\<close>

lemma accept_one_eq:
  assumes "posix_alloc alloc" "slots_ok st"
  defines "sock \<equiv> alloc (ma_fds st)"
  defines "pipe0 \<equiv> alloc (sock # ma_fds st)"
  defines "pipe1 \<equiv> alloc (pipe0 # sock # ma_fds st)"
  shows "accept_one alloc le a st =
    (if \<not> ac_ok a \<or> length (live st) \<ge> MAX_UNAUTH_CLIENTS \<or> addr_count (ac_host a) st \<ge> MAX_UNAUTH_PER_IP \<or> \<not> ac_pipe a then Inr (Parent st)
     else if ac_fork a < 0 then Inr (Parent (st\<lparr>ma_fds := pipe1 # pipe0 # ma_fds st\<rparr>))
     else if ac_fork a > 0 then Inr (Parent (st\<lparr>ma_childpipes := (ma_childpipes st)[free_slot st := pipe0],
            ma_preauth_addrs := (ma_preauth_addrs st)[free_slot st := Some (ac_host a)], ma_fds := pipe0 # ma_fds st\<rparr>))
     else accept_child le a sock pipe0 pipe1 (pipe1 # pipe0 # sock # ma_fds st))"
proof -
  have f: "0 \<le> sock" "sock \<notin> set (ma_fds st)" "0 \<le> pipe0" "pipe0 \<notin> set (sock # ma_fds st)"
    "0 \<le> pipe1" "pipe1 \<notin> set (pipe0 # sock # ma_fds st)"
    unfolding sock_def pipe0_def pipe1_def using alloc_fresh [OF assms(1)] by blast+
  note c = count_unauthed_eq [OF slots_zip [OF assms(2)], of "ac_host a" 0 0 0 0]
  show ?thesis
    using f unfolding accept_one_def Let_def sock_def [symmetric] pipe0_def [symmetric] pipe1_def [symmetric]
    by (simp add: c live_zip [OF assms(2)] flip: addr_count_def free_slot_def) (auto simp: m_close_Cons m_close_notin)
qed

lemma slots_ok_add:
  assumes "slots_ok st" "i < MAX_UNAUTH_CLIENTS" "ma_childpipes st ! i < 0" "addr_count h st < MAX_UNAUTH_PER_IP" "0 \<le> p"
    "st' = st\<lparr>ma_childpipes := (ma_childpipes st)[i := p], ma_preauth_addrs := (ma_preauth_addrs st)[i := Some h], ma_fds := fds\<rparr>"
  shows "slots_ok st'"
proof -
  let ?z = "zip (ma_childpipes st) (ma_preauth_addrs st)"
  have z: "i < length ?z" "?z ! i = (ma_childpipes st ! i, ma_preauth_addrs st ! i)" using assms(1,2) by (simp_all add: slots_ok_def)
  have z': "zip (ma_childpipes st') (ma_preauth_addrs st') = ?z[i := (p, Some h)]"
    using assms(1,2,6) by (simp add: slots_ok_def update_zip)
  have "addr_count g st' \<le> MAX_UNAUTH_PER_IP" for g
  proof -
    let ?P = "\<lambda>(p, a). (0 :: int) \<le> p \<and> a = Some g"
    obtain ys zs where yz: "filter ?P ?z = ys @ (if ?P (?z ! i) then [?z ! i] else []) @ zs"
      "\<And>x. filter ?P (?z[i := x]) = ys @ (if ?P x then [x] else []) @ zs"
      using filter_update [OF z(1)] by blast
    have "addr_count g st = length ys + length zs" using yz(1) z(2) assms(3) by (simp add: addr_count_def)
    moreover have "addr_count g st' = length ys + length zs + (if g = h then 1 else 0)"
      using yz(2) assms(5) by (simp add: addr_count_def z')
    moreover have "addr_count g st \<le> MAX_UNAUTH_PER_IP" using assms(1) by (simp add: slots_ok_def)
    ultimately show ?thesis using assms(4) by (auto split: if_splits)
  qed
  then show ?thesis using assms(1,2,6) by (simp add: slots_ok_def nth_list_update)
qed

lemma slots_ok_close:
  assumes "slots_ok st" "i < MAX_UNAUTH_CLIENTS"
    "st' = st\<lparr>ma_childpipes := (ma_childpipes st)[i := -1], ma_fds := fds, ma_preauth_addrs := (ma_preauth_addrs st)[i := None]\<rparr>"
  shows "slots_ok st'"
proof -
  let ?z = "zip (ma_childpipes st) (ma_preauth_addrs st)"
  have z: "i < length ?z" using assms(1,2) by (simp add: slots_ok_def)
  have z': "zip (ma_childpipes st') (ma_preauth_addrs st') = ?z[i := (-1, None)]"
    using assms by (simp add: slots_ok_def update_zip)
  have "addr_count g st' \<le> MAX_UNAUTH_PER_IP" for g
  proof -
    let ?P = "\<lambda>(p, a). (0 :: int) \<le> p \<and> a = Some g"
    obtain ys zs where yz: "filter ?P ?z = ys @ (if ?P (?z ! i) then [?z ! i] else []) @ zs"
      "\<And>x. filter ?P (?z[i := x]) = ys @ (if ?P x then [x] else []) @ zs"
      using filter_update [OF z] by blast
    have "addr_count g st' \<le> addr_count g st" using yz by (simp add: addr_count_def z')
    then show ?thesis using assms(1) by (simp add: slots_ok_def) (meson order.trans)
  qed
  then show ?thesis using assms by (simp add: slots_ok_def nth_list_update)
qed

lemma live_update:
  assumes "slots_ok st" "i < MAX_UNAUTH_CLIENTS" "ma_childpipes st' = (ma_childpipes st)[i := p]"
  shows "\<exists>ys zs. live st = ys @ (if 0 \<le> ma_childpipes st ! i then [ma_childpipes st ! i] else []) @ zs \<and>
    live st' = ys @ (if 0 \<le> p then [p] else []) @ zs"
proof -
  have "i < length (ma_childpipes st)" using assms by (simp add: slots_ok_def)
  then obtain ys zs where "live st = ys @ (if 0 \<le> ma_childpipes st ! i then [ma_childpipes st ! i] else []) @ zs"
    "filter (\<lambda>p. 0 \<le> p) ((ma_childpipes st)[i := p]) = ys @ (if 0 \<le> p then [p] else []) @ zs"
    using filter_update [of i "ma_childpipes st" "\<lambda>p. 0 \<le> p"] unfolding live_def by metis
  then show ?thesis unfolding live_def assms(3) by blast
qed

lemma fds_ok_add:
  assumes "slots_ok st" "fds_ok base k st" "i < MAX_UNAUTH_CLIENTS" "ma_childpipes st ! i < 0" "0 \<le> p" "p \<notin> set (ma_fds st)"
    "p \<le> int (length (ma_fds st)) + 1"
    "length (live st) < MAX_UNAUTH_CLIENTS"
    "st' = st\<lparr>ma_childpipes := (ma_childpipes st)[i := p], ma_preauth_addrs := addrs, ma_fds := p # ma_fds st\<rparr>"
  shows "fds_ok base k st'"
proof -
  have "ma_childpipes st' = (ma_childpipes st)[i := p]" using assms(9) by simp
  from live_update [OF assms(1,3) this] obtain ys zs where l: "live st = ys @ zs" "live st' = ys @ p # zs"
    using assms(4,5) by auto
  have "p \<le> int (length base + 2 * k + MAX_UNAUTH_CLIENTS)" using assms(2,7,8) by (simp add: fds_ok_def)
  moreover have "ma_fds st' = p # ma_fds st" using assms(9) by simp
  ultimately show ?thesis using assms(2,6) unfolding fds_ok_def l by auto
qed

lemma fds_ok_close:
  assumes "slots_ok st" "fds_ok base k st" "i < MAX_UNAUTH_CLIENTS" "0 \<le> ma_childpipes st ! i"
    "st' = st\<lparr>ma_childpipes := (ma_childpipes st)[i := -1], ma_fds := close_fd (ma_childpipes st ! i) (ma_fds st), ma_preauth_addrs := addrs\<rparr>"
  shows "fds_ok base k st'"
proof -
  let ?p = "ma_childpipes st ! i"
  have "ma_childpipes st' = (ma_childpipes st)[i := -1]" using assms(5) by simp
  from live_update [OF assms(1,3) this] obtain ys zs where l: "live st = ys @ ?p # zs" "live st' = ys @ zs"
    using assms(4) by auto
  have p: "distinct (ma_fds st)" "?p \<in> set (ma_fds st)" using assms(2) by (auto simp: fds_ok_def l)
  have "length (ma_fds st') + 1 = length (ma_fds st)" "distinct (ma_fds st')" "set (ma_fds st') = set (ma_fds st) - {?p}"
    using length_close_fd [OF p assms(4)] distinct_close_fd [OF p(1)] set_close_fd [OF assms(4)] assms(5) by simp_all
  then show ?thesis using assms(2) unfolding fds_ok_def l by auto
qed

lemma accept_one_inv:
  assumes "posix_alloc alloc" "slots_ok st" "fds_ok base k st"
  shows "res_ok (\<lambda>r. \<forall>st'. r = Parent st' \<longrightarrow> slots_ok st' \<and> fds_ok base (k + (if ac_fork a < 0 then 1 else 0)) st') (accept_one alloc le a st)"
proof -
  let ?sock = "alloc (ma_fds st)"
  let ?p0 = "alloc (?sock # ma_fds st)"
  let ?p1 = "alloc (?p0 # ?sock # ma_fds st)"
  have f: "0 \<le> ?p0" "?p0 \<notin> set (ma_fds st)" "?p0 \<le> int (length (ma_fds st)) + 1" "?p1 \<notin> set (?p0 # ma_fds st)"
    using alloc_fresh [OF assms(1), of "?sock # ma_fds st"] alloc_fresh [OF assms(1), of "?p0 # ?sock # ma_fds st"]
      alloc_le [OF assms(1), of "?sock # ma_fds st"] by auto
  have child: "res_ok (\<lambda>r. \<forall>st'. r = Parent st' \<longrightarrow> P st') (accept_child le a s q0 q1 fds)" for P s q0 q1 fds
    by (simp add: accept_child_def Let_def)
  have same: "fds_ok base (k + (if ac_fork a < 0 then 1 else 0)) st" using assms(3) by (auto simp: fds_ok_def)
  have leak: "fds_ok base (k + 1) (st\<lparr>ma_fds := ?p1 # ?p0 # ma_fds st\<rparr>)" "slots_ok (st\<lparr>ma_fds := ?p1 # ?p0 # ma_fds st\<rparr>)"
    using assms(2,3) f by (auto simp: fds_ok_def slots_ok_def live_def addr_count_def)
  show ?thesis
  proof (cases "length (live st) < MAX_UNAUTH_CLIENTS \<and> addr_count (ac_host a) st < MAX_UNAUTH_PER_IP")
    case True
    note fs = free_slot_ok [OF assms(2)]
    have "slots_ok (st\<lparr>ma_childpipes := (ma_childpipes st)[free_slot st := ?p0],
        ma_preauth_addrs := (ma_preauth_addrs st)[free_slot st := Some (ac_host a)], ma_fds := ?p0 # ma_fds st\<rparr>)"
      using True by (intro slots_ok_add [OF assms(2) fs _ f(1) refl]) simp_all
    moreover have "fds_ok base k (st\<lparr>ma_childpipes := (ma_childpipes st)[free_slot st := ?p0],
        ma_preauth_addrs := (ma_preauth_addrs st)[free_slot st := Some (ac_host a)], ma_fds := ?p0 # ma_fds st\<rparr>)"
      using True by (intro fds_ok_add [OF assms(2,3) fs f(1-3) _ refl]) simp_all
    ultimately show ?thesis using assms(2) same leak child by (simp add: accept_one_eq [OF assms(1,2)])
  next
    case False
    then have "accept_one alloc le a st = Inr (Parent st)" by (auto simp: accept_one_eq [OF assms(1,2)])
    then show ?thesis using assms(2) same by simp
  qed
qed

lemma accept_sockets_inv:
  assumes "posix_alloc alloc" "slots_ok st" "fds_ok base k st"
  shows "res_ok (\<lambda>r. \<forall>st'. r = Parent st' \<longrightarrow> slots_ok st' \<and> fds_ok base (k + length (filter (\<lambda>(s, a). ac_fork a < 0) socks)) st')
    (accept_sockets alloc le ready socks st)"
  using assms(2,3)
proof (induction socks arbitrary: st k)
  case (Cons sa socks)
  obtain sock a where sa: "sa = (sock, a)" by fastforce
  have more: "fds_ok base (k + l) st" for l using Cons.prems(2) by (auto simp: fds_ok_def)
  show ?case
  proof (cases "sock \<in> set ready")
    case True
    have "res_ok (\<lambda>r. \<forall>st'. r = Parent st' \<longrightarrow> slots_ok st' \<and> fds_ok base (k + length (filter (\<lambda>(s, a). ac_fork a < 0) (sa # socks))) st')
      (case r of Parent st \<Rightarrow> accept_sockets alloc le ready socks st | _ \<Rightarrow> Inr r)"
      if "\<forall>st'. r = Parent st' \<longrightarrow> slots_ok st' \<and> fds_ok base (k + (if ac_fork a < 0 then 1 else 0)) st'" for r
      using that Cons.IH [of _ "k + (if ac_fork a < 0 then 1 else 0)"] sa
      by (auto simp: add.assoc split: listen_outcome.split if_splits)
    from res_ok_rbind [OF accept_one_inv [OF assms(1) Cons.prems] this] show ?thesis using True sa by simp
  next
    case False
    then show ?thesis using Cons.IH [OF Cons.prems(1) more [of "if ac_fork a < 0 then 1 else 0"]] sa
      by (auto simp: add.assoc split: if_splits)
  qed
qed simp

lemma close_pipe_inv:
  assumes "slots_ok st" "fds_ok base k st" "i < MAX_UNAUTH_CLIENTS"
  shows "slots_ok (close_pipe ready i st) \<and> fds_ok base k (close_pipe ready i st)"
proof (cases "0 \<le> ma_childpipes st ! i \<and> ma_childpipes st ! i \<in> set ready")
  case True
  then show ?thesis
    using slots_ok_close [OF assms(1,3) refl] fds_ok_close [OF assms(1,2,3) _ refl] by (simp add: close_pipe_def Let_def)
next
  case False
  then show ?thesis using assms by (auto simp: close_pipe_def Let_def)
qed

lemma close_pipes_inv:
  assumes "slots_ok st" "fds_ok base k st"
  shows "slots_ok (close_pipes ready st) \<and> fds_ok base k (close_pipes ready st)"
proof -
  have "slots_ok (fold (close_pipe ready) is st) \<and> fds_ok base k (fold (close_pipe ready) is st)"
    if "set is \<subseteq> {..<MAX_UNAUTH_CLIENTS}" for "is"
    using that assms by (induction "is" arbitrary: st) (use close_pipe_inv in auto)
  then show ?thesis unfolding close_pipes_def by (rule meta_mp) auto
qed

lemma fd_set_all_ok: "\<forall>fd \<in> set fds. 0 \<le> fd \<and> fd < FD_SETSIZE \<Longrightarrow> fd_set_all fds = Inr ()"
  by (induction fds) (simp_all add: fd_set_ok_def)

definition failed_forks :: "listen_input \<Rightarrow> nat" where
  "failed_forks inp = length (filter (\<lambda>a. ac_fork a < 0) (li_accepts inp))"

lemma filter_zip_snd_le: "length (filter (\<lambda>(x, y). P y) (zip xs ys)) \<le> length (filter P ys)"
proof (induction xs arbitrary: ys)
  case (Cons x xs)
  then show ?case by (cases ys) (auto simp: le_SucI)
qed simp

lemma fds_ok_mono: "fds_ok base k st \<Longrightarrow> k \<le> k' \<Longrightarrow> fds_ok base k' st"
  by (auto simp: fds_ok_def)

text \<open>An iteration keeps the invariant, and does not fault while the numbers of the descriptors fit into an \<^verbatim>\<open>fd_set\<close>.\<close>

lemma listen_iteration_inv:
  assumes "posix_alloc alloc" "slots_ok st" "fds_ok base k st"
  shows "res_post (\<lambda>r. \<forall>st'. r = Parent st' \<longrightarrow> slots_ok st' \<and> fds_ok base (k + failed_forks inp) st') (listen_iteration alloc le inp st)"
    and "fd_set_all (le_listensocks le @ live st) = Inr () \<Longrightarrow> safe (listen_iteration alloc le inp st)"
proof -
  let ?st = "st\<lparr>ma_maxsock := fold max (live st) (ma_maxsock st)\<rparr>"
  have st: "slots_ok ?st" "fds_ok base k ?st"
    using assms(2,3) by (simp_all add: slots_ok_def fds_ok_def live_def addr_count_def)
  have mono: "fds_ok base (k + failed_forks inp) st'" if "fds_ok base (k + l) st'" "l \<le> failed_forks inp" for l st'
    using that by (auto elim: fds_ok_mono)
  have le: "length (filter (\<lambda>(s, a). ac_fork a < 0) (zip (le_listensocks le) (li_accepts inp))) \<le> failed_forks inp"
    by (simp add: failed_forks_def filter_zip_snd_le)
  have acc: "res_ok (\<lambda>r. \<forall>st'. r = Parent st' \<longrightarrow> slots_ok st' \<and> fds_ok base (k + failed_forks inp) st')
    (accept_sockets alloc le ready (zip (le_listensocks le) (li_accepts inp)) (close_pipes ready ?st))" for ready
    using close_pipes_inv [OF st, of ready] by (intro res_ok_mono [OF accept_sockets_inv [OF assms(1)]]) (auto intro: mono [OF _ le])
  have all: "res_ok (\<lambda>r. \<forall>st'. r = Parent st' \<longrightarrow> slots_ok st' \<and> fds_ok base (k + failed_forks inp) st') (listen_iteration alloc le inp st)"
    if "fd_set_all (le_listensocks le @ live st) = Inr ()"
    unfolding listen_iteration_def that Let_def using st mono [of 0] acc by (auto split: select_result.split)
  then show "fd_set_all (le_listensocks le @ live st) = Inr () \<Longrightarrow> safe (listen_iteration alloc le inp st)"
    by (rule res_ok_safe)
  show "res_post (\<lambda>r. \<forall>st'. r = Parent st' \<longrightarrow> slots_ok st' \<and> fds_ok base (k + failed_forks inp) st') (listen_iteration alloc le inp st)"
    using all by (cases "fd_set_all (le_listensocks le @ live st)") (auto simp: listen_iteration_def res_post_def res_ok_def)
qed

section \<open>Every state of the listening process\<close>

text \<open>
  The states of the parent after any number of iterations, with the number of failed calls of \<^verbatim>\<open>fork\<close> so far;
  \<open>base\<close> are the descriptors that are open when the loop starts.
\<close>

inductive listening :: "(int list \<Rightarrow> int) \<Rightarrow> listen_env \<Rightarrow> int list \<Rightarrow> nat \<Rightarrow> listen_state \<Rightarrow> bool"
  for alloc le base where
  start: "main_noinetd g ok socks base execfd mp argv = Inr (le, st) \<Longrightarrow> listening alloc le base 0 st"
| step: "listening alloc le base k st \<Longrightarrow> listen_iteration alloc le inp st = Inr (Parent st') \<Longrightarrow>
    listening alloc le base (k + failed_forks inp) st'"

inductive_cases listening_zeroE: "listening alloc le base 0 st"

lemma main_noinetd_inv:
  assumes "main_noinetd g ok socks base execfd mp argv = Inr (le, st)" "distinct base"
  shows "slots_ok st" "fds_ok base 0 st"
  using assms by (auto simp: main_noinetd_def Let_def slots_ok_def fds_ok_def live_def addr_count_def zip_replicate split: if_splits)

lemma listening_inv:
  assumes "posix_alloc alloc" "distinct base"
  shows "listening alloc le base k st \<Longrightarrow> slots_ok st \<and> fds_ok base k st"
proof (induction rule: listening.induct)
  case (start g ok socks execfd mp argv st)
  then show ?case using main_noinetd_inv assms(2) by blast
next
  case (step k st inp st')
  then show ?case using res_postD [OF listen_iteration_inv(1) [OF assms(1)]] by blast
qed

text \<open>
  Property C21. Whatever connections arrive and whichever system calls fail, at most thirty clients that are not logged in are
  served at a time and at most five from one address; the descriptors open at the start stay open, and beside them
  only one is open for each of these clients and two for each failed \<^verbatim>\<open>fork\<close>. As long as the numbers of
  descriptors fit into an \<^verbatim>\<open>fd_set\<close>, the next iteration does not fault. New descriptors have the lowest unused
  number.
\<close>

theorem unauthenticated_clients_limited:
  assumes "posix_alloc alloc" "distinct base" "\<forall>s \<in> set (le_listensocks le). 0 \<le> s \<and> s < FD_SETSIZE"
    and "listening alloc le base k st"
  shows "length (live st) \<le> MAX_UNAUTH_CLIENTS \<and> (\<forall>h. addr_count h st \<le> MAX_UNAUTH_PER_IP) \<and>
    distinct (live st) \<and> distinct (ma_fds st) \<and> set (live st) \<subseteq> set (ma_fds st) \<and> set base \<subseteq> set (ma_fds st) - set (live st) \<and>
    length (ma_fds st) \<le> length base + length (live st) + 2 * k \<and>
    (int (length base + 2 * k + MAX_UNAUTH_CLIENTS) < FD_SETSIZE \<longrightarrow> safe (listen_iteration alloc le inp st))"
proof -
  have inv: "slots_ok st" "fds_ok base k st" using listening_inv [OF assms(1,2,4)] by simp_all
  have p: "0 \<le> p \<and> p \<le> int (length base + 2 * k + MAX_UNAUTH_CLIENTS)" if "p \<in> set (live st)" for p
    using inv(2) that by (simp add: fds_ok_def) (simp add: live_def)
  have "safe (listen_iteration alloc le inp st)" if "int (length base + 2 * k + MAX_UNAUTH_CLIENTS) < FD_SETSIZE"
  proof (rule listen_iteration_inv(2) [OF assms(1) inv fd_set_all_ok])
    show "\<forall>fd \<in> set (le_listensocks le @ live st). 0 \<le> fd \<and> fd < FD_SETSIZE"
      using assms(3) that by (fastforce dest: p)
  qed
  moreover have "length (live st) \<le> MAX_UNAUTH_CLIENTS"
    using inv(1) length_filter_le [of "\<lambda>p. 0 \<le> p" "ma_childpipes st"] by (simp add: live_def slots_ok_def)
  ultimately show ?thesis using inv by (simp add: slots_ok_def fds_ok_def)
qed

text \<open>A server with the socket 3 to listen on and three more descriptors, and a client that is accepted.\<close>

definition example_listen_env :: listen_env where
  "example_listen_env = \<lparr>le_listensocks = [3], le_execfd = -1, le_multipath = None, le_argv = [cstr ''sshd'']\<rparr>"

definition example_accept :: "int \<Rightarrow> accept_input" where
  "example_accept pid = \<lparr>ac_ok = True, ac_host = cstr ''h'', ac_pipe = True, ac_fork = pid, ac_setsid = True, ac_dup2 = True,
     ac_cloexec = True, ac_fexecve = True\<rparr>"

definition example_listen :: "int list \<Rightarrow> int list \<Rightarrow> bytes option list \<Rightarrow> listen_state" where
  "example_listen fds pipes addrs = \<lparr>ma_childpipes = replicate 29 (-1) @ pipes, ma_preauth_addrs = replicate 29 None @ addrs,
     ma_fds = fds, ma_maxsock = 3\<rparr>"

lemma example_accepted:
  "listen_iteration lowest_fd example_listen_env \<lparr>li_select = Sel_ready [3], li_exitflag = False, li_accepts = [example_accept 7]\<rparr>
     (example_listen [0, 1, 2, 3] [-1] [None]) = Inr (Parent (example_listen [5, 0, 1, 2, 3] [5] [Some (cstr ''h'')]))"
  by code_simp

theorem unauthenticated_clients_limited_witness:
  "listening lowest_fd example_listen_env [0, 1, 2, 3] 0 (example_listen [5, 0, 1, 2, 3] [5] [Some (cstr ''h'')]) \<and>
   safe (listen_iteration lowest_fd example_listen_env \<lparr>li_select = Sel_ready [5], li_exitflag = False, li_accepts = [example_accept 7]\<rparr>
     (example_listen [5, 0, 1, 2, 3] [5] [Some (cstr ''h'')]))"
proof -
  let ?st = "example_listen [5, 0, 1, 2, 3] [5] [Some (cstr ''h'')]"
  have "main_noinetd ((default_opts [])\<lparr>forkbg := False\<rparr>) False [Some [3]] [0, 1, 2, 3] (-1) None [cstr ''sshd''] =
    Inr (example_listen_env, example_listen [0, 1, 2, 3] [-1] [None])"
    by code_simp
  from listening.step [OF listening.start [OF this] example_accepted]
  have l: "listening lowest_fd example_listen_env [0, 1, 2, 3] 0 ?st" by (simp add: failed_forks_def example_accept_def)
  show ?thesis
    using l unauthenticated_clients_limited [OF lowest_fd_posix _ _ l] by (simp add: example_listen_env_def)
qed

text \<open>
  When \<^verbatim>\<open>fork\<close> fails after the pipe was made, both ends of it stay open: every further descriptor of the process has a
  higher number, until the descriptors run out.
\<close>

lemma fork_failure_leaks:
  assumes "posix_alloc alloc" "slots_ok st" "ac_ok a" "ac_pipe a" "ac_fork a < 0"
    and "length (live st) < MAX_UNAUTH_CLIENTS" "addr_count (ac_host a) st < MAX_UNAUTH_PER_IP"
  shows "\<exists>pipe0 pipe1. accept_one alloc le a st = Inr (Parent (st\<lparr>ma_fds := pipe1 # pipe0 # ma_fds st\<rparr>)) \<and>
    distinct [pipe0, pipe1] \<and> {pipe0, pipe1} \<inter> set (ma_fds st) = {}"
  using assms alloc_fresh [OF assms(1), of "alloc (ma_fds st) # ma_fds st"]
    alloc_fresh [OF assms(1), of "alloc (alloc (ma_fds st) # ma_fds st) # alloc (ma_fds st) # ma_fds st"]
  by (intro exI) (auto simp: accept_one_eq [OF assms(1,2)])

section \<open>Executing the server again\<close>

lemma accept_child_exec:
  assumes "accept_child le a sock pipe0 pipe1 fds = Inr (Child_exec args fds')"
  shows "args = reexec_argv le pipe1"
    "fds' = close_fd (le_execfd le) ((if ac_cloexec a then close_fd sock else id)
       (let fds = close_fd pipe0 (fold close_fd (le_listensocks le) fds) in if 0 \<in> set fds then fds else 0 # fds))"
  using assms by (auto simp: accept_child_def Let_def split: if_splits)

lemma in_close_fd: "x \<in> set (close_fd y fds) \<longleftrightarrow> x \<in> set fds \<and> (x = y \<longrightarrow> y < 0)"
  by (auto simp: close_fd_def)

lemma set_close_all: "set (fold close_fd socks fds) = set fds - {s \<in> set socks. 0 \<le> s}"
  by (induction socks arbitrary: fds) (auto simp: close_fd_def)

text \<open>
  A child of the listening server that executes the program again ends up serving the connection with the options of the
  parent: the words it passes are parsed to the same options, except for the pipe, which is the descriptor the parent
  made; and in the new process descriptor 0, the connection, and the pipe are open.
\<close>

theorem reexec_same_options:
  assumes "dropbear_main e pid null (le_argv le) = Inr (Listen g)" "le_multipath le = None"
    and "accept_child le a sock pipe0 pipe1 fds = Inr (Child_exec args fds')" "0 < pipe1" "pipe1 < 10 ^ 9"
    and "distinct [pipe0, pipe1, sock, le_execfd le, 0]" "pipe1 \<in> set fds - set (le_listensocks le)"
  shows "dropbear_main e pid True args =
      Inr (Serve 0 pipe1 (g\<lparr>reexec_fd_arg := Some (decimal (nat pipe1)), reexec_childpipe := pipe1\<rparr>)) \<and> 0 \<in> set fds' \<and> pipe1 \<in> set fds'"
proof -
  have g: "le_argv le \<noteq> []" "svr_getopts e pid null (le_argv le) = Inr g" "reexec_childpipe g < 0"
    using assms(1) by (auto simp: dropbear_main_def res_elims split: if_splits)
  have n: "nat pipe1 < 10 ^ 9" "nat pipe1 < 4294967296" using assms(4,5) by simp_all
  have u: "m_str_to_uint (st_einval e) (decimal (nat pipe1)) = Some (of_nat (nat pipe1))" by (rule decimal_uint) (use assms(4) n(2) in simp_all)
  have "unat (of_nat (nat pipe1) :: u32) = nat pipe1" using n(2) by (simp add: u32_simps)
  then have s: "sint (of_nat (nat pipe1) :: u32) = pipe1" using sint_small [of "of_nat (nat pipe1)"] assms(4,5) by simp
  have args: "args = le_argv le @ [cstr ''-2'', decimal (nat pipe1)]"
    using accept_child_exec(1) [OF assms(3)] length_decimal [OF n(1)] by (simp add: reexec_argv_def assms(2))
  have "svr_getopts e pid null args = Inr (g\<lparr>reexec_fd_arg := Some (decimal (nat pipe1)), reexec_childpipe := pipe1\<rparr>)"
    unfolding args using svr_getopts_reexec [OF g(2,1,3) u] assms(4) unfolding s by simp
  then have "svr_getopts e pid True args = Inr (g\<lparr>reexec_fd_arg := Some (decimal (nat pipe1)), reexec_childpipe := pipe1\<rparr>)"
    using option_args_null by (auto simp: svr_getopts_def res_elims)
  then have "dropbear_main e pid True args =
      Inr (Serve 0 pipe1 (g\<lparr>reexec_fd_arg := Some (decimal (nat pipe1)), reexec_childpipe := pipe1\<rparr>))"
    using g(1) args assms(4) by (simp add: dropbear_main_def)
  moreover have "0 \<in> set fds'" "pipe1 \<in> set fds'"
  proof -
    let ?fs = "close_fd pipe0 (fold close_fd (le_listensocks le) fds)"
    have "pipe1 \<in> set ?fs" using assms(6,7) by (auto simp: in_close_fd set_close_all)
    moreover have "x \<in> set fds'" if "x \<in> insert 0 (set ?fs)" "x \<noteq> sock" "x \<noteq> le_execfd le" for x
      using that unfolding accept_child_exec(2) [OF assms(3)] Let_def by (auto simp: in_close_fd)
    ultimately show "0 \<in> set fds'" "pipe1 \<in> set fds'" using assms(6) by auto
  qed
  ultimately show ?thesis by simp
qed

theorem reexec_same_options_witness:
  "\<exists>g. dropbear_main example_start_env [] False example_argv = Inr (Listen g) \<and>
     dropbear_main example_start_env [] True (example_argv @ map cstr [''-2'', ''6'']) =
       Inr (Serve 0 6 (g\<lparr>reexec_fd_arg := Some (cstr ''6''), reexec_childpipe := 6\<rparr>))"
proof -
  let ?le = "\<lparr>le_listensocks = [3], le_execfd = 7, le_multipath = None, le_argv = example_argv\<rparr>"
  have d: "decimal 6 = cstr ''6''" by (simp add: decimal.simps)
  obtain g where g: "dropbear_main example_start_env [] False example_argv = Inr (Listen g)"
    using example_argv_options by (simp add: dropbear_main_def default_opts_def) (simp add: example_argv_def)
  have c: "\<exists>fds'. accept_child ?le (example_accept 0) 4 5 6 [0, 1, 2, 3, 4, 5, 6, 7] = Inr (Child_exec (example_argv @ map cstr [''-2'', ''6'']) fds')"
    by (simp add: accept_child_def example_accept_def reexec_argv_def d Let_def)
  then show ?thesis using g reexec_same_options [of example_start_env "[]" False ?le g "example_accept 0" 4 5 6] by (auto simp: d)
qed

end
