(* ===== verification/Spec2Isabelle.thy ===== *)
theory Spec2Isabelle
  imports Buffer_Codec Circbuffer Queue Packet_Wire Handshake Svr_Auth_Limits Svr_Reach Loop_Props Chansess_Props Channel_Flow Forward_Props Svr_Main_Props
begin

text \<open>
  \<^bold>\<open>A verification of the SSH server of iKofi.\<close> The application runs a patched Dropbear in a process of its own; the
  C code is under \<^verbatim>\<open>src/app/src/main/cpp\<close>, the server in \<^verbatim>\<open>dropbear/src\<close> and the bridge to the application in
  \<^verbatim>\<open>jni-dropbear.c\<close>. This development translates the server's own logic into functions of HOL and proves what
  makes it correct: from the packet buffer up to the states a whole connection can reach. File names below are
  relative to \<^verbatim>\<open>dropbear/src\<close>.

  \<^bold>\<open>The program.\<close> A process that listens accepts connections (\<^verbatim>\<open>svr-main.c\<close>, with the options of
  \<^verbatim>\<open>svr-runopts.c\<close>) and starts a process of its own for each. Bytes from the socket become packets (\<^verbatim>\<open>packet.c\<close>), which
  \<^verbatim>\<open>process-packet.c\<close> hands to a handler if the state of key exchange and authentication allows it. The key exchange
  (\<^verbatim>\<open>common-kex.c\<close>, \<^verbatim>\<open>svr-kex.c\<close>) replaces the keys of the packet layer; authentication (\<^verbatim>\<open>svr-auth*.c\<close>) asks the
  bridge for passwords and reads authorized keys with their options. A client that is logged in opens channels
  (\<^verbatim>\<open>common-channel.c\<close>) for sessions (\<^verbatim>\<open>svr-chansession.c\<close>) and forwarded connections (\<^verbatim>\<open>listener.c\<close>,
  \<^verbatim>\<open>tcp-accept.c\<close>, \<^verbatim>\<open>svr-tcpfwd.c\<close>, \<^verbatim>\<open>svr-streamfwd.c\<close>, \<^verbatim>\<open>svr-forward.c\<close>). The loop of \<^verbatim>\<open>common-session.c\<close> waits
  for descriptors and timeouts and calls the rest.

  \<^bold>\<open>How it is modelled.\<close> A structure is a record, and global variables are fields of a record that is passed on:
  \<open>sshsession\<close> for \<^verbatim>\<open>struct sshsession\<close>, and \<open>conn\<close> for the connection around it with its channels, options, children
  and listeners. Unsigned integers are 32-bit words and wrap around. A function that can end the process returns a
  sum: \<open>Inr\<close> a result, or \<open>Inl\<close> the way it ended, which is \<open>Dropbear_exit\<close> or \<open>Dropbear_close\<close> with the message of the
  source, \<open>Exit\<close> with the status of a plain \<^verbatim>\<open>exit\<close>, \<open>Assert_fail\<close> for a failed \<^verbatim>\<open>dropbear_assert\<close>, \<open>Fault\<close> for an
  access outside an object or through a null pointer, and \<open>Diverge\<close> when the fuel, or the results of system calls a loop
  waits for, run out. Memory is a list of bytes with its size, so that every access is
  checked. What is released is not followed, except where releasing reads through a null pointer. System calls are functions in the connection from the number of calls made so far to a result, or
  arguments; calls with an effect outside are kept in a trace of events. Cryptographic primitives, zlib and the base64
  decoder are parameters, with the laws a theorem needs as its hypotheses. The configuration is that of \<^verbatim>\<open>localoptions.h\<close> and
  the defaults: a server without client, with zlib, public keys and forwarding, without agent or X11 forwarding,
  PAM, plugins and multiple users.

  \<^bold>\<open>The theories\<close>, from the bottom up:
  \<^item> \<open>Prelude\<close> (exits, sequencing, the predicates \<open>res_ok\<close> and \<open>res_post\<close> with their rules, words), \<open>Interfaces\<close> (the
    contracts of byte sinks, FIFOs and queues as locales).
  \<^item> \<open>Buffer\<close>, \<open>Buffer_Codec\<close>: \<^verbatim>\<open>buffer.c\<close>. No sequence of operations accesses memory outside a buffer, and the
    encoding of messages is read back as it was written. \<open>Circbuffer\<close>: \<^verbatim>\<open>circbuffer.c\<close> refines a FIFO. \<open>Queue\<close>:
    \<^verbatim>\<open>queue.c\<close> over an explicit store refines a list.
  \<^item> \<open>Session\<close>, \<open>Packet\<close>, \<open>Packet_Safety\<close>, \<open>Aead\<close>, \<open>Packet_Wire\<close>: \<^verbatim>\<open>session.h\<close>, \<^verbatim>\<open>packet.c\<close>, the queue helpers of
    \<^verbatim>\<open>netio.c\<close>, and the AEAD modes of \<^verbatim>\<open>chachapoly.c\<close> and \<^verbatim>\<open>gcm.c\<close> over the primitives of LibTomCrypt. Receiving is memory safe for any input and any behaviour of the ciphers within their documented
    lengths; what is sent is received unchanged by a peer with the same keys, in both AEAD modes as well; padding, queueing and the packets held
    back during a key exchange.
  \<^item> \<open>Algo\<close>, \<open>Connection\<close>, \<open>Process_Packet\<close>, \<open>Kex\<close>, \<open>Kex_Props\<close>, \<open>Svr_Kex\<close>, \<open>Kex_Hash\<close>, \<open>Handshake\<close>: \<^verbatim>\<open>common-algo.c\<close>,
    \<^verbatim>\<open>process-packet.c\<close>, \<^verbatim>\<open>common-kex.c\<close>, \<^verbatim>\<open>svr-kex.c\<close>, \<^verbatim>\<open>kex-*.c\<close>. Negotiation, key derivation, the transcript, the
    switch of keys, the isolation of unauthenticated clients, and the only packets a strict key exchange admits.
  \<^item> \<open>Ikofi\<close>, \<open>Pubkey_Options\<close>, \<open>Svr_Auth\<close>, \<open>Svr_Auth_Props\<close>, \<open>Svr_Auth_Limits\<close>: \<^verbatim>\<open>jni-dropbear.c\<close>,
    \<^verbatim>\<open>svr-authpubkeyoptions.c\<close>, \<^verbatim>\<open>svr-auth.c\<close>, \<^verbatim>\<open>svr-authpasswd.c\<close>, \<^verbatim>\<open>svr-authpubkey.c\<close>, \<^verbatim>\<open>svr-service.c\<close>. The only reasons
    for a login, the bound on guesses over any run of requests, the reading of authorized keys and their options,
    single-use passwords and the redirection of executables.
  \<^item> \<open>Channel\<close>, \<open>Channel_Data\<close>, \<open>Channel_Props\<close>, \<open>Channel_Inv\<close>, \<open>Channel_Flow\<close>: \<^verbatim>\<open>common-channel.c\<close>. \<open>Channel_Data\<close> has
    the accounting of the receive window, under which the assertions of \<^verbatim>\<open>writechannel\<close> hold; \<open>Channel_Props\<close> the
    invariant of the table and the locale \<open>chan_handlers\<close>, the contract of the functions a \<^verbatim>\<open>struct ChanType\<close> points
    to; \<open>Channel_Inv\<close> extends it to invariants of the types' own data; \<open>Channel_Flow\<close> the conservation of
    data in both directions.
  \<^item> \<open>Chansess\<close>, \<open>Chansess_Props\<close>: \<^verbatim>\<open>svr-chansession.c\<close>, \<^verbatim>\<open>common-chansession.c\<close>, \<^verbatim>\<open>termcodes.c\<close>. A forced command cannot be
    escaped. \<open>Forward\<close>, \<open>Forward_Props\<close>: the files of forwarding. \<open>Svr_Channels\<close> and \<open>Svr_Inv\<close> interpret the two
    contracts on the server's channel types.
  \<^item> \<open>Session_Loop\<close>, \<open>Loop_Props\<close>, \<open>Svr_Reach\<close>: \<^verbatim>\<open>common-session.c\<close>, \<^verbatim>\<open>svr-session.c\<close>. The table of handlers, the start of a
    connection and one iteration of the loop, composed of all of the above; timeouts take effect; and by rule
    induction over the states that are reachable from the start through any packets, events, ended children and
    connections, the tables of channels, children and listeners are always well-formed.
  \<^item> \<open>Svr_Runopts\<close>, \<open>Svr_Runopts_Props\<close>: \<^verbatim>\<open>svr-runopts.c\<close> and the rest of \<^verbatim>\<open>common-runopts.c\<close>. The command line, whose
    options are in bounds whatever the words are, and the host keys, which decide the algorithms that are offered.
    \<open>Svr_Main\<close>, \<open>Svr_Main_Props\<close>: \<^verbatim>\<open>svr-main.c\<close>. The states of the listening process by rule induction: the limits on clients
    that are not logged in and the accounting of descriptors; a child that executes the program again serves the
    connection with the same options.

  \<^bold>\<open>Fuel and bounds.\<close> Loops are structural or have a termination proof, with three exceptions. The search for a random
  number below the group order takes fuel, since it ends only with probability one; its theorems hold for any fuel
  with which it returns. The terminal modes of a request take as fuel one more than the length of the payload, of
  which every round takes a byte. Reading an identification and an iteration of the main loop take the
  results of the system calls as lists; the loops themselves, of a connection and of the listening process, are
  reachability relations. Limits of the source are kept:
  channels (1000), listeners, buffer sizes, packet sizes, the receive window up to the largest circular buffer.

  \<^bold>\<open>What is not modelled.\<close> Signal handlers, logging, and the JNI functions that start and stop the process, which are
  sequences of system calls; pending connections of \<^verbatim>\<open>netio.c\<close>, whose outcomes are an input of the loop; terminals and
  login records (\<^verbatim>\<open>sshpty.c\<close>, \<^verbatim>\<open>loginrec.c\<close>); the formats of host keys and signatures, the primitives of ciphers and
  hashes, and the vendored \<^verbatim>\<open>libtomcrypt\<close> and \<^verbatim>\<open>libtommath\<close>, which are parameters; the client, which is
  not built; and the third-party programs that the application only starts (\<^verbatim>\<open>openssh\<close>, \<^verbatim>\<open>rsync\<close>, \<^verbatim>\<open>scp.c\<close>).
  Timing, and whether memory is cleared, are outside the model. Addresses of links of the packet queue are not reused
  after they are freed.
\<close>

end
